(* ===== verification/Prelude.thy ===== *)
theory Prelude
  imports Complex_Main "HOL-Library.List_Lexorder" "HOL-Library.Char_ord" "HOL-Library.Sublist"
begin

text \<open>
  Shared material of the development: the named collections of rewrite rules, the Go
  string helpers the components use (strings are byte lists, so \<open>length\<close> is Go's
  \<open>len\<close> and the lexicographic order of \<open>List_Lexorder\<close> over \<open>Char_ord\<close> is the byte order
  of \<open>sort.Strings\<close>), the decimal rendering of \<open>strconv.Itoa\<close>, and maps from strings.
\<close>

named_theorems event_defs \<open>what the reaction to an event unfolds to\<close>
named_theorems prim_defs \<open>the primitive updates of a state, field by field\<close>

type_synonym 'v smap = "string \<Rightarrow> 'v option"

lemma find_SomeD: "find P xs = Some x \<Longrightarrow> x \<in> set xs \<and> P x"
  by (induction xs) (auto split: if_splits)

lemma find_keyed: "distinct (map f ms) \<Longrightarrow> find (\<lambda>m. f m = k) ms = Some m \<longleftrightarrow> m \<in> set ms \<and> f m = k"
  by (induction ms) (auto simp: image_iff)

lemma find_sorted:
  assumes "distinct (map f ms)"
  shows "find (\<lambda>m. f m = k) (sort_key g ms) = find (\<lambda>m. f m = k) ms"
proof -
  have "distinct (map f (sort_key g ms))" using assms by (simp add: distinct_map)
  then have "find (\<lambda>m. f m = k) (sort_key g ms) = Some m \<longleftrightarrow> find (\<lambda>m. f m = k) ms = Some m" for m
    using assms by (simp add: find_keyed)
  then show ?thesis by (metis not_Some_eq)
qed

lemma map_of_rev: "distinct (map fst xs) \<Longrightarrow> map_of (rev xs) = map_of xs"
  by (simp add: map_of_inject_set rev_map[symmetric])

section \<open>Strings\<close>

text \<open>\<open>strings.HasPrefix\<close>, \<open>strings.HasSuffix\<close>, \<open>strings.Contains\<close>, \<open>strings.IndexByte\<close>.\<close>

definition has_prefix :: "string \<Rightarrow> string \<Rightarrow> bool" where
  "has_prefix s p = (take (length p) s = p)"

definition has_suffix :: "string \<Rightarrow> string \<Rightarrow> bool" where
  "has_suffix s p = (length p \<le> length s \<and> drop (length s - length p) s = p)"

fun str_contains :: "string \<Rightarrow> string \<Rightarrow> bool" where
  "str_contains [] p = (p = [])"
| "str_contains (c # s) p = (has_prefix (c # s) p \<or> str_contains s p)"

fun index_byte :: "string \<Rightarrow> char \<Rightarrow> nat option" where
  "index_byte [] c = None"
| "index_byte (x # s) c = (if x = c then Some 0 else map_option Suc (index_byte s c))"

text \<open>The text before the first separator and the text after it, if there is one.\<close>

fun cut_at :: "char \<Rightarrow> string \<Rightarrow> (string \<times> string) option" where
  "cut_at c [] = None"
| "cut_at c (x # s) =
     (if x = c then Some ([], s)
      else map_option (\<lambda>(key, rest). (x # key, rest)) (cut_at c s))"

lemma cut_at_None_iff: "cut_at c s = None \<longleftrightarrow> c \<notin> set s"
  by (induction s) auto

lemma cut_at_Some_iff: "cut_at c s = Some (k, r) \<longleftrightarrow> c \<notin> set k \<and> s = k @ c # r"
proof (induction s arbitrary: k)
  case Nil
  then show ?case by simp
next
  case (Cons x s)
  show ?case
  proof (cases k)
    case Nil
    then show ?thesis by auto
  next
    case (Cons y ys)
    then show ?thesis using Cons.IH[of ys] by auto
  qed
qed

lemma cut_at_append: "c \<notin> set k \<Longrightarrow> cut_at c (k @ c # r) = Some (k, r)"
  by (simp add: cut_at_Some_iff)

lemma cut_at_length: "cut_at c s = Some (k, r) \<Longrightarrow> length r < length s"
  by (auto simp: cut_at_Some_iff)

text \<open>\<open>strings.Split\<close> on a one-byte separator: always at least one piece.\<close>

fun split_on :: "char \<Rightarrow> string \<Rightarrow> string list" where
  "split_on c [] = [[]]"
| "split_on c (x # s) =
     (if x = c then [] # split_on c s
      else case split_on c s of [] \<Rightarrow> [[x]] | p # ps \<Rightarrow> (x # p) # ps)"

fun join_with :: "string \<Rightarrow> string list \<Rightarrow> string" where
  "join_with sep [] = []"
| "join_with sep [s] = s"
| "join_with sep (s # t # ss) = s @ sep @ join_with sep (t # ss)"

lemma split_on_nonempty [simp]: "split_on c s \<noteq> []"
  by (induction s) (auto split: list.split)

lemma split_on_no_sep: "c \<notin> set s \<Longrightarrow> split_on c s = [s]"
  by (induction s) auto

lemma split_on_append_sep: "c \<notin> set s \<Longrightarrow> split_on c (s @ c # t) = s # split_on c t"
  by (induction s) auto

lemma split_join:
  "ps \<noteq> [] \<Longrightarrow> \<forall>p \<in> set ps. c \<notin> set p \<Longrightarrow> split_on c (join_with [c] ps) = ps"
  by (induction "[c]" ps rule: join_with.induct) (auto simp: split_on_no_sep split_on_append_sep)

lemma join_split: "join_with [c] (split_on c s) = s"
proof (induction s)
  case Nil
  then show ?case by simp
next
  case (Cons x s)
  obtain p ps where "split_on c s = p # ps"
    by (cases "split_on c s") auto
  with Cons show ?case by (cases ps) auto
qed

lemma split_on_pieces: "p \<in> set (split_on c s) \<Longrightarrow> c \<notin> set p"
proof (induction s arbitrary: p)
  case Nil
  then show ?case by simp
next
  case (Cons x s)
  obtain q qs where "split_on c s = q # qs"
    by (cases "split_on c s") auto
  with Cons show ?case by (auto split: if_splits)
qed

section \<open>Decimal numbers\<close>

text \<open>\<open>strconv.Itoa\<close> for a non-negative number, and zero padding to a width.\<close>

definition digit_char :: "nat \<Rightarrow> char" where
  "digit_char d = char_of (48 + d)"

fun itoa :: "nat \<Rightarrow> string" where
  "itoa n = (if n < 10 then [digit_char n] else itoa (n div 10) @ [digit_char (n mod 10)])"

declare itoa.simps [simp del]

definition zero_pad :: "nat \<Rightarrow> string \<Rightarrow> string" where
  "zero_pad w s = replicate (w - length s) (CHR ''0'') @ s"

definition digit_val :: "char \<Rightarrow> nat" where
  "digit_val c = of_char c - 48"

definition decimal_value :: "string \<Rightarrow> nat" where
  "decimal_value s = foldl (\<lambda>a c. 10 * a + digit_val c) 0 s"

lemma digit_val_digit_char: "d < 10 \<Longrightarrow> digit_val (digit_char d) = d"
  by (simp add: digit_val_def digit_char_def)

lemma decimal_value_snoc: "decimal_value (s @ [c]) = 10 * decimal_value s + digit_val c"
  by (simp add: decimal_value_def)

lemma decimal_value_itoa: "decimal_value (itoa n) = n"
proof (induction n rule: itoa.induct)
  case (1 n)
  show ?case
  proof (cases "n < 10")
    case True
    then show ?thesis
      by (simp add: itoa.simps[of n] decimal_value_def digit_val_digit_char)
  next
    case False
    with 1 have "decimal_value (itoa (n div 10)) = n div 10" by simp
    with False show ?thesis
      by (simp add: itoa.simps[of n] decimal_value_snoc digit_val_digit_char)
  qed
qed

lemma itoa_inj: "itoa m = itoa n \<Longrightarrow> m = n"
  by (metis decimal_value_itoa)

lemma itoa_nonempty [simp]: "itoa n \<noteq> []"
  by (subst itoa.simps) simp

lemma itoa_digits: "set (itoa n) \<subseteq> digit_char ` {..<10}"
proof (induction n rule: itoa.induct)
  case (1 n)
  show ?case
  proof (cases "n < 10")
    case False
    with 1 have "set (itoa (n div 10)) \<subseteq> digit_char ` {..<10}" by blast
    with False show ?thesis by (simp add: itoa.simps[of n])
  qed (simp add: itoa.simps[of n])
qed

lemma digit_char_neq: "d < 10 \<Longrightarrow> of_char c < (48::nat) \<or> of_char c > (57::nat) \<Longrightarrow> digit_char d \<noteq> c"
  by (auto simp: digit_char_def)

lemma decimal_value_zeros: "decimal_value (replicate k (CHR ''0'') @ s) = decimal_value s"
  by (induction k) (simp_all add: decimal_value_def digit_val_def)

lemma decimal_value_zero_pad: "decimal_value (zero_pad w (itoa n)) = n"
  by (simp add: zero_pad_def decimal_value_zeros decimal_value_itoa)

lemma zero_pad_itoa_inj: "zero_pad w (itoa m) = zero_pad w (itoa n) \<Longrightarrow> m = n"
  by (metis decimal_value_zero_pad)

lemma length_itoa_bound: "n < 10 ^ w \<Longrightarrow> 0 < w \<Longrightarrow> length (itoa n) \<le> w"
proof (induction n arbitrary: w rule: itoa.induct)
  case (1 n)
  show ?case
  proof (cases "n < 10")
    case True
    with 1 show ?thesis by (simp add: itoa.simps[of n])
  next
    case False
    have "w \<noteq> 1"
      using "1.prems" False by auto
    with "1.prems" obtain v where w: "w = Suc v" "0 < v"
      by (cases w) auto
    with "1.prems" have "n div 10 < 10 ^ v"
      by (simp add: less_mult_imp_div_less)
    with "1.IH" False w have "length (itoa (n div 10)) \<le> v" by blast
    with False w show ?thesis by (simp add: itoa.simps[of n])
  qed
qed

lemma length_zero_pad_itoa: "n < 10 ^ w \<Longrightarrow> 0 < w \<Longrightarrow> length (zero_pad w (itoa n)) = w"
  using length_itoa_bound[of n w] by (simp add: zero_pad_def)

text \<open>An integer as \<open>%d\<close> and \<open>%v\<close> print it; \<open>strconv.Atoi\<close> on a 64-bit platform and \<open>strconv.ParseInt\<close> with base 10 and 64 bits.\<close>

definition int_text :: "int \<Rightarrow> string" where
  "int_text v = (if v < 0 then ''-'' else []) @ itoa (nat \<bar>v\<bar>)"

definition Atoi :: "string \<Rightarrow> int option" where
  "Atoi s =
     (let neg = (s \<noteq> [] \<and> hd s = CHR ''-'');
          digits = (if s \<noteq> [] \<and> (hd s = CHR ''-'' \<or> hd s = CHR ''+'') then tl s else s);
          n = int (decimal_value digits); v = (if neg then - n else n)
      in if digits = [] \<or> \<not> list_all (\<lambda>c. c \<in> set ''0123456789'') digits then None
         else if v < - (2 ^ 63) \<or> v > 2 ^ 63 - 1 then None else Some v)"

lemma digit_char_decimal: "d < 10 \<Longrightarrow> digit_char d \<in> set ''0123456789''"
proof -
  have "list_all (\<lambda>d. digit_char d \<in> set ''0123456789'') [0..<10]" by code_simp
  then show "d < 10 \<Longrightarrow> digit_char d \<in> set ''0123456789''" by (simp only: list_all_iff set_upt) auto
qed

lemma itoa_decimal: "list_all (\<lambda>c. c \<in> set ''0123456789'') (itoa n)"
  unfolding list_all_iff using itoa_digits[of n] digit_char_decimal by blast

lemma itoa_free: "of_char c < (48::nat) \<Longrightarrow> c \<notin> set (itoa n)"
  using itoa_digits[of n] digit_char_neq[of _ c] by (auto dest: subsetD)

lemma itoa_no_sign: "hd (itoa n) \<noteq> CHR ''-''" "hd (itoa n) \<noteq> CHR ''+''"
proof -
  have "CHR ''-'' \<notin> set (itoa n)" "CHR ''+'' \<notin> set (itoa n)" by (rule itoa_free, simp)+
  then show "hd (itoa n) \<noteq> CHR ''-''" "hd (itoa n) \<noteq> CHR ''+''" by (metis hd_in_set itoa_nonempty)+
qed

lemma Atoi_int_text:
  assumes "- (2 ^ 63) \<le> v" "v < 2 ^ 63"
  shows "Atoi (int_text v) = Some v"
proof (cases "v < 0")
  case True
  then show ?thesis using assms itoa_decimal[of "nat (- v)"] by (simp add: Atoi_def int_text_def Let_def decimal_value_itoa del: set_simps)
next
  case False
  then show ?thesis using assms itoa_decimal[of "nat v"]
    by (simp add: Atoi_def int_text_def Let_def decimal_value_itoa itoa_no_sign del: set_simps)
qed

lemma Atoi_int_text_SomeD: "Atoi (int_text v) = Some w \<Longrightarrow> w = v"
proof (cases "v < 0")
  case False
  then show "Atoi (int_text v) = Some w \<Longrightarrow> w = v"
    by (simp add: Atoi_def int_text_def Let_def decimal_value_itoa itoa_no_sign split: if_splits del: set_simps)
qed (simp add: Atoi_def int_text_def Let_def decimal_value_itoa split: if_splits del: set_simps)

lemma int_text_inj:
  assumes "int_text v = int_text w"
  shows "v = w"
proof -
  have hd: "hd (int_text x) = CHR ''-'' \<longleftrightarrow> x < 0" for x by (simp add: int_text_def itoa_no_sign)
  have "v < 0 \<longleftrightarrow> w < 0" using hd[of v] hd[of w] assms by simp
  then show ?thesis using assms by (auto simp: int_text_def dest!: itoa_inj split: if_splits)
qed

lemma int_text_no_nul: "CHR 0x00 \<notin> set (int_text v)"
  using itoa_free[of "CHR 0x00"] by (simp add: int_text_def)

section \<open>Association lists and maps\<close>

text \<open>Maps the code only reads or visits in sorted key order (\<open>slices.Sorted(maps.Keys(m))\<close>)
  are association lists; \<open>sorted_entries\<close> is that visit.\<close>

definition sorted_entries :: "(string \<times> 'v) list \<Rightarrow> (string \<times> 'v) list" where
  "sorted_entries kvs = map (\<lambda>k. (k, the (map_of kvs k))) (sort (remdups (map fst kvs)))"

lemma set_sorted_entries: "(k, v) \<in> set (sorted_entries kvs) \<longleftrightarrow> map_of kvs k = Some v"
proof
  assume "(k, v) \<in> set (sorted_entries kvs)"
  then have "k \<in> fst ` set kvs" and v: "v = the (map_of kvs k)"
    by (auto simp: sorted_entries_def image_iff)
  then show "map_of kvs k = Some v"
    by (metis not_None_eq map_of_eq_None_iff option.sel)
next
  assume a: "map_of kvs k = Some v"
  then have "k \<in> set (map fst kvs)"
    by (metis map_of_eq_None_iff option.distinct(1) set_map)
  with a show "(k, v) \<in> set (sorted_entries kvs)"
    by (auto simp: sorted_entries_def image_iff intro!: bexI[of _ "k"])
qed

lemma distinct_sorted_entries: "distinct (map fst (sorted_entries kvs))"
  by (simp add: sorted_entries_def comp_def)

lemma sorted_entries_cong:
  assumes "map_of xs = map_of ys"
  shows "sorted_entries xs = sorted_entries ys"
proof -
  have "set (map fst xs) = set (map fst ys)"
    using assms by (metis dom_map_of_conv_image_fst set_map)
  then have "sort (remdups (map fst xs)) = sort (remdups (map fst ys))"
    by (metis sorted_list_of_set_sort_remdups)
  with assms show ?thesis by (simp add: sorted_entries_def)
qed

end
