(* ===== verification/Json_Value.thy ===== *)
theory Json_Value
  imports Prelude
begin

text \<open>
  The dynamic values of workflow variables: Go's \<open>any\<close> restricted to what decoded JSON and
  the engine itself put there. \<open>VInt\<close> stands for \<open>int\<close>, \<open>int32\<close> and \<open>int64\<close>, \<open>VFloat\<close> for a
  finite \<open>float64\<close> (a rational), \<open>VList\<close> for \<open>[]any\<close>, \<open>VMaps\<close> for \<open>[]map[string]any\<close> and
  \<open>VMap\<close> for \<open>map[string]any\<close>. Go's maps are unordered, so an object is a function from
  keys; a nil map reads like an empty one and is modelled as such.
\<close>

datatype jval =
    VNull
  | VBool bool
  | VInt int
  | VFloat rat
  | VStr string
  | VList "jval list"
  | VMaps "(string \<Rightarrow> jval option) list"
  | VMap "string \<Rightarrow> jval option"

type_synonym vars = "string \<Rightarrow> jval option"

definition empty_map :: vars where
  "empty_map = (\<lambda>_. None)"

text \<open>Type assertions \<open>v.(map[string]any)\<close>, \<open>v.(string)\<close>, \<open>v.([]any)\<close>.\<close>

fun as_map :: "jval \<Rightarrow> vars option" where
  "as_map (VMap m) = Some m"
| "as_map _ = None"

fun as_str :: "jval \<Rightarrow> string option" where
  "as_str (VStr s) = Some s"
| "as_str _ = None"

fun as_list :: "jval \<Rightarrow> jval list option" where
  "as_list (VList xs) = Some xs"
| "as_list _ = None"

text \<open>\<open>v == nil\<close>.\<close>

fun is_nil :: "jval \<Rightarrow> bool" where
  "is_nil VNull = True"
| "is_nil _ = False"

lemma is_nil_iff: "is_nil v \<longleftrightarrow> v = VNull"
  by (cases v) auto

lemma as_map_Some_iff [simp]: "as_map v = Some m \<longleftrightarrow> v = VMap m"
  by (cases v) auto

lemma as_str_Some_iff [simp]: "as_str v = Some s \<longleftrightarrow> v = VStr s"
  by (cases v) auto

lemma as_list_Some_iff [simp]: "as_list v = Some xs \<longleftrightarrow> v = VList xs"
  by (cases v) auto

text \<open>\<open>v, _ := vars[k].(string)\<close>: the empty string when absent or of another type.\<close>

definition str_var :: "vars \<Rightarrow> string \<Rightarrow> string" where
  "str_var m k = (case m k of Some (VStr s) \<Rightarrow> s | _ \<Rightarrow> [])"

section \<open>Package deepcopy\<close>

text \<open>
  \<open>Value\<close> rebuilds maps and \<open>[]any\<close> slices and returns everything else as it is. Values of
  the model have no addresses, so a copy is equal to its original: \<open>deepcopy_Value_id\<close>
  is the fact the operations below rely on when they store a copy.
\<close>

primrec deepcopy_Value :: "jval \<Rightarrow> jval" where
  "deepcopy_Value VNull = VNull"
| "deepcopy_Value (VBool b) = VBool b"
| "deepcopy_Value (VInt i) = VInt i"
| "deepcopy_Value (VFloat r) = VFloat r"
| "deepcopy_Value (VStr s) = VStr s"
| "deepcopy_Value (VList xs) = VList (map deepcopy_Value xs)"
| "deepcopy_Value (VMaps ms) = VMaps ms"
| "deepcopy_Value (VMap m) = VMap (\<lambda>k. map_option deepcopy_Value (m k))"

definition deepcopy_Map :: "vars \<Rightarrow> vars" where
  "deepcopy_Map m = (\<lambda>k. map_option deepcopy_Value (m k))"

lemma deepcopy_Value_id [simp]: "deepcopy_Value v = v"
proof (induction v)
  case (VList xs)
  then show ?case by (simp add: map_idI)
next
  case (VMap m)
  have "map_option deepcopy_Value (m k) = m k" for k
    by (cases "m k") (auto intro: VMap simp: rangeI[of m k, unfolded] range_eqI)
  then show ?case by simp
qed simp_all

lemma deepcopy_Map_id [simp]: "deepcopy_Map m = m"
  by (simp add: deepcopy_Map_def option.map_ident_strong)

end
