(* ===== verification/Maputil.thy ===== *)
theory Maputil
  imports Json_Value
begin

text \<open>
  Package \<open>shared/maputil\<close>: reading and writing a nested map by a dotted path. The
  recursion on the path string is the code's: the key is the text before the first dot.
  The lemmas give the two lookup laws every client of the package uses (a read at the path
  just written, a read at a path that diverges from it); they are the laws of the locale
  \<open>path_store\<close>, interpreted here on the package's own operations.
\<close>

section \<open>Operations\<close>

text \<open>\<open>GetNestedKey\<close>; \<open>None\<close> is \<open>(nil, false)\<close>.\<close>

function GetNestedKey :: "vars \<Rightarrow> string \<Rightarrow> jval option" where
  "GetNestedKey m dotPath =
     (if dotPath = [] then None
      else case cut_at (CHR ''.'') dotPath of
        Some (key, rest) \<Rightarrow>
          (case m key of
             None \<Rightarrow> None
           | Some sub \<Rightarrow> (case as_map sub of None \<Rightarrow> None | Some subMap \<Rightarrow> GetNestedKey subMap rest))
      | None \<Rightarrow> m dotPath)"
  by pat_completeness auto
termination
  by (relation "measure (\<lambda>(m, p). length p)") (auto dest: cut_at_length)

text \<open>
  \<open>mergeMaps(dst, src)\<close>: each iteration of the loop reads and writes \<open>dst\<close> at its own key
  only, so the loop is the pointwise map; \<open>merge_val v old\<close> is what it stores at a key whose
  old value is \<open>old\<close>.
\<close>

primrec merge_val :: "jval \<Rightarrow> jval option \<Rightarrow> jval" where
  "merge_val VNull old = VNull"
| "merge_val (VBool b) old = VBool b"
| "merge_val (VInt i) old = VInt i"
| "merge_val (VFloat r) old = VFloat r"
| "merge_val (VStr s) old = VStr s"
| "merge_val (VList xs) old = deepcopy_Value (VList xs)"
| "merge_val (VMaps ms) old = VMaps ms"
| "merge_val (VMap src) old =
     (case old of
        Some (VMap dst) \<Rightarrow>
          VMap (\<lambda>k. case map_option merge_val (src k) of
                      None \<Rightarrow> dst k
                    | Some merged \<Rightarrow> Some (merged (dst k)))
      | _ \<Rightarrow> deepcopy_Value (VMap src))"

definition mergeMaps :: "vars \<Rightarrow> vars \<Rightarrow> vars" where
  "mergeMaps dst src =
     (\<lambda>k. case src k of None \<Rightarrow> dst k | Some v \<Rightarrow> Some (merge_val v (dst k)))"

text \<open>\<open>SetNestedKey\<close>: the map after the assignment.\<close>

function SetNestedKey :: "vars \<Rightarrow> string \<Rightarrow> jval \<Rightarrow> vars" where
  "SetNestedKey m dotPath value =
     (if dotPath = [] then m
      else case cut_at (CHR ''.'') dotPath of
        Some (key, rest) \<Rightarrow>
          (let subMap = (case m key of
                           None \<Rightarrow> empty_map
                         | Some sub \<Rightarrow>
                             (case as_map sub of
                                Some existingMap \<Rightarrow> deepcopy_Map existingMap
                              | None \<Rightarrow> empty_map))
           in m(key \<mapsto> VMap (SetNestedKey subMap rest value)))
      | None \<Rightarrow>
          (case (m dotPath, value) of
             (Some (VMap existingMap), VMap incomingMap) \<Rightarrow>
               m(dotPath \<mapsto> VMap (mergeMaps (deepcopy_Map existingMap) incomingMap))
           | _ \<Rightarrow> m(dotPath \<mapsto> deepcopy_Value value)))"
  by pat_completeness auto
termination
  by (relation "measure (\<lambda>(m, p, v). length p)") (auto dest: cut_at_length)

declare GetNestedKey.simps [simp del] SetNestedKey.simps [simp del]

section \<open>Merging\<close>

lemma merge_val_map:
  "merge_val (VMap src) old =
     (case old of Some (VMap dst) \<Rightarrow> VMap (mergeMaps dst src) | _ \<Rightarrow> VMap src)"
proof -
  have "(\<lambda>k. case map_option merge_val (src k) of None \<Rightarrow> dst k | Some f \<Rightarrow> Some (f (dst k)))
        = mergeMaps dst src" for dst
    by (auto simp: mergeMaps_def split: option.split)
  then show ?thesis by (auto split: option.split jval.split)
qed

declare merge_val.simps(8) [simp del]

lemma merge_val_VMap [simp]:
  "merge_val (VMap src) (Some (VMap dst)) = VMap (mergeMaps dst src)"
  "merge_val (VMap src) None = VMap src"
  by (simp_all add: merge_val_map)

lemma merge_val_not_map: "as_map v = None \<Longrightarrow> merge_val v old = v"
  by (cases v) auto

lemma merge_val_into_not_map:
  "(\<And>dst. old \<noteq> Some (VMap dst)) \<Longrightarrow> merge_val v old = v"
  by (cases v; cases old) (auto simp: merge_val_map split: jval.split)

lemma merge_val_None [simp]: "merge_val v None = v"
  by (cases v) auto

lemma mergeMaps_empty [simp]: "mergeMaps dst empty_map = dst" "mergeMaps empty_map src = src"
  by (auto simp: mergeMaps_def empty_map_def split: option.split)

lemma mergeMaps_apply:
  "mergeMaps dst src k = (case src k of None \<Rightarrow> dst k | Some v \<Rightarrow> Some (merge_val v (dst k)))"
  by (simp add: mergeMaps_def)

text \<open>Merging a value into itself changes nothing: a repeated delivery is idempotent.\<close>

lemma merge_val_same: "merge_val v (Some v) = v"
proof (induction v)
  case (VMap m)
  have "mergeMaps m m k = m k" for k
    using VMap.IH[OF rangeI, of _ k] by (cases "m k") (auto simp: mergeMaps_apply)
  then show ?case by (simp add: fun_eq_iff)
qed simp_all

lemma merge_val_idem: "merge_val v (Some (merge_val v old)) = merge_val v old"
proof (induction v arbitrary: old)
  case (VMap m)
  show ?case
  proof (cases "\<exists>dst. old = Some (VMap dst)")
    case True
    then obtain dst where old: "old = Some (VMap dst)" by blast
    have "mergeMaps (mergeMaps dst m) m k = mergeMaps dst m k" for k
      using VMap.IH[OF rangeI, of _ k] by (cases "m k") (auto simp: mergeMaps_apply)
    then show ?thesis by (simp add: old fun_eq_iff)
  next
    case False
    then show ?thesis
      using merge_val_into_not_map[of old "VMap m"] merge_val_same[of "VMap m"] by auto
  qed
qed simp_all

lemma mergeMaps_idem: "mergeMaps (mergeMaps dst src) src = mergeMaps dst src"
  by (rule ext) (simp add: mergeMaps_apply merge_val_idem split: option.split)

section \<open>Paths\<close>

text \<open>The keys a path visits; a path is usable when its last key is not empty.\<close>

definition path_keys :: "string \<Rightarrow> string list" where
  "path_keys p = split_on (CHR ''.'') p"

definition valid_path :: "string \<Rightarrow> bool" where
  "valid_path p = (last (path_keys p) \<noteq> [])"

text \<open>Two paths diverge when neither is a prefix of the other, key by key.\<close>

definition diverges :: "string \<Rightarrow> string \<Rightarrow> bool" where
  "diverges p q = (\<not> prefix (path_keys p) (path_keys q) \<and> \<not> prefix (path_keys q) (path_keys p))"

lemma path_keys_cut:
  "cut_at (CHR ''.'') p = Some (k, r) \<Longrightarrow> path_keys p = k # path_keys r"
  by (auto simp: path_keys_def cut_at_Some_iff split_on_append_sep)

lemma path_keys_leaf: "cut_at (CHR ''.'') p = None \<Longrightarrow> path_keys p = [p]"
  by (simp add: path_keys_def cut_at_None_iff split_on_no_sep)

lemma path_keys_nonempty [simp]: "path_keys p \<noteq> []"
  by (simp add: path_keys_def)

lemma valid_path_nonempty: "valid_path p \<Longrightarrow> p \<noteq> []"
  by (auto simp: valid_path_def path_keys_def)

lemma valid_path_cut:
  "cut_at (CHR ''.'') p = Some (k, r) \<Longrightarrow> valid_path p \<longleftrightarrow> valid_path r"
  by (simp add: valid_path_def path_keys_cut)

text \<open>Reading and writing through the list of keys.\<close>

fun get_keys :: "vars \<Rightarrow> string list \<Rightarrow> jval option" where
  "get_keys m [] = None"
| "get_keys m [k] = (if k = [] then None else m k)"
| "get_keys m (k # l # ks) =
     (case m k of Some (VMap sub) \<Rightarrow> get_keys sub (l # ks) | _ \<Rightarrow> None)"

fun set_keys :: "vars \<Rightarrow> string list \<Rightarrow> jval \<Rightarrow> vars" where
  "set_keys m [] v = m"
| "set_keys m [k] v = (if k = [] then m else m(k \<mapsto> merge_val v (m k)))"
| "set_keys m (k # l # ks) v =
     m(k \<mapsto> VMap (set_keys (case m k of Some (VMap sub) \<Rightarrow> sub | _ \<Rightarrow> empty_map) (l # ks) v))"

lemma GetNestedKey_keys: "GetNestedKey m p = get_keys m (path_keys p)"
proof (induction m p rule: GetNestedKey.induct)
  case (1 m p)
  show ?case
  proof (cases "cut_at (CHR ''.'') p")
    case None
    then show ?thesis
      by (simp add: GetNestedKey.simps[of m p] path_keys_leaf)
  next
    case (Some kr)
    obtain k r where kr: "kr = (k, r)" by (cases kr)
    have p: "p \<noteq> []" using Some by auto
    obtain l ls where r: "path_keys r = l # ls"
      by (cases "path_keys r") auto
    have IH: "GetNestedKey sub r = get_keys sub (l # ls)" if "m k = Some (VMap sub)" for sub
      using 1[OF p Some[unfolded kr] refl that] by (simp add: r)
    have rec: "GetNestedKey m p =
        (case m k of None \<Rightarrow> None
         | Some sub \<Rightarrow> (case as_map sub of None \<Rightarrow> None | Some subMap \<Rightarrow> GetNestedKey subMap r))"
      by (simp add: GetNestedKey.simps[of m p] Some kr p)
    show ?thesis
      unfolding rec using IH
      by (auto simp: path_keys_cut[OF Some[unfolded kr]] r split: option.split jval.split)
  qed
qed

lemma SetNestedKey_leaf:
  "cut_at (CHR ''.'') p = None \<Longrightarrow>
   SetNestedKey m p v = (if p = [] then m else m(p \<mapsto> merge_val v (m p)))"
  using merge_val_into_not_map[of "m p" v] merge_val_not_map[of v "m p"]
  by (auto simp: SetNestedKey.simps[of m p v] split: option.split jval.split)

lemma SetNestedKey_keys: "SetNestedKey m p v = set_keys m (path_keys p) v"
proof (induction m p v rule: SetNestedKey.induct)
  case (1 m p v)
  show ?case
  proof (cases "cut_at (CHR ''.'') p")
    case None
    then show ?thesis by (simp add: SetNestedKey_leaf path_keys_leaf)
  next
    case (Some kr)
    obtain k r where kr: "kr = (k, r)" by (cases kr)
    have p: "p \<noteq> []" using Some by auto
    obtain l ls where r: "path_keys r = l # ls"
      by (cases "path_keys r") auto
    have IH: "SetNestedKey sub r v = set_keys sub (l # ls) v"
      if "sub = (case m k of None \<Rightarrow> empty_map | Some s \<Rightarrow>
              (case as_map s of Some e \<Rightarrow> deepcopy_Map e | None \<Rightarrow> empty_map))" for sub
      using 1[OF p Some[unfolded kr] refl that] by (simp add: r)
    have sub: "(case m k of None \<Rightarrow> empty_map | Some s \<Rightarrow>
              (case as_map s of Some e \<Rightarrow> deepcopy_Map e | None \<Rightarrow> empty_map))
        = (case m k of Some (VMap sub) \<Rightarrow> sub | _ \<Rightarrow> empty_map)"
      by (auto split: option.split jval.split)
    show ?thesis
      using IH[OF refl] sub
      by (simp add: SetNestedKey.simps[of m p v] Some kr p path_keys_cut[OF Some[unfolded kr]] r
          Let_def)
  qed
qed

lemma get_set_keys_same:
  "ks \<noteq> [] \<Longrightarrow> last ks \<noteq> [] \<Longrightarrow>
   get_keys (set_keys m ks v) ks = Some (merge_val v (get_keys m ks))"
proof (induction m ks v rule: set_keys.induct)
  case (3 m k l ks v)
  let ?sub = "case m k of Some (VMap sub) \<Rightarrow> sub | _ \<Rightarrow> empty_map"
  have "get_keys (set_keys ?sub (l # ks) v) (l # ks) = Some (merge_val v (get_keys ?sub (l # ks)))"
    using 3 by simp
  moreover have "get_keys ?sub (l # ks) = get_keys m (k # l # ks)"
    by (cases ks) (auto simp: empty_map_def split: option.split jval.split)
  ultimately show ?case by simp
qed simp_all

lemma get_set_keys_other:
  "\<not> prefix ks qs \<Longrightarrow> \<not> prefix qs ks \<Longrightarrow> get_keys (set_keys m ks v) qs = get_keys m qs"
proof (induction m ks v arbitrary: qs rule: set_keys.induct)
  case (2 m k v)
  then show ?case by (cases "(m, qs)" rule: get_keys.cases) (auto split: option.split)
next
  case (3 m k l ks v)
  let ?sub = "case m k of Some (VMap sub) \<Rightarrow> sub | _ \<Rightarrow> empty_map"
  show ?case
  proof (cases qs)
    case (Cons q qs')
    show ?thesis
    proof (cases "q = k")
      case True
      then obtain r rs where qs': "qs' = r # rs"
        using 3 Cons by (cases qs') auto
      have "get_keys (set_keys ?sub (l # ks) v) (r # rs) = get_keys ?sub (r # rs)"
        using 3 Cons True qs' by simp
      moreover have "get_keys ?sub (r # rs) = get_keys m (k # r # rs)"
        by (cases rs) (auto simp: empty_map_def split: option.split jval.split)
      ultimately show ?thesis using Cons True qs' by simp
    next
      case False
      then show ?thesis using Cons by (cases qs') auto
    qed
  qed simp
qed simp

section \<open>The contract of a path store\<close>

text \<open>
  What the engine relies on when it writes several mapped values one after another: a write
  at an accepted path is read back (combined with the old value as the store combines
  values), and writes at diverging paths do not disturb each other.
\<close>

locale path_store =
  fixes get :: "'m \<Rightarrow> string \<Rightarrow> jval option"
    and set_at :: "'m \<Rightarrow> string \<Rightarrow> jval \<Rightarrow> 'm"
    and combine :: "jval \<Rightarrow> jval option \<Rightarrow> jval"
    and accepts :: "'m \<Rightarrow> string \<Rightarrow> bool"
    and apart :: "string \<Rightarrow> string \<Rightarrow> bool"
  assumes get_set_same: "accepts m p \<Longrightarrow> get (set_at m p v) p = Some (combine v (get m p))"
    and get_set_other: "accepts m p \<Longrightarrow> apart p q \<Longrightarrow> get (set_at m p v) q = get m q"
    and accepts_set: "accepts m p \<Longrightarrow> accepts m q \<Longrightarrow> apart p q \<Longrightarrow> accepts (set_at m p v) q"
    and apart_sym: "apart p q \<Longrightarrow> apart q p"
begin

definition write_all :: "(string \<times> jval) list \<Rightarrow> 'm \<Rightarrow> 'm" where
  "write_all ws m = fold (\<lambda>(p, v) m. set_at m p v) ws m"

lemma write_all_simps [simp]:
  "write_all [] m = m"
  "write_all ((p, v) # ws) m = write_all ws (set_at m p v)"
  by (simp_all add: write_all_def)

lemma write_all_untouched:
  assumes "\<forall>(p, v) \<in> set ws. accepts m p \<and> apart p q"
    and "sorted_wrt (\<lambda>(p, v) (p', v'). apart p p') ws"
  shows "get (write_all ws m) q = get m q"
  using assms
proof (induction ws arbitrary: m)
  case (Cons w ws)
  obtain p v where w: "w = (p, v)" by (cases w)
  have p: "accepts m p" "apart p q" using Cons.prems w by auto
  have "\<forall>(p', v') \<in> set ws. accepts (set_at m p v) p' \<and> apart p' q"
    using Cons.prems w by (auto intro!: accepts_set)
  then have "get (write_all ws (set_at m p v)) q = get (set_at m p v) q"
    using Cons.IH Cons.prems w by auto
  with p w show ?case by (simp add: get_set_other)
qed simp

lemma write_all_read:
  assumes "\<forall>(p, v) \<in> set ws. accepts m p"
    and "sorted_wrt (\<lambda>(p, v) (p', v'). apart p p') ws"
    and "(q, u) \<in> set ws"
  shows "get (write_all ws m) q = Some (combine u (get m q))"
  using assms
proof (induction ws arbitrary: m)
  case (Cons w ws)
  obtain p v where w: "w = (p, v)" by (cases w)
  have p: "accepts m p" using Cons.prems w by auto
  have rest: "\<forall>(p', v') \<in> set ws. accepts (set_at m p v) p'"
    using Cons.prems w by (auto intro!: accepts_set)
  show ?case
  proof (cases "(q, u) = w")
    case True
    have "\<forall>(p', v') \<in> set ws. accepts (set_at m p v) p' \<and> apart p' q"
      using rest Cons.prems w True by (auto intro: apart_sym)
    then have "get (write_all ws (set_at m p v)) q = get (set_at m p v) q"
      using Cons.prems w by (intro write_all_untouched) auto
    with p w True show ?thesis by (simp add: get_set_same)
  next
    case False
    then have q: "(q, u) \<in> set ws" and "apart p q"
      using Cons.prems w by auto
    then have "get (set_at m p v) q = get m q"
      using p get_set_other by blast
    with Cons.IH[OF rest _ q] Cons.prems w show ?thesis by simp
  qed
qed simp

end

lemma valid_path_keys: "valid_path p \<longleftrightarrow> last (path_keys p) \<noteq> []"
  by (simp add: valid_path_def)

interpretation nested: path_store GetNestedKey SetNestedKey merge_val "\<lambda>_. valid_path" diverges
proof unfold_locales
  show "GetNestedKey (SetNestedKey m p v) p = Some (merge_val v (GetNestedKey m p))"
    if "valid_path p" for m p v
    using that by (simp add: GetNestedKey_keys SetNestedKey_keys get_set_keys_same valid_path_keys)
  show "GetNestedKey (SetNestedKey m p v) q = GetNestedKey m q" if "diverges p q" for m p q v
    using that by (simp add: GetNestedKey_keys SetNestedKey_keys get_set_keys_other diverges_def)
qed (auto simp: diverges_def)

end
