(* ===== verification/Workflow_Dsl.thy ===== *)
theory Workflow_Dsl
  imports Maputil
begin

text \<open>
  The data of package \<open>workflow\<close>: the JSON DSL (\<open>dsl.go\<close>), the run-time records
  \<open>NodeInfo\<close> and \<open>WorkflowInstance\<close> (\<open>manager.go\<close>), errors with their park categories
  (\<open>park_category.go\<close>, \<open>admin_recovery.go\<close>) and the mapping-key helpers (\<open>utils.go\<close>).
  String-typed enumerations become datatypes with a constructor for any other string. Time
  stamps are not modelled.
\<close>

section \<open>The DSL\<close>

datatype NodeType =
    NodeTypeStart | NodeTypeEnd | NodeTypeTask | NodeTypeGateway
  | NodeTypeSplitTask | NodeTypeTimer | NodeTypeSignaling | NodeTypeOther string

datatype SignalingType = SignalingTypeEmit | SignalingTypeWait | SignalingTypeOther string

datatype SplitMode = SplitModeSameTemplate | SplitModeDifferentTemplates | SplitModeOther string

datatype FailureMode = FailureModeFailFast | FailureModeCollectAll | FailureModeOther string

datatype GatewayType =
    GatewayTypeExclusiveSplit | GatewayTypeParallelSplit | GatewayTypeExclusiveJoin
  | GatewayTypeParallelJoin | GatewayTypeBatchSplit | GatewayTypeBatchJoin
  | GatewayTypeOther string

record SplitTaskItem =
  sti_TemplateID :: string
  sti_BranchID :: string
  sti_Payload :: "vars option"

record BroadcastMessage =
  bm_SenderBranchID :: string
  bm_SignalName :: string
  bm_Payload :: vars

record SplitTaskConfig =
  st_Mode :: SplitMode
  st_ItemsVariable :: string
  st_ResultsVariable :: string
  st_FailureMode :: FailureMode
  st_IterationKey :: string

record TimerConfig =
  tm_Duration :: string
  tm_CounterKey :: string

record SignalingConfig =
  sg_Type :: SignalingType
  sg_SignalName :: string
  sg_Payload :: vars

record BatchGatewayConfig =
  bg_ItemsVariable :: string
  bg_IDField :: string

record BatchJoinConfig =
  bj_GatewayNodeID :: string
  bj_ItemsVariable :: string
  bj_IDField :: string

record ParallelJoinConfig =
  pj_GatewayNodeID :: string
  pj_MergeByID :: "(string \<times> string) list"

record Node =
  n_ID :: string
  n_Type :: NodeType
  n_GatewayType :: GatewayType
  n_TaskTemplateID :: string
  n_InputMapping :: "(string \<times> string) list"
  n_OutputMapping :: "(string \<times> string) list"
  n_SplitTask :: "SplitTaskConfig option"
  n_Timer :: "TimerConfig option"
  n_Signaling :: "SignalingConfig option"
  n_BatchGateway :: "BatchGatewayConfig option"
  n_BatchJoin :: "BatchJoinConfig option"
  n_ParallelJoin :: "ParallelJoinConfig option"

record Edge =
  e_ID :: string
  e_SourceID :: string
  e_TargetID :: string
  e_Condition :: string

record WorkflowDefinition =
  wd_ID :: string
  wd_Name :: string
  wd_Version :: int
  wd_Nodes :: "Node list"
  wd_Edges :: "Edge list"

text \<open>A node with every field but its ID and type at Go's zero value.\<close>

definition plain_node :: "string \<Rightarrow> NodeType \<Rightarrow> Node" where
  "plain_node i t =
     \<lparr>n_ID = i, n_Type = t, n_GatewayType = GatewayTypeOther [], n_TaskTemplateID = [],
      n_InputMapping = [], n_OutputMapping = [], n_SplitTask = None, n_Timer = None,
      n_Signaling = None, n_BatchGateway = None, n_BatchJoin = None, n_ParallelJoin = None\<rparr>"

section \<open>Reserved variable names and defaults\<close>

definition DefaultIterationKey :: string where "DefaultIterationKey = ''_iter''"
definition ChildBroadcastSignalName :: string where
  "ChildBroadcastSignalName = ''child_broadcast_signal''"
definition VarSplitNodeID :: string where "VarSplitNodeID = ''_split_node_id''"
definition VarParentWorkflowID :: string where "VarParentWorkflowID = ''_parent_workflow_id''"
definition VarCaseID :: string where "VarCaseID = ''_case_id''"
definition VarManifestVersion :: string where "VarManifestVersion = ''_manifest_version''"
definition VarBranchID :: string where "VarBranchID = ''_branch_id''"
definition VarScopePath :: string where "VarScopePath = ''_scope_path''"
definition DefaultItemsVariable :: string where "DefaultItemsVariable = ''_items''"
definition DefaultIDField :: string where "DefaultIDField = ''id''"
definition DefaultMaxBatchDepth :: nat where "DefaultMaxBatchDepth = 4"
definition DefaultMaxChildrenPerGateway :: nat where "DefaultMaxChildrenPerGateway = 20"

section \<open>Errors and park categories\<close>

datatype ParkCategory =
    ParkCategoryInputMapping | ParkCategoryOutputMapping | ParkCategoryTaskFailure
  | ParkCategoryGatewayCondition | ParkCategorySplitData | ParkCategoryChildFailure
  | ParkCategoryDefinitionError | ParkCategoryAdminForced | ParkCategoryUnknown

text \<open>
  Go error values. \<open>Errorf\<close> is \<open>fmt.Errorf\<close> without \<open>%w\<close> (a message and its arguments),
  \<open>Wrapf\<close> is \<open>fmt.Errorf\<close> with a trailing \<open>%w\<close>, \<open>CategorizedErr\<close> and \<open>TerminalAdminErr\<close> are the
  two error structs of the package, \<open>ApplicationErr\<close> is Temporal's error with a type name,
  a message and a cause, and \<open>ForeignErr\<close> is any other error of the runtime or the host.
\<close>

datatype wferr =
    Errorf string "string list"
  | Wrapf string "string list" wferr
  | CategorizedErr ParkCategory wferr
  | TerminalAdminErr wferr
  | ApplicationErr string string "wferr option"
  | ForeignErr string

text \<open>The chain \<open>errors.As\<close> walks, outermost first.\<close>

fun err_chain :: "wferr \<Rightarrow> wferr list" where
  "err_chain (Errorf f as) = [Errorf f as]"
| "err_chain (Wrapf f as e) = Wrapf f as e # err_chain e"
| "err_chain (CategorizedErr c e) = CategorizedErr c e # err_chain e"
| "err_chain (TerminalAdminErr e) = TerminalAdminErr e # err_chain e"
| "err_chain (ApplicationErr t m None) = [ApplicationErr t m None]"
| "err_chain (ApplicationErr t m (Some e)) = ApplicationErr t m (Some e) # err_chain e"
| "err_chain (ForeignErr s) = [ForeignErr s]"

fun as_categorized :: "wferr list \<Rightarrow> ParkCategory option" where
  "as_categorized [] = None"
| "as_categorized (CategorizedErr c e # es) = Some c"
| "as_categorized (_ # es) = as_categorized es"

fun as_application :: "wferr list \<Rightarrow> string option" where
  "as_application [] = None"
| "as_application (ApplicationErr t m e # es) = Some t"
| "as_application (_ # es) = as_application es"

fun has_terminal :: "wferr list \<Rightarrow> bool" where
  "has_terminal [] = False"
| "has_terminal (TerminalAdminErr e # es) = True"
| "has_terminal (_ # es) = has_terminal es"

text \<open>An \<open>error\<close> result is \<open>None\<close> for nil.\<close>

definition categorize :: "ParkCategory \<Rightarrow> wferr \<Rightarrow> wferr" where
  "categorize category e =
     (case as_categorized (err_chain e) of
        Some _ \<Rightarrow> e
      | None \<Rightarrow> CategorizedErr category e)"

definition withCategory :: "ParkCategory \<Rightarrow> wferr option \<Rightarrow> wferr option" where
  "withCategory category err =
     (case err of None \<Rightarrow> None | Some e \<Rightarrow> Some (categorize category e))"

definition categoryOf :: "wferr \<Rightarrow> ParkCategory" where
  "categoryOf err =
     (case as_categorized (err_chain err) of Some c \<Rightarrow> c | None \<Rightarrow> ParkCategoryUnknown)"

definition terminalAdminErrorType :: string where
  "terminalAdminErrorType = ''terminalAdminError''"

definition isTerminalAdminError :: "wferr \<Rightarrow> bool" where
  "isTerminalAdminError err =
     (has_terminal (err_chain err) \<or> as_application (err_chain err) = Some terminalAdminErrorType)"

lemma withCategory_nil [simp]: "withCategory c None = None"
  by (simp add: withCategory_def)

lemma withCategory_Errorf [simp]:
  "withCategory c (Some (Errorf f as)) = Some (CategorizedErr c (Errorf f as))"
  by (simp add: withCategory_def categorize_def)

lemma categorize_Errorf [simp]: "categorize c (Errorf f as) = CategorizedErr c (Errorf f as)"
  by (simp add: categorize_def)

lemma categorize_keeps_terminal [simp]:
  "isTerminalAdminError (categorize c e) = isTerminalAdminError e"
  by (auto simp: categorize_def isTerminalAdminError_def split: option.splits)

lemma withCategory_eq_None_iff [simp]: "withCategory c e = None \<longleftrightarrow> e = None"
  by (auto simp: withCategory_def split: option.splits)

lemma withCategory_keeps_terminal:
  "withCategory c (Some e) = Some e' \<Longrightarrow> isTerminalAdminError e' \<longleftrightarrow> isTerminalAdminError e"
  by (auto simp: withCategory_def split: option.splits)

lemma wrap_keeps_terminal [simp]:
  "isTerminalAdminError (Wrapf f as e) = isTerminalAdminError e"
  "isTerminalAdminError (CategorizedErr c e) = isTerminalAdminError e"
  "isTerminalAdminError (TerminalAdminErr e)"
  by (simp_all add: isTerminalAdminError_def)

section \<open>Run-time records\<close>

datatype ExecutionStatus = StatusRunning | StatusCompleted | StatusFailed

datatype NodeStatus =
    NodeStatusNotStarted | NodeStatusRunning | NodeStatusCompleted
  | NodeStatusFailed | NodeStatusAwaitingAdmin

text \<open>\<open>parkedErrorMessage\<close>: the cause, with or without the warning that the Activity already ran.\<close>

datatype LastErrorText = NoError | Cause wferr | CauseActivityRan wferr

definition parkedErrorMessage :: "wferr \<Rightarrow> vars option \<Rightarrow> LastErrorText" where
  "parkedErrorMessage cause cachedTaskResult =
     (if cachedTaskResult \<noteq> None then CauseActivityRan cause else Cause cause)"

record NodeInfo =
  ni_ID :: string
  ni_Type :: NodeType
  ni_GatewayType :: GatewayType
  ni_TaskTemplateID :: string
  ni_Status :: NodeStatus
  ni_ActivationID :: string
  ni_Seq :: nat
  ni_LastError :: LastErrorText
  ni_ParkCategory :: "ParkCategory option"
  ni_InputMapping :: "(string \<times> string) list"
  ni_OutputMapping :: "(string \<times> string) list"
  ni_CachedTaskResult :: "vars option"
  ni_ChildWorkflowIDs :: "string list"

datatype AdminResolutionAction =
  AdminActionRetry | AdminActionComplete | AdminActionAbort | AdminActionOther string

record AdminResolutionSignal =
  ar_NodeID :: string
  ar_ActivationID :: string
  ar_Action :: AdminResolutionAction
  ar_Patch :: "(string \<times> jval) list"
  ar_Reason :: string

text \<open>Entries of the audit trail, one constructor per \<open>Sprintf\<close> that writes one.\<close>

datatype AuditEntry =
    AuditTimer string int int
  | AuditParked string LastErrorText
  | AuditNotifyFailed string wferr
  | AuditResolution string AdminResolutionAction string
  | AuditEmitFailed string wferr
  | AuditBatchSplit string nat nat
  | AuditBatchJoin string string
  | AuditParallelSplit string nat
  | AuditParallelJoin string string

record WorkflowInstance =
  wi_ID :: string
  wi_Status :: ExecutionStatus
  wi_WorkflowVariables :: vars
  wi_AuditTrail :: "AuditEntry list"
  wi_NodeInfo :: "string \<Rightarrow> NodeInfo option"
  wi_Edges :: "Edge list"

section \<open>Mapping keys and split items\<close>

definition parseMappingKey :: "string \<Rightarrow> string \<times> bool" where
  "parseMappingKey rawKey =
     (if has_suffix rawKey ''?'' then (take (length rawKey - 1) rawKey, True) else (rawKey, False))"

definition quoteKeys :: "string list \<Rightarrow> string" where
  "quoteKeys keys = join_with '', '' (map (\<lambda>k. [CHR 0x27] @ k @ [CHR 0x27]) keys)"

definition describeVariables :: "string list \<Rightarrow> string" where
  "describeVariables keys =
     (if length keys > 1 then ''variables'' else ''variable'') @ '' '' @ quoteKeys keys"

text \<open>\<open>ParseSplitTaskItem\<close> on a decoded JSON value (the branches for a value that already is a
  \<open>SplitTaskItem\<close> never apply to one).\<close>

definition ParseSplitTaskItem :: "jval \<Rightarrow> wferr + SplitTaskItem" where
  "ParseSplitTaskItem itemRaw =
     (case as_map itemRaw of
        None \<Rightarrow> Inl (Errorf ''item is not a map[string]any'' [])
      | Some m \<Rightarrow>
          Inr \<lparr>sti_TemplateID = str_var m ''template_id'',
               sti_BranchID = str_var m ''branch_id'',
               sti_Payload = (case m ''payload'' of Some (VMap p) \<Rightarrow> Some p | _ \<Rightarrow> None)\<rparr>)"

lemma parseMappingKey_optional [simp]: "parseMappingKey (k @ ''?'') = (k, True)"
  by (simp add: parseMappingKey_def has_suffix_def)

lemma parseMappingKey_required:
  "last k \<noteq> CHR ''?'' \<Longrightarrow> k \<noteq> [] \<Longrightarrow> parseMappingKey k = (k, False)"
  by (cases k rule: rev_cases) (auto simp: parseMappingKey_def has_suffix_def)

end
