(* ===== verification/Batch_Items.thy ===== *)
theory Batch_Items
  imports Workflow_Dsl "HOL-Library.Multiset"
begin

text \<open>
  The data half of the BATCH_SPLIT gateway (\<open>batch_gateway.go\<close>): reading the item slice,
  checking item IDs, partitioning items over the outgoing edges, merging the children's items
  back by ID and collecting the split's output variables. The expression language of edge
  conditions is a third-party package, so its compile-and-run is the parameter \<open>run_expr\<close>; the
  JSON encoding used to compare output values is the parameter \<open>marshal\<close> (objects of the
  model are functions, which cannot be enumerated).
\<close>

type_synonym item = vars
type_synonym cond_eval = "string \<Rightarrow> vars \<Rightarrow> wferr + bool"

section \<open>Conditions and items\<close>

definition EvaluateCondition :: "cond_eval \<Rightarrow> string \<Rightarrow> vars \<Rightarrow> wferr + bool" where
  "EvaluateCondition run_expr condition context =
     (if condition = [] then Inr True else run_expr condition context)"

fun to_items :: "jval list \<Rightarrow> nat \<Rightarrow> wferr + item list" where
  "to_items [] i = Inr []"
| "to_items (v # vs) i =
     (case as_map v of
        None \<Rightarrow> Inl (Errorf ''item is not a map[string]any'' [itoa i])
      | Some m \<Rightarrow> (case to_items vs (Suc i) of Inl e \<Rightarrow> Inl e | Inr ms \<Rightarrow> Inr (m # ms)))"

definition toItemSlice :: "jval \<Rightarrow> wferr + item list" where
  "toItemSlice raw =
     (case raw of
        VNull \<Rightarrow> Inr []
      | VMaps ms \<Rightarrow> Inr ms
      | VList vs \<Rightarrow> to_items vs 0
      | _ \<Rightarrow> Inl (Errorf ''items variable is not a slice type'' []))"

definition toAnySlice :: "item list \<Rightarrow> jval list" where
  "toAnySlice items = map VMap items"

definition getItemID :: "item \<Rightarrow> string \<Rightarrow> jval" where
  "getItemID item idField = (case item idField of Some v \<Rightarrow> v | None \<Rightarrow> VStr [])"

text \<open>An item ID is usable when it is a non-empty string.\<close>

definition item_id :: "string \<Rightarrow> item \<Rightarrow> wferr + string" where
  "item_id idField item =
     (case getItemID item idField of
        VNull \<Rightarrow> Inl (Errorf ''missing or empty required ID field'' [idField])
      | VStr s \<Rightarrow> (if s = [] then Inl (Errorf ''missing or empty required ID field'' [idField]) else Inr s)
      | _ \<Rightarrow> Inl (Errorf ''item IDs must be strings'' [idField]))"

text \<open>Step 3 of \<open>handleBatchSplitGateway\<close>: the loop over \<open>seenIDs\<close>.\<close>

fun check_item_ids :: "string \<Rightarrow> string list \<Rightarrow> item list \<Rightarrow> wferr option" where
  "check_item_ids idField seenIDs [] = None"
| "check_item_ids idField seenIDs (item # items) =
     (case item_id idField item of
        Inl e \<Rightarrow> withCategory ParkCategorySplitData (Some e)
      | Inr i \<Rightarrow>
          if i \<in> set seenIDs
          then withCategory ParkCategorySplitData (Some (Errorf ''duplicate item ID'' [i]))
          else check_item_ids idField (i # seenIDs) items)"

section \<open>Partitioning\<close>

record batchPartition =
  bp_Edge :: Edge
  bp_Items :: "item list"

text \<open>The inner loop over \<open>outEdges\<close>: the first edge whose condition holds, else the first default
  edge (empty condition or \<open>true\<close>), else none.\<close>

fun select_edge :: "cond_eval \<Rightarrow> vars \<Rightarrow> Edge list \<Rightarrow> Edge option \<Rightarrow> wferr + Edge option" where
  "select_edge run_expr evalScope [] defaultEdge = Inr defaultEdge"
| "select_edge run_expr evalScope (e # es) defaultEdge =
     (if e_Condition e = [] \<or> e_Condition e = ''true''
      then select_edge run_expr evalScope es (if defaultEdge = None then Some e else defaultEdge)
      else case EvaluateCondition run_expr (e_Condition e) evalScope of
             Inl err \<Rightarrow> Inl (Wrapf ''edge condition error'' [e_ID e] err)
           | Inr match \<Rightarrow> if match then Inr (Some e) else select_edge run_expr evalScope es defaultEdge)"

definition item_scope :: "vars \<Rightarrow> item \<Rightarrow> vars" where
  "item_scope workflowVars item = workflowVars(''item'' \<mapsto> VMap item)"

text \<open>\<open>partitionByEdge\<close> together with \<open>partitionOrder\<close>: partitions in first-seen order.\<close>

fun add_item :: "Edge \<Rightarrow> item \<Rightarrow> batchPartition list \<Rightarrow> batchPartition list" where
  "add_item e item [] = [\<lparr>bp_Edge = e, bp_Items = [item]\<rparr>]"
| "add_item e item (p # ps) =
     (if e_ID (bp_Edge p) = e_ID e then p\<lparr>bp_Items := bp_Items p @ [item]\<rparr> # ps
      else p # add_item e item ps)"

fun partition_loop ::
  "cond_eval \<Rightarrow> vars \<Rightarrow> Edge list \<Rightarrow> string \<Rightarrow> item list \<Rightarrow> batchPartition list \<Rightarrow> jval list \<Rightarrow>
   wferr + (batchPartition list \<times> jval list)" where
  "partition_loop run_expr workflowVars outEdges idField [] ps unmatched = Inr (ps, unmatched)"
| "partition_loop run_expr workflowVars outEdges idField (item # items) ps unmatched =
     (case select_edge run_expr (item_scope workflowVars item) outEdges None of
        Inl err \<Rightarrow> Inl err
      | Inr (Some e) \<Rightarrow>
          partition_loop run_expr workflowVars outEdges idField items (add_item e item ps) unmatched
      | Inr None \<Rightarrow>
          partition_loop run_expr workflowVars outEdges idField items ps
            (unmatched @ [getItemID item idField]))"

definition partitionItems ::
  "cond_eval \<Rightarrow> item list \<Rightarrow> Edge list \<Rightarrow> vars \<Rightarrow> string \<Rightarrow> string \<Rightarrow> wferr + batchPartition list" where
  "partitionItems run_expr items outEdges workflowVars nodeID idField =
     (case partition_loop run_expr workflowVars outEdges idField items [] [] of
        Inl err \<Rightarrow> Inl (categorize ParkCategoryGatewayCondition (Wrapf ''BATCH_SPLIT'' [nodeID] err))
      | Inr (ps, unmatched) \<Rightarrow>
          if unmatched \<noteq> []
          then Inl (categorize ParkCategoryGatewayCondition
                 (Errorf ''items unmatched by any edge condition and no default branch'' [nodeID]))
          else if length ps > DefaultMaxChildrenPerGateway
          then Inl (categorize ParkCategoryDefinitionError
                 (Errorf ''partition count exceeds maximum'' [nodeID, itoa (length ps)]))
          else Inr ps)"

section \<open>Merging\<close>

text \<open>One child's items are added to \<open>mergedItems\<close>.\<close>

fun absorb_items ::
  "string \<Rightarrow> item list \<Rightarrow> (string \<times> item) list \<Rightarrow> wferr + (string \<times> item) list" where
  "absorb_items idField [] merged = Inr merged"
| "absorb_items idField (item # items) merged =
     (case item_id idField item of
        Inl e \<Rightarrow> Inl e
      | Inr i \<Rightarrow>
          if map_of merged i \<noteq> None then Inl (Errorf ''duplicate item ID returned'' [i])
          else absorb_items idField items ((i, item) # merged))"

text \<open>The loop over the children, with what \<open>Future.Get\<close> gave for each: an error, a nil instance
  (\<open>Inr None\<close>) or the child's final variables.\<close>

fun collect_children ::
  "string \<Rightarrow> string \<Rightarrow> string \<Rightarrow> (string \<times> (wferr + vars option)) list \<Rightarrow> (string \<times> item) list \<Rightarrow>
   vars list \<Rightarrow> wferr + ((string \<times> item) list \<times> vars list)" where
  "collect_children itemsVar idField nodeID [] merged childVars = Inr (merged, childVars)"
| "collect_children itemsVar idField nodeID ((edgeID, res) # children) merged childVars =
     (case res of
        Inl err \<Rightarrow> Inl (categorize ParkCategoryChildFailure
                          (Wrapf ''child workflow for partition edge failed'' [nodeID, edgeID] err))
      | Inr None \<Rightarrow> Inl (categorize ParkCategoryChildFailure
                          (Errorf ''child workflow for partition edge returned nil output'' [nodeID, edgeID]))
      | Inr (Some out) \<Rightarrow>
          (case GetNestedKey out itemsVar of
             None \<Rightarrow> Inl (categorize ParkCategorySplitData
                            (Errorf ''missing items variable in output'' [nodeID, edgeID, itemsVar]))
           | Some raw \<Rightarrow>
               (case toItemSlice raw of
                  Inl e \<Rightarrow> Inl (categorize ParkCategorySplitData
                                  (Wrapf ''returned invalid items'' [nodeID, edgeID] e))
                | Inr childSlice \<Rightarrow>
                    (case absorb_items idField childSlice merged of
                       Inl e \<Rightarrow> Inl (categorize ParkCategorySplitData e)
                     | Inr merged' \<Rightarrow>
                         collect_children itemsVar idField nodeID children merged' (childVars @ [out])))))"

text \<open>The final loop: each original item is replaced by its merged version.\<close>

fun merge_original ::
  "string \<Rightarrow> string \<Rightarrow> (string \<times> item) list \<Rightarrow> item list \<Rightarrow> wferr + item list" where
  "merge_original idField nodeID merged [] = Inr []"
| "merge_original idField nodeID merged (original # items) =
     (case as_str (getItemID original idField) of
        None \<Rightarrow> Inl (categorize ParkCategorySplitData
                       (Errorf ''original item has a non-string ID field'' [nodeID, idField]))
      | Some i \<Rightarrow>
          (case merge_original idField nodeID merged items of
             Inl e \<Rightarrow> Inl e
           | Inr rest \<Rightarrow> Inr ((case map_of merged i of Some m \<Rightarrow> m | None \<Rightarrow> original) # rest)))"

definition collectAndMergeBatchResults ::
  "(string \<times> (wferr + vars option)) list \<Rightarrow> item list \<Rightarrow> string \<Rightarrow> string \<Rightarrow> string \<Rightarrow>
   wferr + (jval list \<times> vars list)" where
  "collectAndMergeBatchResults children originalItems itemsVar idField nodeID =
     (case collect_children itemsVar idField nodeID children [] [] of
        Inl e \<Rightarrow> Inl e
      | Inr (merged, childVars) \<Rightarrow>
          (case merge_original idField nodeID merged originalItems of
             Inl e \<Rightarrow> Inl e
           | Inr result \<Rightarrow> Inr (map VMap result, childVars)))"

section \<open>Output variables\<close>

text \<open>\<open>add\<close>: values whose encoding was seen already are skipped.\<close>

fun add_values ::
  "(jval \<Rightarrow> wferr + string) \<Rightarrow> jval list \<Rightarrow> jval list \<Rightarrow> string list \<Rightarrow> wferr + (jval list \<times> string list)" where
  "add_values marshal [] values seen = Inr (values, seen)"
| "add_values marshal (v # vs) values seen =
     (case marshal v of
        Inl e \<Rightarrow> Inl e
      | Inr enc \<Rightarrow>
          if enc \<in> set seen then add_values marshal vs values seen
          else add_values marshal vs (values @ [v]) (enc # seen))"

text \<open>What one child contributes at a source path: nothing, the elements of a list, or one value.\<close>

definition contribution :: "string \<Rightarrow> vars \<Rightarrow> jval list" where
  "contribution source child =
     (case GetNestedKey child source of
        None \<Rightarrow> []
      | Some v \<Rightarrow> (case as_list v of Some vs \<Rightarrow> vs | None \<Rightarrow> [v]))"

definition output_values ::
  "(jval \<Rightarrow> wferr + string) \<Rightarrow> string \<Rightarrow> vars list \<Rightarrow> wferr + jval list" where
  "output_values marshal source childVars =
     (case add_values marshal (concat (map (contribution source) childVars)) [] [] of
        Inl e \<Rightarrow> Inl e
      | Inr (values, _) \<Rightarrow> Inr values)"

fun set_outputs ::
  "(jval \<Rightarrow> wferr + string) \<Rightarrow> string \<Rightarrow> vars list \<Rightarrow> (string \<times> string) list \<Rightarrow> vars \<Rightarrow> wferr option \<times> vars" where
  "set_outputs marshal nodeID childVars [] workflowVars = (None, workflowVars)"
| "set_outputs marshal nodeID childVars ((rawSource, destination) # ms) workflowVars =
     (case output_values marshal (fst (parseMappingKey rawSource)) childVars of
        Inl e \<Rightarrow> (withCategory ParkCategoryOutputMapping
                   (Some (Wrapf ''output mapping source'' [nodeID, rawSource] e)), workflowVars)
      | Inr values \<Rightarrow>
          set_outputs marshal nodeID childVars ms (SetNestedKey workflowVars destination (VList values)))"

definition setBatchOutputs ::
  "(jval \<Rightarrow> wferr + string) \<Rightarrow> Node \<Rightarrow> vars list \<Rightarrow> vars \<Rightarrow> wferr option \<times> vars" where
  "setBatchOutputs marshal node childVars workflowVars =
     set_outputs marshal (n_ID node) childVars (sorted_entries (n_OutputMapping node)) workflowVars"

section \<open>Facts about partitions\<close>

text \<open>The edge an item is sent along, when conditions evaluate.\<close>

definition goes_to :: "cond_eval \<Rightarrow> vars \<Rightarrow> Edge list \<Rightarrow> item \<Rightarrow> string option" where
  "goes_to run_expr workflowVars outEdges item =
     (case select_edge run_expr (item_scope workflowVars item) outEdges None of
        Inr (Some e) \<Rightarrow> Some (e_ID e) | _ \<Rightarrow> None)"

definition part_items :: "string \<Rightarrow> batchPartition list \<Rightarrow> item list" where
  "part_items i ps = concat (map bp_Items (filter (\<lambda>p. e_ID (bp_Edge p) = i) ps))"

definition part_ids :: "batchPartition list \<Rightarrow> string list" where
  "part_ids ps = map (\<lambda>p. e_ID (bp_Edge p)) ps"

lemma part_ids_add_item:
  "set (part_ids (add_item e item ps)) = insert (e_ID e) (set (part_ids ps)) \<and>
   (distinct (part_ids ps) \<longrightarrow> distinct (part_ids (add_item e item ps)))"
  by (induction e item ps rule: add_item.induct) (auto simp: part_ids_def)

lemma part_items_simps [simp]:
  "part_items i [] = []"
  "part_items i (p # ps) = (if e_ID (bp_Edge p) = i then bp_Items p else []) @ part_items i ps"
  by (simp_all add: part_items_def)

lemma part_items_absent: "i \<notin> set (part_ids ps) \<Longrightarrow> part_items i ps = []"
  by (induction ps) (auto simp: part_ids_def)

lemma part_items_add_item:
  "distinct (part_ids ps) \<Longrightarrow>
   part_items i (add_item e item ps) = part_items i ps @ (if e_ID e = i then [item] else [])"
proof (induction e item ps rule: add_item.induct)
  case (2 e item p ps)
  then have "part_items (e_ID (bp_Edge p)) ps = []"
    by (intro part_items_absent) (simp add: part_ids_def)
  with 2 show ?case by (auto simp: part_ids_def)
qed simp

lemma part_items_member:
  "distinct (part_ids ps) \<Longrightarrow> p \<in> set ps \<Longrightarrow> part_items (e_ID (bp_Edge p)) ps = bp_Items p"
  by (induction ps) (auto simp: part_ids_def part_items_absent)

lemma mset_add_item:
  "mset (concat (map bp_Items (add_item e item ps))) = add_mset item (mset (concat (map bp_Items ps)))"
  by (induction e item ps rule: add_item.induct) auto

lemma partition_loop_unmatched:
  "partition_loop run_expr wv es f items ps un = Inr (ps', un') \<Longrightarrow> length un \<le> length un'"
  by (induction run_expr wv es f items ps un rule: partition_loop.induct)
    (auto split: sum.splits option.splits)

lemma partition_loop_mset:
  "partition_loop run_expr wv es f items ps un = Inr (ps', []) \<Longrightarrow>
   mset (concat (map bp_Items ps')) = mset (concat (map bp_Items ps)) + mset items"
proof (induction run_expr wv es f items ps un rule: partition_loop.induct)
  case (2 run_expr wv es f item items ps un)
  have stuck: "partition_loop run_expr wv es f its qs (un @ [u]) \<noteq> Inr (ps', [])" for its qs u
    using partition_loop_unmatched[of run_expr wv es f its qs "un @ [u]" ps' "[]"] by auto
  show ?case
    using 2 stuck by (auto simp: mset_add_item split: sum.splits option.splits)
qed simp

lemma add_item_nonempty:
  "\<forall>p \<in> set ps. bp_Items p \<noteq> [] \<Longrightarrow> \<forall>p \<in> set (add_item e item ps). bp_Items p \<noteq> []"
  by (induction e item ps rule: add_item.induct) auto

lemma partition_loop_spec:
  assumes "partition_loop run_expr wv es f items ps un = Inr (ps', [])"
    and "distinct (part_ids ps)" and "\<forall>p \<in> set ps. bp_Items p \<noteq> []"
  shows "un = [] \<and> distinct (part_ids ps') \<and> (\<forall>p \<in> set ps'. bp_Items p \<noteq> []) \<and>
         (\<forall>i. part_items i ps' = part_items i ps @ filter (\<lambda>it. goes_to run_expr wv es it = Some i) items) \<and>
         (\<forall>it \<in> set items. \<exists>i \<in> set (part_ids ps'). goes_to run_expr wv es it = Some i) \<and>
         set (part_ids ps) \<subseteq> set (part_ids ps')"
  using assms
proof (induction run_expr wv es f items ps un rule: partition_loop.induct)
  case (2 run_expr wv es f item items ps un)
  show ?case
  proof (cases "select_edge run_expr (item_scope wv item) es None")
    case (Inl e)
    then show ?thesis using "2.prems" by simp
  next
    case (Inr sel)
    show ?thesis
    proof (cases sel)
      case None
      then have "un @ [getItemID item f] = []"
        using 2 Inr by simp
      then show ?thesis by simp
    next
      case (Some e)
      have go: "goes_to run_expr wv es item = Some (e_ID e)"
        by (simp add: goes_to_def Inr Some)
      show ?thesis
        using "2.IH"(2)[OF Inr Some] "2.prems" Inr Some go
          part_ids_add_item[of e item ps] add_item_nonempty[of ps e item]
        by (auto simp: part_items_add_item)
    qed
  qed
qed simp

lemma partitionItems_Inr:
  "partitionItems run_expr items es wv n f = Inr ps \<Longrightarrow>
   partition_loop run_expr wv es f items [] [] = Inr (ps, []) \<and> length ps \<le> 20"
  by (auto simp: partitionItems_def DefaultMaxChildrenPerGateway_def split: sum.splits prod.splits if_splits)

section \<open>Facts about merging\<close>

text \<open>The merged table: every entry is an item under its own ID, and entries never change.\<close>

definition ids_match :: "string \<Rightarrow> (string \<times> item) list \<Rightarrow> bool" where
  "ids_match f merged = (\<forall>(i, it) \<in> set merged. item_id f it = Inr i)"

lemma absorb_items_Inr:
  assumes "absorb_items f items merged = Inr merged'" and "ids_match f merged"
  shows "ids_match f merged' \<and>
         (\<forall>i it. map_of merged i = Some it \<longrightarrow> map_of merged' i = Some it) \<and>
         (\<forall>it \<in> set items. \<exists>i. item_id f it = Inr i \<and> map_of merged' i = Some it) \<and>
         snd ` set merged' = snd ` set merged \<union> set items"
  using assms
proof (induction f items merged rule: absorb_items.induct)
  case (2 f item items merged)
  then obtain i where i: "item_id f item = Inr i" and free: "map_of merged i = None"
    by (auto split: sum.splits if_splits)
  let ?m = "(i, item) # merged"
  have "ids_match f ?m" using 2 i by (auto simp: ids_match_def)
  then have IH: "ids_match f merged' \<and>
         (\<forall>k it. map_of ?m k = Some it \<longrightarrow> map_of merged' k = Some it) \<and>
         (\<forall>it \<in> set items. \<exists>i. item_id f it = Inr i \<and> map_of merged' i = Some it) \<and>
         snd ` set merged' = snd ` set ?m \<union> set items"
    using 2 i free by auto
  have keep: "map_of merged' k = Some it" if "map_of merged k = Some it" for k it
    using IH that free by (metis map_of_Cons_code(2) option.distinct(1))
  have "map_of merged' i = Some item" using IH by auto
  then show ?case using IH keep i by auto
qed simp

lemma collect_children_Inr:
  assumes "collect_children iv f n children merged cv = Inr (merged', cv')" and "ids_match f merged"
  shows "ids_match f merged' \<and>
         (\<forall>i it. map_of merged i = Some it \<longrightarrow> map_of merged' i = Some it) \<and>
         (\<exists>outs. map snd children = map (\<lambda>out. Inr (Some out)) outs \<and> cv' = cv @ outs \<and>
            (\<forall>out \<in> set outs. \<exists>raw its. GetNestedKey out iv = Some raw \<and> toItemSlice raw = Inr its \<and>
               (\<forall>it \<in> set its. \<exists>i. item_id f it = Inr i \<and> map_of merged' i = Some it)))"
  using assms
proof (induction iv f n children merged cv rule: collect_children.induct)
  case (2 iv f n edgeID res children merged cv)
  then obtain out raw its m1 where
    res: "res = Inr (Some out)" and raw: "GetNestedKey out iv = Some raw" and
    its: "toItemSlice raw = Inr its" and m1: "absorb_items f its merged = Inr m1" and
    rec: "collect_children iv f n children m1 (cv @ [out]) = Inr (merged', cv')"
    by (auto split: sum.splits option.splits)
  note a = absorb_items_Inr[OF m1 "2.prems"(2)]
  then have IH: "ids_match f merged' \<and>
         (\<forall>i it. map_of m1 i = Some it \<longrightarrow> map_of merged' i = Some it) \<and>
         (\<exists>outs. map snd children = map (\<lambda>out. Inr (Some out)) outs \<and> cv' = (cv @ [out]) @ outs \<and>
            (\<forall>out \<in> set outs. \<exists>raw its. GetNestedKey out iv = Some raw \<and> toItemSlice raw = Inr its \<and>
               (\<forall>it \<in> set its. \<exists>i. item_id f it = Inr i \<and> map_of merged' i = Some it)))"
    using "2.IH"[OF res refl raw its m1 rec] by blast
  then obtain outs where os: "map snd children = map (\<lambda>out. Inr (Some out)) outs" "cv' = (cv @ [out]) @ outs"
    "\<forall>out \<in> set outs. \<exists>raw its. GetNestedKey out iv = Some raw \<and> toItemSlice raw = Inr its \<and>
       (\<forall>it \<in> set its. \<exists>i. item_id f it = Inr i \<and> map_of merged' i = Some it)"
    by blast
  have "\<forall>it \<in> set its. \<exists>i. item_id f it = Inr i \<and> map_of merged' i = Some it"
    using a IH by blast
  then have "\<forall>out' \<in> set (out # outs). \<exists>raw its. GetNestedKey out' iv = Some raw \<and> toItemSlice raw = Inr its \<and>
       (\<forall>it \<in> set its. \<exists>i. item_id f it = Inr i \<and> map_of merged' i = Some it)"
    using os(3) raw its by auto
  then show ?case
    using a IH os(1,2) res by (intro conjI exI[of _ "out # outs"]) auto
qed auto

lemma merge_original_Inr:
  "merge_original f n merged items = Inr rs \<Longrightarrow>
   rs = map (\<lambda>it. case as_str (getItemID it f) of
                   Some i \<Rightarrow> (case map_of merged i of Some m \<Rightarrow> m | None \<Rightarrow> it)
                 | None \<Rightarrow> it) items \<and>
   (\<forall>it \<in> set items. \<exists>i. getItemID it f = VStr i)"
  by (induction f n merged items arbitrary: rs rule: merge_original.induct)
    (auto split: option.splits sum.splits)

lemma item_id_str: "getItemID it f = VStr i \<Longrightarrow> item_id f it = Inr j \<Longrightarrow> i = j"
  by (auto simp: item_id_def split: if_splits)

lemma item_id_Inr: "item_id f it = Inr i \<Longrightarrow> getItemID it f = VStr i"
  by (auto simp: item_id_def split: jval.splits if_splits)

text \<open>Items with usable, pairwise different IDs can always be absorbed.\<close>

definition ok_ids :: "string \<Rightarrow> item list \<Rightarrow> bool" where
  "ok_ids f items = ((\<forall>it \<in> set items. \<exists>i. item_id f it = Inr i) \<and> distinct (map (item_id f) items))"

lemma check_item_ids_None:
  "check_item_ids f seen items = None \<Longrightarrow>
   ok_ids f items \<and> (\<forall>it \<in> set items. \<forall>i \<in> set seen. item_id f it \<noteq> Inr i)"
proof (induction f seen items rule: check_item_ids.induct)
  case (2 f seen item items)
  from "2.prems" obtain i where "item_id f item = Inr i" "i \<notin> set seen"
    "check_item_ids f (i # seen) items = None"
    by (auto split: sum.splits if_splits)
  moreover from this have IH: "ok_ids f items \<and> (\<forall>it \<in> set items. \<forall>k \<in> set (i # seen). item_id f it \<noteq> Inr k)"
    using "2.IH" by blast
  ultimately have "Inr i \<notin> item_id f ` set items" by auto
  with \<open>item_id f item = Inr i\<close> \<open>i \<notin> set seen\<close> IH show ?case by (auto simp: ok_ids_def)
qed (simp add: ok_ids_def)

lemma ok_ids_mset: "mset xs = mset ys \<Longrightarrow> ok_ids f xs \<Longrightarrow> ok_ids f ys"
proof -
  assume eq: "mset xs = mset ys" and ok: "ok_ids f xs"
  have "distinct (map (item_id f) ys) = distinct (map (item_id f) xs)"
    by (rule mset_eq_imp_distinct_iff) (simp add: eq)
  then show ?thesis using ok mset_eq_setD[OF eq] by (simp add: ok_ids_def)
qed

lemma absorb_items_ok:
  "ok_ids f items \<Longrightarrow> \<forall>it \<in> set items. \<forall>i. item_id f it = Inr i \<longrightarrow> map_of merged i = None \<Longrightarrow>
   \<exists>m. absorb_items f items merged = Inr m \<and>
       (\<forall>i. map_of m i \<noteq> None \<longrightarrow> map_of merged i \<noteq> None \<or> Inr i \<in> item_id f ` set items)"
proof (induction f items merged rule: absorb_items.induct)
  case (2 f item items merged)
  obtain i where i: "item_id f item = Inr i" using "2.prems"(1) by (auto simp: ok_ids_def)
  have free: "map_of merged i = None" using "2.prems"(2) i by simp
  have "\<exists>m. absorb_items f items ((i, item) # merged) = Inr m \<and>
       (\<forall>k. map_of m k \<noteq> None \<longrightarrow> map_of ((i, item) # merged) k \<noteq> None \<or> Inr k \<in> item_id f ` set items)"
  proof (rule "2.IH"[OF i])
    show "\<not> map_of merged i \<noteq> None" using free by simp
    show "ok_ids f items" using "2.prems"(1) by (simp add: ok_ids_def)
    have "item_id f it \<noteq> Inr i" if "it \<in> set items" for it
      using "2.prems"(1) i that by (auto simp: ok_ids_def image_iff)
    then show "\<forall>it \<in> set items. \<forall>k. item_id f it = Inr k \<longrightarrow> map_of ((i, item) # merged) k = None"
      using "2.prems"(2) by auto
  qed
  then obtain m where m: "absorb_items f items ((i, item) # merged) = Inr m" and
    new: "\<And>k. map_of m k \<noteq> None \<Longrightarrow> map_of ((i, item) # merged) k \<noteq> None \<or> Inr k \<in> item_id f ` set items"
    by blast
  have "map_of merged k \<noteq> None \<or> Inr k \<in> item_id f ` set (item # items)" if "map_of m k \<noteq> None" for k
    using new[OF that] i by (cases "k = i") auto
  moreover have "absorb_items f (item # items) merged = Inr m" using i free m by simp
  ultimately show ?case by blast
qed simp

lemma to_items_map [simp]: "to_items (map VMap ms) i = Inr ms"
  by (induction ms arbitrary: i) auto

lemma collect_children_ok:
  assumes "ok_ids f (concat (map bp_Items ps))"
    and "\<forall>it \<in> set (concat (map bp_Items ps)). \<forall>i. item_id f it = Inr i \<longrightarrow> map_of merged i = None"
    and "\<forall>p \<in> set ps. GetNestedKey (out p) iv = Some (VList (toAnySlice (bp_Items p)))"
  shows "\<exists>m. collect_children iv f n (map (\<lambda>p. (e_ID (bp_Edge p), Inr (Some (out p)))) ps) merged cv =
             Inr (m, cv @ map out ps)"
  using assms
proof (induction ps arbitrary: merged cv)
  case (Cons p ps)
  let ?rest = "concat (map bp_Items ps)"
  have ok: "ok_ids f (bp_Items p)" "ok_ids f ?rest"
    and apart: "item_id f ` set (bp_Items p) \<inter> item_id f ` set ?rest = {}"
    using Cons.prems(1) by (simp_all add: ok_ids_def)
  have "\<forall>it \<in> set (bp_Items p). \<forall>i. item_id f it = Inr i \<longrightarrow> map_of merged i = None"
    using Cons.prems(2) by auto
  from absorb_items_ok[OF ok(1) this] obtain m where m: "absorb_items f (bp_Items p) merged = Inr m"
    and new: "\<And>i. map_of m i \<noteq> None \<Longrightarrow> map_of merged i \<noteq> None \<or> Inr i \<in> item_id f ` set (bp_Items p)"
    by blast
  have free: "\<forall>it \<in> set ?rest. \<forall>i. item_id f it = Inr i \<longrightarrow> map_of m i = None"
  proof (intro ballI allI impI)
    fix it i assume it: "it \<in> set ?rest" "item_id f it = Inr i"
    then have "Inr i \<in> item_id f ` set ?rest" by (metis imageI)
    moreover have "map_of merged i = None" using Cons.prems(2) it by auto
    ultimately show "map_of m i = None" using new[of i] apart by blast
  qed
  from Cons.IH[OF ok(2) free, of "cv @ [out p]"] Cons.prems(3) m show ?case
    by (simp add: toItemSlice_def toAnySlice_def)
qed simp

lemma merge_original_ok:
  "\<forall>it \<in> set items. \<exists>i. item_id f it = Inr i \<Longrightarrow> \<exists>rs. merge_original f n merged items = Inr rs"
  by (induction items) (auto dest!: item_id_Inr)

lemma add_values_Inr:
  assumes "add_values marshal vs vals seen = Inr (vals', seen')"
    and "Inr ` set seen = marshal ` set vals" and "distinct (map marshal vals)"
  shows "distinct (map marshal vals') \<and> set vals' \<subseteq> set vals \<union> set vs \<and>
         (\<forall>v \<in> set vals \<union> set vs. marshal v \<in> marshal ` set vals')"
  using assms
proof (induction marshal vs vals seen rule: add_values.induct)
  case (2 marshal v vs vals seen)
  obtain enc where enc: "marshal v = Inr enc" using "2.prems"(1) by (auto split: sum.splits)
  show ?case
  proof (cases "enc \<in> set seen")
    case True
    then have "marshal v \<in> marshal ` set vals" using "2.prems"(2) enc by (metis imageI)
    moreover have IH: "distinct (map marshal vals') \<and> set vals' \<subseteq> set vals \<union> set vs \<and>
         (\<forall>v \<in> set vals \<union> set vs. marshal v \<in> marshal ` set vals')"
      using "2.IH"(1)[OF enc True] "2.prems" enc True by simp
    ultimately have "marshal v \<in> marshal ` set vals'" by (auto simp: image_iff)
    then show ?thesis using IH by auto
  next
    case False
    then have "marshal v \<notin> marshal ` set vals" using "2.prems"(2) enc by auto
    then have "distinct (map marshal (vals @ [v]))" using "2.prems"(3) by auto
    moreover have "Inr ` set (enc # seen) = marshal ` set (vals @ [v])"
      using "2.prems"(2) enc by auto
    ultimately show ?thesis using 2 enc False by auto
  qed
qed auto

lemma merged_by_id:
  assumes "collectAndMergeBatchResults children originalItems itemsVar idField nodeID = Inr (result, childVars)"
  shows "\<exists>rs. result = map VMap rs \<and> length rs = length originalItems \<and>
         map snd children = map (\<lambda>out. Inr (Some out)) childVars \<and>
         (\<forall>k < length originalItems. getItemID (rs ! k) idField = getItemID (originalItems ! k) idField) \<and>
         (\<forall>out \<in> set childVars. \<exists>raw its. GetNestedKey out itemsVar = Some raw \<and> toItemSlice raw = Inr its \<and>
            (\<forall>it \<in> set its. \<forall>k < length originalItems.
               getItemID (originalItems ! k) idField = getItemID it idField \<longrightarrow> rs ! k = it))"
proof -
  from assms obtain merged rs where
    c: "collect_children itemsVar idField nodeID children [] [] = Inr (merged, childVars)" and
    m: "merge_original idField nodeID merged originalItems = Inr rs" and r: "result = map VMap rs"
    by (auto simp: collectAndMergeBatchResults_def split: sum.splits prod.splits)
  from collect_children_Inr[OF c] obtain outs where
    ids: "ids_match idField merged" and
    outs: "map snd children = map (\<lambda>out. Inr (Some out)) childVars" and
    its: "\<And>out. out \<in> set childVars \<Longrightarrow>
       \<exists>raw its. GetNestedKey out itemsVar = Some raw \<and> toItemSlice raw = Inr its \<and>
         (\<forall>it \<in> set its. \<exists>i. item_id idField it = Inr i \<and> map_of merged i = Some it)"
    by (auto simp: ids_match_def)
  note mo = merge_original_Inr[OF m]
  have len: "length rs = length originalItems" using mo by simp
  have entry: "rs ! k = (case map_of merged i of Some x \<Rightarrow> x | None \<Rightarrow> originalItems ! k)"
    if "k < length originalItems" "getItemID (originalItems ! k) idField = VStr i" for k i
    using that mo by simp
  have same_id: "getItemID (rs ! k) idField = getItemID (originalItems ! k) idField"
    if k: "k < length originalItems" for k
  proof -
    from k mo obtain i where i: "getItemID (originalItems ! k) idField = VStr i"
      by (meson nth_mem)
    show ?thesis
      using entry[OF k i] i ids
      by (auto simp: ids_match_def split: option.splits dest!: map_of_SomeD item_id_Inr)
  qed
  have placed: "rs ! k = it"
    if "item_id idField it = Inr i" "map_of merged i = Some it" "k < length originalItems"
       "getItemID (originalItems ! k) idField = getItemID it idField" for it i k
    using entry[OF that(3), of i] that item_id_Inr[OF that(1)] by simp
  have "\<forall>out \<in> set childVars. \<exists>raw its. GetNestedKey out itemsVar = Some raw \<and> toItemSlice raw = Inr its \<and>
            (\<forall>it \<in> set its. \<forall>k < length originalItems.
               getItemID (originalItems ! k) idField = getItemID it idField \<longrightarrow> rs ! k = it)"
    using its placed by meson
  with r len outs same_id show ?thesis by blast
qed

section \<open>Properties\<close>

text \<open>C7. \<open>partitionItems\<close> neither loses nor duplicates an item: when it succeeds, its at most 20
  partitions belong to distinct edges, are not empty, hold (in the original order) exactly the items
  whose selected edge is theirs, and together are a rearrangement of the input.\<close>

theorem partitionItems_exact:
  assumes "partitionItems run_expr items outEdges workflowVars nodeID idField = Inr ps"
  shows "distinct (part_ids ps) \<and> length ps \<le> 20 \<and>
         (\<forall>p \<in> set ps. bp_Items p \<noteq> [] \<and>
            bp_Items p = filter (\<lambda>it. goes_to run_expr workflowVars outEdges it = Some (e_ID (bp_Edge p))) items) \<and>
         mset (concat (map bp_Items ps)) = mset items"
proof -
  from partitionItems_Inr[OF assms]
  have loop: "partition_loop run_expr workflowVars outEdges idField items [] [] = Inr (ps, [])"
    and len: "length ps \<le> 20" by auto
  have spec: "distinct (part_ids ps)" "\<forall>p \<in> set ps. bp_Items p \<noteq> []"
    "\<And>i. part_items i ps = filter (\<lambda>it. goes_to run_expr workflowVars outEdges it = Some i) items"
    using partition_loop_spec[OF loop] by (auto simp: part_ids_def)
  show ?thesis
    using spec len partition_loop_mset[OF loop] part_items_member[OF spec(1)] by auto
qed

text \<open>\<open>collectAndMergeBatchResults\<close> keeps the item list's length, order and IDs: when it succeeds
  every child has returned, the result has one entry per original item under the same ID, an item
  returned by a child stands at its original's place, and an entry no child returned is the
  original itself.\<close>

theorem collectAndMerge_by_id:
  assumes "collectAndMergeBatchResults children originalItems itemsVar idField nodeID = Inr (result, childVars)"
  shows "\<exists>rs. result = map VMap rs \<and> length rs = length originalItems \<and>
         map snd children = map (\<lambda>out. Inr (Some out)) childVars \<and>
         (\<forall>k < length originalItems. getItemID (rs ! k) idField = getItemID (originalItems ! k) idField) \<and>
         (\<forall>out \<in> set childVars. \<exists>raw its. GetNestedKey out itemsVar = Some raw \<and> toItemSlice raw = Inr its \<and>
            (\<forall>it \<in> set its. \<forall>k < length originalItems.
               getItemID (originalItems ! k) idField = getItemID it idField \<longrightarrow> rs ! k = it))"
  using merged_by_id[OF assms] .

text \<open>C8. Splitting and merging is the identity on items the branches leave alone: if the item IDs pass
  the check of \<open>handleBatchSplitGateway\<close>, the items are partitioned, and every child hands its items
  back as it got them, then the merge gives the original list, in the original order.\<close>

theorem batch_round_trip:
  assumes "check_item_ids idField [] items = None"
    and "partitionItems run_expr items outEdges workflowVars nodeID idField = Inr ps"
    and "\<forall>p \<in> set ps. GetNestedKey (out p) itemsVar = Some (VList (toAnySlice (bp_Items p)))"
  shows "collectAndMergeBatchResults (map (\<lambda>p. (e_ID (bp_Edge p), Inr (Some (out p)))) ps)
           items itemsVar idField nodeID = Inr (toAnySlice items, map out ps)"
proof -
  let ?children = "map (\<lambda>p. (e_ID (bp_Edge p), Inr (Some (out p)))) ps"
  have ok: "ok_ids idField items" using check_item_ids_None[OF assms(1)] by simp
  have perm: "mset (concat (map bp_Items ps)) = mset items"
    using partition_loop_mset partitionItems_Inr[OF assms(2)] by fastforce
  have "ok_ids idField (concat (map bp_Items ps))"
    using ok_ids_mset[OF perm[symmetric] ok] .
  then obtain m where m: "collect_children itemsVar idField nodeID ?children [] [] = Inr (m, map out ps)"
    using collect_children_ok[OF _ _ assms(3), of idField "[]" nodeID "[]"] by auto
  obtain rs where rs: "merge_original idField nodeID m items = Inr rs"
    using merge_original_ok[of items idField nodeID m] ok by (auto simp: ok_ids_def)
  have res: "collectAndMergeBatchResults ?children items itemsVar idField nodeID =
      Inr (map VMap rs, map out ps)"
    by (simp add: collectAndMergeBatchResults_def m rs)
  from merged_by_id[OF res] obtain rs' where rs': "map VMap rs = map VMap rs'" "length rs' = length items"
    and place': "\<forall>out' \<in> set (map out ps). \<exists>raw its. GetNestedKey out' itemsVar = Some raw \<and>
        toItemSlice raw = Inr its \<and> (\<forall>it \<in> set its. \<forall>k < length items.
          getItemID (items ! k) idField = getItemID it idField \<longrightarrow> rs' ! k = it)"
    by blast
  have [simp]: "rs' = rs" using rs'(1) by (metis inj_map_eq_map inj_def jval.inject(7))
  have len: "length rs = length items" using rs'(2) by simp
  have place: "rs ! k = items ! k"
    if "p \<in> set ps" "items ! k \<in> set (bp_Items p)" "k < length items" for p k
  proof -
    from place' that(1) obtain raw its where "GetNestedKey (out p) itemsVar = Some raw"
      "toItemSlice raw = Inr its" and its: "\<forall>it \<in> set its. \<forall>k < length items.
          getItemID (items ! k) idField = getItemID it idField \<longrightarrow> rs ! k = it" by auto
    with assms(3) that(1) have "its = bp_Items p" by (auto simp: toItemSlice_def toAnySlice_def)
    with its that show ?thesis by simp
  qed
  have "rs ! k = items ! k" if k: "k < length items" for k
  proof -
    have "items ! k \<in> set (concat (map bp_Items ps))"
      using k perm by (metis nth_mem set_mset_mset)
    then obtain p where p: "p \<in> set ps" "items ! k \<in> set (bp_Items p)" by auto
    then show ?thesis using place k by simp
  qed
  then have "rs = items" using len by (simp add: list_eq_iff_nth_eq)
  then show ?thesis using res by (simp add: toAnySlice_def)
qed

text \<open>\<open>setBatchOutputs\<close> collects each output destination as a duplicate-free list: the values have
  pairwise different encodings, each is contributed by some partition, and the encoding of every
  contributed value is among them.\<close>

theorem output_values_unique:
  assumes "output_values marshal source childVars = Inr values"
  shows "distinct (map marshal values) \<and>
         set values \<subseteq> (\<Union>c \<in> set childVars. set (contribution source c)) \<and>
         (\<forall>c \<in> set childVars. \<forall>v \<in> set (contribution source c). marshal v \<in> marshal ` set values)"
proof -
  obtain seen where "add_values marshal (concat (map (contribution source) childVars)) [] [] = Inr (values, seen)"
    using assms by (auto simp: output_values_def split: sum.splits prod.splits)
  from add_values_Inr[OF this] show ?thesis by auto
qed

end
