(* ===== verification/Parallel_Merge.thy ===== *)
theory Parallel_Merge
  imports Batch_Items
begin

text \<open>
  The merge half of the PARALLEL_SPLIT gateway (\<open>parallel_gateway.go\<close>): the branches' final
  variables, each a full copy of the variables at the split, are reconciled into one map. The
  lemmas describe the result key by key and path by path, including what happens to a variable
  that only one branch changed.
\<close>

section \<open>Operations\<close>

text \<open>\<open>fmt.Sprintf("%v", v)\<close>: strings, booleans, integers and nil are written out; the rendering of
  floating-point numbers and composite values is the parameter \<open>fmt_other\<close>.\<close>

definition fmt_v :: "(jval \<Rightarrow> string) \<Rightarrow> jval \<Rightarrow> string" where
  "fmt_v fmt_other v =
     (case v of
        VNull \<Rightarrow> ''<nil>''
      | VBool b \<Rightarrow> (if b then ''true'' else ''false'')
      | VInt i \<Rightarrow> (if i < 0 then CHR ''-'' # itoa (nat (- i)) else itoa (nat i))
      | VStr s \<Rightarrow> s
      | _ \<Rightarrow> fmt_other v)"

text \<open>The two variables \<open>merged\<close> and \<open>order\<close> of \<open>mergeItemsByID\<close>: an association list holds both
  the table and the first-seen order.\<close>

fun update_item :: "string \<Rightarrow> item \<Rightarrow> (string \<times> item) list \<Rightarrow> (string \<times> item) list" where
  "update_item i item [] = [(i, deepcopy_Map item)]"
| "update_item i item ((j, existing) # ms) =
     (if i = j then (j, existing ++ (\<lambda>k. map_option deepcopy_Value (item k))) # ms
      else (j, existing) # update_item i item ms)"

text \<open>The loop of \<open>absorb\<close> over the items of one copy.\<close>

fun absorb_loop ::
  "(jval \<Rightarrow> string) \<Rightarrow> string \<Rightarrow> string \<Rightarrow> string \<Rightarrow> nat \<Rightarrow> item list \<Rightarrow> (string \<times> item) list \<Rightarrow>
   wferr + (string \<times> item) list" where
  "absorb_loop fmt_other varPath origin idField i [] merged = Inr merged"
| "absorb_loop fmt_other varPath origin idField i (item # items) merged =
     (let idVal = getItemID item idField;
          idStr = fmt_v fmt_other idVal
      in if is_nil idVal \<or> as_str idVal = Some [] \<or> idStr = [] \<or> idStr = ''<nil>''
         then Inl (categorize ParkCategorySplitData
                (Errorf ''variable has item missing required ID field'' [varPath, origin, itoa i, idField]))
         else absorb_loop fmt_other varPath origin idField (Suc i) items (update_item idStr item merged))"

definition absorb ::
  "(jval \<Rightarrow> string) \<Rightarrow> string \<Rightarrow> string \<Rightarrow> jval option \<Rightarrow> string \<Rightarrow> (string \<times> item) list \<Rightarrow>
   wferr + (string \<times> item) list" where
  "absorb fmt_other varPath idField found origin merged =
     (case found of
        None \<Rightarrow> Inr merged
      | Some raw \<Rightarrow>
          if is_nil raw then Inr merged
          else (case toItemSlice raw of
                  Inl e \<Rightarrow> Inl (categorize ParkCategorySplitData
                                  (Wrapf ''variable is invalid items'' [varPath, origin] e))
                | Inr items \<Rightarrow> absorb_loop fmt_other varPath origin idField 0 items merged))"

fun absorb_branches ::
  "(jval \<Rightarrow> string) \<Rightarrow> string \<Rightarrow> string \<Rightarrow> nat \<Rightarrow> vars list \<Rightarrow> (string \<times> item) list \<Rightarrow>
   wferr + (string \<times> item) list" where
  "absorb_branches fmt_other varPath idField i [] merged = Inr merged"
| "absorb_branches fmt_other varPath idField i (bv # bvs) merged =
     (case absorb fmt_other varPath idField (GetNestedKey bv varPath) (''branch '' @ itoa i) merged of
        Inl e \<Rightarrow> Inl e
      | Inr merged' \<Rightarrow> absorb_branches fmt_other varPath idField (Suc i) bvs merged')"

definition mergeItemsByID ::
  "(jval \<Rightarrow> string) \<Rightarrow> vars \<Rightarrow> vars list \<Rightarrow> string \<Rightarrow> string \<Rightarrow> wferr + jval list" where
  "mergeItemsByID fmt_other base branchVars varPath idField =
     (case absorb fmt_other varPath idField (GetNestedKey base varPath) ''base state'' [] of
        Inl e \<Rightarrow> Inl e
      | Inr merged0 \<Rightarrow>
          (case absorb_branches fmt_other varPath idField 0 branchVars merged0 of
             Inl e \<Rightarrow> Inl e
           | Inr merged \<Rightarrow> Inr (map (\<lambda>(i, item). VMap item) merged)))"

text \<open>\<open>mergeVariablesInto\<close>: as in \<open>mergeMaps\<close>, every iteration touches its own key only;
  \<open>merge_variable v old\<close> is what is stored at a key that holds \<open>old\<close>.\<close>

primrec merge_variable :: "jval \<Rightarrow> jval option \<Rightarrow> jval" where
  "merge_variable VNull old = deepcopy_Value VNull"
| "merge_variable (VBool b) old = deepcopy_Value (VBool b)"
| "merge_variable (VInt i) old = deepcopy_Value (VInt i)"
| "merge_variable (VFloat r) old = deepcopy_Value (VFloat r)"
| "merge_variable (VStr s) old = deepcopy_Value (VStr s)"
| "merge_variable (VList xs) old = deepcopy_Value (VList xs)"
| "merge_variable (VMaps ms) old = deepcopy_Value (VMaps ms)"
| "merge_variable (VMap srcMap) old =
     (case old of
        Some (VMap dstMap) \<Rightarrow>
          VMap (\<lambda>k. case map_option merge_variable (srcMap k) of
                      None \<Rightarrow> dstMap k
                    | Some merged \<Rightarrow> Some (merged (dstMap k)))
      | _ \<Rightarrow> VMap (deepcopy_Map srcMap))"

definition mergeVariablesInto :: "vars \<Rightarrow> vars \<Rightarrow> string list \<Rightarrow> vars" where
  "mergeVariablesInto dst src skipTopKeys =
     (\<lambda>k. if k \<in> set skipTopKeys then dst k
          else case src k of None \<Rightarrow> dst k | Some v \<Rightarrow> Some (merge_variable v (dst k)))"

text \<open>The loop over \<open>mergeByID\<close>; the list is the order in which Go happens to range over the map.\<close>

fun merge_listed ::
  "(jval \<Rightarrow> string) \<Rightarrow> vars list \<Rightarrow> (string \<times> string) list \<Rightarrow> vars \<Rightarrow> wferr + vars" where
  "merge_listed fmt_other branchVars [] result = Inr result"
| "merge_listed fmt_other branchVars ((varPath, idField) # ms) result =
     (case mergeItemsByID fmt_other result branchVars varPath idField of
        Inl e \<Rightarrow> Inl e
      | Inr merged \<Rightarrow>
          merge_listed fmt_other branchVars ms (SetNestedKey result varPath (VList merged)))"

definition mergeParallelBranches ::
  "(jval \<Rightarrow> string) \<Rightarrow> vars \<Rightarrow> vars list \<Rightarrow> (string \<times> string) list \<Rightarrow> wferr + vars" where
  "mergeParallelBranches fmt_other base branchVars mergeByID =
     (case merge_listed fmt_other branchVars mergeByID (deepcopy_Map base) of
        Inl e \<Rightarrow> Inl e
      | Inr result \<Rightarrow>
          Inr (fold (\<lambda>bv dst. mergeVariablesInto dst bv (map fst mergeByID)) branchVars result))"

section \<open>Merging variables\<close>

lemma merge_variable_eq: "merge_variable v old = merge_val v old"
proof (induction v arbitrary: old)
  case (VMap m)
  have eq: "map_option merge_variable (m k) = map_option merge_val (m k)" for k
    using VMap.IH[OF rangeI, of _ k] by (cases "m k") (auto simp: fun_eq_iff)
  show ?case
    by (auto simp: eq merge_val.simps(8) split: option.split jval.split)
qed simp_all

lemma mergeVariablesInto_apply:
  "mergeVariablesInto dst src skip k = (if k \<in> set skip then dst k else mergeMaps dst src k)"
  by (simp add: mergeVariablesInto_def merge_variable_eq mergeMaps_apply split: option.split)

text \<open>A map has nothing at or in the way of a path: every prefix of the path is absent or a map, and
  the path itself is absent.\<close>

fun leaves_free :: "vars \<Rightarrow> string list \<Rightarrow> bool" where
  "leaves_free m [] = True"
| "leaves_free m [k] = (m k = None)"
| "leaves_free m (k # l # ks) =
     (case m k of None \<Rightarrow> True | Some (VMap sub) \<Rightarrow> leaves_free sub (l # ks) | Some _ \<Rightarrow> False)"

lemma get_keys_mergeMaps_src:
  "get_keys src ks = Some v \<Longrightarrow> as_map v = None \<Longrightarrow> get_keys (mergeMaps dst src) ks = Some v"
proof (induction src ks arbitrary: dst rule: get_keys.induct)
  case (2 m k)
  then show ?case by (auto simp: mergeMaps_apply merge_val_not_map split: if_splits)
next
  case (3 m k l ks)
  then obtain sub where sub: "m k = Some (VMap sub)" "get_keys sub (l # ks) = Some v"
    by (auto split: option.splits jval.splits)
  have IH: "get_keys (mergeMaps d sub) (l # ks) = Some v" for d
    using "3.IH"[OF sub(1) refl sub(2) "3.prems"(2)] .
  show ?case
    using sub IH by (auto simp: mergeMaps_apply merge_val_map split: option.splits jval.splits)
qed simp

lemma get_keys_mergeMaps_dst:
  "get_keys dst ks = Some v \<Longrightarrow> leaves_free src ks \<Longrightarrow> get_keys (mergeMaps dst src) ks = Some v"
proof (induction dst ks arbitrary: src rule: get_keys.induct)
  case (2 m k)
  then show ?case by (auto simp: mergeMaps_apply split: if_splits)
next
  case (3 m k l ks)
  then obtain sub where sub: "m k = Some (VMap sub)" "get_keys sub (l # ks) = Some v"
    by (auto split: option.splits jval.splits)
  have IH: "leaves_free s (l # ks) \<Longrightarrow> get_keys (mergeMaps sub s) (l # ks) = Some v" for s
    using "3.IH"[OF sub(1) refl sub(2)] .
  show ?case
    using sub IH "3.prems"(2) by (auto simp: mergeMaps_apply split: option.splits jval.splits)
qed simp

lemma get_keys_cong: "ks \<noteq> [] \<Longrightarrow> m (hd ks) = m' (hd ks) \<Longrightarrow> get_keys m ks = get_keys m' ks"
  by (induction m ks rule: get_keys.induct) auto

lemma get_keys_into:
  assumes "ks \<noteq> []" and "hd ks \<notin> set skip"
  shows "get_keys (mergeVariablesInto dst src skip) ks = get_keys (mergeMaps dst src) ks"
  using assms by (intro get_keys_cong) (simp_all add: mergeVariablesInto_apply)


lemma fold_into_keeps:
  assumes "ks \<noteq> []" and "hd ks \<notin> set skip" and "get_keys r ks = Some v"
    and "\<forall>b \<in> set bs. leaves_free b ks"
  shows "get_keys (fold (\<lambda>b dst. mergeVariablesInto dst b skip) bs r) ks = Some v"
  using assms by (induction bs arbitrary: r) (auto simp: get_keys_into get_keys_mergeMaps_dst)

lemma fold_into_last:
  assumes "ks \<noteq> []" and "hd ks \<notin> set skip" and "get_keys b ks = Some v" "as_map v = None"
    and "\<forall>b \<in> set cs. leaves_free b ks"
  shows "get_keys (fold (\<lambda>b dst. mergeVariablesInto dst b skip) (bs @ b # cs) r) ks = Some v"
  using assms by (simp add: fold_into_keeps get_keys_into get_keys_mergeMaps_src)

section \<open>Variables merged by ID\<close>

text \<open>The variables \<open>ValidateParallelGateways\<close> lets \<open>mergeByID\<close> list, the empty name apart: top-level names.\<close>

definition top_level :: "string \<Rightarrow> bool" where
  "top_level p = (p \<noteq> [] \<and> CHR ''.'' \<notin> set p)"

lemma top_level_cut: "top_level p \<Longrightarrow> cut_at (CHR ''.'') p = None"
  by (simp add: top_level_def cut_at_None_iff)

lemma top_level_get [simp]: "top_level p \<Longrightarrow> GetNestedKey m p = m p"
  by (simp add: GetNestedKey.simps[of m p] top_level_cut) (simp add: top_level_def)

lemma top_level_set [simp]: "top_level p \<Longrightarrow> SetNestedKey m p (VList xs) = m(p \<mapsto> VList xs)"
  by (simp add: SetNestedKey_leaf top_level_cut) (simp add: top_level_def)

lemma mergeItemsByID_cong:
  "top_level p \<Longrightarrow> m p = m' p \<Longrightarrow>
   mergeItemsByID fmt m bvs p f = mergeItemsByID fmt m' bvs p f"
  by (simp add: mergeItemsByID_def)

text \<open>What the loop over \<open>mergeByID\<close> leaves at a listed variable.\<close>

definition listed_value :: "(jval \<Rightarrow> string) \<Rightarrow> vars list \<Rightarrow> vars \<Rightarrow> string \<Rightarrow> string \<Rightarrow> jval" where
  "listed_value fmt bvs r p f =
     (case mergeItemsByID fmt r bvs p f of Inr xs \<Rightarrow> VList xs | Inl e \<Rightarrow> VNull)"

lemma merge_listed_iff:
  assumes "distinct (map fst ms)" and "\<forall>p \<in> fst ` set ms. top_level p"
  shows "merge_listed fmt bvs ms r = Inr x \<longleftrightarrow>
         (\<forall>(p, f) \<in> set ms. \<exists>xs. mergeItemsByID fmt r bvs p f = Inr xs) \<and>
         (\<forall>k. x k = (case map_of ms k of None \<Rightarrow> r k | Some f \<Rightarrow> Some (listed_value fmt bvs r k f)))"
  using assms
proof (induction ms arbitrary: r)
  case Nil
  then show ?case by (auto simp: fun_eq_iff)
next
  case (Cons m ms)
  obtain p f where m: "m = (p, f)" by (cases m)
  have p: "top_level p" "p \<notin> fst ` set ms" using Cons.prems m by auto
  have same: "mergeItemsByID fmt (r(p \<mapsto> y)) bvs q g = mergeItemsByID fmt r bvs q g"
    if "(q, g) \<in> set ms" for q g y
    using that Cons.prems p by (intro mergeItemsByID_cong) force+
  show ?case
  proof (cases "mergeItemsByID fmt r bvs p f")
    case (Inl e)
    then show ?thesis by (simp add: m)
  next
    case (Inr xs)
    let ?r = "r(p \<mapsto> VList xs)"
    have step: "merge_listed fmt bvs (m # ms) r = Inr x \<longleftrightarrow> merge_listed fmt bvs ms ?r = Inr x"
      by (simp add: m Inr p)
    have val: "listed_value fmt bvs ?r k g = listed_value fmt bvs r k g" if "map_of ms k = Some g" for k g
      using same[OF map_of_SomeD[OF that]] by (simp add: listed_value_def)
    have "(x k = (case map_of ms k of None \<Rightarrow> ?r k | Some f \<Rightarrow> Some (listed_value fmt bvs ?r k f))) \<longleftrightarrow>
          (x k = (case map_of (m # ms) k of None \<Rightarrow> r k | Some f \<Rightarrow> Some (listed_value fmt bvs r k f)))" for k
    proof (cases "k = p")
      case True
      have "map_of ms p = None" using p(2) by (simp add: map_of_eq_None_iff)
      with True show ?thesis by (simp add: m listed_value_def Inr)
    next
      case False
      then show ?thesis using val by (simp add: m split: option.split)
    qed
    moreover have "(\<forall>(q, g) \<in> set ms. \<exists>ys. mergeItemsByID fmt ?r bvs q g = Inr ys) \<longleftrightarrow>
        (\<forall>(q, g) \<in> set (m # ms). \<exists>ys. mergeItemsByID fmt r bvs q g = Inr ys)"
      using same Inr m by fastforce
    moreover have "merge_listed fmt bvs ms ?r = Inr x \<longleftrightarrow>
        (\<forall>(q, g) \<in> set ms. \<exists>ys. mergeItemsByID fmt ?r bvs q g = Inr ys) \<and>
        (\<forall>k. x k = (case map_of ms k of None \<Rightarrow> ?r k | Some f \<Rightarrow> Some (listed_value fmt bvs ?r k f)))"
      using Cons.prems by (intro Cons.IH) auto
    ultimately show ?thesis using step by simp
  qed
qed

lemma merge_listed_perm:
  assumes "mset ms = mset ms'" and "distinct (map fst ms)" and "\<forall>p \<in> fst ` set ms. top_level p"
  shows "merge_listed fmt bvs ms r = Inr x \<longleftrightarrow> merge_listed fmt bvs ms' r = Inr x"
proof -
  have set: "set ms' = set ms" using mset_eq_setD[OF assms(1)] by simp
  have "distinct (map fst ms')"
    using assms(2) mset_eq_imp_distinct_iff[of "map fst ms" "map fst ms'"] assms(1) by simp
  moreover have "map_of ms' = map_of ms"
    using map_of_inject_set[of ms' ms] assms(2) calculation set by simp
  ultimately show ?thesis
    using assms(2,3) set by (simp add: merge_listed_iff)
qed


section \<open>The items of all copies\<close>

text \<open>Specification of \<open>mergeItemsByID\<close>: the copies of an item are all items with its ID, base state
  first and then the branches in order; the result has one item per ID in first-seen order, and
  each field has the value of the last copy that carries it.\<close>

definition item_key :: "(jval \<Rightarrow> string) \<Rightarrow> string \<Rightarrow> item \<Rightarrow> string" where
  "item_key fmt f it = fmt_v fmt (getItemID it f)"

definition copy_items :: "string \<Rightarrow> vars \<Rightarrow> item list" where
  "copy_items p m = (case GetNestedKey m p of None \<Rightarrow> [] | Some raw \<Rightarrow>
     (case toItemSlice raw of Inr its \<Rightarrow> its | Inl e \<Rightarrow> []))"

definition copies_of :: "(jval \<Rightarrow> string) \<Rightarrow> string \<Rightarrow> item list \<Rightarrow> string \<Rightarrow> item list" where
  "copies_of fmt f its i = filter (\<lambda>it. item_key fmt f it = i) its"

definition united :: "item list \<Rightarrow> item" where
  "united its = foldl (++) empty_map its"

definition first_seen :: "'a list \<Rightarrow> 'a list" where
  "first_seen xs = rev (remdups (rev xs))"

definition united_table :: "(jval \<Rightarrow> string) \<Rightarrow> string \<Rightarrow> item list \<Rightarrow> (string \<times> item) list" where
  "united_table fmt f its =
     map (\<lambda>i. (i, united (copies_of fmt f its i))) (first_seen (map (item_key fmt f) its))"

lemma first_seen_snoc [simp]:
  "first_seen [] = []"
  "first_seen (xs @ [x]) = (if x \<in> set xs then first_seen xs else first_seen xs @ [x])"
  by (simp_all add: first_seen_def)

lemma set_first_seen [simp]: "set (first_seen xs) = set xs" "distinct (first_seen xs)"
  by (simp_all add: first_seen_def)

lemma update_item_map:
  assumes "distinct ks"
  shows "update_item i item (map (\<lambda>k. (k, g k)) ks) =
         (if i \<in> set ks then map (\<lambda>k. (k, if k = i then g k ++ item else g k)) ks
          else map (\<lambda>k. (k, g k)) ks @ [(i, item)])"
  using assms by (induction ks) (auto simp: option.map_ident_strong)

lemma united_table_snoc:
  "united_table fmt f (its @ [it]) = update_item (item_key fmt f it) it (united_table fmt f its)"
proof -
  have cop: "copies_of fmt f (its @ [it]) i =
      copies_of fmt f its i @ (if i = item_key fmt f it then [it] else [])" for i
    by (simp add: copies_of_def)
  have fresh: "copies_of fmt f its i = []" if "i \<notin> item_key fmt f ` set its" for i
    using that by (auto simp: copies_of_def filter_empty_conv)
  show ?thesis
    unfolding united_table_def map_append list.map
    by (cases "item_key fmt f it \<in> item_key fmt f ` set its")
      (auto simp: update_item_map cop united_def fresh empty_map_def intro: rev_image_eqI)
qed

lemma absorb_loop_table:
  "absorb_loop fmt p origin f n its (united_table fmt f seen) = Inr merged \<Longrightarrow>
   merged = united_table fmt f (seen @ its)"
proof (induction its arbitrary: n seen)
  case (Cons it its)
  from Cons.prems have "absorb_loop fmt p origin f (Suc n) its (united_table fmt f (seen @ [it])) = Inr merged"
    by (auto simp: united_table_snoc item_key_def Let_def split: if_splits)
  from Cons.IH[OF this] show ?case by simp
qed simp

lemma absorb_table:
  "absorb fmt p f (GetNestedKey m p) origin (united_table fmt f seen) = Inr merged \<Longrightarrow>
   merged = united_table fmt f (seen @ copy_items p m)"
  by (auto simp: absorb_def copy_items_def is_nil_iff toItemSlice_def[of VNull] dest: absorb_loop_table
      split: option.splits if_splits sum.splits)

lemma absorb_branches_table:
  "absorb_branches fmt p f n bvs (united_table fmt f seen) = Inr merged \<Longrightarrow>
   merged = united_table fmt f (seen @ concat (map (copy_items p) bvs))"
proof (induction bvs arbitrary: n seen)
  case (Cons bv bvs)
  then obtain m where "absorb fmt p f (GetNestedKey bv p) (''branch '' @ itoa n) (united_table fmt f seen) = Inr m"
    and rest: "absorb_branches fmt p f (Suc n) bvs m = Inr merged"
    by (auto split: sum.splits)
  then have "m = united_table fmt f (seen @ copy_items p bv)" by (auto dest: absorb_table)
  with Cons.IH rest show ?case by fastforce
qed simp

section \<open>Properties\<close>

text \<open>A write of a parallel branch survives the merge when no later branch carries anything at that
  path: for a variable not listed in \<open>mergeByID\<close>, a non-map value a branch holds at a path is the
  merged value at that path if every later branch's variables leave the path free. This is both
  the survival of disjoint new fields and last-branch-wins.\<close>

theorem parallel_branch_write_survives:
  assumes "mergeParallelBranches fmt_other base (bs @ b # cs) mergeByID = Inr result"
    and "GetNestedKey b p = Some v" and "as_map v = None"
    and "hd (path_keys p) \<notin> fst ` set mergeByID"
    and "\<forall>c \<in> set cs. leaves_free c (path_keys p)"
  shows "GetNestedKey result p = Some v"
  using assms fold_into_last[of "path_keys p" "map fst mergeByID" b v cs bs]
  by (auto simp: mergeParallelBranches_def GetNestedKey_keys split: sum.splits)


text \<open>\<open>mergeItemsByID\<close> unites the copies of each item: one item per ID in first-seen order (base
  state first), each field taken from the last copy that has it.\<close>

theorem mergeItemsByID_united:
  assumes "mergeItemsByID fmt_other base branchVars varPath idField = Inr out"
  shows "\<exists>its. its = copy_items varPath base @ concat (map (copy_items varPath) branchVars) \<and>
         out = map (\<lambda>i. VMap (united (copies_of fmt_other idField its i)))
                 (first_seen (map (item_key fmt_other idField) its))"
proof -
  from assms obtain m0 m where
    "absorb fmt_other varPath idField (GetNestedKey base varPath) ''base state'' [] = Inr m0"
    "absorb_branches fmt_other varPath idField 0 branchVars m0 = Inr m"
    and out: "out = map (\<lambda>(i, item). VMap item) m"
    by (auto simp: mergeItemsByID_def split: sum.splits)
  moreover have "[] = united_table fmt_other idField []" by (simp add: united_table_def)
  ultimately have "m = united_table fmt_other idField
      (copy_items varPath base @ concat (map (copy_items varPath) branchVars))"
    by (metis absorb_branches_table absorb_table append_Nil)
  then show ?thesis by (simp add: out united_table_def)
qed

text \<open>Go ranges over the map \<open>mergeByID\<close> in an unspecified order; the merge does not depend on it
  when the listed variables are top-level names, as \<open>ValidateParallelGateways\<close> demands.\<close>

theorem mergeParallelBranches_order:
  assumes "mset mergeByID = mset mergeByID'" and "distinct (map fst mergeByID)"
    and "\<forall>p \<in> fst ` set mergeByID. top_level p"
  shows "mergeParallelBranches fmt_other base branchVars mergeByID = Inr result \<longleftrightarrow>
         mergeParallelBranches fmt_other base branchVars mergeByID' = Inr result"
proof -
  let ?fin = "\<lambda>ms. fold (\<lambda>bv dst. mergeVariablesInto dst bv (map fst ms)) branchVars"
  have fin: "?fin mergeByID = ?fin mergeByID'"
    using mset_eq_setD[OF assms(1)] by (simp add: mergeVariablesInto_def)
  have "mergeParallelBranches fmt_other base branchVars ms = Inr result \<longleftrightarrow>
      (\<exists>r. merge_listed fmt_other branchVars ms base = Inr r \<and> result = ?fin ms r)" for ms
    by (auto simp: mergeParallelBranches_def split: sum.splits)
  then show ?thesis
    using merge_listed_perm[OF assms, of fmt_other branchVars base] fin by simp
qed

end
