(* ===== verification/Reachability.thy ===== *)
theory Reachability
  imports Workflow_Dsl
begin

text \<open>
  The breadth-first searches of \<open>validateGatewayRegion\<close> (\<open>batch_validate.go\<close>) and the
  depth-first walk of \<open>extractSubGraph\<close> (\<open>batch_gateway.go\<close>), over a graph given as a list of
  (source, target) pairs. Both are shown to compute exactly the nodes reachable from the
  start; the two searches are instances of the locale \<open>graph_search\<close>.
\<close>

type_synonym graph = "(string \<times> string) list"

definition succs :: "graph \<Rightarrow> string \<Rightarrow> string list" where
  "succs g x = map snd (filter (\<lambda>e. fst e = x) g)"

lemma set_succs [simp]: "y \<in> set (succs g x) \<longleftrightarrow> (x, y) \<in> set g"
  by (force simp: succs_def)

text \<open>One pass of the inner loop: targets not seen yet are marked and queued.\<close>

fun enqueue_new :: "string list \<Rightarrow> string list \<Rightarrow> string list \<Rightarrow> string list \<times> string list" where
  "enqueue_new [] queue seen = (queue, seen)"
| "enqueue_new (t # ts) queue seen =
     (if t \<in> set seen then enqueue_new ts queue seen
      else enqueue_new ts (queue @ [t]) (t # seen))"

lemma enqueue_new_spec:
  "enqueue_new ts queue seen = (q', s') \<Longrightarrow>
   set s' = set seen \<union> set ts \<and> set q' = set queue \<union> (set ts - set seen) \<and>
   length s' + length queue = length seen + length q' \<and> (distinct seen \<longrightarrow> distinct s')"
  by (induction ts queue seen rule: enqueue_new.induct) (auto split: if_splits)

lemma enqueue_new_measure:
  assumes "enqueue_new (succs g x) rest seen = (q', s')"
  shows "card (snd ` set g - set s') < card (snd ` set g - set seen) \<or>
         card (snd ` set g - set s') = card (snd ` set g - set seen) \<and> q' = rest"
proof (cases "set (succs g x) \<subseteq> set seen")
  case True
  have "enqueue_new ts rest seen = (rest, seen)" if "set ts \<subseteq> set seen" for ts
    using that by (induction ts) auto
  with assms True show ?thesis by fastforce
next
  case False
  then obtain y where y: "(x, y) \<in> set g" "y \<notin> set seen"
    by (meson set_succs subsetI)
  have "set s' = set seen \<union> set (succs g x)"
    using enqueue_new_spec[OF assms] by simp
  then have "snd ` set g - set s' \<subset> snd ` set g - set seen"
    using y by force
  then have "card (snd ` set g - set s') < card (snd ` set g - set seen)"
    by (intro psubset_card_mono) auto
  then show ?thesis ..
qed

text \<open>The \<open>for len(queue) > 0\<close> loop.\<close>

function bfs :: "graph \<Rightarrow> string list \<Rightarrow> string list \<Rightarrow> string list" where
  "bfs g [] seen = seen"
| "bfs g (cur # rest) seen =
     (let (queue, seen') = enqueue_new (succs g cur) rest seen in bfs g queue seen')"
  by pat_completeness auto
termination
proof (relation "measures [\<lambda>(g, q, s). card (snd ` set g - set s), \<lambda>(g, q, s). length q]")
  fix g cur rest seen x queue seen'
  assume "x = enqueue_new (succs g cur) rest seen" "(queue, seen') = x"
  then have "enqueue_new (succs g cur) rest seen = (queue, seen')" by simp
  then show "((g, queue, seen'), g, cur # rest, seen)
      \<in> measures [\<lambda>(g, q, s). card (snd ` set g - set s), \<lambda>(g, q, s). length q]"
    using enqueue_new_measure[of g cur rest seen queue seen'] by auto
qed simp

text \<open>The recursive closure \<open>walk\<close>: already marked nodes are skipped; the stop node is
  excluded by leaving its edges out of the graph.\<close>

function dfs_walk :: "graph \<Rightarrow> string list \<Rightarrow> string list \<Rightarrow> string list" where
  "dfs_walk g [] seen = seen"
| "dfs_walk g (x # todo) seen =
     (if x \<in> set seen then dfs_walk g todo seen
      else dfs_walk g (succs g x @ todo) (x # seen))"
  by pat_completeness auto
termination
proof (relation "measures [\<lambda>(g, q, s). card (set q \<union> snd ` set g - set s), \<lambda>(g, q, s). length q]",
    goal_cases)
  case 1
  then show ?case by simp
next
  case (2 g x todo seen)
  then have "set (x # todo) \<union> snd ` set g - set seen = set todo \<union> snd ` set g - set seen" by auto
  then show ?case by simp
next
  case (3 g x todo seen)
  have "set (succs g x @ todo) \<union> snd ` set g - set (x # seen)
      \<subset> set (x # todo) \<union> snd ` set g - set seen"
    using 3 by (force simp: image_iff)
  then show ?case by (simp add: psubset_card_mono)
qed

section \<open>Searches compute reachability\<close>

definition reachable_from :: "graph \<Rightarrow> string \<Rightarrow> string set" where
  "reachable_from g s = {t. (s, t) \<in> (set g)\<^sup>*}"

text \<open>
  The contract of a search: its result contains the start, is closed under edges, and
  holds reachable nodes only.
\<close>

locale graph_search =
  fixes search :: "graph \<Rightarrow> string list \<Rightarrow> string list \<Rightarrow> string list"
    and start :: "string \<Rightarrow> string list"
  assumes result_closed: "set g `` set (search g [s] (start s)) \<subseteq> set (search g [s] (start s))"
    and start_in: "s \<in> set (search g [s] (start s))"
    and only_reachable: "set (search g todo seen) \<subseteq> set seen \<union> (set g)\<^sup>* `` set todo"
    and start_small: "start s = [] \<or> start s = [s]"
begin

lemma search_reachable: "set (search g [s] (start s)) = reachable_from g s"
proof
  show "set (search g [s] (start s)) \<subseteq> reachable_from g s"
    using only_reachable[of g "[s]" "start s"] start_small[of s]
    by (auto simp: reachable_from_def)
next
  show "reachable_from g s \<subseteq> set (search g [s] (start s))"
  proof
    fix t
    assume "t \<in> reachable_from g s"
    then have "(s, t) \<in> (set g)\<^sup>*" by (simp add: reachable_from_def)
    then show "t \<in> set (search g [s] (start s))"
    proof (induction rule: rtrancl_induct)
      case base
      show ?case by (rule start_in)
    next
      case (step y z)
      then show ?case using result_closed[of g s] by blast
    qed
  qed
qed

end

lemma bfs_seen: "set seen \<subseteq> set (bfs g queue seen)"
proof (induction g queue seen rule: bfs.induct)
  case (2 g cur rest seen)
  obtain q' s' where e: "enqueue_new (succs g cur) rest seen = (q', s')"
    by (cases "enqueue_new (succs g cur) rest seen")
  then have "set seen \<subseteq> set s'" using enqueue_new_spec[OF e] by auto
  also have "\<dots> \<subseteq> set (bfs g q' s')" using 2[OF e[symmetric] refl] .
  finally show ?case using e by simp
qed simp

lemma bfs_closed:
  "set queue \<subseteq> set seen \<Longrightarrow> set g `` (set seen - set queue) \<subseteq> set seen \<Longrightarrow>
   set g `` set (bfs g queue seen) \<subseteq> set (bfs g queue seen)"
proof (induction g queue seen rule: bfs.induct)
  case (2 g cur rest seen)
  obtain q' s' where e: "enqueue_new (succs g cur) rest seen = (q', s')"
    by (cases "enqueue_new (succs g cur) rest seen")
  have s': "set s' = set seen \<union> set (succs g cur)"
    and q': "set q' = set rest \<union> (set (succs g cur) - set seen)"
    using enqueue_new_spec[OF e] by auto
  have "set q' \<subseteq> set s'" using 2 s' q' by auto
  moreover have "set g `` (set s' - set q') \<subseteq> set s'"
    using "2.prems" by (force simp: s' q')
  ultimately show ?case using "2.IH"[OF e[symmetric] refl] e by simp
qed simp

lemma bfs_only_reachable: "set (bfs g queue seen) \<subseteq> set seen \<union> (set g)\<^sup>* `` set queue"
proof (induction g queue seen rule: bfs.induct)
  case (2 g cur rest seen)
  obtain q' s' where e: "enqueue_new (succs g cur) rest seen = (q', s')"
    by (cases "enqueue_new (succs g cur) rest seen")
  have s': "set s' = set seen \<union> set (succs g cur)"
    and q': "set q' = set rest \<union> (set (succs g cur) - set seen)"
    using enqueue_new_spec[OF e] by auto
  have "set (bfs g q' s') \<subseteq> set s' \<union> (set g)\<^sup>* `` set q'"
    using 2[OF e[symmetric] refl] .
  also have "\<dots> \<subseteq> set seen \<union> (set g)\<^sup>* `` set (cur # rest)"
    unfolding s' q' by (force simp: Image_def intro: converse_rtrancl_into_rtrancl)
  finally show ?case using e by simp
qed auto

interpretation bfs_search: graph_search bfs "\<lambda>s. [s]"
proof unfold_locales
  show "set g `` set (bfs g [s] [s]) \<subseteq> set (bfs g [s] [s])" for g s
    by (rule bfs_closed) auto
  show "s \<in> set (bfs g [s] [s])" for g s
    using bfs_seen[of "[s]" g "[s]"] by auto
qed (use bfs_seen bfs_only_reachable in auto)

lemma dfs_seen: "set seen \<subseteq> set (dfs_walk g todo seen)"
  by (induction g todo seen rule: dfs_walk.induct) auto

lemma dfs_todo: "set todo \<subseteq> set (dfs_walk g todo seen)"
proof (induction g todo seen rule: dfs_walk.induct)
  case (2 g x todo seen)
  show ?case
  proof (cases "x \<in> set seen")
    case True
    then show ?thesis using 2 dfs_seen[of seen g todo] by auto
  next
    case False
    then show ?thesis using 2 dfs_seen[of "x # seen" g "succs g x @ todo"] by auto
  qed
qed simp

lemma dfs_closed:
  "set g `` set seen \<subseteq> set seen \<union> set todo \<Longrightarrow>
   set g `` set (dfs_walk g todo seen) \<subseteq> set (dfs_walk g todo seen)"
proof (induction g todo seen rule: dfs_walk.induct)
  case (2 g x todo seen)
  show ?case
  proof (cases "x \<in> set seen")
    case True
    then have "set g `` set seen \<subseteq> set seen \<union> set todo" using "2.prems" by auto
    then show ?thesis using "2.IH"(1)[OF True] True by simp
  next
    case False
    then have "set g `` set (x # seen) \<subseteq> set (x # seen) \<union> set (succs g x @ todo)"
      using "2.prems" by auto
    then show ?thesis using "2.IH"(2)[OF False] False by simp
  qed
qed simp

lemma dfs_only_reachable: "set (dfs_walk g todo seen) \<subseteq> set seen \<union> (set g)\<^sup>* `` set todo"
proof (induction g todo seen rule: dfs_walk.induct)
  case (2 g x todo seen)
  show ?case
  proof (cases "x \<in> set seen")
    case True
    then show ?thesis using 2 by auto
  next
    case False
    then have "set (dfs_walk g (succs g x @ todo) (x # seen))
        \<subseteq> set (x # seen) \<union> (set g)\<^sup>* `` set (succs g x @ todo)" using 2 by simp
    also have "\<dots> \<subseteq> set seen \<union> (set g)\<^sup>* `` set (x # todo)"
      by (force simp: Image_def intro: converse_rtrancl_into_rtrancl)
    finally show ?thesis using False by simp
  qed
qed simp

interpretation dfs_search: graph_search dfs_walk "\<lambda>_. []"
proof unfold_locales
  show "set g `` set (dfs_walk g [s] []) \<subseteq> set (dfs_walk g [s] [])" for g s
    by (rule dfs_closed) auto
  show "s \<in> set (dfs_walk g [s] [])" for g s
    using dfs_todo[of "[s]" g "[]"] by auto
qed (use dfs_seen dfs_only_reachable in auto)

declare bfs.simps(2) [simp del] dfs_walk.simps(2) [simp del]

lemmas bfs_reachable = bfs_search.search_reachable
lemmas dfs_reachable = dfs_search.search_reachable

end
