(* ===== verification/Gateway_Validate.thy ===== *)
theory Gateway_Validate
  imports Reachability
begin

text \<open>
  \<open>ValidateBatchGateways\<close>, \<open>validateGatewayRegion\<close>, \<open>validateBatchSplitMappings\<close>
  (\<open>batch_validate.go\<close>) and \<open>ValidateParallelGateways\<close> (\<open>parallel_validate.go\<close>). A result of
  \<open>None\<close> is acceptance. Where Go ranges over a map, and so in no fixed order, the model visits the
  entries in the order of the definition: which of several errors is reported may differ,
  whether there is one does not. The section on soundness shows what acceptance means:
  the region between a split and its join is closed.
\<close>

section \<open>Helpers\<close>

text \<open>A loop that returns the first error.\<close>

fun first_error :: "('a \<Rightarrow> wferr option) \<Rightarrow> 'a list \<Rightarrow> wferr option" where
  "first_error f [] = None"
| "first_error f (x # xs) = (case f x of Some e \<Rightarrow> Some e | None \<Rightarrow> first_error f xs)"

lemma first_error_None_iff [simp]: "first_error f xs = None \<longleftrightarrow> (\<forall>x \<in> set xs. f x = None)"
  by (induction xs) (auto split: option.split)

text \<open>\<open>nodesByID\<close>, and the same index restricted to gateways of one type: of nodes that share
  an ID the last one is found.\<close>

definition nodesByID :: "Node list \<Rightarrow> string \<Rightarrow> Node option" where
  "nodesByID ns = map_of (rev (map (\<lambda>n. (n_ID n, n)) ns))"

definition is_gateway :: "GatewayType \<Rightarrow> Node \<Rightarrow> bool" where
  "is_gateway t n = (n_Type n = NodeTypeGateway \<and> n_GatewayType n = t)"

definition gatewaysByID :: "GatewayType \<Rightarrow> Node list \<Rightarrow> string \<Rightarrow> Node option" where
  "gatewaysByID t ns = nodesByID (filter (is_gateway t) ns)"

definition gateway_ids :: "GatewayType \<Rightarrow> Node list \<Rightarrow> string list" where
  "gateway_ids t ns = remdups (map n_ID (filter (is_gateway t) ns))"

definition forwardEdges :: "Edge list \<Rightarrow> string \<Rightarrow> Edge list" where
  "forwardEdges es x = filter (\<lambda>e. e_SourceID e = x) es"

definition reverseEdges :: "Edge list \<Rightarrow> string \<Rightarrow> string list" where
  "reverseEdges es x = map e_SourceID (filter (\<lambda>e. e_TargetID e = x) es)"

text \<open>The graphs of the two searches: forward without the edges into the join, and backward.\<close>

definition forward_graph :: "Edge list \<Rightarrow> string \<Rightarrow> graph" where
  "forward_graph es joinID =
     map (\<lambda>e. (e_SourceID e, e_TargetID e)) (filter (\<lambda>e. e_TargetID e \<noteq> joinID) es)"

definition backward_graph :: "Edge list \<Rightarrow> graph" where
  "backward_graph es = map (\<lambda>e. (e_TargetID e, e_SourceID e)) es"

definition edge_rel :: "Edge list \<Rightarrow> (string \<times> string) set" where
  "edge_rel es = (\<lambda>e. (e_SourceID e, e_TargetID e)) ` set es"

section \<open>The region check\<close>

definition check_region_node ::
  "string \<Rightarrow> string \<Rightarrow> GatewayType \<Rightarrow> (string \<times> string) list \<Rightarrow> (string \<Rightarrow> Node option) \<Rightarrow>
   Edge list \<Rightarrow> string list \<Rightarrow> string list \<Rightarrow> string \<Rightarrow> wferr option" where
  "check_region_node splitID joinID nestedType pairedJoins nodes es regionNodes canReachJoin nodeID =
     (case nodes nodeID of
        None \<Rightarrow> Some (Errorf ''region references non-existent node'' [splitID, nodeID])
      | Some node \<Rightarrow>
          if n_Type node = NodeTypeEnd
          then Some (Errorf ''path reaching END without passing through paired join'' [splitID, nodeID, joinID])
          else if forwardEdges es nodeID = []
          then Some (Errorf ''region contains dead-end node'' [splitID, nodeID])
          else if nodeID \<notin> set canReachJoin
          then Some (Errorf ''region contains node which cannot reach paired join'' [splitID, nodeID, joinID])
          else if n_Type node = NodeTypeGateway \<and> n_GatewayType node = nestedType \<and> nodeID \<noteq> splitID
               \<and> (case map_of pairedJoins nodeID of Some j \<Rightarrow> j | None \<Rightarrow> []) \<notin> set regionNodes
          then Some (Errorf ''nested split whose paired join is outside'' [splitID, nodeID])
          else if nodeID \<noteq> splitID \<and> (\<exists>prev \<in> set (reverseEdges es nodeID). prev \<notin> set regionNodes)
          then Some (Errorf ''incoming edge from outside'' [splitID, nodeID])
          else None)"

definition validateGatewayRegion ::
  "string \<Rightarrow> string \<Rightarrow> GatewayType \<Rightarrow> (string \<times> string) list \<Rightarrow> (string \<Rightarrow> Node option) \<Rightarrow>
   Edge list \<Rightarrow> wferr option" where
  "validateGatewayRegion splitID joinID nestedType pairedJoins nodes es =
     (if forwardEdges es splitID = []
      then Some (Errorf ''node has no outgoing edges'' [splitID])
      else
        let regionNodes = bfs (forward_graph es joinID) [splitID] [splitID];
            canReachJoin = bfs (backward_graph es) [joinID] [joinID]
        in case first_error
                  (check_region_node splitID joinID nestedType pairedJoins nodes es regionNodes canReachJoin)
                  regionNodes of
             Some e \<Rightarrow> Some e
           | None \<Rightarrow>
               first_error
                 (\<lambda>prev. if prev \<notin> set regionNodes
                         then Some (Errorf ''join has incoming edge from outside'' [joinID, prev, splitID])
                         else None)
                 (reverseEdges es joinID))"

section \<open>Pairing\<close>

text \<open>The loop over \<open>joinToSplit\<close> that fills \<open>pairedJoins\<close> (split, join).\<close>

fun pair_joins ::
  "(string \<times> string) list \<Rightarrow> string list \<Rightarrow> (string \<times> string) list \<Rightarrow>
   wferr + (string \<times> string) list" where
  "pair_joins [] splits paired = Inr paired"
| "pair_joins ((joinID, splitID) # js) splits paired =
     (if splitID \<notin> set splits
      then Inl (Errorf ''join references non-existent split'' [joinID, splitID])
      else case map_of paired splitID of
             Some existingJoin \<Rightarrow> Inl (Errorf ''split has multiple joins'' [splitID, existingJoin, joinID])
           | None \<Rightarrow> pair_joins js splits ((splitID, joinID) # paired))"

definition batch_join_target :: "Node \<Rightarrow> string" where
  "batch_join_target n = (case n_BatchJoin n of Some c \<Rightarrow> bj_GatewayNodeID c | None \<Rightarrow> [])"

definition parallel_join_target :: "Node \<Rightarrow> string" where
  "parallel_join_target n = (case n_ParallelJoin n of Some c \<Rightarrow> pj_GatewayNodeID c | None \<Rightarrow> [])"

definition joinToSplit ::
  "(Node \<Rightarrow> string) \<Rightarrow> GatewayType \<Rightarrow> Node list \<Rightarrow> (string \<times> string) list" where
  "joinToSplit target t ns =
     map (\<lambda>j. (j, case gatewaysByID t ns j of Some n \<Rightarrow> target n | None \<Rightarrow> [])) (gateway_ids t ns)"

section \<open>Batch gateways\<close>

definition mapping_entry_error :: "string \<Rightarrow> string \<Rightarrow> string \<times> string \<Rightarrow> wferr option" where
  "mapping_entry_error splitID itemsVar entry =
     (let source = fst (parseMappingKey (fst entry)); destination = snd entry
      in if source = [] \<or> destination = []
         then Some (Errorf ''mapping entries need both a source and a destination path'' [splitID])
         else if source = itemsVar \<or> destination = itemsVar
         then Some (Errorf ''mapping cannot read or write the items variable'' [splitID, itemsVar])
         else None)"

fun output_mapping_error ::
  "string \<Rightarrow> string \<Rightarrow> (string \<times> string) list \<Rightarrow> (string \<times> string) list \<Rightarrow> wferr option" where
  "output_mapping_error splitID itemsVar [] sources = None"
| "output_mapping_error splitID itemsVar ((rawSource, destination) # ms) sources =
     (case mapping_entry_error splitID itemsVar (rawSource, destination) of
        Some e \<Rightarrow> Some e
      | None \<Rightarrow>
          (case map_of sources destination of
             Some other \<Rightarrow> Some (Errorf ''output_mapping writes from both'' [splitID, destination, other])
           | None \<Rightarrow>
               output_mapping_error splitID itemsVar ms
                 ((destination, fst (parseMappingKey rawSource)) # sources)))"

definition batch_items_variable :: "Node \<Rightarrow> string" where
  "batch_items_variable n =
     (case n_BatchGateway n of
        Some c \<Rightarrow> (if bg_ItemsVariable c \<noteq> [] then bg_ItemsVariable c else DefaultItemsVariable)
      | None \<Rightarrow> DefaultItemsVariable)"

definition validateBatchSplitMappings :: "string \<Rightarrow> Node \<Rightarrow> wferr option" where
  "validateBatchSplitMappings splitID split =
     (let itemsVar = batch_items_variable split
      in case first_error
                (\<lambda>entry. case mapping_entry_error splitID itemsVar entry of
                   Some e \<Rightarrow> Some e
                 | None \<Rightarrow>
                     if has_prefix (snd entry) ''_''
                     then Some (Errorf ''input_mapping cannot write a reserved name'' [splitID, snd entry])
                     else None)
                (n_InputMapping split) of
           Some e \<Rightarrow> Some e
         | None \<Rightarrow> output_mapping_error splitID itemsVar (n_OutputMapping split) [])"

definition ValidateBatchGateways :: "WorkflowDefinition \<Rightarrow> wferr option" where
  "ValidateBatchGateways def =
     (let ns = wd_Nodes def; es = wd_Edges def;
          splits = gateway_ids GatewayTypeBatchSplit ns;
          joins = gateway_ids GatewayTypeBatchJoin ns
      in case first_error
                (\<lambda>n. if is_gateway GatewayTypeBatchJoin n \<and> batch_join_target n = []
                     then Some (Errorf ''batch_join.gateway_node_id is required'' [n_ID n]) else None) ns of
        Some e \<Rightarrow> Some e
      | None \<Rightarrow>
      (case pair_joins (joinToSplit batch_join_target GatewayTypeBatchJoin ns) splits [] of
        Inl e \<Rightarrow> Some e
      | Inr pairedJoins \<Rightarrow>
      (case first_error
              (\<lambda>s. if map_of pairedJoins s = None
                   then Some (Errorf ''BATCH_SPLIT has no paired BATCH_JOIN'' [s]) else None) splits of
        Some e \<Rightarrow> Some e
      | None \<Rightarrow>
      (case first_error
              (\<lambda>j. case gatewaysByID GatewayTypeBatchJoin ns j of
                 Some n \<Rightarrow> if n_InputMapping n \<noteq> [] \<or> n_OutputMapping n \<noteq> []
                           then Some (Errorf ''mappings belong on the paired BATCH_SPLIT'' [j]) else None
               | None \<Rightarrow> None) joins of
        Some e \<Rightarrow> Some e
      | None \<Rightarrow>
      (case first_error
              (\<lambda>s. case gatewaysByID GatewayTypeBatchSplit ns s of
                 Some n \<Rightarrow> validateBatchSplitMappings s n | None \<Rightarrow> None) splits of
        Some e \<Rightarrow> Some e
      | None \<Rightarrow>
      (case first_error
              (\<lambda>j. if length (forwardEdges es j) \<noteq> 1
                   then Some (Errorf ''BATCH_JOIN must have exactly 1 outgoing edge'' [j]) else None) joins of
        Some e \<Rightarrow> Some e
      | None \<Rightarrow>
          first_error
            (\<lambda>(s, j). validateGatewayRegion s j GatewayTypeBatchSplit pairedJoins (nodesByID ns) es)
            pairedJoins))))))"

section \<open>Parallel gateways\<close>

definition merge_by_id_error :: "string \<Rightarrow> string \<times> string \<Rightarrow> wferr option" where
  "merge_by_id_error joinID entry =
     (if CHR ''.'' \<in> set (fst entry)
      then Some (Errorf ''merge_by_id key must be a top-level workflow variable'' [joinID, fst entry])
      else if snd entry = []
      then Some (Errorf ''merge_by_id key has empty ID field'' [joinID, fst entry])
      else None)"

definition parallel_join_error :: "Node \<Rightarrow> wferr option" where
  "parallel_join_error n =
     (if is_gateway GatewayTypeParallelJoin n
      then if parallel_join_target n = []
           then Some (Errorf ''parallel_join.gateway_node_id is required'' [n_ID n])
           else (case n_ParallelJoin n of
                   Some c \<Rightarrow> first_error (merge_by_id_error (n_ID n)) (pj_MergeByID c)
                 | None \<Rightarrow> None)
      else None)"

definition ValidateParallelGateways :: "WorkflowDefinition \<Rightarrow> wferr option" where
  "ValidateParallelGateways def =
     (let ns = wd_Nodes def; es = wd_Edges def;
          splits = gateway_ids GatewayTypeParallelSplit ns;
          joins = gateway_ids GatewayTypeParallelJoin ns
      in case first_error parallel_join_error ns of
        Some e \<Rightarrow> Some e
      | None \<Rightarrow>
      (case pair_joins (joinToSplit parallel_join_target GatewayTypeParallelJoin ns) splits [] of
        Inl e \<Rightarrow> Some e
      | Inr pairedJoins \<Rightarrow>
      (case first_error
              (\<lambda>s. if map_of pairedJoins s = None
                   then Some (Errorf ''PARALLEL_SPLIT has no paired PARALLEL_JOIN'' [s]) else None) splits of
        Some e \<Rightarrow> Some e
      | None \<Rightarrow>
      (case first_error
              (\<lambda>j. if 1 < length (forwardEdges es j)
                   then Some (Errorf ''PARALLEL_JOIN cannot have more than 1 outgoing edge'' [j]) else None) joins of
        Some e \<Rightarrow> Some e
      | None \<Rightarrow>
          first_error
            (\<lambda>(s, j). validateGatewayRegion s j GatewayTypeParallelSplit pairedJoins (nodesByID ns) es)
            pairedJoins))))"

section \<open>The pairing the engine uses at run time\<close>

text \<open>\<open>findPairedBatchJoin\<close> and \<open>findPairedParallelJoin\<close>; the empty string is "none".\<close>

definition find_paired :: "(Node \<Rightarrow> bool) \<Rightarrow> Node list \<Rightarrow> string" where
  "find_paired p ns = (case List.find p ns of Some n \<Rightarrow> n_ID n | None \<Rightarrow> [])"

definition findPairedBatchJoin :: "WorkflowDefinition \<Rightarrow> string \<Rightarrow> string" where
  "findPairedBatchJoin def splitNodeID =
     find_paired
       (\<lambda>n. is_gateway GatewayTypeBatchJoin n \<and>
            (case n_BatchJoin n of Some c \<Rightarrow> bj_GatewayNodeID c = splitNodeID | None \<Rightarrow> False))
       (wd_Nodes def)"

definition findPairedParallelJoin :: "WorkflowDefinition \<Rightarrow> string \<Rightarrow> string" where
  "findPairedParallelJoin def splitNodeID =
     find_paired
       (\<lambda>n. is_gateway GatewayTypeParallelJoin n \<and>
            (case n_ParallelJoin n of Some c \<Rightarrow> pj_GatewayNodeID c = splitNodeID | None \<Rightarrow> False))
       (wd_Nodes def)"

section \<open>Soundness of the region check\<close>

lemma set_forward_graph:
  "set (forward_graph es j) = {(x, y). (x, y) \<in> edge_rel es \<and> y \<noteq> j}"
  by (auto simp: forward_graph_def edge_rel_def)

lemma set_backward_graph: "set (backward_graph es) = (edge_rel es)\<inverse>"
  by (auto simp: backward_graph_def edge_rel_def)

lemma set_reverseEdges: "p \<in> set (reverseEdges es x) \<longleftrightarrow> (p, x) \<in> edge_rel es"
  by (auto simp: reverseEdges_def edge_rel_def)

lemma forwardEdges_Nil_iff: "forwardEdges es x = [] \<longleftrightarrow> (\<forall>y. (x, y) \<notin> edge_rel es)"
  by (auto simp: forwardEdges_def edge_rel_def filter_empty_conv)

text \<open>The region of a split: what its edges reach without entering the join.\<close>

definition region :: "Edge list \<Rightarrow> string \<Rightarrow> string \<Rightarrow> string set" where
  "region es s j = reachable_from (forward_graph es j) s"

text \<open>A closed region: the contract acceptance gives the interpreter. Every node of it exists,
  is not an END, leads somewhere and can still reach the join; it is entered at the split only,
  and the join is entered from it only.\<close>

definition closed_region :: "(string \<Rightarrow> Node option) \<Rightarrow> Edge list \<Rightarrow> string \<Rightarrow> string \<Rightarrow> bool" where
  "closed_region nodes es s j \<longleftrightarrow>
     (\<forall>x \<in> region es s j.
        (\<exists>n. nodes x = Some n \<and> n_Type n \<noteq> NodeTypeEnd) \<and>
        (\<exists>y. (x, y) \<in> edge_rel es) \<and>
        (x, j) \<in> (edge_rel es)\<^sup>* \<and>
        (x \<noteq> s \<longrightarrow> (\<forall>p. (p, x) \<in> edge_rel es \<longrightarrow> p \<in> region es s j))) \<and>
     (\<forall>p. (p, j) \<in> edge_rel es \<longrightarrow> p \<in> region es s j)"

lemma region_bfs: "set (bfs (forward_graph es j) [s] [s]) = region es s j"
  by (simp add: region_def bfs_reachable)

lemma can_reach_bfs: "x \<in> set (bfs (backward_graph es) [j] [j]) \<longleftrightarrow> (x, j) \<in> (edge_rel es)\<^sup>*"
  by (simp add: bfs_reachable reachable_from_def set_backward_graph rtrancl_converse)

lemma check_region_node_None:
  assumes "check_region_node s j t paired nodes es rs cs x = None"
  shows "(\<exists>n. nodes x = Some n \<and> n_Type n \<noteq> NodeTypeEnd) \<and> forwardEdges es x \<noteq> [] \<and> x \<in> set cs \<and>
         (x \<noteq> s \<longrightarrow> set (reverseEdges es x) \<subseteq> set rs)"
  using assms by (auto simp: check_region_node_def split: option.splits if_splits)

lemma validateGatewayRegion_closed:
  assumes "validateGatewayRegion s j t paired nodes es = None"
  shows "closed_region nodes es s j"
proof -
  have nodes_ok: "check_region_node s j t paired nodes es
      (bfs (forward_graph es j) [s] [s]) (bfs (backward_graph es) [j] [j]) x = None"
    if "x \<in> region es s j" for x
    using assms that
    by (auto simp: validateGatewayRegion_def Let_def region_bfs split: if_splits option.splits)
  have join_ok: "p \<in> region es s j" if "(p, j) \<in> edge_rel es" for p
    using assms that
    by (force simp: validateGatewayRegion_def Let_def region_bfs set_reverseEdges
        split: if_splits option.splits)
  show ?thesis
    unfolding closed_region_def
    using check_region_node_None[OF nodes_ok] join_ok
    by (fastforce simp: region_bfs can_reach_bfs set_reverseEdges forwardEdges_Nil_iff)
qed

section \<open>Soundness of the pairing\<close>

lemma pair_joins_Inr:
  assumes "pair_joins js splits paired = Inr p"
  shows "set p = set paired \<union> {(s, j). (j, s) \<in> set js}" (is ?S)
    and "distinct (map fst paired) \<Longrightarrow> distinct (map fst p)"
    and "\<forall>(j, s) \<in> set js. s \<in> set splits"
proof -
  have "?S \<and> (distinct (map fst paired) \<longrightarrow> distinct (map fst p)) \<and> (\<forall>(j, s) \<in> set js. s \<in> set splits)"
    using assms
  proof (induction js splits paired rule: pair_joins.induct)
    case (2 joinID splitID js splits paired)
    then have free: "map_of paired splitID = None" and "splitID \<in> set splits"
      by (auto split: if_splits option.splits)
    with 2 have "set p = set ((splitID, joinID) # paired) \<union> {(s, j). (j, s) \<in> set js} \<and>
        (distinct (map fst ((splitID, joinID) # paired)) \<longrightarrow> distinct (map fst p)) \<and>
        (\<forall>(j, s) \<in> set js. s \<in> set splits)"
      by simp
    with free \<open>splitID \<in> set splits\<close> show ?case
      by (auto simp: map_of_eq_None_iff image_iff)
  qed simp
  then show ?S "distinct (map fst paired) \<Longrightarrow> distinct (map fst p)"
    "\<forall>(j, s) \<in> set js. s \<in> set splits" by auto
qed

lemma nodesByID_distinct:
  assumes "distinct (map n_ID ns)" "n \<in> set ns"
  shows "nodesByID ns (n_ID n) = Some n"
proof -
  have "distinct (map fst (rev (map (\<lambda>n. (n_ID n, n)) ns)))"
    using assms by (simp add: rev_map[symmetric] comp_def)
  moreover have "(n_ID n, n) \<in> set (rev (map (\<lambda>n. (n_ID n, n)) ns))"
    using assms by auto
  ultimately show ?thesis by (simp add: nodesByID_def map_of_is_SomeI)
qed

lemma nodesByID_Some: "nodesByID ns x = Some n \<Longrightarrow> n \<in> set ns \<and> n_ID n = x"
  by (auto simp: nodesByID_def dest!: map_of_SomeD)

lemma nodesByID_None_iff: "nodesByID ns x = None \<longleftrightarrow> x \<notin> n_ID ` set ns"
  by (auto simp: nodesByID_def map_of_eq_None_iff image_iff)

lemma joinToSplit_iff:
  assumes "distinct (map n_ID ns)"
  shows "(j, s) \<in> set (joinToSplit target t ns) \<longleftrightarrow>
         (\<exists>n \<in> set ns. is_gateway t n \<and> n_ID n = j \<and> target n = s)"
proof -
  have "gatewaysByID t ns (n_ID n) = Some n" if "n \<in> set ns" "is_gateway t n" for n
    using that assms
    by (auto simp: gatewaysByID_def distinct_map_filter intro!: nodesByID_distinct)
  then show ?thesis
    by (force simp: joinToSplit_def gateway_ids_def)
qed

lemma paired_found:
  assumes "distinct (map n_ID ns)"
    and "pair_joins (joinToSplit target t ns) splits [] = Inr paired"
    and "(s, j) \<in> set paired"
    and "\<And>n. P n \<longleftrightarrow> is_gateway t n \<and> target n = s"
  shows "find_paired P ns = j"
proof -
  note pj = pair_joins_Inr[OF assms(2)]
  obtain n where n: "n \<in> set ns" "is_gateway t n" "n_ID n = j" "target n = s"
    using assms(3) pj(1) joinToSplit_iff[OF assms(1), of j s] by auto
  then obtain m where m: "List.find P ns = Some m"
    using assms(4) by (metis not_None_eq find_None_iff)
  then have "m \<in> set ns" "P m"
    by (auto simp: find_Some_iff)
  then have "(s, n_ID m) \<in> set paired"
    using assms(4) pj(1) joinToSplit_iff[OF assms(1), of "n_ID m" s] by auto
  with assms(3) pj(2) have "n_ID m = j"
    by (auto simp: eq_key_imp_eq_value)
  with m show ?thesis by (simp add: find_paired_def)
qed

text \<open>What acceptance by \<open>ValidateBatchGateways\<close> and \<open>ValidateParallelGateways\<close> gives, read off
  the checks in order.\<close>

lemma ValidateBatchGateways_None:
  assumes "ValidateBatchGateways def = None"
  obtains paired where
    "pair_joins (joinToSplit batch_join_target GatewayTypeBatchJoin (wd_Nodes def))
       (gateway_ids GatewayTypeBatchSplit (wd_Nodes def)) [] = Inr paired"
    "\<forall>s \<in> set (gateway_ids GatewayTypeBatchSplit (wd_Nodes def)). map_of paired s \<noteq> None"
    "\<forall>n \<in> set (wd_Nodes def). is_gateway GatewayTypeBatchJoin n \<longrightarrow> batch_join_target n \<noteq> []"
    "\<forall>j \<in> set (gateway_ids GatewayTypeBatchJoin (wd_Nodes def)). length (forwardEdges (wd_Edges def) j) = 1"
    "\<forall>(s, j) \<in> set paired. validateGatewayRegion s j GatewayTypeBatchSplit paired
       (nodesByID (wd_Nodes def)) (wd_Edges def) = None"
proof (cases "pair_joins (joinToSplit batch_join_target GatewayTypeBatchJoin (wd_Nodes def))
       (gateway_ids GatewayTypeBatchSplit (wd_Nodes def)) []")
  case (Inl e)
  with assms show ?thesis
    by (auto simp: ValidateBatchGateways_def Let_def split: option.splits)
next
  case (Inr paired)
  show ?thesis
    by (rule that[of paired])
      (use assms Inr in \<open>auto simp: ValidateBatchGateways_def Let_def split: option.splits if_splits\<close>)
qed

lemma ValidateParallelGateways_None:
  assumes "ValidateParallelGateways def = None"
  obtains paired where
    "pair_joins (joinToSplit parallel_join_target GatewayTypeParallelJoin (wd_Nodes def))
       (gateway_ids GatewayTypeParallelSplit (wd_Nodes def)) [] = Inr paired"
    "\<forall>s \<in> set (gateway_ids GatewayTypeParallelSplit (wd_Nodes def)). map_of paired s \<noteq> None"
    "\<forall>n \<in> set (wd_Nodes def). parallel_join_error n = None"
    "\<forall>(s, j) \<in> set paired. validateGatewayRegion s j GatewayTypeParallelSplit paired
       (nodesByID (wd_Nodes def)) (wd_Edges def) = None"
proof (cases "pair_joins (joinToSplit parallel_join_target GatewayTypeParallelJoin (wd_Nodes def))
       (gateway_ids GatewayTypeParallelSplit (wd_Nodes def)) []")
  case (Inl e)
  with assms show ?thesis
    by (auto simp: ValidateParallelGateways_def Let_def split: option.splits)
next
  case (Inr paired)
  show ?thesis
    by (rule that[of paired])
      (use assms Inr in \<open>auto simp: ValidateParallelGateways_def Let_def split: option.splits if_splits\<close>)
qed

lemma gateway_in_ids:
  "n \<in> set ns \<Longrightarrow> is_gateway t n \<Longrightarrow> n_ID n \<in> set (gateway_ids t ns)"
  by (auto simp: gateway_ids_def)

lemma validated_batch_split:
  assumes "ValidateBatchGateways def = None" "distinct (map n_ID (wd_Nodes def))"
    and "n \<in> set (wd_Nodes def)" "is_gateway GatewayTypeBatchSplit n"
  shows "findPairedBatchJoin def (n_ID n) \<in> n_ID ` set (wd_Nodes def)"
    and "closed_region (nodesByID (wd_Nodes def)) (wd_Edges def) (n_ID n)
           (findPairedBatchJoin def (n_ID n))"
    and "length (forwardEdges (wd_Edges def) (findPairedBatchJoin def (n_ID n))) = 1"
proof -
  from ValidateBatchGateways_None[OF assms(1)] obtain paired where
    p: "pair_joins (joinToSplit batch_join_target GatewayTypeBatchJoin (wd_Nodes def))
       (gateway_ids GatewayTypeBatchSplit (wd_Nodes def)) [] = Inr paired"
    and all: "\<forall>s \<in> set (gateway_ids GatewayTypeBatchSplit (wd_Nodes def)). map_of paired s \<noteq> None"
    and req: "\<forall>n \<in> set (wd_Nodes def). is_gateway GatewayTypeBatchJoin n \<longrightarrow> batch_join_target n \<noteq> []"
    and one: "\<forall>j \<in> set (gateway_ids GatewayTypeBatchJoin (wd_Nodes def)).
        length (forwardEdges (wd_Edges def) j) = 1"
    and reg: "\<forall>(s, j) \<in> set paired. validateGatewayRegion s j GatewayTypeBatchSplit paired
       (nodesByID (wd_Nodes def)) (wd_Edges def) = None" by blast
  obtain j where j: "(n_ID n, j) \<in> set paired"
    using all gateway_in_ids[OF assms(3,4)] by (metis map_of_SomeD not_None_eq)
  then obtain m where m: "m \<in> set (wd_Nodes def)" "is_gateway GatewayTypeBatchJoin m" "n_ID m = j"
      "batch_join_target m = n_ID n"
    using pair_joins_Inr(1)[OF p] joinToSplit_iff[OF assms(2)] by auto
  then have ne: "n_ID n \<noteq> []" using req by metis
  have found: "findPairedBatchJoin def (n_ID n) = j"
    unfolding findPairedBatchJoin_def
    by (rule paired_found[OF assms(2) p j])
      (use ne in \<open>auto simp: batch_join_target_def split: option.splits\<close>)
  show "findPairedBatchJoin def (n_ID n) \<in> n_ID ` set (wd_Nodes def)"
    using found m by (metis image_eqI)
  show "closed_region (nodesByID (wd_Nodes def)) (wd_Edges def) (n_ID n)
           (findPairedBatchJoin def (n_ID n))"
    using reg j found by (auto intro: validateGatewayRegion_closed)
  show "length (forwardEdges (wd_Edges def) (findPairedBatchJoin def (n_ID n))) = 1"
    using one gateway_in_ids[OF m(1,2)] found m(3) by simp
qed

lemma validated_parallel_split:
  assumes "ValidateParallelGateways def = None" "distinct (map n_ID (wd_Nodes def))"
    and "n \<in> set (wd_Nodes def)" "is_gateway GatewayTypeParallelSplit n"
  shows "findPairedParallelJoin def (n_ID n) \<in> n_ID ` set (wd_Nodes def)"
    and "closed_region (nodesByID (wd_Nodes def)) (wd_Edges def) (n_ID n)
           (findPairedParallelJoin def (n_ID n))"
proof -
  from ValidateParallelGateways_None[OF assms(1)] obtain paired where
    p: "pair_joins (joinToSplit parallel_join_target GatewayTypeParallelJoin (wd_Nodes def))
       (gateway_ids GatewayTypeParallelSplit (wd_Nodes def)) [] = Inr paired"
    and all: "\<forall>s \<in> set (gateway_ids GatewayTypeParallelSplit (wd_Nodes def)). map_of paired s \<noteq> None"
    and req: "\<forall>n \<in> set (wd_Nodes def). parallel_join_error n = None"
    and reg: "\<forall>(s, j) \<in> set paired. validateGatewayRegion s j GatewayTypeParallelSplit paired
       (nodesByID (wd_Nodes def)) (wd_Edges def) = None" by blast
  obtain j where j: "(n_ID n, j) \<in> set paired"
    using all gateway_in_ids[OF assms(3,4)] by (metis map_of_SomeD not_None_eq)
  then obtain m where m: "m \<in> set (wd_Nodes def)" "is_gateway GatewayTypeParallelJoin m" "n_ID m = j"
      "parallel_join_target m = n_ID n"
    using pair_joins_Inr(1)[OF p] joinToSplit_iff[OF assms(2)] by auto
  then have ne: "n_ID n \<noteq> []"
    using req by (force simp: parallel_join_error_def split: if_splits)
  have found: "findPairedParallelJoin def (n_ID n) = j"
    unfolding findPairedParallelJoin_def
    by (rule paired_found[OF assms(2) p j])
      (use ne in \<open>auto simp: parallel_join_target_def split: option.splits\<close>)
  show "findPairedParallelJoin def (n_ID n) \<in> n_ID ` set (wd_Nodes def)"
    using found m by (metis image_eqI)
  show "closed_region (nodesByID (wd_Nodes def)) (wd_Edges def) (n_ID n)
           (findPairedParallelJoin def (n_ID n))"
    using reg j found by (auto intro: validateGatewayRegion_closed)
qed

section \<open>No path escapes a closed region\<close>

text \<open>A path through the definition's edges, as the interpreter follows them.\<close>

fun is_path :: "Edge list \<Rightarrow> string list \<Rightarrow> bool" where
  "is_path es [] = True"
| "is_path es [x] = True"
| "is_path es (x # y # xs) = ((x, y) \<in> edge_rel es \<and> is_path es (y # xs))"

lemma path_stays_in_region:
  "is_path es (x # xs) \<Longrightarrow> x \<in> region es s j \<Longrightarrow> j \<notin> set xs \<Longrightarrow> y \<in> set (x # xs) \<Longrightarrow> y \<in> region es s j"
proof (induction es "x # xs" arbitrary: x xs rule: is_path.induct)
  case (3 es x y' xs)
  have "y' \<in> region es s j"
    using 3 by (auto simp: region_def reachable_from_def set_forward_graph intro: rtrancl_into_rtrancl)
  then show ?case using 3 by auto
qed simp

lemma region_start: "s \<in> region es s j"
  by (simp add: region_def reachable_from_def)

lemma closed_region_no_escape:
  assumes "closed_region nodes es s j" "is_path es (s # xs)" "j \<notin> set xs"
  shows "\<forall>x \<in> set (s # xs). \<exists>n. nodes x = Some n \<and> n_Type n \<noteq> NodeTypeEnd"
    and "\<exists>y. (last (s # xs), y) \<in> edge_rel es"
    and "(last (s # xs), j) \<in> (edge_rel es)\<^sup>*"
proof -
  have in_region: "x \<in> region es s j" if "x \<in> set (s # xs)" for x
    using path_stays_in_region[OF assms(2) region_start assms(3) that] .
  then show "\<forall>x \<in> set (s # xs). \<exists>n. nodes x = Some n \<and> n_Type n \<noteq> NodeTypeEnd"
    using assms(1) unfolding closed_region_def by blast
  have "last (s # xs) \<in> region es s j"
    by (rule in_region) (rule last_in_set, simp)
  then show "\<exists>y. (last (s # xs), y) \<in> edge_rel es" "(last (s # xs), j) \<in> (edge_rel es)\<^sup>*"
    using assms(1) unfolding closed_region_def by blast+
qed

section \<open>Properties\<close>

text \<open>C5. In a definition accepted by \<open>ValidateBatchGateways\<close>, no path from a BATCH_SPLIT that
  has not reached its paired BATCH_JOIN (the join \<open>findPairedBatchJoin\<close> finds at run time) meets an
  END node or a node that does not exist, gets stuck, or loses the ability to reach the join; and
  the join itself has exactly one way out.\<close>

theorem batch_region_no_escape:
  assumes "ValidateBatchGateways def = None" and "distinct (map n_ID (wd_Nodes def))"
    and "n \<in> set (wd_Nodes def)" and "is_gateway GatewayTypeBatchSplit n"
    and "j = findPairedBatchJoin def (n_ID n)"
    and "is_path (wd_Edges def) (n_ID n # xs)" and "j \<notin> set xs"
  shows "(\<forall>x \<in> set (n_ID n # xs).
            \<exists>m. nodesByID (wd_Nodes def) x = Some m \<and> n_Type m \<noteq> NodeTypeEnd) \<and>
         (\<exists>y. (last (n_ID n # xs), y) \<in> edge_rel (wd_Edges def)) \<and>
         (last (n_ID n # xs), j) \<in> (edge_rel (wd_Edges def))\<^sup>* \<and>
         length (forwardEdges (wd_Edges def) j) = 1"
  using closed_region_no_escape[OF validated_batch_split(2)[OF assms(1-4)]]
    validated_batch_split(3)[OF assms(1-4)] assms(5-7)
  by simp

text \<open>C6. The same containment for a PARALLEL_SPLIT of a definition accepted by
  \<open>ValidateParallelGateways\<close>, and its region is entered at the split only while its join is
  entered from the region only.\<close>

theorem parallel_region_contained:
  assumes "ValidateParallelGateways def = None" and "distinct (map n_ID (wd_Nodes def))"
    and "n \<in> set (wd_Nodes def)" and "is_gateway GatewayTypeParallelSplit n"
    and "j = findPairedParallelJoin def (n_ID n)"
    and "is_path (wd_Edges def) (n_ID n # xs)" and "j \<notin> set xs"
  shows "(\<forall>x \<in> set (n_ID n # xs).
            (\<exists>m. nodesByID (wd_Nodes def) x = Some m \<and> n_Type m \<noteq> NodeTypeEnd) \<and>
            (x \<noteq> n_ID n \<longrightarrow>
               (\<forall>p. (p, x) \<in> edge_rel (wd_Edges def) \<longrightarrow> p \<in> region (wd_Edges def) (n_ID n) j))) \<and>
         (last (n_ID n # xs), j) \<in> (edge_rel (wd_Edges def))\<^sup>* \<and>
         (\<forall>p. (p, j) \<in> edge_rel (wd_Edges def) \<longrightarrow> p \<in> region (wd_Edges def) (n_ID n) j)"
proof -
  have closed: "closed_region (nodesByID (wd_Nodes def)) (wd_Edges def) (n_ID n) j"
    using validated_parallel_split(2)[OF assms(1-4)] assms(5) by simp
  have "x \<in> region (wd_Edges def) (n_ID n) j" if "x \<in> set (n_ID n # xs)" for x
    using path_stays_in_region[OF assms(6) region_start assms(7) that] .
  then show ?thesis
    using closed closed_region_no_escape[OF closed assms(6,7)] unfolding closed_region_def by blast
qed

end
