(* ===== verification/Sub_Graph.thy ===== *)
theory Sub_Graph
  imports Gateway_Validate
begin

text \<open>
  \<open>extractSubGraph\<close> (\<open>batch_gateway.go\<close>): the definition a branch runs as its own child workflow,
  the nodes reachable from the branch's first node up to the join, wrapped between a synthetic
  START and a synthetic END. The lemmas show that the result passes the edge check every
  execution starts with, so that a branch never fails for want of a node.
\<close>

definition batch_start_id :: string where "batch_start_id = ''_batch_start''"
definition batch_end_id :: string where "batch_end_id = ''_batch_end''"

text \<open>The closure \<open>walk\<close> returns at once on the stop node, so no edge leads into it.\<close>

definition sub_reachable :: "WorkflowDefinition \<Rightarrow> string \<Rightarrow> string \<Rightarrow> string list" where
  "sub_reachable def startNodeID stopNodeID =
     (if startNodeID = stopNodeID then []
      else dfs_walk (forward_graph (wd_Edges def) stopNodeID) [startNodeID] [])"

definition sub_edge :: "string list \<Rightarrow> string \<Rightarrow> Edge \<Rightarrow> Edge list" where
  "sub_edge reachable stopNodeID edge =
     (if e_SourceID edge \<notin> set reachable then []
      else if e_TargetID edge = stopNodeID
      then [\<lparr>e_ID = e_ID edge @ ''_to_end'', e_SourceID = e_SourceID edge,
             e_TargetID = batch_end_id, e_Condition = e_Condition edge\<rparr>]
      else if e_TargetID edge \<in> set reachable then [edge] else [])"

definition sub_edges :: "string list \<Rightarrow> string \<Rightarrow> Edge list \<Rightarrow> Edge list" where
  "sub_edges reachable stopNodeID es = concat (map (sub_edge reachable stopNodeID) es)"

definition extractSubGraph :: "WorkflowDefinition \<Rightarrow> string \<Rightarrow> string \<Rightarrow> WorkflowDefinition" where
  "extractSubGraph def startNodeID stopNodeID =
     (let reachable = sub_reachable def startNodeID stopNodeID;
          entryTargetID = (if startNodeID = stopNodeID then batch_end_id else startNodeID)
      in \<lparr>wd_ID = wd_ID def @ ''_batch_'' @ startNodeID,
          wd_Name = wd_Name def @ '' (batch sub-graph)'',
          wd_Version = 0,
          wd_Nodes =
            plain_node batch_start_id NodeTypeStart #
            filter (\<lambda>n. n_ID n \<in> set reachable) (wd_Nodes def) @
            [plain_node batch_end_id NodeTypeEnd],
          wd_Edges =
            \<lparr>e_ID = ''_batch_e_start'', e_SourceID = batch_start_id,
             e_TargetID = entryTargetID, e_Condition = []\<rparr> #
            sub_edges reachable stopNodeID (wd_Edges def)\<rparr>)"

text \<open>The edge check \<open>GraphInterpreterWorkflow\<close> makes before anything runs.\<close>

definition edges_resolved :: "WorkflowDefinition \<Rightarrow> bool" where
  "edges_resolved def =
     (\<forall>e \<in> set (wd_Edges def).
        e_SourceID e \<in> set (map n_ID (wd_Nodes def)) \<and> e_TargetID e \<in> set (map n_ID (wd_Nodes def)))"

lemma sub_reachable_region:
  "s \<noteq> j \<Longrightarrow> set (sub_reachable def s j) = region (wd_Edges def) s j"
  by (simp add: sub_reachable_def dfs_reachable region_def)

lemma sub_reachable_nodes:
  assumes "edges_resolved def" "s \<in> n_ID ` set (wd_Nodes def)"
  shows "set (sub_reachable def s j) \<subseteq> n_ID ` set (wd_Nodes def)"
proof (cases "s = j")
  case False
  have "x \<in> n_ID ` set (wd_Nodes def)" if "(s, x) \<in> (set (forward_graph (wd_Edges def) j))\<^sup>*" for x
    using that
  proof (induction rule: rtrancl_induct)
    case base
    show ?case by (rule assms(2))
  next
    case (step y z)
    then obtain e where "e \<in> set (wd_Edges def)" "e_TargetID e = z"
      by (auto simp: set_forward_graph edge_rel_def)
    with assms(1) show ?case by (auto simp: edges_resolved_def)
  qed
  then show ?thesis
    by (auto simp: sub_reachable_region[OF False] region_def reachable_from_def)
qed (simp add: sub_reachable_def)

lemma sub_edges_targets:
  assumes "e \<in> set (sub_edges rs j es)"
  shows "e_SourceID e \<in> set rs \<and> (e_TargetID e \<in> set rs \<or> e_TargetID e = batch_end_id)"
  using assms by (auto simp: sub_edges_def sub_edge_def split: if_splits)

lemma extractSubGraph_resolved:
  assumes "edges_resolved def" "s \<in> n_ID ` set (wd_Nodes def)"
  shows "edges_resolved (extractSubGraph def s j)"
proof -
  let ?rs = "sub_reachable def s j"
  have sub: "set ?rs \<subseteq> n_ID ` set (wd_Nodes def)"
    by (rule sub_reachable_nodes[OF assms])
  have ids: "n_ID ` set (wd_Nodes (extractSubGraph def s j)) =
      {batch_start_id, batch_end_id} \<union> set ?rs"
    using sub by (auto simp: extractSubGraph_def Let_def plain_node_def)
  have entry: "s \<noteq> j \<Longrightarrow> s \<in> set ?rs"
    by (simp add: sub_reachable_region region_start)
  show ?thesis
    unfolding edges_resolved_def set_map ids
    using entry
    by (auto simp: extractSubGraph_def Let_def dest: sub_edges_targets)
qed

lemma sub_edges_I: "e \<in> set es \<Longrightarrow> e' \<in> set (sub_edge rs j e) \<Longrightarrow> e' \<in> set (sub_edges rs j es)"
  by (auto simp: sub_edges_def)

lemma sub_edges_redirect:
  "e \<in> set es \<Longrightarrow> e_SourceID e \<in> set rs \<Longrightarrow> e_TargetID e = j \<Longrightarrow>
   \<lparr>e_ID = e_ID e @ ''_to_end'', e_SourceID = e_SourceID e,
    e_TargetID = batch_end_id, e_Condition = e_Condition e\<rparr> \<in> set (sub_edges rs j es)"
  by (erule sub_edges_I) (simp add: sub_edge_def)

lemma sub_edges_keep:
  "e \<in> set es \<Longrightarrow> e_SourceID e \<in> set rs \<Longrightarrow> e_TargetID e \<noteq> j \<Longrightarrow> e_TargetID e \<in> set rs \<Longrightarrow>
   e \<in> set (sub_edges rs j es)"
  by (erule sub_edges_I) (simp add: sub_edge_def)

lemma extractSubGraph_edges:
  "e \<in> set (sub_edges (sub_reachable def s j) j (wd_Edges def)) \<Longrightarrow>
   e \<in> set (wd_Edges (extractSubGraph def s j))"
  by (simp add: extractSubGraph_def Let_def)

text \<open>In a closed region every edge of a region node is kept, redirected to the synthetic END
  when it leads to the join, so a branch has the same choices it had in the whole graph.\<close>

lemma extractSubGraph_complete:
  assumes e: "e \<in> set (wd_Edges def)" "e_SourceID e \<in> set (sub_reachable def s j)"
  shows "\<exists>e' \<in> set (wd_Edges (extractSubGraph def s j)).
           e_SourceID e' = e_SourceID e \<and> e_Condition e' = e_Condition e \<and>
           e_TargetID e' = (if e_TargetID e = j then batch_end_id else e_TargetID e)"
proof (cases "e_TargetID e = j")
  case True
  show ?thesis
    by (rule bexI[OF _ extractSubGraph_edges[OF sub_edges_redirect[OF e True]]]) (simp add: True)
next
  case False
  have ne: "s \<noteq> j" using e(2) by (auto simp: sub_reachable_def)
  have "(e_SourceID e, e_TargetID e) \<in> set (forward_graph (wd_Edges def) j)"
    using e(1) False by (auto simp: set_forward_graph edge_rel_def)
  then have "e_TargetID e \<in> set (sub_reachable def s j)"
    using e(2) by (auto simp: sub_reachable_region[OF ne] region_def reachable_from_def
        intro: rtrancl_into_rtrancl)
  then show ?thesis
    by (intro bexI[OF _ extractSubGraph_edges[OF sub_edges_keep[OF e False]]]) (simp_all add: False)
qed

section \<open>Properties\<close>

text \<open>C9. The definition \<open>extractSubGraph\<close> builds for a branch is well formed whenever the parent's
  is: every edge has both ends among the nodes. It keeps exactly the nodes reachable from the
  branch's first node without entering the join (plus the synthetic START and END), and every
  edge of such a node survives with its condition, redirected to END when it led to the join.\<close>

theorem extractSubGraph_correct:
  assumes "edges_resolved def" and "s \<in> n_ID ` set (wd_Nodes def)" and "s \<noteq> j"
  shows "edges_resolved (extractSubGraph def s j) \<and>
         n_ID ` set (wd_Nodes (extractSubGraph def s j)) =
           {batch_start_id, batch_end_id} \<union> region (wd_Edges def) s j \<and>
         (\<forall>e. e \<in> set (wd_Edges def) \<and> e_SourceID e \<in> region (wd_Edges def) s j \<longrightarrow>
            (\<exists>e' \<in> set (wd_Edges (extractSubGraph def s j)).
               e_SourceID e' = e_SourceID e \<and> e_Condition e' = e_Condition e \<and>
               e_TargetID e' = (if e_TargetID e = j then batch_end_id else e_TargetID e)))"
proof -
  have "set (sub_reachable def s j) \<subseteq> n_ID ` set (wd_Nodes def)"
    by (rule sub_reachable_nodes[OF assms(1,2)])
  then have "n_ID ` set (wd_Nodes (extractSubGraph def s j)) =
      {batch_start_id, batch_end_id} \<union> region (wd_Edges def) s j"
    by (auto simp: extractSubGraph_def Let_def plain_node_def sub_reachable_region[OF assms(3)])
  then show ?thesis
    using extractSubGraph_resolved[OF assms(1,2)] extractSubGraph_complete[of _ def s j]
    by (simp add: sub_reachable_region[OF assms(3)])
qed

end
