(* ===== verification/Child_Id.thy ===== *)
theory Child_Id
  imports Prelude "HOL-Library.Word"
begin

unbundle bit_operations_syntax

text \<open>
  \<open>FormatChildWorkflowID\<close> (\<open>utils.go\<close>) and what it uses of the standard library: SHA-256 on byte
  strings (\<open>crypto/sha256\<close>, FIPS 180-4) and \<open>hex.EncodeToString\<close>. Words are kept at 32 bits, so
  the additions of the compression function wrap as in Go.
\<close>

section \<open>SHA-256\<close>

type_synonym w32 = "32 word"

definition rotr :: "nat \<Rightarrow> w32 \<Rightarrow> w32" where
  "rotr n x = drop_bit n x OR push_bit (32 - n) x"

text \<open>The two tables of FIPS 180-4, in decimal.\<close>

definition sha_k :: "w32 list" where
  "sha_k =
    [1116352408, 1899447441, 3049323471, 3921009573, 961987163, 1508970993, 2453635748, 2870763221,
     3624381080, 310598401, 607225278, 1426881987, 1925078388, 2162078206, 2614888103, 3248222580,
     3835390401, 4022224774, 264347078, 604807628, 770255983, 1249150122, 1555081692, 1996064986,
     2554220882, 2821834349, 2952996808, 3210313671, 3336571891, 3584528711, 113926993, 338241895,
     666307205, 773529912, 1294757372, 1396182291, 1695183700, 1986661051, 2177026350, 2456956037,
     2730485921, 2820302411, 3259730800, 3345764771, 3516065817, 3600352804, 4094571909, 275423344,
     430227734, 506948616, 659060556, 883997877, 958139571, 1322822218, 1537002063, 1747873779,
     1955562222, 2024104815, 2227730452, 2361852424, 2428436474, 2756734187, 3204031479, 3329325298]"

definition sha_init :: "w32 list" where
  "sha_init =
    [1779033703, 3144134277, 1013904242, 2773480762, 1359893119, 2600822924, 528734635, 1541459225]"

text \<open>The message schedule, newest word first.\<close>

primrec schedule :: "nat \<Rightarrow> w32 list \<Rightarrow> w32 list" where
  "schedule 0 w = w"
| "schedule (Suc n) w =
     (let x = w ! 14; y = w ! 1;
          s0 = rotr 7 x XOR rotr 18 x XOR drop_bit 3 x;
          s1 = rotr 17 y XOR rotr 19 y XOR drop_bit 10 y
      in schedule n ((w ! 15 + s0 + w ! 6 + s1) # w))"

fun sha_round :: "w32 \<times> w32 \<Rightarrow> w32 list \<Rightarrow> w32 list" where
  "sha_round (k, w) [a, b, c, d, e, f, g, h] =
     (let s1 = rotr 6 e XOR rotr 11 e XOR rotr 25 e;
          ch = (e AND f) XOR (NOT e AND g);
          t1 = h + s1 + ch + k + w;
          s0 = rotr 2 a XOR rotr 13 a XOR rotr 22 a;
          maj = (a AND b) XOR (a AND c) XOR (b AND c)
      in [t1 + s0 + maj, a, b, c, d + t1, e, f, g])"
| "sha_round kw hs = hs"

definition sha_block :: "w32 list \<Rightarrow> w32 list \<Rightarrow> w32 list" where
  "sha_block hs w = map2 (+) hs (fold sha_round (zip sha_k (rev (schedule 48 (rev w)))) hs)"

definition be_word :: "nat list \<Rightarrow> w32" where
  "be_word bs = word_of_nat (foldl (\<lambda>acc b. acc * 256 + b) 0 bs)"

definition be_bytes :: "nat \<Rightarrow> nat \<Rightarrow> nat list" where
  "be_bytes n x = map (\<lambda>i. x div 256 ^ (n - 1 - i) mod 256) [0..<n]"

definition sha_pad :: "nat list \<Rightarrow> nat list" where
  "sha_pad bs = bs @ [128] @ replicate ((119 - length bs mod 64) mod 64) 0 @ be_bytes 8 (8 * length bs)"

text \<open>Consecutive groups of \<open>n\<close>; the first argument bounds their number.\<close>

primrec chunks :: "nat \<Rightarrow> nat \<Rightarrow> 'a list \<Rightarrow> 'a list list" where
  "chunks 0 n xs = []"
| "chunks (Suc m) n xs = take n xs # chunks m n (drop n xs)"

definition Sum256 :: "string \<Rightarrow> nat list" where
  "Sum256 s =
     (let bs = sha_pad (map of_char s);
          hs = fold (\<lambda>blk hs. sha_block hs (map be_word (chunks 16 4 blk))) (chunks (length bs div 64) 64 bs) sha_init
      in concat (map (\<lambda>h. be_bytes 4 (unat h)) hs))"

section \<open>Hexadecimal\<close>

definition hex_digit :: "nat \<Rightarrow> char" where
  "hex_digit n = (if n < 10 then digit_char n else char_of (87 + n))"

definition EncodeToString :: "nat list \<Rightarrow> string" where
  "EncodeToString bs = concat (map (\<lambda>b. [hex_digit (b div 16), hex_digit (b mod 16)]) bs)"

section \<open>Child workflow IDs\<close>

definition maxWorkflowIDLen :: nat where "maxWorkflowIDLen = 255"
definition childIDSuffixLen :: nat where "childIDSuffixLen = 2 + 16"
definition maxPrefixForChildID :: nat where "maxPrefixForChildID = maxWorkflowIDLen - childIDSuffixLen"

definition boundPrefixForChildID :: "string \<Rightarrow> string" where
  "boundPrefixForChildID caseID =
     (if length caseID \<le> maxPrefixForChildID then caseID
      else let suffix = EncodeToString (take 4 (Sum256 caseID));
               keep = maxPrefixForChildID - length suffix - 1
           in take keep caseID @ ''~'' @ suffix)"

definition FormatChildWorkflowID :: "string \<Rightarrow> string \<Rightarrow> string \<Rightarrow> string \<Rightarrow> string" where
  "FormatChildWorkflowID caseID parentWorkflowID nodeID branchID =
     boundPrefixForChildID caseID @ ''--'' @
     EncodeToString (take 8 (Sum256 (parentWorkflowID @ ''|'' @ nodeID @ ''|'' @ branchID)))"

section \<open>Lengths\<close>

lemma length_EncodeToString [simp]: "length (EncodeToString bs) = 2 * length bs"
  by (induction bs) (simp_all add: EncodeToString_def)

lemma length_sha_round [simp]: "length (sha_round kw hs) = length hs"
  by (induction kw hs rule: sha_round.induct) (simp_all add: Let_def)

lemma length_fold_round [simp]: "length (fold sha_round kws hs) = length hs"
  by (induction kws arbitrary: hs) simp_all

lemma length_sha_block [simp]: "length (sha_block hs w) = length hs"
  by (simp add: sha_block_def)

lemma length_fold_block [simp]: "length (fold (\<lambda>blk hs. sha_block hs (g blk)) blks hs) = length hs"
  by (induction blks arbitrary: hs) simp_all

lemma length_Sum256 [simp]: "length (Sum256 s) = 32"
proof -
  have "length (concat (map (\<lambda>h. be_bytes 4 (unat h)) hs)) = 4 * length hs" for hs :: "w32 list"
    by (induction hs) (simp_all add: be_bytes_def)
  then show ?thesis by (simp add: Sum256_def Let_def sha_init_def)
qed

lemma length_boundPrefix: "length (boundPrefixForChildID caseID) \<le> maxPrefixForChildID"
  by (simp add: boundPrefixForChildID_def maxPrefixForChildID_def maxWorkflowIDLen_def
      childIDSuffixLen_def Let_def)

section \<open>Properties\<close>

text \<open>A child workflow ID fits Temporal's 255-byte column however long the case ID is, its hash
  suffix is 16 characters after the separator, and a case ID within the budget is kept whole in
  front of it.\<close>

theorem FormatChildWorkflowID_bounded:
  "length (FormatChildWorkflowID caseID parent node branch) \<le> maxWorkflowIDLen \<and>
   (\<exists>pre h. FormatChildWorkflowID caseID parent node branch = pre @ ''--'' @ h \<and> length h = 16 \<and>
      pre = (if length caseID \<le> maxPrefixForChildID then caseID else boundPrefixForChildID caseID))"
proof -
  have "length (boundPrefixForChildID caseID) + 18 \<le> 255"
    using length_boundPrefix[of caseID]
    by (simp add: maxPrefixForChildID_def maxWorkflowIDLen_def childIDSuffixLen_def)
  moreover have "boundPrefixForChildID caseID = caseID" if "length caseID \<le> maxPrefixForChildID"
    using that by (simp add: boundPrefixForChildID_def)
  ultimately show ?thesis
    by (simp add: FormatChildWorkflowID_def maxWorkflowIDLen_def)
qed

end
