(* ===== verification/Engine_State.thy ===== *)
theory Engine_State
  imports Parallel_Merge Sub_Graph Child_Id
begin

text \<open>
  The state of \<open>graphInterpreter\<close> (\<open>workflow.go\<close>) and everything that reacts to the outside while
  the interpreter coroutine is blocked: the CompleteActivation and ForceParkActivation updates
  (\<open>completion.go\<close>), the admin-resolution dispatcher and the park notification
  (\<open>admin_recovery.go\<close>), signals, results of Activities, timers and children, and cancellation.

  What happens outside is a list of events, the \<open>is_inbox\<close>: every theorem holds for every list.
  A blocking call takes events from the inbox, lets the handler coroutines react to each, and
  returns as soon as what it waits for is there; when the inbox runs out the result is
  \<open>Waiting\<close>, with the state in which the workflow is blocked. \<open>is_log\<close> records, newest first, the
  commands the workflow issues (Activities, children, signals, update replies) and the mints
  of activation IDs.
\<close>

section \<open>Events, commands, state\<close>

record TaskResult =
  tr_Suspended :: bool
  tr_Output :: "vars option"

datatype event =
    EvComplete string "vars option"
  | EvForcePark string string
  | EvAdmin AdminResolutionSignal
  | EvAdminFailed string wferr
  | EvSignal string "vars option"
  | EvBroadcast string BroadcastMessage
  | EvTask string "wferr + TaskResult"
  | EvSettled string "wferr option"
  | EvNotified string "wferr option"
  | EvFetched string string "wferr + WorkflowDefinition"
  | EvChildStarted string string "wferr option"
  | EvChild string string "wferr + vars option"
  | EvCancel

record ActivationRef =
  rf_NodeID :: string
  rf_Seq :: nat
  rf_ManifestVersion :: int

text \<open>The run ID is not modelled: the model follows one run of one execution.\<close>

record AdminParkPayload =
  ap_WorkflowID :: string
  ap_CaseID :: string
  ap_ManifestVersion :: int
  ap_NodeID :: string
  ap_ActivationID :: string
  ap_Seq :: nat
  ap_NodeType :: NodeType
  ap_TaskTemplateID :: string
  ap_Cause :: LastErrorText
  ap_ParkCategory :: "ParkCategory option"
  ap_InputMapping :: "(string \<times> string) list"
  ap_OutputMapping :: "(string \<times> string) list"
  ap_CachedTaskResult :: "vars option"

datatype command =
    LMint string nat string
  | LTask string string vars string ActivationRef
  | LCompleted string vars nat
  | LPark AdminParkPayload
  | LFetch string int
  | LChild string string WorkflowDefinition vars
  | LEmit string string BroadcastMessage
  | LRebroadcast string string vars
  | LCancelChild string
  | LTimer string int
  | LReply string bool

record istate =
  is_instance :: WorkflowInstance
  is_edgeTokens :: "string \<Rightarrow> nat"
  is_seq :: nat
  is_pendingAdmin :: "string list"
  is_pendingCompletions :: "string list"
  is_adminSettled :: "string \<Rightarrow> (wferr + AdminResolutionSignal) option"
  is_completed :: "string \<Rightarrow> (wferr + vars option) option"
  is_notifying :: "(string \<times> string) list"
  is_signals :: "string \<Rightarrow> vars option list"
  is_broadcasts :: "string \<Rightarrow> BroadcastMessage list"
  is_tasks :: "string \<Rightarrow> (wferr + TaskResult) option"
  is_settled :: "string \<Rightarrow> wferr option option"
  is_fetched :: "string \<times> string \<Rightarrow> (wferr + WorkflowDefinition) option"
  is_started :: "string \<times> string \<Rightarrow> wferr option option"
  is_children :: "string \<times> string \<Rightarrow> (wferr + vars option) option"
  is_cancelled :: bool
  is_inbox :: "event list"
  is_log :: "command list"

text \<open>A future settles once: the first value stays.\<close>

definition settle :: "'k \<Rightarrow> 'v \<Rightarrow> ('k \<Rightarrow> 'v option) \<Rightarrow> 'k \<Rightarrow> 'v option" where
  "settle k v m = (case m k of None \<Rightarrow> m(k \<mapsto> v) | Some _ \<Rightarrow> m)"

section \<open>Access and primitive updates\<close>

definition vars_of :: "istate \<Rightarrow> vars" where
  "vars_of s = wi_WorkflowVariables (is_instance s)"

definition set_vars :: "vars \<Rightarrow> istate \<Rightarrow> istate" where
  "set_vars vs s = s\<lparr>is_instance := (is_instance s)\<lparr>wi_WorkflowVariables := vs\<rparr>\<rparr>"

definition node_info :: "istate \<Rightarrow> string \<Rightarrow> NodeInfo option" where
  "node_info s i = wi_NodeInfo (is_instance s) i"

definition upd_info :: "string \<Rightarrow> (NodeInfo \<Rightarrow> NodeInfo) \<Rightarrow> istate \<Rightarrow> istate" where
  "upd_info i f s = s\<lparr>is_instance := (is_instance s)
     \<lparr>wi_NodeInfo := (\<lambda>k. if k = i then map_option f (wi_NodeInfo (is_instance s) i)
                           else wi_NodeInfo (is_instance s) k)\<rparr>\<rparr>"

definition set_status :: "string \<Rightarrow> NodeStatus \<Rightarrow> istate \<Rightarrow> istate" where
  "set_status i st = upd_info i (\<lambda>ni. ni\<lparr>ni_Status := st\<rparr>)"

definition audit :: "AuditEntry \<Rightarrow> istate \<Rightarrow> istate" where
  "audit a s = s\<lparr>is_instance := (is_instance s)\<lparr>wi_AuditTrail := wi_AuditTrail (is_instance s) @ [a]\<rparr>\<rparr>"

definition issue :: "command \<Rightarrow> istate \<Rightarrow> istate" where
  "issue c s = s\<lparr>is_log := c # is_log s\<rparr>"

definition cached_result :: "istate \<Rightarrow> string \<Rightarrow> vars option" where
  "cached_result s i = (case node_info s i of Some ni \<Rightarrow> ni_CachedTaskResult ni | None \<Rightarrow> None)"

definition activation_of :: "istate \<Rightarrow> string \<Rightarrow> string" where
  "activation_of s i = (case node_info s i of Some ni \<Rightarrow> ni_ActivationID ni | None \<Rightarrow> [])"

definition seq_of :: "istate \<Rightarrow> string \<Rightarrow> nat" where
  "seq_of s i = (case node_info s i of Some ni \<Rightarrow> ni_Seq ni | None \<Rightarrow> 0)"

section \<open>Updates and signals\<close>

definition ForcedParkErrorType :: string where
  "ForcedParkErrorType = ''AdminForcedPark''"

definition activationNotPendingErrorType :: string where
  "activationNotPendingErrorType = ''ActivationNotPending''"

definition activationNotPending :: "string \<Rightarrow> wferr" where
  "activationNotPending activationID =
     ApplicationErr activationNotPendingErrorType
       (''step '' @ activationID @ '' is not waiting to be completed'') None"

definition validatePendingCompletion :: "istate \<Rightarrow> string \<Rightarrow> wferr option" where
  "validatePendingCompletion s activationID =
     (if activationID \<in> set (is_pendingCompletions s) then None
      else Some (activationNotPending activationID))"

text \<open>The update handlers, validator first: a rejected update changes nothing but the reply, an
  accepted one takes the step out of \<open>pendingCompletions\<close> and settles its future.\<close>

definition deliver :: "string \<Rightarrow> wferr + vars option \<Rightarrow> istate \<Rightarrow> istate" where
  "deliver activationID value s =
     (case validatePendingCompletion s activationID of
        Some e \<Rightarrow> issue (LReply activationID False) s
      | None \<Rightarrow>
          issue (LReply activationID True)
            (s\<lparr>is_pendingCompletions := removeAll activationID (is_pendingCompletions s),
               is_completed := settle activationID value (is_completed s)\<rparr>))"

definition handleCompleteActivation :: "string \<Rightarrow> vars option \<Rightarrow> istate \<Rightarrow> istate" where
  "handleCompleteActivation activationID out = deliver activationID (Inr out)"

definition handleForceParkActivation :: "string \<Rightarrow> string \<Rightarrow> istate \<Rightarrow> istate" where
  "handleForceParkActivation activationID reason =
     deliver activationID (Inl (CategorizedErr ParkCategoryAdminForced
       (Errorf ''forced park by admin'' [ForcedParkErrorType, reason])))"

text \<open>One turn of the loop of \<open>startAdminResolutionDispatcher\<close>; it has returned once the context is
  cancelled.\<close>

definition dispatchAdminResolution :: "AdminResolutionSignal \<Rightarrow> istate \<Rightarrow> istate" where
  "dispatchAdminResolution sig s =
     (if is_cancelled s then s
      else if ar_ActivationID sig \<in> set (is_pendingAdmin s)
      then s\<lparr>is_adminSettled := settle (ar_ActivationID sig) (Inr sig) (is_adminSettled s),
             is_pendingAdmin := removeAll (ar_ActivationID sig) (is_pendingAdmin s)\<rparr>
      else s)"

text \<open>The end of the coroutine of \<open>notifyAdminPark\<close>: a failure is recorded on the audit trail, then
  the returned future settles.\<close>

definition finishNotify :: "string \<Rightarrow> wferr option \<Rightarrow> istate \<Rightarrow> istate" where
  "finishNotify activationID err s =
     (case map_of (is_notifying s) activationID of
        None \<Rightarrow> s
      | Some nodeID \<Rightarrow>
          (case err of None \<Rightarrow> s | Some e \<Rightarrow> audit (AuditNotifyFailed nodeID e) s)
            \<lparr>is_notifying := filter (\<lambda>(a, _). a \<noteq> activationID) (is_notifying s)\<rparr>)"

definition handle_event :: "event \<Rightarrow> istate \<Rightarrow> istate" where
  "handle_event ev s =
     (case ev of
        EvComplete a out \<Rightarrow> handleCompleteActivation a out s
      | EvForcePark a reason \<Rightarrow> handleForceParkActivation a reason s
      | EvAdmin sig \<Rightarrow> dispatchAdminResolution sig s
      | EvAdminFailed a e \<Rightarrow> s\<lparr>is_adminSettled := settle a (Inl e) (is_adminSettled s)\<rparr>
      | EvSignal name data \<Rightarrow> s\<lparr>is_signals := (is_signals s)(name := is_signals s name @ [data])\<rparr>
      | EvBroadcast name msg \<Rightarrow> s\<lparr>is_broadcasts := (is_broadcasts s)(name := is_broadcasts s name @ [msg])\<rparr>
      | EvTask a r \<Rightarrow> s\<lparr>is_tasks := settle a r (is_tasks s)\<rparr>
      | EvSettled a r \<Rightarrow> s\<lparr>is_settled := settle a r (is_settled s)\<rparr>
      | EvNotified a r \<Rightarrow> finishNotify a r s
      | EvFetched a t r \<Rightarrow> s\<lparr>is_fetched := settle (a, t) r (is_fetched s)\<rparr>
      | EvChildStarted a c r \<Rightarrow> s\<lparr>is_started := settle (a, c) r (is_started s)\<rparr>
      | EvChild a c r \<Rightarrow> s\<lparr>is_children := settle (a, c) r (is_children s)\<rparr>
      | EvCancel \<Rightarrow> s\<lparr>is_cancelled := True\<rparr>)"

lemmas [event_defs] = handle_event_def handleCompleteActivation_def handleForceParkActivation_def deliver_def
  issue_def dispatchAdminResolution_def finishNotify_def audit_def

lemmas [prim_defs] = set_vars_def audit_def issue_def upd_info_def

section \<open>Blocking\<close>

datatype 'a run = Done 'a istate | Waiting istate | OutOfFuel

fun bind_run :: "'a run \<Rightarrow> ('a \<Rightarrow> istate \<Rightarrow> 'b run) \<Rightarrow> 'b run" where
  "bind_run (Done x s) f = f x s"
| "bind_run (Waiting s) f = Waiting s"
| "bind_run OutOfFuel f = OutOfFuel"

fun wait_loop :: "(istate \<Rightarrow> 'a option) \<Rightarrow> event list \<Rightarrow> istate \<Rightarrow> 'a run" where
  "wait_loop ready evs s =
     (case ready s of
        Some x \<Rightarrow> Done x (s\<lparr>is_inbox := evs\<rparr>)
      | None \<Rightarrow>
          (case evs of
             [] \<Rightarrow> Waiting (s\<lparr>is_inbox := []\<rparr>)
           | ev # evs' \<Rightarrow> wait_loop ready evs' (handle_event ev s)))"

declare wait_loop.simps [simp del]

definition wait_for :: "(istate \<Rightarrow> 'a option) \<Rightarrow> istate \<Rightarrow> 'a run" where
  "wait_for ready s = wait_loop ready (is_inbox s) s"

end
