(* ===== verification/Go_Time.thy ===== *)
theory Go_Time
  imports Prelude
begin

text \<open>
  \<open>time.ParseDuration\<close>, which the TIMER node uses: a sign, then one or more decimal numbers each with
  a unit. Durations are nanoseconds. The value of a fraction is computed exactly where Go uses a
  \<open>float64\<close>; the overflow checks against \<open>2^63\<close> are the library's.
\<close>

definition is_digit :: "char \<Rightarrow> bool" where
  "is_digit c = (CHR ''0'' \<le> c \<and> c \<le> CHR ''9'')"

definition unit_ns :: "string \<Rightarrow> nat option" where
  "unit_ns u = map_of
     [(''ns'', 1), (''us'', 1000), ([CHR 0xC2, CHR 0xB5, CHR ''s''], 1000),
      ([CHR 0xCE, CHR 0xBC, CHR ''s''], 1000), (''ms'', 1000000), (''s'', 1000000000),
      (''m'', 60000000000), (''h'', 3600000000000)] u"

text \<open>One \<open>number unit\<close> group: the value in nanoseconds and the rest of the text.\<close>

definition duration_group :: "string \<Rightarrow> (nat \<times> string) option" where
  "duration_group s =
     (let pre = takeWhile is_digit s;
          s1 = dropWhile is_digit s;
          dot = (s1 \<noteq> [] \<and> hd s1 = CHR ''.'');
          post = (if dot then takeWhile is_digit (tl s1) else []);
          s2 = (if dot then dropWhile is_digit (tl s1) else s1);
          u = takeWhile (\<lambda>c. c \<noteq> CHR ''.'' \<and> \<not> is_digit c) s2
      in if (pre = [] \<and> post = []) \<or> decimal_value pre > 2 ^ 63 then None
         else case unit_ns u of
                None \<Rightarrow> None
              | Some n \<Rightarrow>
                  (let v = decimal_value pre * n + decimal_value post * n div 10 ^ length post
                   in if decimal_value pre > 2 ^ 63 div n \<or> v > 2 ^ 63 then None
                      else Some (v, drop (length u) s2)))"

primrec duration_groups :: "nat \<Rightarrow> string \<Rightarrow> nat \<Rightarrow> nat option" where
  "duration_groups 0 s d = None"
| "duration_groups (Suc k) s d =
     (if s = [] then Some d
      else case duration_group s of
             None \<Rightarrow> None
           | Some (v, rest) \<Rightarrow> if d + v > 2 ^ 63 then None else duration_groups k rest (d + v))"

definition ParseDuration :: "string \<Rightarrow> int option" where
  "ParseDuration s =
     (let signed = (s \<noteq> [] \<and> (hd s = CHR ''-'' \<or> hd s = CHR ''+''));
          neg = (signed \<and> hd s = CHR ''-'');
          t = (if signed then tl s else s)
      in if t = ''0'' then Some 0
         else if t = [] then None
         else case duration_groups (Suc (length t)) t 0 of
                None \<Rightarrow> None
              | Some d \<Rightarrow> if neg then Some (- int d) else if d > 2 ^ 63 - 1 then None else Some (int d))"

text \<open>A group that is read is not empty, so the bound \<open>length + 1\<close> on the number of groups never cuts
  the loop short: with it or with any larger bound the result is the same.\<close>

lemma duration_group_shorter: "duration_group s = Some (v, rest) \<Longrightarrow> length rest < length s"
proof -
  assume a: "duration_group s = Some (v, rest)"
  define s1 where "s1 = dropWhile is_digit s"
  define s2 where "s2 = (if s1 \<noteq> [] \<and> hd s1 = CHR ''.'' then dropWhile is_digit (tl s1) else s1)"
  define u where "u = takeWhile (\<lambda>c. c \<noteq> CHR ''.'' \<and> \<not> is_digit c) s2"
  have "unit_ns u \<noteq> None" "rest = drop (length u) s2"
    using a unfolding duration_group_def Let_def s1_def[symmetric] s2_def[symmetric]
    by (auto simp: s2_def[symmetric] u_def[symmetric] split: if_splits option.splits)
  moreover have "unit_ns [] = None" by (simp add: unit_ns_def)
  ultimately have u: "u \<noteq> []" "rest = drop (length u) s2" by auto
  then have "s2 \<noteq> []" by (auto simp: u_def)
  with u have "length rest < length s2" by (cases s2; cases u) auto
  moreover have "length s2 \<le> length s"
    using length_dropWhile_le[of is_digit "tl s1"] length_dropWhile_le[of is_digit s]
    by (auto simp: s2_def s1_def)
  ultimately show ?thesis by simp
qed

lemma duration_groups_fuel:
  "length s < k \<Longrightarrow> length s < m \<Longrightarrow> duration_groups k s d = duration_groups m s d"
proof (induction k arbitrary: s d m)
  case (Suc k)
  obtain m' where m: "m = Suc m'" using Suc.prems by (cases m) auto
  show ?case
    using Suc.prems Suc.IH[of _ m'] duration_group_shorter[of s]
    by (fastforce simp: m split: option.split)
qed simp

end
