(* ===== verification/Engine_Nodes.thy ===== *)
theory Engine_Nodes
  imports Engine_State Go_Time
begin

text \<open>
  The node handlers of \<open>workflow.go\<close> and \<open>signaling.go\<close>: START, TIMER, END, TASK, SIGNALING and the
  exclusive gateways, with input and output mapping. A handler takes the continuation
  \<open>exec\<close> (\<open>executeNode\<close>, see \<open>Engine_Run\<close>) and returns the Go error, \<open>None\<close> for nil.
\<close>

text \<open>
  What the interpreter gets from outside \<open>src/\<close>: the condition language, the JSON encoding and
  \<open>%v\<close> rendering of composite values, UUIDv5 in the engine's namespace, the order in which Go
  ranges over a map with the given keys, the text of an error, and whether the execution has a
  parent workflow.
\<close>

record env =
  en_run_expr :: cond_eval
  en_marshal :: "jval \<Rightarrow> wferr + string"
  en_fmt :: "jval \<Rightarrow> string"
  en_uuid :: "string \<Rightarrow> string"
  en_range :: "string list \<Rightarrow> string list"
  en_err_text :: "wferr \<Rightarrow> string"
  en_top :: bool

type_synonym handler = "istate \<Rightarrow> wferr option run"
type_synonym exec = "string \<Rightarrow> handler"

section \<open>Indexes and transitions\<close>

definition out_edges :: "WorkflowDefinition \<Rightarrow> string \<Rightarrow> Edge list" where
  "out_edges def i = filter (\<lambda>e. e_SourceID e = i) (wd_Edges def)"

definition in_edges :: "WorkflowDefinition \<Rightarrow> string \<Rightarrow> Edge list" where
  "in_edges def i = filter (\<lambda>e. e_TargetID e = i) (wd_Edges def)"

definition findStartNode :: "WorkflowDefinition \<Rightarrow> Node option" where
  "findStartNode def = find (\<lambda>n. n_Type n = NodeTypeStart) (wd_Nodes def)"

definition transitionTo :: "exec \<Rightarrow> Edge \<Rightarrow> handler" where
  "transitionTo exec edge s =
     exec (e_TargetID edge) (s\<lparr>is_edgeTokens := (is_edgeTokens s)(e_ID edge := is_edgeTokens s (e_ID edge) + 1)\<rparr>)"

text \<open>\<open>if len(outEdges) > 0 { return g.transitionTo(ctx, outEdges[0]) }; return nil\<close>.\<close>

definition follow_first :: "exec \<Rightarrow> Edge list \<Rightarrow> handler" where
  "follow_first exec edges s =
     (case edges of [] \<Rightarrow> Done None s | e # _ \<Rightarrow> transitionTo exec e s)"

definition newActivationID :: "(string \<Rightarrow> string) \<Rightarrow> string \<Rightarrow> string \<Rightarrow> nat \<Rightarrow> string" where
  "newActivationID uuid_sha1 workflowID nodeID seq = uuid_sha1 (workflowID @ '':'' @ nodeID @ '':'' @ itoa seq)"

definition mintActivation :: "env \<Rightarrow> string \<Rightarrow> istate \<Rightarrow> istate" where
  "mintActivation env nodeID s =
     (let n = is_seq s + 1;
          act = newActivationID (en_uuid env) (wi_ID (is_instance s)) nodeID n
      in issue (LMint nodeID n act)
           (upd_info nodeID (\<lambda>ni. ni\<lparr>ni_ActivationID := act, ni_Seq := n\<rparr>) (s\<lparr>is_seq := n\<rparr>)))"

definition caseID :: "istate \<Rightarrow> string" where
  "caseID s = (let v = str_var (vars_of s) VarCaseID in if v \<noteq> [] then v else wi_ID (is_instance s))"

definition manifestVersion :: "istate \<Rightarrow> int" where
  "manifestVersion s =
     (case vars_of s VarManifestVersion of
        Some (VInt v) \<Rightarrow> max v 0
      | Some (VFloat v) \<Rightarrow> (if 0 < v \<and> v = of_int \<lfloor>v\<rfloor> \<and> v < 2 ^ 63 then \<lfloor>v\<rfloor> else 0)
      | _ \<Rightarrow> 0)"

section \<open>Mappings\<close>

fun input_loop :: "vars \<Rightarrow> (string \<times> string) list \<Rightarrow> vars \<Rightarrow> string list \<Rightarrow> vars \<times> string list" where
  "input_loop workflowVars [] dst missing = (dst, missing)"
| "input_loop workflowVars ((rawGlobalKey, target) # ms) dst missing =
     (let (globalKey, optional) = parseMappingKey rawGlobalKey
      in case GetNestedKey workflowVars globalKey of
           None \<Rightarrow> input_loop workflowVars ms dst (if optional then missing else missing @ [globalKey])
         | Some val \<Rightarrow> input_loop workflowVars ms (SetNestedKey dst target val) missing)"

definition applyInputMapping :: "vars \<Rightarrow> vars \<Rightarrow> (string \<times> string) list \<Rightarrow> wferr option \<times> vars" where
  "applyInputMapping workflowVars dst inputMapping =
     (case input_loop workflowVars (sorted_entries inputMapping) dst [] of
        (dst', missing) \<Rightarrow>
          (if missing = [] then None
           else withCategory ParkCategoryInputMapping
             (Some (Errorf ''input mapping error: not found in workflow variables'' [describeVariables missing])),
           dst'))"

definition mapTaskInputs :: "vars \<Rightarrow> (string \<times> string) list \<Rightarrow> wferr + vars" where
  "mapTaskInputs workflowVars inputMapping =
     (case applyInputMapping workflowVars empty_map inputMapping of
        (Some e, _) \<Rightarrow> Inl e
      | (None, inputs) \<Rightarrow> Inr inputs)"

fun output_loop ::
  "vars \<Rightarrow> (string \<times> string) list \<Rightarrow> (string \<times> jval) list \<Rightarrow> string list \<Rightarrow> (string \<times> jval) list \<times> string list" where
  "output_loop result [] writes missing = (writes, missing)"
| "output_loop result ((rawTaskKey, globalKey) # ms) writes missing =
     (let (taskKey, optional) = parseMappingKey rawTaskKey
      in case GetNestedKey result taskKey of
           None \<Rightarrow> output_loop result ms writes (if optional then missing else missing @ [taskKey])
         | Some val \<Rightarrow> output_loop result ms (writes @ [(globalKey, val)]) missing)"

definition mapTaskOutputs :: "vars \<Rightarrow> (string \<times> string) list \<Rightarrow> vars \<Rightarrow> wferr option \<times> vars" where
  "mapTaskOutputs workflowVars outputMapping result =
     (if outputMapping = [] then (None, workflowVars)
      else case output_loop result (sorted_entries outputMapping) [] [] of
        (writes, missing) \<Rightarrow>
          if missing \<noteq> []
          then (withCategory ParkCategoryOutputMapping
             (Some (Errorf ''output mapping error: not found in task result'' [describeVariables missing])), workflowVars)
          else (None, fold (\<lambda>(globalKey, val) vs. SetNestedKey vs globalKey val) writes workflowVars))"

section \<open>START, TIMER, END\<close>

definition def_err :: "string \<Rightarrow> string list \<Rightarrow> wferr option" where
  "def_err msg args = withCategory ParkCategoryDefinitionError (Some (Errorf msg args))"

definition handleStartNode :: "exec \<Rightarrow> string \<Rightarrow> Edge list \<Rightarrow> handler" where
  "handleStartNode exec nodeID outEdges s =
     (case outEdges of
        [] \<Rightarrow> Done (def_err ''START node has no outgoing edges'' []) s
      | e # _ \<Rightarrow> transitionTo exec e (set_status nodeID NodeStatusCompleted s))"

text \<open>\<open>asInt\<close>; an \<open>int\<close> is 64 bits wide. A \<open>float64\<close> is truncated toward zero (a value outside the
  range of \<open>int\<close>, where Go leaves the result to the implementation, wraps here).\<close>

definition wrap64 :: "int \<Rightarrow> int" where
  "wrap64 i = (i + 2 ^ 63) mod 2 ^ 64 - 2 ^ 63"

definition asInt :: "jval \<Rightarrow> int" where
  "asInt v =
     (case v of
        VInt n \<Rightarrow> n
      | VFloat r \<Rightarrow> wrap64 (if 0 \<le> r then \<lfloor>r\<rfloor> else - \<lfloor>- r\<rfloor>)
      | _ \<Rightarrow> 0)"

definition timer_counter_key :: "Node \<Rightarrow> TimerConfig \<Rightarrow> string" where
  "timer_counter_key node cfg = (if tm_CounterKey cfg = [] then n_ID node @ ''.iterations'' else tm_CounterKey cfg)"

definition handleTimerNode :: "exec \<Rightarrow> Node \<Rightarrow> Edge list \<Rightarrow> handler" where
  "handleTimerNode exec node outEdges s =
     (case n_Timer node of
        None \<Rightarrow> Done (def_err ''timer.duration is required'' [n_ID node]) s
      | Some cfg \<Rightarrow>
          if tm_Duration cfg = [] then Done (def_err ''timer.duration is required'' [n_ID node]) s
          else case ParseDuration (tm_Duration cfg) of
            None \<Rightarrow> Done (def_err ''invalid timer.duration'' [n_ID node, tm_Duration cfg]) s
          | Some d \<Rightarrow>
              if d \<le> 0 then Done (def_err ''timer.duration must be positive'' [n_ID node]) s
              else if length outEdges \<noteq> 1
              then Done (def_err ''expected exactly 1 outgoing edge'' [n_ID node, itoa (length outEdges)]) s
              else
                (let key = timer_counter_key node cfg;
                     iterations = (case GetNestedKey (vars_of s) key of
                                     Some prev \<Rightarrow> wrap64 (asInt prev + 1) | None \<Rightarrow> 1);
                     act = activation_of s (n_ID node);
                     s1 = issue (LTimer act d) (audit (AuditTimer (n_ID node) d iterations)
                            (set_vars (SetNestedKey (vars_of s) key (VInt iterations)) s))
                 in bind_run (wait_for (\<lambda>s. is_settled s act) s1) (\<lambda>err s2.
                      case err of
                        Some e \<Rightarrow> Done (Some e) s2
                      | None \<Rightarrow> transitionTo exec (hd outEdges) (set_status (n_ID node) NodeStatusCompleted s2))))"

definition handleEndNode :: "env \<Rightarrow> string \<Rightarrow> handler" where
  "handleEndNode env nodeID s =
     (if en_top env
      then bind_run (wait_for (\<lambda>s'. is_settled s' (activation_of s nodeID))
                       (issue (LCompleted (wi_ID (is_instance s)) (vars_of s) (seq_of s nodeID)) s)) (\<lambda>err s1.
             case err of
               Some e \<Rightarrow> Done (withCategory ParkCategoryTaskFailure (Some (Wrapf ''unable to complete workflow'' [] e))) s1
             | None \<Rightarrow> Done None (set_status nodeID NodeStatusCompleted s1))
      else Done None (set_status nodeID NodeStatusCompleted s))"

section \<open>TASK\<close>

text \<open>\<open>expectCompletion\<close> followed by \<open>ExecuteActivity\<close>: the step is registered before its Activity starts.\<close>

definition expectCompletion :: "string \<Rightarrow> istate \<Rightarrow> istate" where
  "expectCompletion activationID s =
     s\<lparr>is_pendingCompletions := activationID # is_pendingCompletions s\<rparr>"

definition unregister :: "string \<Rightarrow> istate \<Rightarrow> istate" where
  "unregister activationID s =
     s\<lparr>is_pendingCompletions := removeAll activationID (is_pendingCompletions s)\<rparr>"

definition startTask :: "Node \<Rightarrow> vars \<Rightarrow> istate \<Rightarrow> istate" where
  "startTask node inputs s =
     issue (LTask (activation_of s (n_ID node)) (n_TaskTemplateID node) inputs (caseID s)
              \<lparr>rf_NodeID = n_ID node, rf_Seq = seq_of s (n_ID node), rf_ManifestVersion = manifestVersion s\<rparr>)
       (expectCompletion (activation_of s (n_ID node)) s)"

text \<open>The step's output: the Activity's own, the completion's when the step is suspended, or the error
  of a force-park that arrived while the Activity ran.\<close>

definition awaitTask :: "string \<Rightarrow> istate \<Rightarrow> (wferr + vars option) run" where
  "awaitTask act s =
     bind_run (wait_for (\<lambda>s. is_tasks s act) s) (\<lambda>r s1.
       case r of
         Inl e \<Rightarrow> Done (Inl e) s1
       | Inr tr \<Rightarrow>
           if tr_Suspended tr then wait_for (\<lambda>s. is_completed s act) s1
           else (case is_completed s1 act of
                   Some (Inl e) \<Rightarrow> Done (Inl e) s1
                 | _ \<Rightarrow> Done (Inr (tr_Output tr)) s1))"

definition finishTask :: "exec \<Rightarrow> Node \<Rightarrow> Edge list \<Rightarrow> wferr + vars option \<Rightarrow> handler" where
  "finishTask exec node outEdges res s =
     (case res of
        Inl e \<Rightarrow> Done (if is_cancelled s then Some e else withCategory ParkCategoryTaskFailure (Some e)) s
      | Inr out \<Rightarrow>
          (let result = (case out of Some m \<Rightarrow> m | None \<Rightarrow> empty_map);
               s1 = upd_info (n_ID node) (\<lambda>ni. ni\<lparr>ni_CachedTaskResult := Some result\<rparr>) s
           in case mapTaskOutputs (vars_of s1) (n_OutputMapping node) result of
                (Some e, _) \<Rightarrow> Done (Some e) s1
              | (None, vs) \<Rightarrow>
                  follow_first exec outEdges
                    (upd_info (n_ID node) (\<lambda>ni. ni\<lparr>ni_CachedTaskResult := None, ni_Status := NodeStatusCompleted\<rparr>)
                      (set_vars vs s1))))"

definition handleTaskNode :: "exec \<Rightarrow> Node \<Rightarrow> Edge list \<Rightarrow> handler" where
  "handleTaskNode exec node outEdges s =
     (case mapTaskInputs (vars_of s) (n_InputMapping node) of
        Inl e \<Rightarrow> Done (Some e) s
      | Inr inputs \<Rightarrow>
          (let act = activation_of s (n_ID node)
           in bind_run (awaitTask act (startTask node inputs s)) (\<lambda>res s1.
                finishTask exec node outEdges res (unregister act s1))))"

section \<open>SIGNALING\<close>

definition childBroadcastSignalName :: "string \<Rightarrow> string" where
  "childBroadcastSignalName splitNodeID =
     (if splitNodeID = [] then ChildBroadcastSignalName else ChildBroadcastSignalName @ '':'' @ splitNodeID)"

definition handleSignalingEmit :: "Node \<Rightarrow> SignalingConfig \<Rightarrow> handler" where
  "handleSignalingEmit node cfg s =
     (let parentWorkflowID = str_var (vars_of s) VarParentWorkflowID;
          branchID = str_var (vars_of s) VarBranchID;
          splitNodeID = str_var (vars_of s) VarSplitNodeID;
          act = activation_of s (n_ID node)
      in if parentWorkflowID = [] then Done None s
         else case applyInputMapping (vars_of s) (sg_Payload cfg) (n_InputMapping node) of
           (Some e, _) \<Rightarrow> Done (Some (Wrapf ''SIGNALING EMIT node'' [n_ID node] e)) s
         | (None, payload) \<Rightarrow>
             bind_run (wait_for (\<lambda>s. is_settled s act)
               (issue (LEmit parentWorkflowID (childBroadcastSignalName splitNodeID)
                        \<lparr>bm_SenderBranchID = branchID, bm_SignalName = sg_SignalName cfg, bm_Payload = payload\<rparr>) s))
               (\<lambda>err s1. case err of
                  None \<Rightarrow> Done None s1
                | Some e \<Rightarrow>
                    Done (withCategory ParkCategoryTaskFailure
                            (Some (Wrapf ''failed to send signal to parent'' [n_ID node, parentWorkflowID] e)))
                      (audit (AuditEmitFailed parentWorkflowID e) s1)))"

text \<open>\<open>selector.Select\<close> over the signal channel and \<open>ctx.Done()\<close>: \<open>Some (Some d)\<close> is a received signal,
  \<open>Some None\<close> the cancelled context.\<close>

definition signal_ready :: "string \<Rightarrow> istate \<Rightarrow> vars option option option" where
  "signal_ready name s =
     (case is_signals s name of
        d # _ \<Rightarrow> Some (Some d)
      | [] \<Rightarrow> if is_cancelled s then Some None else None)"

definition ctx_err :: wferr where "ctx_err = ForeignErr ''canceled''"

definition mapSignalData :: "Node \<Rightarrow> vars \<Rightarrow> handler" where
  "mapSignalData node signalData s =
     (case mapTaskOutputs (vars_of s) (n_OutputMapping node) signalData of
        (Some e, _) \<Rightarrow> Done (Some e) s
      | (None, vs) \<Rightarrow>
          Done None (upd_info (n_ID node) (\<lambda>ni. ni\<lparr>ni_CachedTaskResult := None\<rparr>) (set_vars vs s)))"

definition handleSignalingWait :: "Node \<Rightarrow> SignalingConfig \<Rightarrow> handler" where
  "handleSignalingWait node cfg s =
     (case cached_result s (n_ID node) of
        Some signalData \<Rightarrow> mapSignalData node signalData s
      | None \<Rightarrow>
          bind_run (wait_for (signal_ready (sg_SignalName cfg)) s) (\<lambda>received s1.
            case received of
              None \<Rightarrow> Done (Some ctx_err) s1
            | Some d \<Rightarrow>
                (let signalData = (case d of Some m \<Rightarrow> m | None \<Rightarrow> empty_map);
                     s2 = upd_info (n_ID node) (\<lambda>ni. ni\<lparr>ni_CachedTaskResult := Some signalData\<rparr>)
                            (s1\<lparr>is_signals := (is_signals s1)(sg_SignalName cfg := tl (is_signals s1 (sg_SignalName cfg)))\<rparr>)
                 in if is_cancelled s2 then Done (Some ctx_err) s2
                    else mapSignalData node signalData s2)))"

definition handleSignalingNode :: "exec \<Rightarrow> Node \<Rightarrow> Edge list \<Rightarrow> handler" where
  "handleSignalingNode exec node outEdges s =
     (if length outEdges \<noteq> 1
      then Done (def_err ''expected exactly 1 outgoing edge'' [n_ID node, itoa (length outEdges)]) s
      else case n_Signaling node of
        None \<Rightarrow> Done (def_err ''signaling config is required'' [n_ID node]) s
      | Some cfg \<Rightarrow>
          if sg_SignalName cfg = [] then Done (def_err ''signal_name is required'' [n_ID node]) s
          else bind_run
            (case sg_Type cfg of
               SignalingTypeEmit \<Rightarrow> handleSignalingEmit node cfg s
             | SignalingTypeWait \<Rightarrow> handleSignalingWait node cfg s
             | SignalingTypeOther t \<Rightarrow> Done (def_err ''unknown signaling type'' [n_ID node, t]) s)
            (\<lambda>err s1. case err of
               Some e \<Rightarrow> Done (Some e) s1
             | None \<Rightarrow> transitionTo exec (hd outEdges) (set_status (n_ID node) NodeStatusCompleted s1)))"

section \<open>Exclusive gateways\<close>

fun first_match :: "cond_eval \<Rightarrow> vars \<Rightarrow> Edge list \<Rightarrow> wferr + Edge option" where
  "first_match run_expr vs [] = Inr None"
| "first_match run_expr vs (e # es) =
     (case EvaluateCondition run_expr (e_Condition e) vs of
        Inl err \<Rightarrow> Inl err
      | Inr match \<Rightarrow> if match then Inr (Some e) else first_match run_expr vs es)"

definition handleExclusiveSplit :: "env \<Rightarrow> exec \<Rightarrow> Node \<Rightarrow> Edge list \<Rightarrow> handler" where
  "handleExclusiveSplit env exec node outEdges s =
     (case first_match (en_run_expr env) (vars_of s) outEdges of
        Inl err \<Rightarrow> Done (withCategory ParkCategoryGatewayCondition (Some err)) s
      | Inr (Some e) \<Rightarrow> transitionTo exec e (set_status (n_ID node) NodeStatusCompleted s)
      | Inr None \<Rightarrow>
          Done (withCategory ParkCategoryGatewayCondition
                  (Some (Errorf ''no matching conditions found at exclusive gateway'' [n_ID node]))) s)"

definition handleExclusiveJoin :: "exec \<Rightarrow> Node \<Rightarrow> Edge list \<Rightarrow> Edge list \<Rightarrow> handler" where
  "handleExclusiveJoin exec node inEdges outEdges s =
     (case find (\<lambda>e. 0 < is_edgeTokens s (e_ID e)) inEdges of
        None \<Rightarrow> Done (def_err ''exclusive join reached with no incoming token'' [n_ID node]) s
      | Some e \<Rightarrow>
          (let s1 = s\<lparr>is_edgeTokens := (is_edgeTokens s)(e_ID e := is_edgeTokens s (e_ID e) - 1)\<rparr>
           in if length outEdges \<noteq> 1
              then Done (def_err ''exclusive join must have exactly one outgoing edge''
                           [n_ID node, itoa (length outEdges)]) s1
              else transitionTo exec (hd outEdges) (set_status (n_ID node) NodeStatusCompleted s1)))"

lemmas [prim_defs] = unregister_def mintActivation_def startTask_def expectCompletion_def

end
