(* ===== verification/Engine_Split.thy ===== *)
theory Engine_Split
  imports Engine_Nodes
begin

text \<open>
  The nodes that run children: BATCH_SPLIT and BATCH_JOIN (\<open>batch_gateway.go\<close>), PARALLEL_SPLIT and
  PARALLEL_JOIN (\<open>parallel_gateway.go\<close>) and SPLIT_TASK (\<open>dynamic_split.go\<close>). A child is a command
  in the log; its result is an event addressed by the activation that spawned it and its
  workflow ID.
\<close>

section \<open>Children of a gateway\<close>

record child =
  ch_EdgeID :: string
  ch_WorkflowID :: string
  ch_Def :: WorkflowDefinition
  ch_Vars :: vars

definition spawn :: "string \<Rightarrow> child list \<Rightarrow> istate \<Rightarrow> istate" where
  "spawn act cs s = fold (\<lambda>c. issue (LChild act (ch_WorkflowID c) (ch_Def c) (ch_Vars c))) cs s"

definition record_children :: "string \<Rightarrow> string list \<Rightarrow> istate \<Rightarrow> istate" where
  "record_children nodeID ids = upd_info nodeID (\<lambda>ni. ni\<lparr>ni_ChildWorkflowIDs := sort ids\<rparr>)"

text \<open>Awaiting the children in order, up to the first result that \<open>stop\<close> turns down.\<close>

fun await_children ::
  "string \<Rightarrow> ((string \<times> (wferr + vars option)) list \<Rightarrow> bool) \<Rightarrow> child list \<Rightarrow>
   (string \<times> (wferr + vars option)) list \<Rightarrow> istate \<Rightarrow> (string \<times> (wferr + vars option)) list run" where
  "await_children act stop [] acc s = Done acc s"
| "await_children act stop (c # cs) acc s =
     bind_run (wait_for (\<lambda>s. is_children s (act, ch_WorkflowID c)) s) (\<lambda>r s1.
       (let acc' = acc @ [(ch_EdgeID c, r)]
        in if stop acc' then Done acc' s1 else await_children act stop cs acc' s1))"

definition skipToJoinOutEdge :: "WorkflowDefinition \<Rightarrow> exec \<Rightarrow> string \<Rightarrow> handler" where
  "skipToJoinOutEdge def exec joinNodeID s =
     follow_first exec (out_edges def joinNodeID) (set_status joinNodeID NodeStatusCompleted s)"

section \<open>BATCH_SPLIT and BATCH_JOIN\<close>

definition batchChildVariables :: "vars \<Rightarrow> Node \<Rightarrow> wferr + vars" where
  "batchChildVariables workflowVars node =
     (case applyInputMapping workflowVars (\<lambda>k. if has_prefix k ''_'' then workflowVars k else None)
             (n_InputMapping node) of
        (Some e, _) \<Rightarrow> Inl e
      | (None, base) \<Rightarrow> Inr base)"

definition batch_children ::
  "WorkflowDefinition \<Rightarrow> string \<Rightarrow> string \<Rightarrow> string \<Rightarrow> string \<Rightarrow> string \<Rightarrow> string \<Rightarrow> vars \<Rightarrow>
   batchPartition list \<Rightarrow> child list" where
  "batch_children def case_id wfID nodeID joinNodeID scopePath itemsVar baseVars ps =
     map (\<lambda>p. let edgeID = e_ID (bp_Edge p) in
            \<lparr>ch_EdgeID = edgeID,
             ch_WorkflowID = FormatChildWorkflowID case_id wfID nodeID edgeID,
             ch_Def = extractSubGraph def (e_TargetID (bp_Edge p)) joinNodeID,
             ch_Vars = (SetNestedKey baseVars itemsVar (VList (toAnySlice (bp_Items p))))
                         (VarScopePath \<mapsto> VStr (scopePath @ ''/'' @ nodeID @ ''/'' @ edgeID))\<rparr>)
       (filter (\<lambda>p. bp_Items p \<noteq> []) (sort_key (\<lambda>p. e_ID (bp_Edge p)) ps))"

definition batch_items_var :: "Node \<Rightarrow> string" where
  "batch_items_var node =
     (case n_BatchGateway node of
        Some c \<Rightarrow> (if bg_ItemsVariable c = [] then DefaultItemsVariable else bg_ItemsVariable c)
      | None \<Rightarrow> DefaultItemsVariable)"

definition batch_id_field :: "Node \<Rightarrow> string" where
  "batch_id_field node =
     (case n_BatchGateway node of
        Some c \<Rightarrow> (if bg_IDField c = [] then DefaultIDField else bg_IDField c)
      | None \<Rightarrow> DefaultIDField)"

definition scope_path :: "vars \<Rightarrow> string" where
  "scope_path vs = (let p = str_var vs VarScopePath in if p = [] then ''root'' else p)"

definition scope_depth :: "string \<Rightarrow> nat" where
  "scope_depth p = length (filter (\<lambda>c. c = CHR ''/'') p) div 2"

text \<open>Steps 7 and 8 of \<open>handleBatchSplitGateway\<close>, with the children's results at hand.\<close>

definition finish_batch ::
  "env \<Rightarrow> WorkflowDefinition \<Rightarrow> exec \<Rightarrow> Node \<Rightarrow> string \<Rightarrow> item list \<Rightarrow> nat \<Rightarrow>
   (string \<times> (wferr + vars option)) list \<Rightarrow> handler" where
  "finish_batch env def exec node joinNodeID items partitions results s =
     (case collectAndMergeBatchResults results items (batch_items_var node) (batch_id_field node) (n_ID node) of
        Inl e \<Rightarrow> Done (Some e) s
      | Inr (mergedItems, childVars) \<Rightarrow>
          (case setBatchOutputs (en_marshal env) node childVars
                  (SetNestedKey (vars_of s) (batch_items_var node) (VList mergedItems)) of
             (Some e, vs) \<Rightarrow> Done (Some e) (set_vars vs s)
           | (None, vs) \<Rightarrow>
               skipToJoinOutEdge def exec joinNodeID
                 (set_status (n_ID node) NodeStatusCompleted
                   (audit (AuditBatchSplit (n_ID node) (length items) partitions) (set_vars vs s)))))"

definition run_batch ::
  "env \<Rightarrow> WorkflowDefinition \<Rightarrow> exec \<Rightarrow> Node \<Rightarrow> Edge list \<Rightarrow> string \<Rightarrow> item list \<Rightarrow> handler" where
  "run_batch env def exec node outEdges joinNodeID items s =
     (let itemsVar = batch_items_var node; idField = batch_id_field node;
          scopePath = scope_path (vars_of s); act = activation_of s (n_ID node)
      in case check_item_ids idField [] items of
           Some e \<Rightarrow> Done (Some e) s
         | None \<Rightarrow>
      if scope_depth scopePath \<ge> DefaultMaxBatchDepth
      then Done (def_err ''maximum batch nesting depth exceeded'' [n_ID node, scopePath]) s
      else case partitionItems (en_run_expr env) items outEdges (vars_of s) (n_ID node) idField of
           Inl e \<Rightarrow> Done (Some e) s
         | Inr ps \<Rightarrow>
      (case batchChildVariables (vars_of s) node of
           Inl e \<Rightarrow> Done (Some e) s
         | Inr baseVars \<Rightarrow>
             (let cs = batch_children def (caseID s) (wi_ID (is_instance s)) (n_ID node) joinNodeID scopePath
                         itemsVar baseVars ps
              in bind_run
                   (await_children act (\<lambda>acc. isl (collect_children itemsVar idField (n_ID node) acc [] [])) cs []
                      (record_children (n_ID node) (map ch_WorkflowID cs) (spawn act cs s)))
                   (finish_batch env def exec node joinNodeID items (length ps)))))"

definition handleBatchSplitGateway ::
  "env \<Rightarrow> WorkflowDefinition \<Rightarrow> exec \<Rightarrow> Node \<Rightarrow> Edge list \<Rightarrow> handler" where
  "handleBatchSplitGateway env def exec node outEdges s =
     (case GetNestedKey (vars_of s) (batch_items_var node) of
        None \<Rightarrow> Done (withCategory ParkCategorySplitData
                       (Some (Errorf ''items variable not found in workflow variables'' [n_ID node, batch_items_var node]))) s
      | Some itemsRaw \<Rightarrow>
          (case toItemSlice itemsRaw of
             Inl e \<Rightarrow> Done (withCategory ParkCategorySplitData (Some (Wrapf ''BATCH_SPLIT'' [n_ID node] e))) s
           | Inr items \<Rightarrow>
               (let joinNodeID = findPairedBatchJoin def (n_ID node)
                in if joinNodeID = [] then Done (def_err ''no paired BATCH_JOIN found'' [n_ID node]) s
                   else if items = []
                   then (case setBatchOutputs (en_marshal env) node [] (vars_of s) of
                           (Some e, vs) \<Rightarrow> Done (Some e) (set_vars vs s)
                         | (None, vs) \<Rightarrow>
                             skipToJoinOutEdge def exec joinNodeID
                               (set_status (n_ID node) NodeStatusCompleted (set_vars vs s)))
                   else run_batch env def exec node outEdges joinNodeID items s)))"

definition handleBatchJoinGateway :: "exec \<Rightarrow> Node \<Rightarrow> Edge list \<Rightarrow> handler" where
  "handleBatchJoinGateway exec node outEdges s =
     (let target = (case n_BatchJoin node of Some c \<Rightarrow> bj_GatewayNodeID c | None \<Rightarrow> [])
      in if target = [] then Done (def_err ''batch_join.gateway_node_id is required'' [n_ID node]) s
         else follow_first exec outEdges
                (audit (AuditBatchJoin (n_ID node) target) (set_status (n_ID node) NodeStatusCompleted s)))"

section \<open>PARALLEL_SPLIT and PARALLEL_JOIN\<close>

fun matched_edges :: "cond_eval \<Rightarrow> vars \<Rightarrow> Edge list \<Rightarrow> wferr + string list" where
  "matched_edges run_expr vs [] = Inr []"
| "matched_edges run_expr vs (e # es) =
     (case EvaluateCondition run_expr (e_Condition e) vs of
        Inl err \<Rightarrow> Inl err
      | Inr match \<Rightarrow>
          (case matched_edges run_expr vs es of
             Inl err \<Rightarrow> Inl err
           | Inr ids \<Rightarrow> Inr (if match then e_ID e # ids else ids)))"

definition edgeByID :: "Edge list \<Rightarrow> string \<Rightarrow> Edge option" where
  "edgeByID es = map_of (rev (map (\<lambda>e. (e_ID e, e)) es))"

definition parallel_children ::
  "WorkflowDefinition \<Rightarrow> string \<Rightarrow> string \<Rightarrow> string \<Rightarrow> string \<Rightarrow> vars \<Rightarrow> Edge list \<Rightarrow> string list \<Rightarrow> child list" where
  "parallel_children def case_id wfID nodeID joinNodeID baseVars outEdges ids =
     map (\<lambda>edgeID.
            \<lparr>ch_EdgeID = edgeID,
             ch_WorkflowID = FormatChildWorkflowID case_id wfID nodeID edgeID,
             ch_Def = extractSubGraph def
                        (case edgeByID outEdges edgeID of Some e \<Rightarrow> e_TargetID e | None \<Rightarrow> []) joinNodeID,
             ch_Vars = deepcopy_Map baseVars\<rparr>) (sort ids)"

fun branch_vars :: "string \<Rightarrow> (string \<times> (wferr + vars option)) list \<Rightarrow> wferr + vars list" where
  "branch_vars nodeID [] = Inr []"
| "branch_vars nodeID ((edgeID, r) # rs) =
     (case r of
        Inl e \<Rightarrow> Inl (categorize ParkCategoryChildFailure (Wrapf ''PARALLEL_SPLIT branch failed'' [nodeID, edgeID] e))
      | Inr None \<Rightarrow> Inl (categorize ParkCategoryChildFailure
                          (Errorf ''PARALLEL_SPLIT branch returned nil output'' [nodeID, edgeID]))
      | Inr (Some vs) \<Rightarrow> (case branch_vars nodeID rs of Inl e \<Rightarrow> Inl e | Inr vss \<Rightarrow> Inr (vs # vss)))"

definition merge_config :: "WorkflowDefinition \<Rightarrow> string \<Rightarrow> (string \<times> string) list" where
  "merge_config def joinNodeID =
     (case nodesByID (wd_Nodes def) joinNodeID of
        Some n \<Rightarrow> (case n_ParallelJoin n of Some c \<Rightarrow> pj_MergeByID c | None \<Rightarrow> [])
      | None \<Rightarrow> [])"

definition finish_parallel ::
  "env \<Rightarrow> WorkflowDefinition \<Rightarrow> exec \<Rightarrow> Node \<Rightarrow> string \<Rightarrow> vars \<Rightarrow>
   (string \<times> (wferr + vars option)) list \<Rightarrow> handler" where
  "finish_parallel env def exec node joinNodeID baseVars results s =
     (case branch_vars (n_ID node) results of
        Inl e \<Rightarrow> Done (Some e) s
      | Inr branchVars \<Rightarrow>
          (case mergeParallelBranches (en_fmt env) baseVars branchVars (merge_config def joinNodeID) of
             Inl e \<Rightarrow> Done (withCategory ParkCategorySplitData
                             (Some (Wrapf ''PARALLEL_SPLIT merge failed'' [n_ID node] e))) s
           | Inr mergedVars \<Rightarrow>
               skipToJoinOutEdge def exec joinNodeID
                 (set_status (n_ID node) NodeStatusCompleted
                   (audit (AuditParallelSplit (n_ID node) (length results)) (set_vars mergedVars s)))))"

definition handleParallelSplitGateway ::
  "env \<Rightarrow> WorkflowDefinition \<Rightarrow> exec \<Rightarrow> Node \<Rightarrow> Edge list \<Rightarrow> handler" where
  "handleParallelSplitGateway env def exec node outEdges s =
     (let joinNodeID = findPairedParallelJoin def (n_ID node); act = activation_of s (n_ID node)
      in if joinNodeID = [] then Done (def_err ''no paired PARALLEL_JOIN found'' [n_ID node]) s
         else case matched_edges (en_run_expr env) (vars_of s) outEdges of
           Inl err \<Rightarrow> Done (withCategory ParkCategoryGatewayCondition (Some err)) s
         | Inr ids \<Rightarrow>
             if ids = []
             then skipToJoinOutEdge def exec joinNodeID (set_status (n_ID node) NodeStatusCompleted s)
             else
               (let cs = parallel_children def (caseID s) (wi_ID (is_instance s)) (n_ID node) joinNodeID
                           (deepcopy_Map (vars_of s)) outEdges ids
                in bind_run
                     (await_children act (\<lambda>acc. isl (branch_vars (n_ID node) acc)) cs []
                        (record_children (n_ID node) (map ch_WorkflowID cs) (spawn act cs s)))
                     (finish_parallel env def exec node joinNodeID (deepcopy_Map (vars_of s)))))"

definition handleParallelJoinGateway :: "exec \<Rightarrow> Node \<Rightarrow> Edge list \<Rightarrow> handler" where
  "handleParallelJoinGateway exec node outEdges s =
     (let target = (case n_ParallelJoin node of Some c \<Rightarrow> pj_GatewayNodeID c | None \<Rightarrow> [])
      in if target = [] then Done (def_err ''parallel_join.gateway_node_id is required'' [n_ID node]) s
         else follow_first exec outEdges
                (audit (AuditParallelJoin (n_ID node) target) (set_status (n_ID node) NodeStatusCompleted s)))"

section \<open>SPLIT_TASK\<close>

definition resolveBranchesData :: "jval \<Rightarrow> string \<Rightarrow> wferr + jval list" where
  "resolveBranchesData itemsRaw itemsVarName =
     (case itemsRaw of
        VNull \<Rightarrow> Inr []
      | VList vs \<Rightarrow> Inr vs
      | VMaps ms \<Rightarrow> Inr (map VMap ms)
      | _ \<Rightarrow> Inl (categorize ParkCategorySplitData
                   (Errorf ''items variable is not a valid list type'' [itemsVarName])))"

record preparedBranch =
  pb_TemplateID :: string
  pb_BranchID :: string
  pb_Payload :: "vars option"
  pb_Index :: nat

fun prepare_branches ::
  "Node \<Rightarrow> SplitTaskConfig \<Rightarrow> nat \<Rightarrow> string list \<Rightarrow> jval list \<Rightarrow> wferr + preparedBranch list" where
  "prepare_branches node config i branchIDs [] = Inr []"
| "prepare_branches node config i branchIDs (itemRaw # rest) =
     (case ParseSplitTaskItem itemRaw of
        Inl e \<Rightarrow> Inl (categorize ParkCategorySplitData (Wrapf ''invalid layout'' [itoa i] e))
      | Inr item \<Rightarrow>
          (let templateID = (if st_Mode config = SplitModeDifferentTemplates then sti_TemplateID item
                             else n_TaskTemplateID node);
               branchID = (if st_Mode config = SplitModeSameTemplate then sti_BranchID item @ ''-'' @ itoa i
                           else sti_BranchID item)
           in if templateID = [] \<or> branchID = []
              then Inl (categorize ParkCategorySplitData
                     (Errorf ''requires non-empty template_id and branch_id'' [itoa i]))
              else if branchID \<in> set branchIDs
              then Inl (categorize ParkCategorySplitData (Errorf ''branch ID is duplicated'' [branchID]))
              else (case prepare_branches node config (Suc i) (branchID # branchIDs) rest of
                      Inl e \<Rightarrow> Inl e
                    | Inr ps \<Rightarrow>
                        Inr (\<lparr>pb_TemplateID = templateID, pb_BranchID = branchID,
                              pb_Payload = sti_Payload item, pb_Index = i\<rparr> # ps))))"

fun await_fetches ::
  "string \<Rightarrow> string list \<Rightarrow> istate \<Rightarrow> (wferr + (string \<times> WorkflowDefinition) list) run" where
  "await_fetches act [] s = Done (Inr []) s"
| "await_fetches act (templateID # ts) s =
     bind_run (wait_for (\<lambda>s. is_fetched s (act, templateID)) s) (\<lambda>r s1.
       case r of
         Inl e \<Rightarrow> Done (Inl (categorize ParkCategoryDefinitionError
                              (Wrapf ''boundary lifecycle error hydrating definition graph'' [templateID] e))) s1
       | Inr d \<Rightarrow>
           bind_run (await_fetches act ts s1) (\<lambda>rest s2.
             Done (case rest of Inl e \<Rightarrow> Inl e | Inr ds \<Rightarrow> Inr ((templateID, d) # ds)) s2))"

text \<open>Batches of ten are requested together and awaited in order.\<close>

fun fetch_batches ::
  "string \<Rightarrow> string list list \<Rightarrow> istate \<Rightarrow> (wferr + (string \<times> WorkflowDefinition) list) run" where
  "fetch_batches act [] s = Done (Inr []) s"
| "fetch_batches act (b # bs) s =
     bind_run (await_fetches act b (fold (\<lambda>t. issue (LFetch t (manifestVersion s))) b s)) (\<lambda>r s1.
       case r of
         Inl e \<Rightarrow> Done (Inl e) s1
       | Inr ds \<Rightarrow>
           bind_run (fetch_batches act bs s1) (\<lambda>rest s2.
             Done (case rest of Inl e \<Rightarrow> Inl e | Inr ds' \<Rightarrow> Inr (ds @ ds')) s2))"

definition template_batches :: "string list \<Rightarrow> string list list" where
  "template_batches ts = chunks ((length ts + 9) div 10) 10 ts"

definition split_child_vars :: "istate \<Rightarrow> string \<Rightarrow> string \<Rightarrow> preparedBranch \<Rightarrow> vars" where
  "split_child_vars s nodeID iterKey p =
     [VarParentWorkflowID \<mapsto> VStr (wi_ID (is_instance s)), VarCaseID \<mapsto> VStr (caseID s),
      VarManifestVersion \<mapsto> VInt (manifestVersion s), VarSplitNodeID \<mapsto> VStr nodeID,
      VarBranchID \<mapsto> VStr (pb_BranchID p),
      iterKey \<mapsto> VMap [''index'' \<mapsto> VInt (int (pb_Index p)), ''branch_id'' \<mapsto> VStr (pb_BranchID p),
                       ''input'' \<mapsto> (case pb_Payload p of Some m \<Rightarrow> VMap m | None \<Rightarrow> VNull)]]"

record activeBranch =
  ab_BranchID :: string
  ab_Index :: nat

definition empty_def :: WorkflowDefinition where
  "empty_def = \<lparr>wd_ID = [], wd_Name = [], wd_Version = 0, wd_Nodes = [], wd_Edges = []\<rparr>"

definition split_children ::
  "istate \<Rightarrow> string \<Rightarrow> string \<Rightarrow> (string \<times> WorkflowDefinition) list \<Rightarrow> preparedBranch list \<Rightarrow> child list" where
  "split_children s nodeID iterKey defs ps =
     map (\<lambda>p. \<lparr>ch_EdgeID = pb_BranchID p,
               ch_WorkflowID = FormatChildWorkflowID (caseID s) (wi_ID (is_instance s)) nodeID (pb_BranchID p),
               ch_Def = (case map_of defs (pb_TemplateID p) of Some d \<Rightarrow> d | None \<Rightarrow> empty_def),
               ch_Vars = split_child_vars s nodeID iterKey p\<rparr>) ps"

text \<open>\<open>activeBranches\<close>: a later branch with the same workflow ID replaces the earlier one.\<close>

definition active_branches :: "child list \<Rightarrow> preparedBranch list \<Rightarrow> (string \<times> activeBranch) list" where
  "active_branches cs ps =
     (let entries = map2 (\<lambda>c p. (ch_WorkflowID c, \<lparr>ab_BranchID = pb_BranchID p, ab_Index = pb_Index p\<rparr>)) cs ps
      in map (\<lambda>i. (i, the (map_of (rev entries) i))) (first_seen (map fst entries)))"

fun await_starts :: "string \<Rightarrow> child list \<Rightarrow> wferr list \<Rightarrow> istate \<Rightarrow> wferr list run" where
  "await_starts act [] errs s = Done errs s"
| "await_starts act (c # cs) errs s =
     bind_run (wait_for (\<lambda>s. is_started s (act, ch_WorkflowID c)) s) (\<lambda>r s1.
       await_starts act cs
         (case r of None \<Rightarrow> errs
          | Some e \<Rightarrow> errs @ [Wrapf ''failed to start child workflow'' [ch_WorkflowID c] e]) s1)"

text \<open>\<open>spawnChildWorkflows\<close>: the error, if any, and the branches that were spawned (which are returned
  even when some did not start).\<close>

definition spawnChildWorkflows ::
  "env \<Rightarrow> Node \<Rightarrow> SplitTaskConfig \<Rightarrow> jval list \<Rightarrow> string \<Rightarrow> istate \<Rightarrow>
   (wferr option \<times> (string \<times> activeBranch) list) run" where
  "spawnChildWorkflows env node config branchesData iterKey s =
     (let act = activation_of s (n_ID node)
      in case prepare_branches node config 0 [] branchesData of
           Inl e \<Rightarrow> Done (Some e, []) s
         | Inr ps \<Rightarrow>
             bind_run (fetch_batches act (template_batches (first_seen (map pb_TemplateID ps))) s) (\<lambda>r s1.
               case r of
                 Inl e \<Rightarrow> Done (Some e, []) s1
               | Inr defs \<Rightarrow>
                   (let cs = split_children s1 (n_ID node) iterKey defs ps
                    in bind_run (await_starts act cs [] (spawn act cs s1)) (\<lambda>errs s2.
                         Done (if errs = [] then None
                               else Some (categorize ParkCategoryChildFailure
                                      (Errorf ''failed to start child workflows''
                                        (itoa (length errs) # itoa (length ps) # map (en_err_text env) errs))),
                               active_branches cs ps) s2))))"

datatype pick = PickBroadcast BroadcastMessage | PickChild string "wferr + vars option"

text \<open>\<open>selector.Select\<close>: the broadcast channel was added first, then the futures in the order \<open>order\<close>.\<close>

definition monitor_ready ::
  "string \<Rightarrow> string \<Rightarrow> string list \<Rightarrow> (string \<times> activeBranch) list \<Rightarrow> istate \<Rightarrow> pick option" where
  "monitor_ready act channel order active s =
     (case is_broadcasts s channel of
        msg # _ \<Rightarrow> Some (PickBroadcast msg)
      | [] \<Rightarrow>
          (case find (\<lambda>c. c \<in> fst ` set active \<and> is_children s (act, c) \<noteq> None) order of
             Some c \<Rightarrow> map_option (PickChild c) (is_children s (act, c))
           | None \<Rightarrow> None))"

definition rebroadcast :: "BroadcastMessage \<Rightarrow> (string \<times> activeBranch) list \<Rightarrow> istate \<Rightarrow> istate" where
  "rebroadcast msg active s =
     fold (\<lambda>(cid, b) s. if ab_BranchID b \<noteq> bm_SenderBranchID msg
                        then issue (LRebroadcast cid (bm_SignalName msg) (bm_Payload msg)) s else s)
       (sort_key fst active) s"

definition cancel_children :: "(string \<times> activeBranch) list \<Rightarrow> istate \<Rightarrow> istate" where
  "cancel_children active s = fold (\<lambda>cid. issue (LCancelChild cid)) (sort (map fst active)) s"

definition drop_branch :: "string \<Rightarrow> (string \<times> activeBranch) list \<Rightarrow> (string \<times> activeBranch) list" where
  "drop_branch cid active = filter (\<lambda>(c, _). c \<noteq> cid) active"

text \<open>What a finished child adds to \<open>aggregatedResults\<close> and \<open>failedBranchesErrors\<close>. A branch without
  result keeps a nil entry, shown as an empty map.\<close>

definition branch_error :: "string \<Rightarrow> string \<Rightarrow> wferr \<Rightarrow> wferr" where
  "branch_error branchID cid e =
     categorize ParkCategoryChildFailure (Wrapf ''dynamic execution track halted abnormally'' [branchID, cid] e)"

definition branch_result ::
  "env \<Rightarrow> activeBranch \<Rightarrow> wferr + vars option \<Rightarrow> vars list \<Rightarrow> vars list" where
  "branch_result env b r results =
     (case r of
        Inl e \<Rightarrow> results[ab_Index b := [''error'' \<mapsto> VStr (en_err_text env e), ''branch_id'' \<mapsto> VStr (ab_BranchID b)]]
      | Inr (Some vs) \<Rightarrow> results[ab_Index b := vs]
      | Inr None \<Rightarrow> results)"

primrec monitor_loop ::
  "nat \<Rightarrow> env \<Rightarrow> string \<Rightarrow> SplitTaskConfig \<Rightarrow> string \<Rightarrow> string list \<Rightarrow> (string \<times> activeBranch) list \<Rightarrow>
   vars list \<Rightarrow> wferr list \<Rightarrow> istate \<Rightarrow> (wferr option \<times> vars list \<times> wferr list) run" where
  "monitor_loop 0 env act config nodeID order active results failed s = OutOfFuel"
| "monitor_loop (Suc k) env act config nodeID order active results failed s =
     (if active = [] then Done (None, results, failed) s
      else bind_run (wait_for (monitor_ready act (childBroadcastSignalName nodeID) order active) s) (\<lambda>p s1.
        case p of
          PickBroadcast msg \<Rightarrow>
            (let s2 = rebroadcast msg active
                        (s1\<lparr>is_broadcasts := (is_broadcasts s1)(childBroadcastSignalName nodeID :=
                              tl (is_broadcasts s1 (childBroadcastSignalName nodeID)))\<rparr>)
             in monitor_loop k env act config nodeID order active results failed s2)
        | PickChild cid r \<Rightarrow>
            (case map_of active cid of
               None \<Rightarrow> monitor_loop k env act config nodeID order active results failed s1
             | Some b \<Rightarrow>
                 (let active' = drop_branch cid active; results' = branch_result env b r results
                  in case r of
                       Inl e \<Rightarrow>
                         (let err = branch_error (ab_BranchID b) cid e
                          in if st_FailureMode config = FailureModeFailFast
                             then Done (Some err, results', failed @ [err])
                                    (cancel_children active' (set_status nodeID NodeStatusFailed s1))
                             else monitor_loop k env act config nodeID order active' results' (failed @ [err]) s1)
                     | Inr _ \<Rightarrow> monitor_loop k env act config nodeID order active' results' failed s1))))"

text \<open>Every turn of the loop takes a child or a broadcast that is in the inbox or buffered already, so
  this many turns are enough.\<close>

definition monitor_fuel :: "string \<Rightarrow> (string \<times> activeBranch) list \<Rightarrow> istate \<Rightarrow> nat" where
  "monitor_fuel nodeID active s =
     Suc (length active + length (is_inbox s) + length (is_broadcasts s (childBroadcastSignalName nodeID)))"

definition monitorChildWorkflows ::
  "env \<Rightarrow> string \<Rightarrow> SplitTaskConfig \<Rightarrow> string \<Rightarrow> (string \<times> activeBranch) list \<Rightarrow> handler" where
  "monitorChildWorkflows env act config nodeID active s =
     bind_run
       (monitor_loop (monitor_fuel nodeID active s) env act config nodeID (en_range env (map fst active)) active
          (replicate (length active) empty_map) [] s) (\<lambda>(err, results, failed) s1.
       case err of
         Some e \<Rightarrow> Done (Some e) s1
       | None \<Rightarrow>
           (let s2 = (if st_ResultsVariable config \<noteq> []
                      then set_vars (SetNestedKey (vars_of s1) (st_ResultsVariable config) (VMaps results)) s1 else s1)
            in if failed \<noteq> [] \<and> st_FailureMode config = FailureModeCollectAll
               then Done (Some (categorize ParkCategoryChildFailure
                                  (Errorf ''multiple branches failed'' (map (en_err_text env) failed))))
                      (set_status nodeID NodeStatusFailed s2)
               else Done None s2))"

definition handleSplitTaskNode :: "env \<Rightarrow> exec \<Rightarrow> Node \<Rightarrow> Edge list \<Rightarrow> handler" where
  "handleSplitTaskNode env exec node outEdges s =
     (case n_SplitTask node of
        None \<Rightarrow> Done (def_err ''split task configuration is missing'' [n_ID node]) s
      | Some config \<Rightarrow>
          (case GetNestedKey (vars_of s) (st_ItemsVariable config) of
             None \<Rightarrow> Done (withCategory ParkCategorySplitData
                            (Some (Errorf ''items variable not found'' [st_ItemsVariable config]))) s
           | Some itemsRaw \<Rightarrow>
               (case resolveBranchesData itemsRaw (st_ItemsVariable config) of
                  Inl e \<Rightarrow> Done (Some e) s
                | Inr branchesData \<Rightarrow>
                    (let iterKey = (if st_IterationKey config = [] then DefaultIterationKey else st_IterationKey config)
                     in bind_run (spawnChildWorkflows env node config branchesData iterKey s) (\<lambda>(err, active) s1.
                          (let s2 = record_children (n_ID node) (map fst active) s1
                           in case err of
                                Some e \<Rightarrow> Done (Some e) s2
                              | None \<Rightarrow>
                                  bind_run (monitorChildWorkflows env (activation_of s (n_ID node)) config (n_ID node) active s2)
                                    (\<lambda>err s3. case err of
                                       Some e \<Rightarrow> Done (Some e) s3
                                     | None \<Rightarrow> follow_first exec outEdges
                                                 (set_status (n_ID node) NodeStatusCompleted s3))))))))"

end
