(* ===== verification/Engine_Run.thy ===== *)
theory Engine_Run
  imports Engine_Split
begin

text \<open>
  Running a node: dispatch by type, parking a failed node for an admin (\<open>admin_recovery.go\<close>),
  \<open>executeNode\<close> and the workflow entry point \<open>GraphInterpreterWorkflow\<close> (\<open>workflow.go\<close>).
  \<open>executeNode\<close> recurses along the graph, which may have loops: its first argument bounds the depth
  of the recursion, and reaching the bound is the value \<open>OutOfFuel\<close>.
\<close>

section \<open>Dispatch\<close>

definition handleGatewayNode :: "env \<Rightarrow> WorkflowDefinition \<Rightarrow> exec \<Rightarrow> Node \<Rightarrow> Edge list \<Rightarrow> handler" where
  "handleGatewayNode env def exec node outEdges =
     (case n_GatewayType node of
        GatewayTypeExclusiveSplit \<Rightarrow> handleExclusiveSplit env exec node outEdges
      | GatewayTypeParallelSplit \<Rightarrow> handleParallelSplitGateway env def exec node outEdges
      | GatewayTypeParallelJoin \<Rightarrow> handleParallelJoinGateway exec node outEdges
      | GatewayTypeExclusiveJoin \<Rightarrow> handleExclusiveJoin exec node (in_edges def (n_ID node)) outEdges
      | GatewayTypeBatchSplit \<Rightarrow> handleBatchSplitGateway env def exec node outEdges
      | GatewayTypeBatchJoin \<Rightarrow> handleBatchJoinGateway exec node outEdges
      | GatewayTypeOther t \<Rightarrow> Done (def_err ''unknown gateway type'' [t]))"

definition dispatchNodeHandler :: "env \<Rightarrow> WorkflowDefinition \<Rightarrow> exec \<Rightarrow> Node \<Rightarrow> Edge list \<Rightarrow> handler" where
  "dispatchNodeHandler env def exec node outEdges =
     (case n_Type node of
        NodeTypeStart \<Rightarrow> handleStartNode exec (n_ID node) outEdges
      | NodeTypeTask \<Rightarrow> handleTaskNode exec node outEdges
      | NodeTypeGateway \<Rightarrow> handleGatewayNode env def exec node outEdges
      | NodeTypeSplitTask \<Rightarrow> handleSplitTaskNode env exec node outEdges
      | NodeTypeTimer \<Rightarrow> handleTimerNode exec node outEdges
      | NodeTypeSignaling \<Rightarrow> handleSignalingNode exec node outEdges
      | NodeTypeEnd \<Rightarrow> handleEndNode env (n_ID node)
      | NodeTypeOther t \<Rightarrow> Done (def_err ''unknown node type'' [t]))"

section \<open>Parking\<close>

definition applyVariablesPatch :: "vars \<Rightarrow> (string \<times> jval) list \<Rightarrow> vars" where
  "applyVariablesPatch vs patch = fold (\<lambda>(k, v) vs. SetNestedKey vs k v) (sorted_entries patch) vs"

definition clear_park :: "NodeStatus \<Rightarrow> NodeInfo \<Rightarrow> NodeInfo" where
  "clear_park st ni =
     ni\<lparr>ni_Status := st, ni_LastError := NoError, ni_ParkCategory := None, ni_InputMapping := [],
        ni_OutputMapping := [], ni_CachedTaskResult := None\<rparr>"

definition completeParkedNode :: "exec \<Rightarrow> string \<Rightarrow> Edge list \<Rightarrow> (string \<times> jval) list \<Rightarrow> handler" where
  "completeParkedNode exec nodeID outEdges patch s =
     follow_first exec outEdges
       (upd_info nodeID (clear_park NodeStatusCompleted) (set_vars (applyVariablesPatch (vars_of s) patch) s))"

text \<open>The head of the loop: status, error text, category and mappings are recorded for the admin.\<close>

definition park :: "Node \<Rightarrow> wferr \<Rightarrow> istate \<Rightarrow> istate" where
  "park node cause s =
     (let err = parkedErrorMessage cause (cached_result s (n_ID node))
      in audit (AuditParked (n_ID node) err)
           (upd_info (n_ID node)
              (\<lambda>ni. ni\<lparr>ni_Status := NodeStatusAwaitingAdmin, ni_LastError := err,
                       ni_ParkCategory := Some (categoryOf cause), ni_InputMapping := n_InputMapping node,
                       ni_OutputMapping := n_OutputMapping node\<rparr>) s))"

definition park_payload :: "Node \<Rightarrow> NodeInfo \<Rightarrow> istate \<Rightarrow> AdminParkPayload" where
  "park_payload node ni s =
     \<lparr>ap_WorkflowID = wi_ID (is_instance s), ap_CaseID = caseID s, ap_ManifestVersion = manifestVersion s,
      ap_NodeID = n_ID node, ap_ActivationID = ni_ActivationID ni, ap_Seq = ni_Seq ni, ap_NodeType = n_Type node,
      ap_TaskTemplateID = n_TaskTemplateID node, ap_Cause = ni_LastError ni, ap_ParkCategory = ni_ParkCategory ni,
      ap_InputMapping = ni_InputMapping ni, ap_OutputMapping = ni_OutputMapping ni,
      ap_CachedTaskResult = ni_CachedTaskResult ni\<rparr>"

text \<open>\<open>notifyAdminPark\<close> starts the Activity and returns at once.\<close>

definition notifyAdminPark :: "Node \<Rightarrow> istate \<Rightarrow> istate" where
  "notifyAdminPark node s =
     (case node_info s (n_ID node) of
        None \<Rightarrow> s
      | Some ni \<Rightarrow>
          issue (LPark (park_payload node ni s))
            (s\<lparr>is_notifying := (ni_ActivationID ni, n_ID node) # is_notifying s\<rparr>))"

definition awaitAdminResolution :: "string \<Rightarrow> istate \<Rightarrow> (wferr + AdminResolutionSignal) run" where
  "awaitAdminResolution activationID s =
     bind_run
       (wait_for (\<lambda>s. is_adminSettled s activationID)
          (s\<lparr>is_pendingAdmin := activationID # is_pendingAdmin s,
             is_adminSettled := (is_adminSettled s)(activationID := None)\<rparr>)) (\<lambda>r s1.
       Done r (s1\<lparr>is_pendingAdmin := removeAll activationID (is_pendingAdmin s1)\<rparr>))"

text \<open>\<open>notified.Get\<close>: the notification coroutine has finished.\<close>

definition joinNotify :: "string \<Rightarrow> istate \<Rightarrow> unit run" where
  "joinNotify activationID s =
     wait_for (\<lambda>s. if map_of (is_notifying s) activationID = None then Some () else None) s"

text \<open>The end of the loop body: what one resolution does. \<open>Inl\<close> is a return, \<open>Inr\<close> goes around again with
  that cause.\<close>

definition resolve_parked ::
  "env \<Rightarrow> WorkflowDefinition \<Rightarrow> exec \<Rightarrow> Node \<Rightarrow> Edge list \<Rightarrow> wferr \<Rightarrow> AdminResolutionSignal \<Rightarrow> istate \<Rightarrow>
   (wferr option + wferr) run" where
  "resolve_parked env def exec node outEdges cause sig s =
     (case ar_Action sig of
        AdminActionAbort \<Rightarrow>
          Done (Inl (Some (TerminalAdminErr cause))) (set_status (n_ID node) NodeStatusFailed s)
      | AdminActionComplete \<Rightarrow>
          if n_Type node = NodeTypeGateway then Done (Inr cause) s
          else bind_run (completeParkedNode exec (n_ID node) outEdges (ar_Patch sig) s) (\<lambda>err. Done (Inl err))
      | AdminActionRetry \<Rightarrow>
          (let s1 = upd_info (n_ID node) (clear_park NodeStatusRunning)
                      (set_vars (applyVariablesPatch (vars_of s) (ar_Patch sig)) s)
           in bind_run (dispatchNodeHandler env def exec node outEdges (mintActivation env (n_ID node) s1)) (\<lambda>err s2.
                case err of
                  None \<Rightarrow> Done (Inl None) s2
                | Some retryErr \<Rightarrow>
                    if isTerminalAdminError retryErr then Done (Inl (Some retryErr)) s2
                    else Done (Inr retryErr) s2))
      | AdminActionOther a \<Rightarrow> Done (Inr cause) s)"

primrec park_loop ::
  "nat \<Rightarrow> env \<Rightarrow> WorkflowDefinition \<Rightarrow> exec \<Rightarrow> Node \<Rightarrow> Edge list \<Rightarrow> wferr \<Rightarrow> handler" where
  "park_loop 0 env def exec node outEdges cause s = OutOfFuel"
| "park_loop (Suc k) env def exec node outEdges cause s =
     (let s1 = notifyAdminPark node (park node cause s);
          act = activation_of s1 (n_ID node)
      in bind_run (awaitAdminResolution act s1) (\<lambda>r s2.
         bind_run (joinNotify act s2) (\<lambda>_ s3.
           case r of
             Inl e \<Rightarrow> Done (Some (TerminalAdminErr e)) (set_status (n_ID node) NodeStatusFailed s3)
           | Inr sig \<Rightarrow>
               bind_run (resolve_parked env def exec node outEdges cause sig
                           (audit (AuditResolution (n_ID node) (ar_Action sig) (ar_Reason sig)) s3)) (\<lambda>next s4.
                 case next of
                   Inl err \<Rightarrow> Done err s4
                 | Inr cause' \<Rightarrow> park_loop k env def exec node outEdges cause' s4))))"

text \<open>Each turn consumes at least one event, the resolution, so the bound is enough.\<close>

definition parkNodeForAdmin ::
  "env \<Rightarrow> WorkflowDefinition \<Rightarrow> exec \<Rightarrow> Node \<Rightarrow> Edge list \<Rightarrow> wferr \<Rightarrow> handler" where
  "parkNodeForAdmin env def exec node outEdges cause s =
     park_loop (Suc (length (is_inbox s))) env def exec node outEdges cause s"

section \<open>Executing\<close>

primrec executeNode :: "nat \<Rightarrow> env \<Rightarrow> WorkflowDefinition \<Rightarrow> exec" where
  "executeNode 0 env def nodeID s = OutOfFuel"
| "executeNode (Suc fuel) env def nodeID s =
     (case (nodesByID (wd_Nodes def) nodeID, node_info s nodeID) of
        (Some node, Some _) \<Rightarrow>
          (let outEdges = out_edges def (n_ID node);
               s1 = mintActivation env (n_ID node) (set_status nodeID NodeStatusRunning s)
           in bind_run (dispatchNodeHandler env def (executeNode fuel env def) node outEdges s1) (\<lambda>err s2.
                case err of
                  None \<Rightarrow> Done None s2
                | Some e \<Rightarrow>
                    if is_cancelled s2 \<or> isTerminalAdminError e then Done (Some e) s2
                    else parkNodeForAdmin env def (executeNode fuel env def) node outEdges e s2))
      | _ \<Rightarrow> Done (Some (Errorf ''node not found'' [nodeID])) s)"

definition initial_info :: "Node \<Rightarrow> NodeInfo" where
  "initial_info n =
     \<lparr>ni_ID = n_ID n, ni_Type = n_Type n, ni_GatewayType = n_GatewayType n, ni_TaskTemplateID = n_TaskTemplateID n,
      ni_Status = NodeStatusNotStarted, ni_ActivationID = [], ni_Seq = 0, ni_LastError = NoError,
      ni_ParkCategory = None, ni_InputMapping = [], ni_OutputMapping = [], ni_CachedTaskResult = None,
      ni_ChildWorkflowIDs = []\<rparr>"

definition initial_variables :: "string \<Rightarrow> vars \<Rightarrow> vars" where
  "initial_variables wfID vs = (if str_var vs VarCaseID = [] then vs(VarCaseID \<mapsto> VStr wfID) else vs)"

definition initial_instance :: "string \<Rightarrow> WorkflowDefinition \<Rightarrow> vars \<Rightarrow> WorkflowInstance" where
  "initial_instance wfID def vs =
     \<lparr>wi_ID = wfID, wi_Status = StatusRunning, wi_WorkflowVariables = initial_variables wfID vs,
      wi_AuditTrail = [], wi_NodeInfo = (\<lambda>i. map_option initial_info (nodesByID (wd_Nodes def) i)),
      wi_Edges = wd_Edges def\<rparr>"

definition initial_state :: "WorkflowInstance \<Rightarrow> event list \<Rightarrow> istate" where
  "initial_state inst evs =
     \<lparr>is_instance = inst, is_edgeTokens = (\<lambda>_. 0), is_seq = 0, is_pendingAdmin = [],
      is_pendingCompletions = [], is_adminSettled = Map.empty, is_completed = Map.empty, is_notifying = [],
      is_signals = (\<lambda>_. []), is_broadcasts = (\<lambda>_. []), is_tasks = Map.empty, is_settled = Map.empty,
      is_fetched = Map.empty, is_started = Map.empty, is_children = Map.empty, is_cancelled = False,
      is_inbox = evs, is_log = []\<rparr>"

definition edge_error :: "WorkflowInstance \<Rightarrow> Edge \<Rightarrow> wferr option" where
  "edge_error inst e =
     (if wi_NodeInfo inst (e_SourceID e) = None
      then Some (Errorf ''invalid edge definition: source node not found'' [e_SourceID e, e_ID e])
      else if wi_NodeInfo inst (e_TargetID e) = None
      then Some (Errorf ''invalid edge definition: target node not found'' [e_TargetID e, e_ID e])
      else None)"

definition set_wf_status :: "ExecutionStatus \<Rightarrow> istate \<Rightarrow> istate" where
  "set_wf_status st s = s\<lparr>is_instance := (is_instance s)\<lparr>wi_Status := st\<rparr>\<rparr>"

text \<open>The entry point. \<open>Inl\<close> is a definition that is turned down before anything runs.\<close>

definition GraphInterpreterWorkflow ::
  "nat \<Rightarrow> env \<Rightarrow> string \<Rightarrow> WorkflowDefinition \<Rightarrow> vars \<Rightarrow> event list \<Rightarrow> wferr + wferr option run" where
  "GraphInterpreterWorkflow fuel env wfID def initialVars evs =
     (case ValidateBatchGateways def of
        Some e \<Rightarrow> Inl (Wrapf ''workflow definition validation failed'' [] e)
      | None \<Rightarrow>
     (case ValidateParallelGateways def of
        Some e \<Rightarrow> Inl (Wrapf ''workflow definition validation failed'' [] e)
      | None \<Rightarrow>
     (let inst = initial_instance wfID def initialVars; s = initial_state inst evs
      in case first_error (edge_error inst) (wd_Edges def) of
           Some e \<Rightarrow> Inl e
         | None \<Rightarrow>
             (case findStartNode def of
                None \<Rightarrow> Inr (Done (Some (Errorf ''no START node found'' [])) (set_wf_status StatusFailed s))
              | Some startNode \<Rightarrow>
                  Inr (bind_run (executeNode fuel env def (n_ID startNode) s) (\<lambda>err s1.
                    case err of
                      Some e \<Rightarrow> Done (Some e) (set_wf_status StatusFailed s1)
                    | None \<Rightarrow> Done None (set_wf_status StatusCompleted s1)))))))"

end
