(* ===== verification/Engine_Frame.thy ===== *)
theory Engine_Frame
  imports Engine_Run
begin

text \<open>
  The frame rule of the interpreter. A relation between states that is reflexive, transitive and
  kept by the primitive updates of \<open>Engine_State\<close> relates the state before a run to the state in
  which it ends or waits, whatever the definition and the events are. It is stated once, as a
  locale, and interpreted in \<open>Engine_Invariants\<close>.
\<close>

section \<open>Laws of the primitives\<close>

lemma inbox_handle_event [simp]: "is_inbox (handle_event ev s) = is_inbox s"
  by (auto simp: event_defs split: event.split option.split)

lemma node_info_simps [simp]:
  "node_info (set_vars vs s) = node_info s"
  "node_info (audit a s) = node_info s"
  "node_info (issue c s) = node_info s"
  by (simp_all add: node_info_def set_vars_def audit_def issue_def fun_eq_iff)

lemma node_info_upd [simp]:
  "node_info (upd_info i f s) k = (if k = i then map_option f (node_info s i) else node_info s k)"
  by (simp add: node_info_def upd_info_def)

definition same_domain :: "istate \<Rightarrow> istate \<Rightarrow> bool" where
  "same_domain s s' = (\<forall>i. node_info s i \<noteq> None \<longrightarrow> node_info s' i \<noteq> None)"

text \<open>A step just minted: the newest log entry is the mint of the node's current activation.\<close>

definition just_minted :: "string \<Rightarrow> istate \<Rightarrow> bool" where
  "just_minted nodeID s =
     (case is_log s of
        c # _ \<Rightarrow> c = LMint nodeID (seq_of s nodeID) (activation_of s nodeID) \<and> node_info s nodeID \<noteq> None
      | [] \<Rightarrow> False)"

lemma just_minted_mint: "node_info s i \<noteq> None \<Longrightarrow> just_minted i (mintActivation env i s)"
  by (auto simp: just_minted_def mintActivation_def Let_def issue_def seq_of_def activation_of_def
      node_info_def upd_info_def)

text \<open>Commands other than mints, task starts, workflow completions and update replies.\<close>

fun plain_command :: "command \<Rightarrow> bool" where
  "plain_command (LMint _ _ _) = False"
| "plain_command (LTask _ _ _ _ _) = False"
| "plain_command (LReply _ _) = False"
| "plain_command (LCompleted _ _ _) = False"
| "plain_command _ = True"

definition keeps_identity :: "(NodeInfo \<Rightarrow> NodeInfo) \<Rightarrow> bool" where
  "keeps_identity f =
     (\<forall>ni. ni_ActivationID (f ni) = ni_ActivationID ni \<and> ni_Seq (f ni) = ni_Seq ni \<and> ni_ID (f ni) = ni_ID ni)"

text \<open>The state in which a run ends or waits.\<close>

definition final_state :: "'a run \<Rightarrow> istate option" where
  "final_state r = (case r of Done x s \<Rightarrow> Some s | Waiting s \<Rightarrow> Some s | OutOfFuel \<Rightarrow> None)"

lemma final_state_simps [simp]:
  "final_state (Done x s) = Some s" "final_state (Waiting s) = Some s" "final_state OutOfFuel = None"
  by (simp_all add: final_state_def)

section \<open>The frame rule\<close>

locale state_frame =
  fixes env :: env
    and R :: "istate \<Rightarrow> istate \<Rightarrow> bool"
  assumes rel_refl: "R s s"
    and rel_trans: "R s s' \<Longrightarrow> R s' s'' \<Longrightarrow> R s s''"
    and rel_domain: "R s s' \<Longrightarrow> same_domain s s'"
    and rel_event: "R s (handle_event ev s)"
    and rel_inbox: "suffix evs (is_inbox s) \<Longrightarrow> R s (s\<lparr>is_inbox := evs\<rparr>)"
    and rel_vars: "R s (set_vars vs s)"
    and rel_audit: "R s (audit a s)"
    and rel_issue: "plain_command c \<Longrightarrow> R s (issue c s)"
    and rel_completed: "en_top env \<Longrightarrow> R s (issue (LCompleted w vs q) s)"
    and rel_info: "keeps_identity f \<Longrightarrow> R s (upd_info i f s)"
    and rel_tokens: "R s (s\<lparr>is_edgeTokens := ts\<rparr>)"
    and rel_signals: "R s (s\<lparr>is_signals := sg\<rparr>)"
    and rel_broadcasts: "R s (s\<lparr>is_broadcasts := bs\<rparr>)"
    and rel_admin: "R s (s\<lparr>is_pendingAdmin := ps, is_adminSettled := as\<rparr>)"
    and rel_notifying: "R s (s\<lparr>is_notifying := ns\<rparr>)"
    and rel_unregister: "R s (unregister act s)"
    and rel_mint: "R s (mintActivation env i s)"
    and rel_task: "just_minted (n_ID node) s \<Longrightarrow> R s (startTask node inputs s)"
begin

definition keeps :: "istate \<Rightarrow> 'a run \<Rightarrow> bool" where
  "keeps s r = (case r of Done x s' \<Rightarrow> R s s' | Waiting s' \<Rightarrow> R s s' | OutOfFuel \<Rightarrow> True)"

definition keeps_exec :: "exec \<Rightarrow> bool" where
  "keeps_exec exec = (\<forall>i s. keeps s (exec i s))"

lemma keeps_simps [simp]:
  "keeps s (Done x s') = R s s'" "keeps s (Waiting s') = R s s'" "keeps s OutOfFuel"
  by (simp_all add: keeps_def)

lemma keeps_trans: "R s s1 \<Longrightarrow> keeps s1 r \<Longrightarrow> keeps s r"
  by (cases r) (auto intro: rel_trans)

lemma keeps_bind:
  "keeps s r \<Longrightarrow> (\<And>x s1. R s s1 \<Longrightarrow> keeps s1 (f x s1)) \<Longrightarrow> keeps s (bind_run r f)"
  by (cases r) (auto intro: keeps_trans)

lemma rel_status: "R s (set_status i st s)"
  by (simp add: set_status_def rel_info keeps_identity_def)

lemma rel_fold: "(\<And>x s. R s (f x s)) \<Longrightarrow> R s (fold f xs s)"
  by (induction xs arbitrary: s) (auto intro: rel_refl rel_trans)

lemma keeps_wait_loop:
  "suffix evs (is_inbox s) \<Longrightarrow> keeps s (wait_loop ready evs s)"
proof (induction ready evs s rule: wait_loop.induct)
  case (1 ready evs s)
  have "keeps s (wait_loop ready evs' (handle_event ev s))" if "ready s = None" "evs = ev # evs'" for ev evs'
  proof (rule keeps_trans[OF rel_event])
    have "suffix evs' (is_inbox (handle_event ev s))"
      using 1(2) that(2) by (simp add: suffix_ConsD)
    with 1(1) that show "keeps (handle_event ev s) (wait_loop ready evs' (handle_event ev s))" by blast
  qed
  then show ?case
    using 1(2) rel_inbox
    by (subst wait_loop.simps) (auto split: option.split list.split)
qed

lemma keeps_wait [simp]: "keeps s (wait_for ready s)"
  by (simp add: wait_for_def keeps_wait_loop)

lemma keeps_wait_from: "R s s1 \<Longrightarrow> keeps s (wait_for ready s1)"
  by (rule keeps_trans[OF _ keeps_wait])

lemmas rels = rel_refl rel_vars rel_audit rel_status rel_tokens rel_signals rel_broadcasts rel_admin
  rel_notifying rel_unregister rel_mint

lemma rel_trans_vars: "R s s1 \<Longrightarrow> R s (set_vars vs s1)" by (rule rel_trans[OF _ rel_vars])
lemma rel_trans_audit: "R s s1 \<Longrightarrow> R s (audit a s1)" by (rule rel_trans[OF _ rel_audit])
lemma rel_trans_status: "R s s1 \<Longrightarrow> R s (set_status i st s1)" by (rule rel_trans[OF _ rel_status])
lemma rel_trans_info: "keeps_identity f \<Longrightarrow> R s s1 \<Longrightarrow> R s (upd_info i f s1)"
  by (rule rel_trans[OF _ rel_info])
lemma rel_trans_issue: "plain_command c \<Longrightarrow> R s s1 \<Longrightarrow> R s (issue c s1)"
  by (rule rel_trans[OF _ rel_issue])
lemma rel_trans_tokens: "R s s1 \<Longrightarrow> R s (s1\<lparr>is_edgeTokens := ts\<rparr>)" by (rule rel_trans[OF _ rel_tokens])

lemmas rel_intros = rel_refl rel_trans_vars rel_trans_audit rel_trans_status rel_trans_info
  rel_trans_issue rel_trans_tokens

lemma keeps_transition:
  "keeps_exec exec \<Longrightarrow> R s s1 \<Longrightarrow> keeps s (transitionTo exec e s1)"
  unfolding transitionTo_def keeps_exec_def
  by (rule keeps_trans[OF rel_trans_tokens]) auto

lemma keeps_follow: "keeps_exec exec \<Longrightarrow> R s s1 \<Longrightarrow> keeps s (follow_first exec es s1)"
  by (auto simp: follow_first_def keeps_transition split: list.split)

subsection \<open>Handlers\<close>

lemma keeps_start: "keeps_exec exec \<Longrightarrow> keeps s (handleStartNode exec i es s)"
  by (auto simp: handleStartNode_def keeps_transition rel_intros split: list.split)

lemma keeps_timer: "keeps_exec exec \<Longrightarrow> keeps s (handleTimerNode exec node es s)"
  unfolding handleTimerNode_def Let_def
  by (auto simp: rel_refl rel_status split: option.split
      intro!: keeps_bind keeps_transition keeps_wait_from rel_intros)

lemma keeps_end: "keeps s (handleEndNode env i s)"
  unfolding handleEndNode_def
  by (auto simp: rel_refl rel_status split: option.split intro!: keeps_bind keeps_wait_from rel_completed)

lemma keeps_finishTask: "keeps_exec exec \<Longrightarrow> keeps s (finishTask exec node es res s)"
  unfolding finishTask_def Let_def
  by (auto simp: keeps_identity_def split: sum.split option.split prod.split
      intro!: keeps_follow rel_intros)

lemma keeps_awaitTask: "keeps s (awaitTask act s)"
  unfolding awaitTask_def
  by (auto simp: rel_refl split: sum.split option.split intro!: keeps_bind)

lemma keeps_task:
  "keeps_exec exec \<Longrightarrow> just_minted (n_ID node) s \<Longrightarrow> keeps s (handleTaskNode exec node es s)"
  unfolding handleTaskNode_def Let_def
  by (auto simp: rel_refl split: sum.split intro!: keeps_bind
      intro: keeps_trans[OF rel_task keeps_awaitTask] keeps_trans[OF rel_unregister keeps_finishTask])

lemma keeps_emit: "keeps s (handleSignalingEmit node cfg s)"
  unfolding handleSignalingEmit_def Let_def
  by (auto simp: rel_refl rel_audit split: option.split prod.split
      intro!: keeps_bind keeps_wait_from rel_intros)

lemma keeps_mapSignal: "R s s1 \<Longrightarrow> keeps s (mapSignalData node d s1)"
  unfolding mapSignalData_def
  by (auto simp: keeps_identity_def split: option.split prod.split intro!: rel_intros)

lemma rel_take_signal: "R s (upd_info i (\<lambda>ni. ni\<lparr>ni_CachedTaskResult := x\<rparr>) (s\<lparr>is_signals := sg\<rparr>))"
  by (rule rel_trans_info[OF _ rel_signals]) (simp add: keeps_identity_def)

lemma keeps_waitSignal: "keeps s (handleSignalingWait node cfg s)"
  unfolding handleSignalingWait_def Let_def
  by (auto simp: rel_refl keeps_mapSignal rel_take_signal split: option.split intro!: keeps_bind)

lemma keeps_signaling: "keeps_exec exec \<Longrightarrow> keeps s (handleSignalingNode exec node es s)"
  unfolding handleSignalingNode_def
  by (auto simp: rel_refl keeps_emit keeps_waitSignal rel_status split: option.split SignalingType.split
      intro!: keeps_bind keeps_transition)

lemma keeps_exclusiveSplit: "keeps_exec exec \<Longrightarrow> keeps s (handleExclusiveSplit env exec node es s)"
  unfolding handleExclusiveSplit_def
  by (auto simp: rel_refl rel_status split: option.split sum.split intro!: keeps_transition)

lemma keeps_exclusiveJoin: "keeps_exec exec \<Longrightarrow> keeps s (handleExclusiveJoin exec node ins es s)"
  unfolding handleExclusiveJoin_def Let_def
  by (auto simp: rel_refl rel_tokens split: option.split intro!: keeps_transition rel_intros)

subsection \<open>Splits\<close>

lemma rel_spawn: "R s (spawn act cs s)"
  unfolding spawn_def by (rule rel_fold) (simp add: rel_issue)

lemma rel_record: "R s s1 \<Longrightarrow> R s (record_children i ids s1)"
  unfolding record_children_def by (rule rel_trans_info) (simp_all add: keeps_identity_def)

lemma keeps_await_children: "keeps s (await_children act stop cs acc s)"
  by (induction act stop cs acc s rule: await_children.induct)
    (auto simp: rel_refl Let_def intro!: keeps_bind)

lemma keeps_skip: "keeps_exec exec \<Longrightarrow> R s s1 \<Longrightarrow> keeps s (skipToJoinOutEdge def exec j s1)"
  unfolding skipToJoinOutEdge_def by (intro keeps_follow rel_intros)

lemma keeps_finish_batch: "keeps_exec exec \<Longrightarrow> keeps s (finish_batch env def exec node j items n rs s)"
  unfolding finish_batch_def
  by (auto split: sum.split option.split prod.split intro!: keeps_skip rel_intros)

lemma keeps_run_batch: "keeps_exec exec \<Longrightarrow> keeps s (run_batch env def exec node es j items s)"
  unfolding run_batch_def Let_def
  by (auto simp: rel_refl keeps_finish_batch split: sum.split option.split
      intro!: keeps_bind keeps_trans[OF _ keeps_await_children] rel_record rel_spawn)

lemma keeps_batchSplit: "keeps_exec exec \<Longrightarrow> keeps s (handleBatchSplitGateway env def exec node es s)"
  unfolding handleBatchSplitGateway_def Let_def
  by (auto simp: keeps_run_batch split: sum.split option.split prod.split intro!: keeps_skip rel_intros)

lemma keeps_batchJoin: "keeps_exec exec \<Longrightarrow> keeps s (handleBatchJoinGateway exec node es s)"
  unfolding handleBatchJoinGateway_def Let_def by (auto intro!: keeps_follow rel_intros)

lemma keeps_finish_parallel: "keeps_exec exec \<Longrightarrow> keeps s (finish_parallel env def exec node j vs rs s)"
  unfolding finish_parallel_def
  by (auto split: sum.split intro!: keeps_skip rel_intros)

lemma keeps_parallelSplit: "keeps_exec exec \<Longrightarrow> keeps s (handleParallelSplitGateway env def exec node es s)"
  unfolding handleParallelSplitGateway_def Let_def
  by (auto simp: rel_refl keeps_finish_parallel split: sum.split
      intro!: keeps_bind keeps_skip keeps_trans[OF _ keeps_await_children] rel_record rel_spawn rel_intros)

lemma keeps_parallelJoin: "keeps_exec exec \<Longrightarrow> keeps s (handleParallelJoinGateway exec node es s)"
  unfolding handleParallelJoinGateway_def Let_def by (auto intro!: keeps_follow rel_intros)

lemma keeps_await_fetches: "keeps s (await_fetches act ts s)"
  by (induction act ts s rule: await_fetches.induct)
    (auto simp: rel_refl split: sum.split intro!: keeps_bind)

lemma keeps_fetch_batches: "keeps s (fetch_batches act bs s)"
proof (induction act bs s rule: fetch_batches.induct)
  case (2 act b bs s)
  have "R s (fold (\<lambda>t. issue (LFetch t (manifestVersion s))) b s)"
    by (rule rel_fold) (simp add: rel_issue)
  with 2 show ?case
    by (auto simp: rel_refl split: sum.split intro!: keeps_bind keeps_trans[OF _ keeps_await_fetches])
qed (simp add: rel_refl)

lemma keeps_await_starts: "keeps s (await_starts act cs errs s)"
  by (induction act cs errs s rule: await_starts.induct) (auto simp: rel_refl intro!: keeps_bind)

lemma keeps_spawnChildren: "keeps s (spawnChildWorkflows env node cfg data k s)"
  unfolding spawnChildWorkflows_def Let_def
  by (auto simp: rel_refl keeps_fetch_batches split: sum.split
      intro!: keeps_bind keeps_trans[OF rel_spawn keeps_await_starts])

lemma rel_rebroadcast: "R s (rebroadcast msg active (s\<lparr>is_broadcasts := bs\<rparr>))"
  unfolding rebroadcast_def
  by (rule rel_trans[OF rel_broadcasts rel_fold]) (auto simp: rel_refl rel_issue)

lemma rel_cancel_children: "R s (cancel_children active (set_status i st s))"
  unfolding cancel_children_def
  by (rule rel_trans[OF rel_status rel_fold]) (simp add: rel_issue)

lemma keeps_monitor_loop: "keeps s (monitor_loop k env act cfg i order active results failed s)"
proof (induction k arbitrary: active results failed s)
  case (Suc k)
  note cast = keeps_trans[OF rel_rebroadcast Suc.IH]
  show ?case
    by (auto simp: rel_refl Let_def rel_cancel_children cast Suc.IH
        split: pick.split option.split sum.split intro!: keeps_bind)
qed simp

lemma keeps_monitor: "keeps s (monitorChildWorkflows env act cfg i active s)"
  unfolding monitorChildWorkflows_def Let_def
proof (rule keeps_bind[OF keeps_monitor_loop])
  show "keeps s1 ((\<lambda>(err, results, failed) s1. case err of
         Some e \<Rightarrow> Done (Some e) s1
       | None \<Rightarrow>
           if failed \<noteq> [] \<and> st_FailureMode cfg = FailureModeCollectAll
           then Done (Some (categorize ParkCategoryChildFailure
                              (Errorf ''multiple branches failed'' (map (en_err_text env) failed))))
                  (set_status i NodeStatusFailed
                    (if st_ResultsVariable cfg \<noteq> []
                     then set_vars (SetNestedKey (vars_of s1) (st_ResultsVariable cfg) (VMaps results)) s1 else s1))
           else Done None
                  (if st_ResultsVariable cfg \<noteq> []
                   then set_vars (SetNestedKey (vars_of s1) (st_ResultsVariable cfg) (VMaps results)) s1 else s1)) x s1)"
    for x s1
    by (cases x) (simp add: rel_refl rel_vars rel_trans_status split: option.split)
qed

lemma keeps_splitTask: "keeps_exec exec \<Longrightarrow> keeps s (handleSplitTaskNode env exec node es s)"
  unfolding handleSplitTaskNode_def Let_def
  by (auto simp: rel_refl keeps_spawnChildren rel_status split: option.split sum.split prod.split
      intro!: keeps_bind keeps_follow rel_record keeps_trans[OF rel_record keeps_monitor])

subsection \<open>Running nodes\<close>

lemmas keeps_handlers = keeps_start keeps_timer keeps_end keeps_task keeps_signaling keeps_exclusiveSplit
  keeps_exclusiveJoin keeps_batchSplit keeps_batchJoin keeps_parallelSplit keeps_parallelJoin keeps_splitTask

lemma keeps_dispatch:
  "keeps_exec exec \<Longrightarrow> just_minted (n_ID node) s \<Longrightarrow> keeps s (dispatchNodeHandler env def exec node es s)"
  by (auto simp: dispatchNodeHandler_def handleGatewayNode_def keeps_handlers rel_refl
      split: NodeType.split GatewayType.split)

lemma keeps_mint_dispatch:
  assumes "keeps_exec exec" and "node_info s (n_ID node) \<noteq> None"
  shows "keeps s (dispatchNodeHandler env def exec node es (mintActivation env (n_ID node) s))"
  by (rule keeps_trans[OF rel_mint keeps_dispatch[OF assms(1) just_minted_mint[OF assms(2)]]])

lemma rel_park: "R s (notifyAdminPark node (park node cause s))"
proof -
  have "R s (park node cause s)"
    unfolding park_def Let_def
    by (intro rel_trans_audit rel_trans_info rel_refl) (simp add: keeps_identity_def)
  then show ?thesis
    by (auto simp: notifyAdminPark_def split: option.split
        intro!: rel_trans_issue rel_trans[OF _ rel_notifying])
qed

lemma keeps_awaitAdmin: "keeps s (awaitAdminResolution act s)"
proof -
  have "R s1 (s1\<lparr>is_pendingAdmin := ps\<rparr>)" for s1 ps
    using rel_admin[where s = s1 and ps = ps and as = "is_adminSettled s1"] by simp
  then show ?thesis
    unfolding awaitAdminResolution_def
    by (auto intro!: keeps_bind keeps_wait_from rel_admin)
qed

lemma rel_clear_park: "R s (upd_info i (clear_park st) (set_vars vs s))"
  by (intro rel_trans_info rel_vars) (simp add: keeps_identity_def clear_park_def)

lemma keeps_resolve:
  assumes "keeps_exec exec" and "node_info s (n_ID node) \<noteq> None"
  shows "keeps s (resolve_parked env def exec node es cause sig s)"
proof -
  let ?s = "upd_info (n_ID node) (clear_park NodeStatusRunning)
              (set_vars (applyVariablesPatch (vars_of s) (ar_Patch sig)) s)"
  have "keeps s (dispatchNodeHandler env def exec node es (mintActivation env (n_ID node) ?s))"
    using assms by (intro keeps_trans[OF rel_clear_park keeps_mint_dispatch]) auto
  moreover have "keeps s (completeParkedNode exec (n_ID node) es patch s)" for patch
    unfolding completeParkedNode_def using assms by (intro keeps_follow rel_clear_park)
  ultimately show ?thesis
    by (cases "ar_Action sig")
      (simp_all add: resolve_parked_def Let_def rel_refl rel_status keeps_bind split: option.split)
qed

lemma domain_keeps: "R s s1 \<Longrightarrow> node_info s i \<noteq> None \<Longrightarrow> node_info s1 i \<noteq> None"
  using rel_domain[of s s1] by (simp add: same_domain_def)

lemma keeps_park_loop:
  assumes "keeps_exec exec" and "node_info s (n_ID node) \<noteq> None"
  shows "keeps s (park_loop k env def exec node es cause s)"
  using assms(2)
proof (induction k arbitrary: cause s)
  case (Suc k)
  let ?s1 = "notifyAdminPark node (park node cause s)"
  let ?act = "activation_of ?s1 (n_ID node)"
  have "keeps s (awaitAdminResolution ?act ?s1)"
    by (rule keeps_trans[OF rel_park keeps_awaitAdmin])
  moreover have "keeps s2 (bind_run (joinNotify ?act s2) (\<lambda>_ s3.
           case r of
             Inl e \<Rightarrow> Done (Some (TerminalAdminErr e)) (set_status (n_ID node) NodeStatusFailed s3)
           | Inr sig \<Rightarrow>
               bind_run (resolve_parked env def exec node es cause sig
                           (audit (AuditResolution (n_ID node) (ar_Action sig) (ar_Reason sig)) s3)) (\<lambda>next s4.
                 case next of
                   Inl err \<Rightarrow> Done err s4
                 | Inr cause' \<Rightarrow> park_loop k env def exec node es cause' s4)))"
    if "R s s2" for r s2
  proof (rule keeps_bind)
    show "keeps s2 (joinNotify ?act s2)" by (simp add: joinNotify_def)
    fix x s3 assume "R s2 s3"
    then have s3: "node_info s3 (n_ID node) \<noteq> None"
      using that Suc.prems domain_keeps rel_trans by blast
    have "keeps s3 (bind_run (resolve_parked env def exec node es cause sig
                           (audit (AuditResolution (n_ID node) (ar_Action sig) (ar_Reason sig)) s3)) (\<lambda>next s4.
                 case next of
                   Inl err \<Rightarrow> Done err s4
                 | Inr cause' \<Rightarrow> park_loop k env def exec node es cause' s4))" for sig
    proof (rule keeps_bind)
      show "keeps s3 (resolve_parked env def exec node es cause sig
                        (audit (AuditResolution (n_ID node) (ar_Action sig) (ar_Reason sig)) s3))"
        using s3 by (intro keeps_trans[OF rel_audit keeps_resolve[OF assms(1)]]) simp
    qed (use s3 domain_keeps Suc.IH in \<open>auto simp: rel_refl split: sum.split\<close>)
    then show "keeps s3 (case r of
             Inl e \<Rightarrow> Done (Some (TerminalAdminErr e)) (set_status (n_ID node) NodeStatusFailed s3)
           | Inr sig \<Rightarrow>
               bind_run (resolve_parked env def exec node es cause sig
                           (audit (AuditResolution (n_ID node) (ar_Action sig) (ar_Reason sig)) s3)) (\<lambda>next s4.
                 case next of
                   Inl err \<Rightarrow> Done err s4
                 | Inr cause' \<Rightarrow> park_loop k env def exec node es cause' s4))"
      by (simp add: rel_status split: sum.split)
  qed
  ultimately show ?case
    unfolding park_loop.simps Let_def by (rule keeps_bind)
qed simp

lemma keeps_parkNode:
  "keeps_exec exec \<Longrightarrow> node_info s (n_ID node) \<noteq> None \<Longrightarrow>
   keeps s (parkNodeForAdmin env def exec node es cause s)"
  unfolding parkNodeForAdmin_def by (rule keeps_park_loop)

lemma keeps_executeNode: "keeps_exec (executeNode fuel env def)"
proof (induction fuel)
  case 0
  then show ?case by (simp add: keeps_exec_def)
next
  case (Suc fuel)
  have "keeps s (executeNode (Suc fuel) env def i s)" for i s
  proof (cases "nodesByID (wd_Nodes def) i = None \<or> node_info s i = None")
    case False
    then obtain node ni where node: "nodesByID (wd_Nodes def) i = Some node" "node_info s i = Some ni" by auto
    then have id: "n_ID node = i"
      by (auto simp: nodesByID_def dest!: map_of_SomeD)
    let ?s1 = "set_status i NodeStatusRunning s"
    have info: "node_info ?s1 (n_ID node) \<noteq> None" using node id by (simp add: set_status_def)
    have d: "keeps s (dispatchNodeHandler env def (executeNode fuel env def) node (out_edges def (n_ID node))
           (mintActivation env (n_ID node) ?s1))"
      by (rule keeps_trans[OF rel_status keeps_mint_dispatch[OF Suc info]])
    have dom: "node_info s2 (n_ID node) \<noteq> None" if "R s s2" for s2
      using domain_keeps[OF that] node id by simp
    show ?thesis
      using node d dom
      by (auto simp: Let_def rel_refl keeps_parkNode[OF Suc] split: option.split intro!: keeps_bind)
  qed (auto simp: rel_refl split: option.split)
  then show ?case by (simp add: keeps_exec_def)
qed

lemma keeps_workflow:
  assumes "GraphInterpreterWorkflow fuel env wfID def vs evs = Inr r" and "final_state r = Some s'"
  obtains s1 st where "R (initial_state (initial_instance wfID def vs) evs) s1"
    "s' = s1 \<or> s' = set_wf_status st s1"
proof -
  let ?s = "initial_state (initial_instance wfID def vs) evs"
  have k: "keeps ?s (executeNode fuel env def i ?s)" for i
    using keeps_executeNode by (simp add: keeps_exec_def)
  show thesis
  proof (cases "findStartNode def")
    case None
    then have "s' = set_wf_status StatusFailed ?s"
      using assms by (auto simp: GraphInterpreterWorkflow_def Let_def split: option.splits)
    then show thesis using that[of ?s StatusFailed] rel_refl by blast
  next
    case (Some n)
    let ?run = "executeNode fuel env def (n_ID n) ?s"
    have r: "r = bind_run ?run (\<lambda>err s1. case err of
                      Some e \<Rightarrow> Done (Some e) (set_wf_status StatusFailed s1)
                    | None \<Rightarrow> Done None (set_wf_status StatusCompleted s1))"
      using assms Some by (auto simp: GraphInterpreterWorkflow_def Let_def split: option.splits)
    show thesis
    proof (cases ?run)
      case (Done err s1)
      then have "R ?s s1" using k[of "n_ID n"] by simp
      moreover have "\<exists>st. s' = set_wf_status st s1"
        using assms(2) by (auto simp: r Done split: option.splits)
      ultimately show thesis using that by blast
    next
      case (Waiting s1)
      then have "R ?s s1" "s' = s1" using k[of "n_ID n"] assms(2) by (auto simp: r)
      then show thesis using that by blast
    qed (use assms(2) in \<open>simp add: r\<close>)
  qed
qed

end

end
