(* ===== verification/Engine_Invariants.thy ===== *)
theory Engine_Invariants
  imports Engine_Frame
begin

text \<open>
  Interpretations of the frame rule: what every run of the interpreter keeps, for every definition
  and every list of events. \<open>history\<close> (counters and logs only grow), \<open>minting\<close> (activations are
  numbered 1, 2, 3, ...; a task starts only right after its mint), \<open>completing\<close> (accepted
  completions never outnumber the starts of a step), \<open>top_only\<close> (the completion hook).
\<close>

section \<open>Log entries\<close>

fun mint_of :: "command \<Rightarrow> (string \<times> nat \<times> string) option" where
  "mint_of (LMint n q a) = Some (n, q, a)"
| "mint_of _ = None"

fun task_of :: "command \<Rightarrow> (string \<times> nat) option" where
  "task_of (LTask a t i c r) = Some (a, rf_Seq r)"
| "task_of _ = None"

definition mints :: "command list \<Rightarrow> (string \<times> nat \<times> string) list" where
  "mints l = List.map_filter mint_of l"

definition tasks :: "command list \<Rightarrow> (string \<times> nat) list" where
  "tasks l = List.map_filter task_of l"

fun accepted :: "string \<Rightarrow> command list \<Rightarrow> nat" where
  "accepted a [] = 0"
| "accepted a (LReply b ok # l) = (if ok \<and> a = b then 1 else 0) + accepted a l"
| "accepted a (_ # l) = accepted a l"

definition starts :: "string \<Rightarrow> command list \<Rightarrow> nat" where
  "starts a l = count_list (map fst (tasks l)) a"

lemma mints_simps [simp]:
  "mints [] = []"
  "mints (c # l) = (case mint_of c of Some m \<Rightarrow> m # mints l | None \<Rightarrow> mints l)"
  by (simp_all add: mints_def map_filter_simps split: option.split)

lemma tasks_simps [simp]:
  "tasks [] = []"
  "tasks (c # l) = (case task_of c of Some m \<Rightarrow> m # tasks l | None \<Rightarrow> tasks l)"
  by (simp_all add: tasks_def map_filter_simps split: option.split)

lemma starts_simps [simp]:
  "starts a [] = 0"
  "starts a (c # l) = (case task_of c of Some (b, q) \<Rightarrow> (if a = b then 1 else 0) | None \<Rightarrow> 0) + starts a l"
  by (auto simp: starts_def split: option.split)

lemma plain_command_log [simp]:
  "plain_command c \<Longrightarrow> mint_of c = None"
  "plain_command c \<Longrightarrow> task_of c = None"
  "plain_command c \<Longrightarrow> accepted a (c # l) = accepted a l"
  by (cases c; simp)+

lemma log_event:
  "is_log (handle_event ev s) = is_log s \<or>
   (\<exists>a ok. is_log (handle_event ev s) = LReply a ok # is_log s \<and>
      (ok \<longrightarrow> a \<in> set (is_pendingCompletions s) \<and>
        is_pendingCompletions (handle_event ev s) = removeAll a (is_pendingCompletions s)) \<and>
      (\<not> ok \<longrightarrow> is_pendingCompletions (handle_event ev s) = is_pendingCompletions s))"
  by (auto simp: event_defs validatePendingCompletion_def
      split: event.split option.split)

lemma pending_event:
  "is_log (handle_event ev s) = is_log s \<Longrightarrow>
   is_pendingCompletions (handle_event ev s) = is_pendingCompletions s"
  by (auto simp: event_defs validatePendingCompletion_def
      split: event.split option.split if_splits)

lemma event_keeps [simp]:
  "is_seq (handle_event ev s) = is_seq s"
  "node_info (handle_event ev s) = node_info s"
  "wi_ID (is_instance (handle_event ev s)) = wi_ID (is_instance s)"
  "wi_Edges (is_instance (handle_event ev s)) = wi_Edges (is_instance s)"
  "wi_WorkflowVariables (is_instance (handle_event ev s)) = wi_WorkflowVariables (is_instance s)"
  by (auto simp: event_defs node_info_def fun_eq_iff
      split: event.split option.split)

lemma audit_event:
  "prefix (wi_AuditTrail (is_instance s)) (wi_AuditTrail (is_instance (handle_event ev s)))"
  by (auto simp: event_defs split: event.split option.split)

lemma cancelled_event: "is_cancelled s \<Longrightarrow> is_cancelled (handle_event ev s)"
  by (auto simp: event_defs split: event.split option.split)

lemma same_domain_simps [simp]:
  "same_domain s s" "same_domain s (set_vars vs s)" "same_domain s (audit a s)" "same_domain s (issue c s)"
  "same_domain s (upd_info i f s)" "same_domain s (handle_event ev s)"
  "same_domain s (s\<lparr>is_inbox := x1\<rparr>)" "same_domain s (s\<lparr>is_edgeTokens := x2\<rparr>)"
  "same_domain s (s\<lparr>is_signals := x3\<rparr>)" "same_domain s (s\<lparr>is_broadcasts := x4\<rparr>)"
  "same_domain s (s\<lparr>is_pendingAdmin := x5, is_adminSettled := x6\<rparr>)" "same_domain s (s\<lparr>is_notifying := x7\<rparr>)"
  "same_domain s (unregister act s)" "same_domain s (mintActivation env i s)" "same_domain s (startTask node inputs s)"
  by (auto simp: same_domain_def prim_defs Let_def node_info_def)

lemma same_domain_trans: "same_domain s s' \<Longrightarrow> same_domain s' s'' \<Longrightarrow> same_domain s s''"
  by (auto simp: same_domain_def)

section \<open>History\<close>

definition history :: "istate \<Rightarrow> istate \<Rightarrow> bool" where
  "history s s' =
     (same_domain s s' \<and> is_seq s \<le> is_seq s' \<and> suffix (is_log s) (is_log s') \<and>
      suffix (is_inbox s') (is_inbox s) \<and>
      prefix (wi_AuditTrail (is_instance s)) (wi_AuditTrail (is_instance s')) \<and>
      wi_ID (is_instance s') = wi_ID (is_instance s) \<and> wi_Edges (is_instance s') = wi_Edges (is_instance s) \<and>
      (is_cancelled s \<longrightarrow> is_cancelled s'))"

interpretation hist: state_frame env history for env
proof unfold_locales
  show "history s s''" if "history s s'" "history s' s''" for s s' s''
    using that by (auto simp: history_def intro: same_domain_trans suffix_order.trans prefix_order.trans)
  show "history s (handle_event ev s)" for s ev
    using log_event[of ev s] audit_event[of s ev] cancelled_event[of s ev]
    by (auto simp: history_def suffix_Cons)
  show "history s (mintActivation env i s)" for s i
    by (simp add: history_def) (auto simp: prim_defs Let_def suffix_Cons)
  show "history s (startTask node inputs s)" for s node inputs
    by (simp add: history_def) (auto simp: prim_defs Let_def suffix_Cons)
qed (simp_all add: history_def, simp_all add: prim_defs Let_def suffix_Cons)

section \<open>Minting\<close>

text \<open>Every task start stands right after the mint of its activation, with that mint's number.\<close>

fun follows :: "command \<Rightarrow> command list \<Rightarrow> bool" where
  "follows (LTask a t i c r) l = (l \<noteq> [] \<and> hd l = LMint (rf_NodeID r) (rf_Seq r) a)"
| "follows _ l = True"

primrec tasks_follow :: "command list \<Rightarrow> bool" where
  "tasks_follow [] = True"
| "tasks_follow (c # l) = (follows c l \<and> tasks_follow l)"

lemma follows_plain [simp]: "task_of c = None \<Longrightarrow> follows c l"
  by (cases c) auto

definition mint_seqs :: "command list \<Rightarrow> nat list" where
  "mint_seqs l = map (\<lambda>(n, q, a). q) (mints l)"

lemma task_cases:
  assumes "tasks_follow (c # l)"
  obtains "task_of c = None"
  | a t i k r l' where "c = LTask a t i k r" "l = LMint (rf_NodeID r) (rf_Seq r) a # l'" "tasks_follow l'"
  using assms by (cases c; cases l) auto

lemma tasks_subseq: "tasks_follow l \<Longrightarrow> subseq (map snd (tasks l)) (mint_seqs l)"
proof (induction l rule: length_induct)
  case (1 l)
  show ?case
  proof (cases l)
    case (Cons c l1)
    with 1 have "tasks_follow (c # l1)" and
      IH: "\<And>ys. length ys \<le> length l1 \<Longrightarrow> tasks_follow ys \<Longrightarrow> subseq (map snd (tasks ys)) (mint_seqs ys)"
      by auto
    moreover from this have "subseq (map snd (tasks l1)) (mint_seqs l1)" by simp
    ultimately show ?thesis
      using Cons
      by (elim task_cases) (auto simp: mint_seqs_def split: option.split dest!: IH intro: list_emb_Cons)
  qed (simp add: mint_seqs_def)
qed

lemma tasks_minted:
  "tasks_follow l \<Longrightarrow> (a, q) \<in> set (tasks l) \<Longrightarrow> \<exists>n. (n, q, a) \<in> set (mints l)"
proof (induction l)
  case (Cons c l)
  from Cons.prems(1) show ?case
    by (rule task_cases) (use Cons in \<open>auto split: option.splits\<close>)
qed simp

definition minting_ok :: "env \<Rightarrow> istate \<Rightarrow> bool" where
  "minting_ok env s =
     (mint_seqs (is_log s) = rev [1..<Suc (is_seq s)] \<and> tasks_follow (is_log s) \<and>
      (\<forall>(n, q, a) \<in> set (mints (is_log s)). a = newActivationID (en_uuid env) (wi_ID (is_instance s)) n q))"

definition minting :: "env \<Rightarrow> istate \<Rightarrow> istate \<Rightarrow> bool" where
  "minting env s s' =
     (same_domain s s' \<and> wi_ID (is_instance s') = wi_ID (is_instance s) \<and> (minting_ok env s \<longrightarrow> minting_ok env s'))"

lemma minting_ok_cong:
  "is_log s' = is_log s \<Longrightarrow> is_seq s' = is_seq s \<Longrightarrow> wi_ID (is_instance s') = wi_ID (is_instance s) \<Longrightarrow>
   minting_ok env s' = minting_ok env s"
  by (simp add: minting_ok_def)

lemma minting_ok_issue:
  "mint_of c = None \<Longrightarrow> task_of c = None \<Longrightarrow> minting_ok env (issue c s) = minting_ok env s"
  by (simp add: minting_ok_def issue_def mint_seqs_def)

lemma minting_mint: "minting_ok env s \<Longrightarrow> minting_ok env (mintActivation env i s)"
  by (simp add: minting_ok_def mintActivation_def issue_def upd_info_def Let_def mint_seqs_def)

lemma minting_task:
  "minting_ok env s \<Longrightarrow> just_minted (n_ID node) s \<Longrightarrow> minting_ok env (startTask node inputs s)"
  by (auto simp: minting_ok_def just_minted_def startTask_def issue_def expectCompletion_def mint_seqs_def
      split: list.splits)

interpretation mint: state_frame env "minting env" for env
proof unfold_locales
  show "minting env s s''" if "minting env s s'" "minting env s' s''" for s s' s''
    using that by (auto simp: minting_def intro: same_domain_trans)
  show "minting env s (handle_event ev s)" for s ev
  proof -
    have "minting_ok env (handle_event ev s) = minting_ok env s"
      using log_event[of ev s] by (auto simp: minting_ok_def mint_seqs_def)
    then show ?thesis by (simp add: minting_def)
  qed
  show "minting env s (issue c s)" if "plain_command c" for s c
    using that minting_ok_issue[of c env s] by (simp add: minting_def) (simp add: issue_def)
  show "minting env s (mintActivation env i s)" for s i
    using minting_mint[of env s i] by (simp add: minting_def) (simp add: prim_defs Let_def)
  show "minting env s (startTask node inputs s)" if "just_minted (n_ID node) s" for s node inputs
    using that minting_task[of env s node inputs] by (simp add: minting_def) (simp add: prim_defs Let_def)
  show "minting env s (issue (LCompleted w vs q) s)" for s w vs q
    using minting_ok_issue[of "LCompleted w vs q" env s] by (simp add: minting_def) (simp add: issue_def)
qed (simp_all add: minting_def, simp_all add: minting_ok_def prim_defs Let_def)

section \<open>Completing\<close>

text \<open>Places for completions of a step: open ones and used ones.\<close>

definition slots :: "istate \<Rightarrow> string \<Rightarrow> nat" where
  "slots s a = accepted a (is_log s) + count_list (is_pendingCompletions s) a"

definition completing :: "istate \<Rightarrow> istate \<Rightarrow> bool" where
  "completing s s' =
     (same_domain s s' \<and>
      (\<forall>a. slots s a \<le> starts a (is_log s) \<longrightarrow> slots s' a \<le> starts a (is_log s')))"

lemma count_removeAll: "count_list (removeAll b xs) a = (if a = b then 0 else count_list xs a)"
  by (induction xs) auto

lemma slots_event:
  "slots (handle_event ev s) a \<le> slots s a \<and> starts a (is_log (handle_event ev s)) = starts a (is_log s)"
proof (cases "is_log (handle_event ev s) = is_log s")
  case True
  then show ?thesis using pending_event[OF True] by (simp add: slots_def)
next
  case False
  then obtain b ok where r: "is_log (handle_event ev s) = LReply b ok # is_log s"
    "ok \<Longrightarrow> b \<in> set (is_pendingCompletions s) \<and>
       is_pendingCompletions (handle_event ev s) = removeAll b (is_pendingCompletions s)"
    "\<not> ok \<Longrightarrow> is_pendingCompletions (handle_event ev s) = is_pendingCompletions s"
    using log_event[of ev s] by blast
  have "b \<in> set (is_pendingCompletions s) \<Longrightarrow> 1 \<le> count_list (is_pendingCompletions s) b"
    using count_list_0_iff[of "is_pendingCompletions s" b] by linarith
  then show ?thesis
    using r by (cases ok) (auto simp: slots_def count_removeAll)
qed

interpretation compl: state_frame env completing for env
proof unfold_locales
  show "completing s s''" if "completing s s'" "completing s' s''" for s s' s''
    using that by (auto simp: completing_def intro: same_domain_trans)
  show "completing s (handle_event ev s)" for s ev
    using slots_event[of ev s] by (auto simp: completing_def intro: order_trans)
  show "completing s (unregister act s)" for s act
    by (simp add: completing_def) (auto simp: slots_def unregister_def count_removeAll intro: order_trans[rotated])
  show "completing s (startTask node inputs s)" for s node inputs
    by (simp add: completing_def) (auto simp: slots_def startTask_def issue_def expectCompletion_def)
qed (simp_all add: completing_def, simp_all add: slots_def prim_defs Let_def)

section \<open>The completion hook\<close>

fun is_completion :: "command \<Rightarrow> bool" where
  "is_completion (LCompleted _ _ _) = True"
| "is_completion _ = False"

definition top_only :: "env \<Rightarrow> istate \<Rightarrow> istate \<Rightarrow> bool" where
  "top_only env s s' =
     (same_domain s s' \<and> (\<not> en_top env \<longrightarrow> filter is_completion (is_log s') = filter is_completion (is_log s)))"

lemma plain_not_completion [simp]: "plain_command c \<Longrightarrow> \<not> is_completion c"
  by (cases c) auto

interpretation top: state_frame env "top_only env" for env
proof unfold_locales
  show "top_only env s s''" if "top_only env s s'" "top_only env s' s''" for s s' s''
    using that by (auto simp: top_only_def intro: same_domain_trans)
  show "top_only env s (handle_event ev s)" for s ev
    using log_event[of ev s] by (auto simp: top_only_def)
qed (simp_all add: top_only_def, simp_all add: prim_defs Let_def)

end
