(* ===== verification/Engine_Props.thy ===== *)
theory Engine_Props
  imports Engine_Invariants
begin

text \<open>
  Properties of whole runs of the interpreter, from \<open>GraphInterpreterWorkflow\<close> to the state in which
  the workflow has ended or waits: identity of activations, completions, errors and parking.
\<close>

section \<open>Names of activations\<close>

lemma colon_not_in_itoa [simp]: "CHR '':'' \<notin> set (itoa n)"
  using itoa_digits[of n] digit_char_neq[of _ "CHR '':''"] by force

lemma append_sep_inj:
  "x @ c # y = x' @ c # y' \<Longrightarrow> c \<notin> set y \<Longrightarrow> c \<notin> set y' \<Longrightarrow> y = y'"
  by (auto simp: append_eq_append_conv2 append_eq_Cons_conv Cons_eq_append_conv)

lemma activation_name_inj:
  "wfID @ '':'' @ n @ '':'' @ itoa q = wfID @ '':'' @ n' @ '':'' @ itoa q' \<Longrightarrow> q = q'"
  using append_sep_inj[of n "CHR '':''" "itoa q" n' "itoa q'"] by (simp add: itoa_inj)

section \<open>Runs\<close>

lemma bind_run_Done [simp]:
  "bind_run r f = Done x s' \<longleftrightarrow> (\<exists>y s1. r = Done y s1 \<and> f y s1 = Done x s')"
  by (cases r) auto

lemma initial_ok:
  "minting_ok env (initial_state inst evs)" "slots (initial_state inst evs) a = 0"
  "starts a (is_log (initial_state inst evs)) = 0" "is_log (initial_state inst evs) = []"
  "wi_ID (is_instance (initial_state (initial_instance wfID def vs) evs)) = wfID"
  by (simp_all add: minting_ok_def mint_seqs_def slots_def initial_state_def initial_instance_def)

lemma wf_status_simps [simp]:
  "is_log (set_wf_status st s) = is_log s" "is_seq (set_wf_status st s) = is_seq s"
  "is_pendingCompletions (set_wf_status st s) = is_pendingCompletions s"
  "is_cancelled (set_wf_status st s) = is_cancelled s" "is_inbox (set_wf_status st s) = is_inbox s"
  "wi_ID (is_instance (set_wf_status st s)) = wi_ID (is_instance s)"
  "wi_AuditTrail (is_instance (set_wf_status st s)) = wi_AuditTrail (is_instance s)"
  "slots (set_wf_status st s) a = slots s a"
  by (simp_all add: set_wf_status_def slots_def)

lemma workflow_minting:
  assumes "GraphInterpreterWorkflow fuel env wfID def vs evs = Inr r" and "final_state r = Some s'"
  shows "minting_ok env s' \<and> wi_ID (is_instance s') = wfID"
proof -
  from mint.keeps_workflow[OF assms] obtain s1 st where
    "minting env (initial_state (initial_instance wfID def vs) evs) s1" "s' = s1 \<or> s' = set_wf_status st s1" .
  then show ?thesis
    using minting_ok_cong[of "set_wf_status st s1" s1 env] by (auto simp: minting_def initial_ok)
qed

text \<open>The names under which a run's activations are hashed.\<close>

definition activation_names :: "istate \<Rightarrow> string set" where
  "activation_names s =
     (\<lambda>(n, q, a). wi_ID (is_instance s) @ '':'' @ n @ '':'' @ itoa q) ` set (mints (is_log s))"

lemma distinct_subseq: "subseq xs ys \<Longrightarrow> distinct ys \<Longrightarrow> distinct xs"
  by (induction rule: list_emb.induct) (auto dest: list_emb_set)

lemma minted_distinct:
  assumes ok: "minting_ok env s" and inj: "inj_on (en_uuid env) (activation_names s)"
  shows "distinct (map fst (tasks (is_log s)))"
proof -
  have follow: "tasks_follow (is_log s)" and act:
    "\<And>n q a. (n, q, a) \<in> set (mints (is_log s)) \<Longrightarrow> a = newActivationID (en_uuid env) (wi_ID (is_instance s)) n q"
    using ok by (auto simp: minting_ok_def)
  have "distinct (map snd (tasks (is_log s)))"
    using distinct_subseq[OF tasks_subseq[OF follow]] ok by (simp add: minting_ok_def)
  moreover have "q = q'" if t: "(a, q) \<in> set (tasks (is_log s))" "(a, q') \<in> set (tasks (is_log s))" for a q q'
  proof -
    from tasks_minted[OF follow t(1)] tasks_minted[OF follow t(2)] obtain n n' where
      m: "(n, q, a) \<in> set (mints (is_log s))" "(n', q', a) \<in> set (mints (is_log s))" by blast
    let ?name = "\<lambda>n q. wi_ID (is_instance s) @ '':'' @ n @ '':'' @ itoa q"
    have "?name n q \<in> activation_names s" "?name n' q' \<in> activation_names s"
      using m by (force simp: activation_names_def)+
    moreover have "en_uuid env (?name n q) = en_uuid env (?name n' q')"
      using act[OF m(1)] act[OF m(2)] by (simp add: newActivationID_def)
    ultimately have "?name n q = ?name n' q'" using inj by (auto dest: inj_onD)
    then show ?thesis by (rule activation_name_inj)
  qed
  ultimately show ?thesis
    by (auto simp: distinct_map inj_on_def)
qed

lemma distinct_count_list: "distinct xs \<Longrightarrow> count_list xs a \<le> 1"
  by (induction xs) (auto simp: count_list_0_iff)

lemma starts_le_1: "distinct (map fst (tasks l)) \<Longrightarrow> starts a l \<le> 1"
  unfolding starts_def by (rule distinct_count_list)

section \<open>Errors\<close>

text \<open>An error that leaves \<open>executeNode\<close> for good.\<close>

definition given_up :: "wferr \<Rightarrow> istate \<Rightarrow> bool" where
  "given_up e s = (is_cancelled s \<or> isTerminalAdminError e)"

text \<open>The edge check of \<open>GraphInterpreterWorkflow\<close>, as a fact about a state: every edge target has its
  node and its node info.\<close>

definition edges_known :: "WorkflowDefinition \<Rightarrow> istate \<Rightarrow> bool" where
  "edges_known def s = (\<forall>e \<in> set (wd_Edges def). nodesByID (wd_Nodes def) (e_TargetID e) \<noteq> None \<and>
     node_info s (e_TargetID e) \<noteq> None)"

lemma edges_known_history: "history s s' \<Longrightarrow> edges_known def s \<Longrightarrow> edges_known def s'"
  by (auto simp: edges_known_def history_def same_domain_def)

lemma info_history: "history s s' \<Longrightarrow> node_info s i \<noteq> None \<Longrightarrow> node_info s' i \<noteq> None"
  by (auto simp: history_def same_domain_def)

definition errors_given_up :: "WorkflowDefinition \<Rightarrow> exec \<Rightarrow> bool" where
  "errors_given_up def exec =
     (\<forall>e \<in> set (wd_Edges def). \<forall>s err s'.
        edges_known def s \<longrightarrow> exec (e_TargetID e) s = Done (Some err) s' \<longrightarrow> given_up err s')"

lemma errors_follow:
  assumes "errors_given_up def exec" and "set es \<subseteq> set (wd_Edges def)" and "edges_known def s"
    and "follow_first exec es s = Done (Some err) s'"
  shows "given_up err s'"
proof (cases es)
  case (Cons e es')
  let ?s = "s\<lparr>is_edgeTokens := (is_edgeTokens s)(e_ID e := is_edgeTokens s (e_ID e) + 1)\<rparr>"
  have "edges_known def ?s" using assms(3) by (simp add: edges_known_def node_info_def)
  moreover have "exec (e_TargetID e) ?s = Done (Some err) s'"
    using assms(4) Cons by (simp add: follow_first_def transitionTo_def)
  moreover have "e \<in> set (wd_Edges def)" using assms(2) Cons by simp
  ultimately show ?thesis
    using assms(1) unfolding errors_given_up_def by blast
qed (use assms(4) in \<open>simp add: follow_first_def\<close>)

lemma resolve_errors:
  assumes "resolve_parked env def exec node es cause sig s = Done (Inl (Some err)) s'"
    and "errors_given_up def exec" and "set es \<subseteq> set (wd_Edges def)" and "edges_known def s"
  shows "given_up err s'"
proof (cases "ar_Action sig")
  case AdminActionComplete
  have "edges_known def (upd_info (n_ID node) (clear_park NodeStatusCompleted)
          (set_vars (applyVariablesPatch (vars_of s) (ar_Patch sig)) s))"
    by (rule edges_known_history[OF hist.rel_clear_park assms(4)])
  then show ?thesis
    using assms(1) AdminActionComplete errors_follow[OF assms(2,3)]
    by (auto simp: resolve_parked_def completeParkedNode_def split: if_splits)
qed (use assms(1) in \<open>auto simp: resolve_parked_def given_up_def Let_def split: option.splits if_splits\<close>)

text \<open>One turn of the park loop, up to the resolution.\<close>

lemma park_turn_history:
  assumes "awaitAdminResolution act (notifyAdminPark node (park node cause s)) = Done r s2"
    and "joinNotify act s2 = Done u s3"
  shows "history s s3"
proof -
  let ?s1 = "notifyAdminPark node (park node cause s)"
  have "history ?s1 s2" using hist.keeps_awaitAdmin[of ?s1 act] assms(1) by simp
  moreover have "hist.keeps s2 (joinNotify act s2)" by (simp add: joinNotify_def)
  then have "history s2 s3" using assms(2) by simp
  ultimately show ?thesis using hist.rel_park hist.rel_trans by blast
qed

lemma park_errors:
  assumes "park_loop k env def exec node es cause s = Done (Some err) s'"
    and "errors_given_up def exec" and "set es \<subseteq> set (wd_Edges def)" and "hist.keeps_exec exec"
    and "edges_known def s" and "node_info s (n_ID node) \<noteq> None"
  shows "given_up err s'"
  using assms(1,5,6)
proof (induction k arbitrary: cause s)
  case (Suc k)
  let ?s1 = "notifyAdminPark node (park node cause s)"
  let ?act = "activation_of ?s1 (n_ID node)"
  from Suc.prems(1) obtain r s2 s3 where
    r: "awaitAdminResolution ?act ?s1 = Done r s2" "joinNotify ?act s2 = Done () s3" and
    rest: "(case r of
             Inl e \<Rightarrow> Done (Some (TerminalAdminErr e)) (set_status (n_ID node) NodeStatusFailed s3)
           | Inr sig \<Rightarrow>
               bind_run (resolve_parked env def exec node es cause sig
                           (audit (AuditResolution (n_ID node) (ar_Action sig) (ar_Reason sig)) s3)) (\<lambda>next s4.
                 case next of
                   Inl err \<Rightarrow> Done err s4
                 | Inr cause' \<Rightarrow> park_loop k env def exec node es cause' s4)) = Done (Some err) s'"
    unfolding park_loop.simps Let_def bind_run_Done by auto
  note h = park_turn_history[OF r]
  show ?case
  proof (cases r)
    case (Inl e)
    then show ?thesis using rest by (auto simp: given_up_def)
  next
    case (Inr sig)
    let ?a = "audit (AuditResolution (n_ID node) (ar_Action sig) (ar_Reason sig)) s3"
    from rest Inr obtain nxt s4 where
      n: "resolve_parked env def exec node es cause sig ?a = Done nxt s4" and
      k: "(case nxt of Inl err \<Rightarrow> Done err s4 | Inr cause' \<Rightarrow> park_loop k env def exec node es cause' s4) = Done (Some err) s'"
      by auto
    have a: "edges_known def ?a" "node_info ?a (n_ID node) \<noteq> None"
      using edges_known_history[OF h Suc.prems(2)] info_history[OF h Suc.prems(3)]
      by (simp_all add: edges_known_def)
    have "history ?a s4"
      using hist.keeps_resolve[OF assms(4) a(2)] n by (metis hist.keeps_simps(1))
    then have s4: "edges_known def s4" "node_info s4 (n_ID node) \<noteq> None"
      using a edges_known_history info_history by blast+
    show ?thesis
      using k n resolve_errors[OF _ assms(2,3) a(1)] Suc.IH[OF _ s4] by (cases nxt) auto
  qed
qed simp

lemma executeNode_errors:
  assumes "executeNode fuel env def i s = Done (Some err) s'"
    and "edges_known def s" and "nodesByID (wd_Nodes def) i \<noteq> None" and "node_info s i \<noteq> None"
  shows "given_up err s'"
  using assms
proof (induction fuel arbitrary: i s err s')
  case (Suc fuel)
  let ?exec = "executeNode fuel env def"
  from Suc.prems obtain node ni where node: "nodesByID (wd_Nodes def) i = Some node" "node_info s i = Some ni"
    by auto
  then have id: "n_ID node = i" by (auto simp: nodesByID_def dest!: map_of_SomeD)
  let ?es = "out_edges def (n_ID node)"
  let ?s0 = "set_status i NodeStatusRunning s"
  from Suc.prems(1) node obtain err0 s2 where
    d: "dispatchNodeHandler env def ?exec node ?es (mintActivation env (n_ID node) ?s0) = Done (Some err0) s2" and
    p: "given_up err0 s2 \<and> err = err0 \<and> s' = s2 \<or>
        parkNodeForAdmin env def ?exec node ?es err0 s2 = Done (Some err) s'"
    by (auto simp: Let_def given_up_def split: option.splits if_splits)
  have "node_info ?s0 (n_ID node) \<noteq> None" using node id by (simp add: set_status_def)
  from hist.keeps_mint_dispatch[OF hist.keeps_executeNode this, of env def fuel env def ?es] d
  have h: "history s s2" using hist.rel_trans[OF hist.rel_status] by simp
  have known: "edges_known def s2" "node_info s2 (n_ID node) \<noteq> None"
    using edges_known_history[OF h Suc.prems(2)] info_history[OF h, of i] node id by auto
  have "errors_given_up def ?exec"
    unfolding errors_given_up_def using Suc.IH by (meson edges_known_def)
  moreover have "set ?es \<subseteq> set (wd_Edges def)" by (auto simp: out_edges_def)
  ultimately show ?case
    using p park_errors[OF _ _ _ hist.keeps_executeNode known] unfolding parkNodeForAdmin_def by blast
qed simp

section \<open>Properties\<close>

text \<open>C1. Every run of a node has its own identity. However the graph loops and however often an admin
  retries, the activations of one workflow are numbered 1, 2, 3, ... without a gap or a repeat, and
  no two task Activities are ever started under the same ActivationID (unless the UUID hash
  collides on the run's own names).\<close>

theorem activations_unique:
  assumes "GraphInterpreterWorkflow fuel env wfID def vs evs = Inr r" and "final_state r = Some s"
    and "inj_on (en_uuid env) (activation_names s)"
  shows "mint_seqs (is_log s) = rev [1..<Suc (is_seq s)] \<and> distinct (map fst (tasks (is_log s)))"
proof -
  have ok: "minting_ok env s" using workflow_minting[OF assms(1,2)] by simp
  show ?thesis using minted_distinct[OF ok assms(3)] ok unfolding minting_ok_def by blast
qed

text \<open>C2. At most one completion per step: of all CompleteActivation and ForceParkActivation calls a
  workflow ever answers for one activation, at most one is accepted, and none is accepted for an
  activation whose Activity was never started.\<close>

theorem completion_at_most_once:
  assumes "GraphInterpreterWorkflow fuel env wfID def vs evs = Inr r" and "final_state r = Some s"
    and "inj_on (en_uuid env) (activation_names s)"
  shows "accepted a (is_log s) \<le> 1 \<and> (a \<notin> fst ` set (tasks (is_log s)) \<longrightarrow> accepted a (is_log s) = 0)"
proof -
  let ?s = "initial_state (initial_instance wfID def vs) evs"
  from compl.keeps_workflow[OF assms(1,2)] obtain s1 st where
    "completing ?s s1" "s = s1 \<or> s = set_wf_status st s1" .
  then have "slots s a \<le> starts a (is_log s)"
    by (auto simp: completing_def initial_ok)
  moreover have "starts a (is_log s) \<le> 1"
    using starts_le_1 minted_distinct[OF _ assms(3)] workflow_minting[OF assms(1,2)] by blast
  moreover have "a \<notin> fst ` set (tasks (is_log s)) \<Longrightarrow> starts a (is_log s) = 0"
    by (simp add: starts_def)
  ultimately show ?thesis by (auto simp: slots_def)
qed

text \<open>The host's completion hook is for the top-level workflow only: an execution with a parent never
  runs \<open>WorkflowCompletedActivity\<close>, whichever END nodes it reaches.\<close>

theorem completion_hook_top_only:
  assumes "GraphInterpreterWorkflow fuel env wfID def vs evs = Inr r" and "final_state r = Some s"
    and "\<not> en_top env"
  shows "\<forall>c \<in> set (is_log s). \<not> is_completion c"
proof -
  from top.keeps_workflow[OF assms(1,2)] obtain s1 st where
    "top_only env (initial_state (initial_instance wfID def vs) evs) s1" "s = s1 \<or> s = set_wf_status st s1" .
  then have "filter is_completion (is_log s) = []"
    using assms(3) by (auto simp: top_only_def initial_ok)
  then show ?thesis by (simp add: filter_empty_conv)
qed

lemma first_error_None: "first_error f xs = None \<Longrightarrow> x \<in> set xs \<Longrightarrow> f x = None"
  by (induction xs) (auto split: option.splits)

lemma initial_info_known: "node_info (initial_state (initial_instance wfID def vs) evs) i =
   map_option initial_info (nodesByID (wd_Nodes def) i)"
  by (simp add: node_info_def initial_state_def initial_instance_def)

lemma findStartNode_known: "findStartNode def = Some n \<Longrightarrow> nodesByID (wd_Nodes def) (n_ID n) \<noteq> None"
proof -
  assume "findStartNode def = Some n"
  then have "n \<in> set (wd_Nodes def)" by (auto simp: findStartNode_def find_Some_iff)
  then have "n_ID n \<in> fst ` set (rev (map (\<lambda>n. (n_ID n, n)) (wd_Nodes def)))" by force
  then show ?thesis unfolding nodesByID_def by (simp only: map_of_eq_None_iff not_not)
qed

lemma workflow_start:
  assumes "GraphInterpreterWorkflow fuel env wfID def vs evs = Inr r" and "findStartNode def = Some n"
  shows "edges_known def (initial_state (initial_instance wfID def vs) evs) \<and>
         nodesByID (wd_Nodes def) (n_ID n) \<noteq> None \<and>
         node_info (initial_state (initial_instance wfID def vs) evs) (n_ID n) \<noteq> None \<and>
         r = bind_run (executeNode fuel env def (n_ID n) (initial_state (initial_instance wfID def vs) evs))
               (\<lambda>err s1. case err of
                  Some e \<Rightarrow> Done (Some e) (set_wf_status StatusFailed s1)
                | None \<Rightarrow> Done None (set_wf_status StatusCompleted s1))"
proof -
  let ?inst = "initial_instance wfID def vs"
  from assms have e: "first_error (edge_error ?inst) (wd_Edges def) = None" and
    r: "r = bind_run (executeNode fuel env def (n_ID n) (initial_state ?inst evs))
               (\<lambda>err s1. case err of
                  Some e \<Rightarrow> Done (Some e) (set_wf_status StatusFailed s1)
                | None \<Rightarrow> Done None (set_wf_status StatusCompleted s1))"
    by (auto simp: GraphInterpreterWorkflow_def Let_def split: option.splits)
  have "wi_NodeInfo ?inst (e_TargetID x) \<noteq> None" if "x \<in> set (wd_Edges def)" for x
    using first_error_None[OF e that] by (auto simp: edge_error_def split: if_splits)
  then have "edges_known def (initial_state ?inst evs)"
    unfolding edges_known_def initial_info_known by (auto simp: initial_instance_def)
  with r show ?thesis
    using findStartNode_known[OF assms(2)] by (simp add: initial_info_known)
qed


end
