(* ===== verification/Engine_Total.thy ===== *)
theory Engine_Total
  imports Engine_Props
begin

text \<open>
  Termination: the bounds of the two inner loops (monitoring children, parking) are never reached, and
  on a graph that cannot loop neither is the bound on the recursion of \<open>executeNode\<close>. A run then
  ends or waits for an event, whatever the events are.
\<close>

section \<open>Waiting\<close>

lemma wait_loop_not_fuel [simp]: "wait_loop ready evs s \<noteq> OutOfFuel"
  by (induction ready evs s rule: wait_loop.induct)
    (subst wait_loop.simps, auto split: option.split list.split)

lemma wait_for_not_fuel [simp]: "wait_for ready s \<noteq> OutOfFuel"
  by (simp add: wait_for_def)

lemma bind_run_fuel:
  "bind_run r f = OutOfFuel \<longleftrightarrow> r = OutOfFuel \<or> (\<exists>x s1. r = Done x s1 \<and> f x s1 = OutOfFuel)"
  by (cases r) auto

text \<open>When a wait ends, what it waited for is there in the state before the inbox is put back.\<close>

lemma wait_loop_Done:
  "wait_loop ready evs s = Done x s' \<Longrightarrow> \<exists>s0 evs'. ready s0 = Some x \<and> s' = s0\<lparr>is_inbox := evs'\<rparr>"
proof (induction ready evs s rule: wait_loop.induct)
  case (1 ready evs s)
  then show ?case
    by (subst (asm) (2) wait_loop.simps) (auto split: option.splits list.splits)
qed

lemma wait_for_Done:
  "wait_for ready s = Done x s' \<Longrightarrow> \<exists>s0 evs'. ready s0 = Some x \<and> s' = s0\<lparr>is_inbox := evs'\<rparr>"
  unfolding wait_for_def by (rule wait_loop_Done)

text \<open>A wait that cannot return at once consumes an event.\<close>

lemma wait_loop_inbox: "wait_loop ready evs s = Done x s' \<Longrightarrow> length (is_inbox s') \<le> length evs"
proof (induction ready evs s rule: wait_loop.induct)
  case (1 ready evs s)
  then show ?case
    by (subst (asm) (2) wait_loop.simps) (fastforce split: option.splits list.splits)
qed

lemma wait_for_consumes:
  assumes "ready s = None" and "wait_for ready s = Done x s'"
  shows "length (is_inbox s') < length (is_inbox s)"
proof (cases "is_inbox s")
  case Nil
  then show ?thesis using assms by (simp add: wait_for_def wait_loop.simps)
next
  case (Cons ev evs)
  then have "wait_loop ready evs (handle_event ev s) = Done x s'"
    using assms by (simp add: wait_for_def wait_loop.simps)
  then show ?thesis using wait_loop_inbox Cons by fastforce
qed

section \<open>Monitoring children\<close>

definition chan_load :: "string \<Rightarrow> istate \<Rightarrow> nat" where
  "chan_load ch s = length (is_broadcasts s ch)"

lemma chan_load_event: "chan_load ch (handle_event ev s) \<le> Suc (chan_load ch s)"
  by (auto simp: chan_load_def event_defs split: event.split option.split)

lemma wait_loop_load:
  "wait_loop ready evs s = Done x s' \<Longrightarrow> length (is_inbox s') + chan_load ch s' \<le> length evs + chan_load ch s"
proof (induction ready evs s rule: wait_loop.induct)
  case (1 ready evs s)
  show ?case
  proof (cases "ready s")
    case None
    then obtain ev evs' where evs: "evs = ev # evs'" and w: "wait_loop ready evs' (handle_event ev s) = Done x s'"
      using 1(2) by (subst (asm) wait_loop.simps) (auto split: list.splits)
    show ?thesis using 1(1)[OF None evs w] chan_load_event[of ch ev s] evs by simp
  next
    case (Some y)
    then show ?thesis using 1(2) by (subst (asm) wait_loop.simps) (auto simp: chan_load_def)
  qed
qed

lemma fold_keeps_queues:
  assumes "\<And>x s. is_inbox (f x s) = is_inbox s \<and> is_broadcasts (f x s) = is_broadcasts s"
  shows "is_inbox (fold f xs s) = is_inbox s \<and> chan_load ch (fold f xs s) = chan_load ch s"
  using assms by (induction xs arbitrary: s) (auto simp: chan_load_def)

lemma rebroadcast_keeps [simp]:
  "is_inbox (rebroadcast msg active s) = is_inbox s" "chan_load ch (rebroadcast msg active s) = chan_load ch s"
proof -
  have "is_inbox (rebroadcast msg active s) = is_inbox s \<and> chan_load ch (rebroadcast msg active s) = chan_load ch s"
    unfolding rebroadcast_def by (rule fold_keeps_queues) (auto simp: issue_def)
  then show "is_inbox (rebroadcast msg active s) = is_inbox s"
    "chan_load ch (rebroadcast msg active s) = chan_load ch s" by simp_all
qed

lemma monitor_ready_inbox [simp]: "monitor_ready act ch order active (s\<lparr>is_inbox := evs\<rparr>) = monitor_ready act ch order active s"
  by (cases "is_broadcasts s ch") (simp_all add: monitor_ready_def split: option.split)

lemma drop_branch_shorter: "cid \<in> fst ` set active \<Longrightarrow> length (drop_branch cid active) < length active"
  unfolding drop_branch_def by (auto intro: length_filter_less)

lemma monitor_not_fuel:
  "length active + length (is_inbox s) + chan_load (childBroadcastSignalName i) s < k \<Longrightarrow>
   monitor_loop k env act cfg i order active results failed s \<noteq> OutOfFuel"
proof (induction k arbitrary: active results failed s)
  case (Suc k)
  let ?ch = "childBroadcastSignalName i"
  let ?ready = "monitor_ready act ?ch order active"
  have turn: "length (is_inbox s1) + chan_load ?ch s1 \<le> length (is_inbox s) + chan_load ?ch s"
    "?ready s1 = Some p" if "wait_for ?ready s = Done p s1" for p s1
    using that wait_loop_load[of ?ready "is_inbox s" s p s1 ?ch] wait_for_Done[OF that]
    by (auto simp: wait_for_def)
  have cast: "monitor_loop k env act cfg i order active results failed
      (rebroadcast msg active (s1\<lparr>is_broadcasts := (is_broadcasts s1)(?ch := tl (is_broadcasts s1 ?ch))\<rparr>)) \<noteq> OutOfFuel"
    if w: "wait_for ?ready s = Done (PickBroadcast msg) s1" for msg s1
  proof (rule Suc.IH)
    have "is_broadcasts s1 ?ch \<noteq> []" using turn(2)[OF w]
      by (auto simp: monitor_ready_def split: list.splits option.splits)
    then have "chan_load ?ch (s1\<lparr>is_broadcasts := (is_broadcasts s1)(?ch := tl (is_broadcasts s1 ?ch))\<rparr>) < chan_load ?ch s1"
      by (simp add: chan_load_def)
    then show "length active + length (is_inbox (rebroadcast msg active
        (s1\<lparr>is_broadcasts := (is_broadcasts s1)(?ch := tl (is_broadcasts s1 ?ch))\<rparr>))) +
      chan_load ?ch (rebroadcast msg active (s1\<lparr>is_broadcasts := (is_broadcasts s1)(?ch := tl (is_broadcasts s1 ?ch))\<rparr>)) < k"
      using turn(1)[OF w] Suc.prems by simp
  qed
  have child: "cid \<in> fst ` set active \<and>
      monitor_loop k env act cfg i order (drop_branch cid active) results' failed' s1 \<noteq> OutOfFuel"
    if w: "wait_for ?ready s = Done (PickChild cid r) s1" for cid r s1 results' failed'
  proof -
    have mem: "cid \<in> fst ` set active" using turn(2)[OF w]
      by (auto simp: monitor_ready_def find_Some_iff split: list.splits option.splits)
    then show ?thesis
      using drop_branch_shorter[OF mem] turn(1)[OF w] Suc.prems by (auto intro!: Suc.IH)
  qed
  show ?case
  proof
    assume "monitor_loop (Suc k) env act cfg i order active results failed s = OutOfFuel"
    then obtain p s1 where w: "wait_for ?ready s = Done p s1" and
      f: "(case p of
          PickBroadcast msg \<Rightarrow>
            (let s2 = rebroadcast msg active (s1\<lparr>is_broadcasts := (is_broadcasts s1)(?ch := tl (is_broadcasts s1 ?ch))\<rparr>)
             in monitor_loop k env act cfg i order active results failed s2)
        | PickChild cid r \<Rightarrow>
            (case map_of active cid of
               None \<Rightarrow> monitor_loop k env act cfg i order active results failed s1
             | Some b \<Rightarrow>
                 (let active' = drop_branch cid active; results' = branch_result env b r results
                  in case r of
                       Inl e \<Rightarrow>
                         (let err = branch_error (ab_BranchID b) cid e
                          in if st_FailureMode cfg = FailureModeFailFast
                             then Done (Some err, results', failed @ [err])
                                    (cancel_children active' (set_status i NodeStatusFailed s1))
                             else monitor_loop k env act cfg i order active' results' (failed @ [err]) s1)
                     | Inr _ \<Rightarrow> monitor_loop k env act cfg i order active' results' failed s1))) = OutOfFuel"
      by (auto simp: bind_run_fuel split: if_splits)
    show False
    proof (cases p)
      case (PickBroadcast msg)
      then show False using f cast w by (simp add: Let_def)
    next
      case (PickChild cid r)
      then have "map_of active cid \<noteq> None" using child[of cid r s1] w by (simp add: map_of_eq_None_iff)
      then show False
        using f PickChild child[of cid r s1] w by (auto simp: Let_def split: sum.splits if_splits)
    qed
  qed
qed simp

lemma monitorChildWorkflows_total: "monitorChildWorkflows env act cfg i active s \<noteq> OutOfFuel"
proof -
  have "monitor_loop (monitor_fuel i active s) env act cfg i order active results [] s \<noteq> OutOfFuel" for order results
    by (rule monitor_not_fuel) (simp add: monitor_fuel_def chan_load_def)
  then show ?thesis
    unfolding monitorChildWorkflows_def bind_run_fuel Let_def by (auto split: option.splits if_splits)
qed

section \<open>Handlers\<close>

text \<open>A continuation that never runs out at the targets of the given edges.\<close>

definition exec_total :: "exec \<Rightarrow> Edge set \<Rightarrow> bool" where
  "exec_total exec es = (\<forall>e \<in> es. \<forall>s. exec (e_TargetID e) s \<noteq> OutOfFuel)"

lemma exec_total_mono: "exec_total exec es \<Longrightarrow> es' \<subseteq> es \<Longrightarrow> exec_total exec es'"
  by (auto simp: exec_total_def)

lemma follow_total: "exec_total exec (set es) \<Longrightarrow> follow_first exec es s \<noteq> OutOfFuel"
  by (cases es) (auto simp: follow_first_def exec_total_def transitionTo_def)

lemma await_children_total: "await_children act stop cs acc s \<noteq> OutOfFuel"
  by (induction act stop cs acc s rule: await_children.induct) (auto simp: bind_run_fuel Let_def)

lemma await_fetches_total: "await_fetches act ts s \<noteq> OutOfFuel"
  by (induction act ts s rule: await_fetches.induct) (auto simp: bind_run_fuel split: sum.split)

lemma fetch_batches_total: "fetch_batches act bs s \<noteq> OutOfFuel"
  by (induction act bs s rule: fetch_batches.induct)
    (auto simp: bind_run_fuel await_fetches_total split: sum.split)

lemma await_starts_total: "await_starts act cs errs s \<noteq> OutOfFuel"
  by (induction act cs errs s rule: await_starts.induct) (auto simp: bind_run_fuel)

lemma spawnChildren_total: "spawnChildWorkflows env node cfg data k s \<noteq> OutOfFuel"
  unfolding spawnChildWorkflows_def Let_def
  by (auto simp: bind_run_fuel fetch_batches_total await_starts_total split: sum.split)

lemmas parts_total = await_children_total spawnChildren_total monitorChildWorkflows_total

lemma hd_total: "exec_total exec (set es) \<Longrightarrow> length es = Suc 0 \<Longrightarrow> transitionTo exec (hd es) s \<noteq> OutOfFuel"
  by (cases es) (auto simp: exec_total_def transitionTo_def)

lemma start_total: "exec_total exec (set es) \<Longrightarrow> handleStartNode exec i es s \<noteq> OutOfFuel"
  by (cases es) (auto simp: handleStartNode_def exec_total_def transitionTo_def)

lemma timer_total: "exec_total exec (set es) \<Longrightarrow> handleTimerNode exec node es s \<noteq> OutOfFuel"
  unfolding handleTimerNode_def Let_def by (auto simp: bind_run_fuel hd_total split: option.split)

lemma end_total: "handleEndNode env i s \<noteq> OutOfFuel"
  unfolding handleEndNode_def by (auto simp: bind_run_fuel split: option.split)

lemma task_total: "exec_total exec (set es) \<Longrightarrow> handleTaskNode exec node es s \<noteq> OutOfFuel"
  unfolding handleTaskNode_def awaitTask_def finishTask_def Let_def
  by (auto simp: bind_run_fuel follow_total split: option.split sum.split prod.split)

lemma signaling_total: "exec_total exec (set es) \<Longrightarrow> handleSignalingNode exec node es s \<noteq> OutOfFuel"
  unfolding handleSignalingNode_def handleSignalingEmit_def handleSignalingWait_def mapSignalData_def Let_def
  by (auto simp: bind_run_fuel hd_total split: option.split prod.split SignalingType.split)

lemma first_match_in: "first_match run vs es = Inr (Some e) \<Longrightarrow> e \<in> set es"
  by (induction run vs es rule: first_match.induct) (auto split: sum.splits if_splits)

lemma exclusiveSplit_total: "exec_total exec (set es) \<Longrightarrow> handleExclusiveSplit env exec node es s \<noteq> OutOfFuel"
  unfolding handleExclusiveSplit_def
  by (auto simp: exec_total_def transitionTo_def split: sum.split option.split dest!: first_match_in)

lemma exclusiveJoin_total: "exec_total exec (set es) \<Longrightarrow> handleExclusiveJoin exec node ins es s \<noteq> OutOfFuel"
  unfolding handleExclusiveJoin_def Let_def by (auto simp: hd_total split: option.split)

lemma skip_total: "exec_total exec (set (out_edges def j)) \<Longrightarrow> skipToJoinOutEdge def exec j s \<noteq> OutOfFuel"
  by (simp add: skipToJoinOutEdge_def follow_total)

lemma batchSplit_total:
  "exec_total exec (set (out_edges def (findPairedBatchJoin def (n_ID node)))) \<Longrightarrow>
   handleBatchSplitGateway env def exec node es s \<noteq> OutOfFuel"
  unfolding handleBatchSplitGateway_def run_batch_def finish_batch_def Let_def
  by (auto simp: bind_run_fuel skip_total parts_total split: option.split sum.split prod.split)

lemma parallelSplit_total:
  "exec_total exec (set (out_edges def (findPairedParallelJoin def (n_ID node)))) \<Longrightarrow>
   handleParallelSplitGateway env def exec node es s \<noteq> OutOfFuel"
  unfolding handleParallelSplitGateway_def finish_parallel_def Let_def
  by (auto simp: bind_run_fuel skip_total parts_total split: option.split sum.split)

lemma joins_total:
  "exec_total exec (set es) \<Longrightarrow> handleBatchJoinGateway exec node es s \<noteq> OutOfFuel"
  "exec_total exec (set es) \<Longrightarrow> handleParallelJoinGateway exec node es s \<noteq> OutOfFuel"
  by (simp_all add: handleBatchJoinGateway_def handleParallelJoinGateway_def Let_def follow_total)

lemma splitTask_total: "exec_total exec (set es) \<Longrightarrow> handleSplitTaskNode env exec node es s \<noteq> OutOfFuel"
  unfolding handleSplitTaskNode_def Let_def
  by (auto simp: bind_run_fuel follow_total parts_total split: option.split sum.split prod.split)

text \<open>The edges along which a node's handler can go on: its own, and for a split those of its join.\<close>

definition next_edges :: "WorkflowDefinition \<Rightarrow> string \<Rightarrow> Edge set" where
  "next_edges def i =
     set (out_edges def i) \<union> set (out_edges def (findPairedBatchJoin def i)) \<union>
     set (out_edges def (findPairedParallelJoin def i))"

lemma dispatch_total:
  assumes "exec_total exec (next_edges def (n_ID node))"
  shows "dispatchNodeHandler env def exec node (out_edges def (n_ID node)) s \<noteq> OutOfFuel"
proof -
  have "exec_total exec (set (out_edges def (n_ID node)))"
    "exec_total exec (set (out_edges def (findPairedBatchJoin def (n_ID node))))"
    "exec_total exec (set (out_edges def (findPairedParallelJoin def (n_ID node))))"
    using assms by (auto simp: next_edges_def exec_total_def)
  then show ?thesis
    by (simp add: dispatchNodeHandler_def handleGatewayNode_def start_total timer_total end_total task_total
        signaling_total exclusiveSplit_total exclusiveJoin_total batchSplit_total parallelSplit_total joins_total
        splitTask_total split: NodeType.split GatewayType.split)
qed

section \<open>Parking\<close>

lemma awaitAdmin_consumes:
  assumes "awaitAdminResolution act s = Done r s'"
  shows "length (is_inbox s') < length (is_inbox s)"
proof -
  let ?s = "s\<lparr>is_pendingAdmin := act # is_pendingAdmin s, is_adminSettled := (is_adminSettled s)(act := None)\<rparr>"
  from assms obtain s1 where w: "wait_for (\<lambda>s. is_adminSettled s act) ?s = Done r s1"
    and s': "s' = s1\<lparr>is_pendingAdmin := removeAll act (is_pendingAdmin s1)\<rparr>"
    by (auto simp: awaitAdminResolution_def)
  show ?thesis
    using wait_for_consumes[OF _ w] by (simp add: s')
qed

lemma park_parts_total: "awaitAdminResolution act s \<noteq> OutOfFuel" "joinNotify act s \<noteq> OutOfFuel"
  by (simp_all add: awaitAdminResolution_def joinNotify_def bind_run_fuel)

lemma history_inbox: "history s s' \<Longrightarrow> length (is_inbox s') \<le> length (is_inbox s)"
  by (auto simp: history_def dest: suffix_length_le)

lemma resolve_total:
  assumes "exec_total exec (next_edges def (n_ID node))"
  shows "resolve_parked env def exec node (out_edges def (n_ID node)) cause sig s \<noteq> OutOfFuel"
proof -
  have "exec_total exec (set (out_edges def (n_ID node)))"
    using assms by (rule exec_total_mono) (auto simp: next_edges_def)
  then show ?thesis
    using dispatch_total[OF assms]
    by (auto simp: resolve_parked_def completeParkedNode_def bind_run_fuel Let_def follow_total
        split: AdminResolutionAction.split option.split)
qed

lemma park_total:
  assumes "exec_total exec (next_edges def (n_ID node))" and "hist.keeps_exec exec"
    and "length (is_inbox s) < k" and "node_info s (n_ID node) \<noteq> None"
  shows "park_loop k env def exec node (out_edges def (n_ID node)) cause s \<noteq> OutOfFuel"
  using assms(3,4)
proof (induction k arbitrary: cause s)
  case (Suc k)
  let ?es = "out_edges def (n_ID node)"
  let ?s1 = "notifyAdminPark node (park node cause s)"
  let ?act = "activation_of ?s1 (n_ID node)"
  have rest: "bind_run (resolve_parked env def exec node ?es cause sig
                (audit (AuditResolution (n_ID node) (ar_Action sig) (ar_Reason sig)) s3)) (\<lambda>next s4.
                 case next of
                   Inl err \<Rightarrow> Done err s4
                 | Inr cause' \<Rightarrow> park_loop k env def exec node ?es cause' s4) \<noteq> OutOfFuel"
    if r: "awaitAdminResolution ?act ?s1 = Done r s2" "joinNotify ?act s2 = Done u s3" for r s2 u s3 sig
  proof -
    let ?a = "audit (AuditResolution (n_ID node) (ar_Action sig) (ar_Reason sig)) s3"
    have info: "node_info ?a (n_ID node) \<noteq> None"
      using info_history[OF park_turn_history[OF r] Suc.prems(2)] by simp
    have "history s2 s3" using hist.keeps_wait r(2) by (metis joinNotify_def hist.keeps_simps(1))
    then have "length (is_inbox s3) < length (is_inbox s)"
      using awaitAdmin_consumes[OF r(1)] history_inbox[OF hist.rel_park[of s node cause]] history_inbox[of s2 s3]
      by linarith
    then have small: "length (is_inbox ?a) < k" using Suc.prems(1) by (simp add: audit_def)
    have "park_loop k env def exec node ?es cause' s4 \<noteq> OutOfFuel"
      if "resolve_parked env def exec node ?es cause sig ?a = Done nxt s4" for nxt s4 cause'
    proof -
      have "history ?a s4" using hist.keeps_resolve[OF assms(2) info] that by (metis hist.keeps_simps(1))
      then show ?thesis
        using small history_inbox[of ?a s4] info_history[of ?a s4 "n_ID node"] info by (intro Suc.IH) auto
    qed
    then show ?thesis
      using resolve_total[OF assms(1)] by (auto simp: bind_run_fuel split: sum.split)
  qed
  show ?case
    unfolding park_loop.simps Let_def
    by (auto simp: bind_run_fuel[of "awaitAdminResolution ?act ?s1"] bind_run_fuel[of "joinNotify ?act s2" for s2]
        park_parts_total split: sum.splits dest: rest)
qed simp

section \<open>Properties\<close>

text \<open>A rank that falls along every step the interpreter can take: the graph has no loops, seen through
  its splits.\<close>

definition ranked :: "(string \<Rightarrow> nat) \<Rightarrow> WorkflowDefinition \<Rightarrow> bool" where
  "ranked rank def = (\<forall>n \<in> set (wd_Nodes def). \<forall>e \<in> next_edges def (n_ID n). rank (e_TargetID e) < rank (n_ID n))"

lemma executeNode_not_fuel:
  assumes "ranked rank def" and "rank i < fuel"
  shows "executeNode fuel env def i s \<noteq> OutOfFuel"
  using assms(2)
proof (induction fuel arbitrary: i s)
  case (Suc fuel)
  let ?exec = "executeNode fuel env def"
  show ?case
  proof (cases "nodesByID (wd_Nodes def) i = None \<or> node_info s i = None")
    case False
    then obtain node ni where node: "nodesByID (wd_Nodes def) i = Some node" "node_info s i = Some ni" by auto
    then have id: "n_ID node = i" and mem: "node \<in> set (wd_Nodes def)"
      by (auto simp: nodesByID_def dest!: map_of_SomeD)
    have tot: "exec_total ?exec (next_edges def (n_ID node))"
      unfolding exec_total_def
    proof (intro ballI allI Suc.IH)
      fix e assume "e \<in> next_edges def (n_ID node)"
      then have "rank (e_TargetID e) < rank i" using assms(1) mem id by (auto simp: ranked_def)
      then show "rank (e_TargetID e) < fuel" using Suc.prems by simp
    qed
    let ?s0 = "set_status i NodeStatusRunning s"
    let ?run = "dispatchNodeHandler env def ?exec node (out_edges def (n_ID node)) (mintActivation env (n_ID node) ?s0)"
    have info: "node_info ?s0 (n_ID node) \<noteq> None" using node id by (simp add: set_status_def)
    have "node_info s2 (n_ID node) \<noteq> None" if "?run = Done x s2" for x s2
      using hist.keeps_mint_dispatch[OF hist.keeps_executeNode info] that info_history info
      by (metis hist.keeps_simps(1))
    then have "parkNodeForAdmin env def ?exec node (out_edges def (n_ID node)) e s2 \<noteq> OutOfFuel"
      if "?run = Done x s2" for x s2 e
      unfolding parkNodeForAdmin_def using that by (intro park_total[OF tot hist.keeps_executeNode]) auto
    then show ?thesis
      using node dispatch_total[OF tot] by (auto simp: Let_def bind_run_fuel split: option.splits if_splits)
  qed (auto split: option.splits)
qed simp

text \<open>C4. On a definition without loops the interpreter never runs forever: with the rank of the START node as
  recursion depth, a run ends or waits for an outside event, whatever the events, the admin
  resolutions and the children's results are.\<close>

theorem workflow_terminates:
  assumes "ranked rank def" and "findStartNode def = Some n" and "rank (n_ID n) < fuel"
    and "GraphInterpreterWorkflow fuel env wfID def vs evs = Inr r"
  shows "(\<exists>err s. r = Done err s) \<or> (\<exists>s. r = Waiting s)"
proof -
  have "r \<noteq> OutOfFuel"
    using workflow_start[OF assms(4,2)] executeNode_not_fuel[OF assms(1,3)]
    by (auto simp: bind_run_fuel split: option.splits)
  then show ?thesis by (cases r) auto
qed

end
