(* ===== verification/Engine_Node_Props.thy ===== *)
theory Engine_Node_Props
  imports Engine_Total
begin

text \<open>
  Properties of single nodes: mappings between workflow variables and tasks, the admin's patch,
  routing, timers, waiting steps and parked nodes, split failure modes and nesting depth.
\<close>

section \<open>Mapping loops\<close>

text \<open>What a mapping finds (target and value) and what it requires and does not find, in visit order.\<close>

definition source_of :: "string \<Rightarrow> string" where
  "source_of rawKey = fst (parseMappingKey rawKey)"

definition is_optional :: "string \<Rightarrow> bool" where
  "is_optional rawKey = snd (parseMappingKey rawKey)"

definition found :: "vars \<Rightarrow> (string \<times> string) list \<Rightarrow> (string \<times> jval) list" where
  "found src ms =
     concat (map (\<lambda>(k, t). case GetNestedKey src (source_of k) of Some v \<Rightarrow> [(t, v)] | None \<Rightarrow> []) ms)"

definition absent :: "vars \<Rightarrow> (string \<times> string) list \<Rightarrow> string list" where
  "absent src ms =
     concat (map (\<lambda>(k, t). if GetNestedKey src (source_of k) = None \<and> \<not> is_optional k then [source_of k] else []) ms)"

lemma output_loop_eq: "output_loop r ms ws miss = (ws @ found r ms, miss @ absent r ms)"
  by (induction r ms ws miss rule: output_loop.induct)
    (auto simp: found_def absent_def source_of_def is_optional_def split: option.splits prod.splits)

lemma input_loop_eq: "input_loop wv ms dst miss = (nested.write_all (found wv ms) dst, miss @ absent wv ms)"
  by (induction wv ms dst miss rule: input_loop.induct)
    (auto simp: found_def absent_def source_of_def is_optional_def split: option.splits prod.splits)

lemma absent_empty_iff:
  "absent src (sorted_entries m) = [] \<longleftrightarrow>
   (\<forall>k t. map_of m k = Some t \<and> \<not> is_optional k \<longrightarrow> GetNestedKey src (source_of k) \<noteq> None)"
  by (auto simp: absent_def set_sorted_entries[symmetric] split: if_splits)

text \<open>Targets at which several writes do not disturb each other.\<close>

definition separate :: "(string \<times> string) list \<Rightarrow> bool" where
  "separate ms = ((\<forall>(k, t) \<in> set ms. valid_path t) \<and> sorted_wrt (\<lambda>(k, t) (k', t'). diverges t t') ms)"

lemma found_separate:
  "separate ms \<Longrightarrow>
   (\<forall>(t, v) \<in> set (found src ms). valid_path t) \<and> sorted_wrt (\<lambda>(t, v) (t', v'). diverges t t') (found src ms) \<and>
   (\<forall>(t, v) \<in> set (found src ms). \<exists>k. (k, t) \<in> set ms)"
proof (induction ms)
  case (Cons m ms)
  obtain k t where m: "m = (k, t)" by (cases m)
  have "separate ms" using Cons.prems by (auto simp: separate_def)
  note IH = Cons.IH[OF this]
  have step: "found src ((k, t) # ms) = (case GetNestedKey src (source_of k) of Some v \<Rightarrow> [(t, v)] | None \<Rightarrow> []) @ found src ms"
    by (simp add: found_def)
  have "diverges t t'" if "(t', v') \<in> set (found src ms)" for t' v'
    using IH that Cons.prems m by (fastforce simp: separate_def)
  moreover have "valid_path t" using Cons.prems m by (simp add: separate_def)
  ultimately show ?case
    using IH unfolding m step by (auto split: option.splits)
qed (simp add: found_def)

lemma write_found_read:
  assumes "separate ms" and "(k, t) \<in> set ms" and "GetNestedKey src (source_of k) = Some v"
  shows "GetNestedKey (nested.write_all (found src ms) m) t = Some (merge_val v (GetNestedKey m t))"
proof (rule nested.write_all_read)
  show "(t, v) \<in> set (found src ms)" using assms(2,3) by (force simp: found_def)
qed (use found_separate[OF assms(1)] in \<open>auto\<close>)

lemma write_found_other:
  assumes "separate ms" and "\<forall>(k, t) \<in> set ms. diverges t q"
  shows "GetNestedKey (nested.write_all (found src ms) m) q = GetNestedKey m q"
proof (rule nested.write_all_untouched)
  show "\<forall>(t, v) \<in> set (found src ms). valid_path t \<and> diverges t q"
    using found_separate[OF assms(1), of src] assms(2) by fast
qed (use found_separate[OF assms(1)] in \<open>auto\<close>)

lemma fold_write_all: "fold (\<lambda>(k, v) vs. SetNestedKey vs k v) ws vs = nested.write_all ws vs"
  by (simp add: nested.write_all_def)

lemma mapTaskOutputs_eq:
  "mapTaskOutputs vs om result =
     (if absent result (sorted_entries om) = [] then (None, nested.write_all (found result (sorted_entries om)) vs)
      else (Some (CategorizedErr ParkCategoryOutputMapping
              (Errorf ''output mapping error: not found in task result''
                 [describeVariables (absent result (sorted_entries om))])), vs))"
  by (auto simp: mapTaskOutputs_def output_loop_eq fold_write_all sorted_entries_def found_def absent_def)

section \<open>Properties\<close>

text \<open>\<open>mapTaskOutputs\<close> is all-or-nothing: it fails exactly when a required source is missing from the
  result, then leaves the workflow variables as they were, and otherwise writes every value it
  found at its target, merged into what is there, touching no path that diverges from all targets.\<close>

theorem mapTaskOutputs_all_or_nothing:
  assumes "mapTaskOutputs vs outputMapping result = (err, vs')"
  shows "(err = None \<longleftrightarrow> (\<forall>k t. map_of outputMapping k = Some t \<and> \<not> is_optional k \<longrightarrow>
            GetNestedKey result (source_of k) \<noteq> None)) \<and>
         (err \<noteq> None \<longrightarrow> vs' = vs) \<and>
         (err = None \<and> separate (sorted_entries outputMapping) \<longrightarrow>
            (\<forall>k t v. map_of outputMapping k = Some t \<and> GetNestedKey result (source_of k) = Some v \<longrightarrow>
               GetNestedKey vs' t = Some (merge_val v (GetNestedKey vs t))) \<and>
            (\<forall>q. (\<forall>(k, t) \<in> set (sorted_entries outputMapping). diverges t q) \<longrightarrow>
               GetNestedKey vs' q = GetNestedKey vs q))"
proof (cases "absent result (sorted_entries outputMapping) = []")
  case True
  then have "err = None" "vs' = nested.write_all (found result (sorted_entries outputMapping)) vs"
    using assms by (simp_all add: mapTaskOutputs_eq)
  then show ?thesis
    using True write_found_read write_found_other
    by (auto simp: absent_empty_iff set_sorted_entries)
next
  case False
  then have "err \<noteq> None" "vs' = vs" using assms by (auto simp: mapTaskOutputs_eq)
  with False show ?thesis by (auto simp: absent_empty_iff)
qed

text \<open>A task sees the variables it maps: when \<open>mapTaskInputs\<close> succeeds, every mapped variable that exists
  is found in the inputs under its target, unchanged, and every required one does exist.\<close>

theorem mapTaskInputs_reads:
  assumes "mapTaskInputs vs inputMapping = Inr inputs" and "separate (sorted_entries inputMapping)"
  shows "\<forall>k t. map_of inputMapping k = Some t \<longrightarrow>
           (\<not> is_optional k \<longrightarrow> GetNestedKey vs (source_of k) \<noteq> None) \<and>
           (\<forall>v. GetNestedKey vs (source_of k) = Some v \<longrightarrow> GetNestedKey inputs t = Some v)"
proof -
  have ok: "absent vs (sorted_entries inputMapping) = []"
    and inputs: "inputs = nested.write_all (found vs (sorted_entries inputMapping)) empty_map"
    using assms(1) by (auto simp: mapTaskInputs_def applyInputMapping_def input_loop_eq split: if_splits)
  have none: "GetNestedKey empty_map t = None" for t
    by (subst GetNestedKey.simps) (auto simp: empty_map_def split: option.split)
  show ?thesis
    using ok write_found_read[OF assms(2), of _ _ vs _ empty_map]
    by (auto simp: absent_empty_iff inputs none set_sorted_entries)
qed

text \<open>An admin's patch writes each of its dotted paths like an output mapping does, and nothing else: with
  paths that do not overlap, each patched path holds its value merged into the old one, and any
  path that diverges from all of them is untouched.\<close>

theorem applyVariablesPatch_writes:
  assumes "\<forall>(k, v) \<in> set (sorted_entries patch). valid_path k"
    and "sorted_wrt (\<lambda>(k, v) (k', v'). diverges k k') (sorted_entries patch)"
  shows "(\<forall>k v. map_of patch k = Some v \<longrightarrow>
            GetNestedKey (applyVariablesPatch vs patch) k = Some (merge_val v (GetNestedKey vs k))) \<and>
         (\<forall>q. (\<forall>(k, v) \<in> set (sorted_entries patch). diverges k q) \<longrightarrow>
            GetNestedKey (applyVariablesPatch vs patch) q = GetNestedKey vs q)"
  unfolding applyVariablesPatch_def fold_write_all
proof (intro conjI allI impI)
  fix k v assume "map_of patch k = Some v"
  then show "GetNestedKey (nested.write_all (sorted_entries patch) vs) k = Some (merge_val v (GetNestedKey vs k))"
    using assms by (intro nested.write_all_read) (auto simp: set_sorted_entries)
next
  fix q assume "\<forall>(k, v) \<in> set (sorted_entries patch). diverges k q"
  then show "GetNestedKey (nested.write_all (sorted_entries patch) vs) q = GetNestedKey vs q"
    using assms by (intro nested.write_all_untouched) auto
qed

text \<open>An exclusive split takes the first edge, in definition order, whose condition holds, and evaluates no
  edge after it.\<close>

theorem exclusive_split_first:
  assumes "outEdges = before @ e # after"
    and "\<forall>p \<in> set before. EvaluateCondition (en_run_expr env) (e_Condition p) (vars_of s) = Inr False"
    and "EvaluateCondition (en_run_expr env) (e_Condition e) (vars_of s) = Inr True"
  shows "handleExclusiveSplit env exec node outEdges s =
         transitionTo exec e (set_status (n_ID node) NodeStatusCompleted s)"
proof -
  have "first_match (en_run_expr env) (vars_of s) (before @ e # after) = Inr (Some e)"
    using assms(2,3) by (induction before) auto
  then show ?thesis by (simp add: handleExclusiveSplit_def assms(1))
qed

section \<open>Waiting nodes\<close>

text \<open>An invariant of the events is an invariant of a wait.\<close>

lemma wait_loop_invariant:
  assumes "\<And>ev s. P s \<Longrightarrow> P (handle_event ev s)" and "\<And>s evs. P (s\<lparr>is_inbox := evs\<rparr>) = P s"
  shows "P s \<Longrightarrow> final_state (wait_loop ready evs s) = Some s' \<Longrightarrow> P s'"
proof (induction ready evs s rule: wait_loop.induct)
  case (1 ready evs s)
  show ?case
    using 1(2,3) 1(1)[OF _ _ assms(1)[OF 1(2)]]
    by (subst (asm) wait_loop.simps) (auto simp: assms(2) split: option.splits list.splits)
qed

lemma wait_loop_Waiting: "wait_loop ready evs s = Waiting s' \<Longrightarrow> \<exists>s0. ready s0 = None \<and> s' = s0\<lparr>is_inbox := []\<rparr>"
proof (induction ready evs s rule: wait_loop.induct)
  case (1 ready evs s)
  then show ?case by (subst (asm) (2) wait_loop.simps) (auto split: option.splits list.splits)
qed

definition step_open :: "string \<Rightarrow> istate \<Rightarrow> bool" where
  "step_open act s = (act \<in> set (is_pendingCompletions s) \<or> is_completed s act \<noteq> None)"

lemma step_open_event: "step_open act s \<Longrightarrow> step_open act (handle_event ev s)"
  by (auto simp: step_open_def event_defs validatePendingCompletion_def settle_def split: event.split option.split)

lemma step_open_wait:
  "step_open act s \<Longrightarrow> final_state (wait_for ready s) = Some s' \<Longrightarrow> step_open act s'"
  unfolding wait_for_def
  by (rule wait_loop_invariant[where P = "step_open act"]) (auto simp: step_open_event, auto simp: step_open_def)

lemma step_open_awaitTask:
  "step_open act s \<Longrightarrow> final_state (awaitTask act s) = Some s' \<Longrightarrow> step_open act s'"
  using step_open_wait[of act s "\<lambda>s. is_tasks s act"]
  by (cases "wait_for (\<lambda>s. is_tasks s act) s")
    (auto simp: awaitTask_def split: sum.splits if_splits option.splits intro: step_open_wait)

definition admin_open :: "string \<Rightarrow> istate \<Rightarrow> bool" where
  "admin_open act s = (act \<in> set (is_pendingAdmin s) \<or> is_adminSettled s act \<noteq> None)"

lemma admin_open_event: "admin_open act s \<Longrightarrow> admin_open act (handle_event ev s)"
  by (auto simp: admin_open_def event_defs settle_def split: event.split option.split)

lemma monitor_other_mode:
  assumes "st_FailureMode config = FailureModeOther m"
    and "monitor_loop k env act config nodeID order active results failed s = Done (err, results', failed') s'"
  shows "err = None"
  using assms(2)
proof (induction k arbitrary: active results failed s)
  case (Suc k)
  show ?case
  proof (cases "active = []")
    case False
    with Suc.prems obtain p s1 where p: "wait_for (monitor_ready act (childBroadcastSignalName nodeID) order active) s = Done p s1"
      by auto
    show ?thesis
      using Suc.prems Suc.IH False p assms(1)
      by (cases p) (auto simp: Let_def split: option.splits sum.splits)
  qed (use Suc.prems in simp)
qed simp

section \<open>Properties of waiting nodes\<close>

text \<open>C11. A step that waits can always be completed: from the start of its Activity on, while the node waits
  for the Activity or for the completion, the step is registered or its completion is already
  there; in the first case a CompleteActivation is accepted and settles the step.\<close>

theorem waiting_step_open:
  assumes "awaitTask (activation_of s (n_ID node)) (startTask node inputs s) = Waiting s'"
  shows "step_open (activation_of s (n_ID node)) s' \<and>
         (is_completed s' (activation_of s (n_ID node)) = None \<longrightarrow>
            is_completed (handleCompleteActivation (activation_of s (n_ID node)) out s') (activation_of s (n_ID node)) =
              Some (Inr out) \<and>
            validatePendingCompletion s' (activation_of s (n_ID node)) = None)"
proof -
  let ?act = "activation_of s (n_ID node)"
  have "step_open ?act (startTask node inputs s)"
    by (simp add: step_open_def startTask_def issue_def expectCompletion_def)
  then have s': "step_open ?act s'" using step_open_awaitTask assms by (metis final_state_simps(2))
  then show ?thesis
    by (auto simp: step_open_def validatePendingCompletion_def handleCompleteActivation_def deliver_def issue_def
        settle_def)
qed


text \<open>A TIMER counts before it waits: when its configuration is valid, the state in which it blocks already
  holds the previous count plus one at the counter's path, one more audit entry, and the timer.\<close>

theorem timer_counts_before_waiting:
  assumes "n_Timer node = Some cfg" and "tm_Duration cfg \<noteq> []" and "ParseDuration (tm_Duration cfg) = Some d"
    and "0 < d" and "is_inbox s = []" and "is_settled s (activation_of s (n_ID node)) = None"
    and "valid_path (timer_counter_key node cfg)"
  shows "\<exists>s'. handleTimerNode exec node [e] s = Waiting s' \<and>
           GetNestedKey (vars_of s') (timer_counter_key node cfg) =
             Some (VInt (case GetNestedKey (vars_of s) (timer_counter_key node cfg) of
                           Some prev \<Rightarrow> wrap64 (asInt prev + 1) | None \<Rightarrow> 1)) \<and>
           length (wi_AuditTrail (is_instance s')) = Suc (length (wi_AuditTrail (is_instance s))) \<and>
           is_log s' = LTimer (activation_of s (n_ID node)) d # is_log s"
  using assms nested.get_set_same[OF assms(7)]
  by (simp add: handleTimerNode_def Let_def wait_for_def wait_loop.simps issue_def audit_def set_vars_def
      vars_of_def merge_val_not_map)

text \<open>A SPLIT_TASK whose failure mode is neither FAIL_FAST nor COLLECT_ALL (an unset one, for example)
  never fails: whatever its children return, monitoring them ends without an error.\<close>

theorem unset_failure_mode_swallows:
  assumes "st_FailureMode config = FailureModeOther m"
    and "monitorChildWorkflows env act config nodeID active s = Done err s'"
  shows "err = None"
proof -
  show ?thesis
    using assms
    by (auto simp: monitorChildWorkflows_def Let_def split: option.splits if_splits
        dest!: monitor_other_mode[OF assms(1)])
qed

text \<open>Batch nesting is bounded: the scope path of every child a BATCH_SPLIT starts is at least one level
  deeper than its own, and a BATCH_SPLIT that has items and sits at the maximal depth starts no
  child.\<close>

theorem batch_depth_bounded:
  "(\<forall>c \<in> set (batch_children def case_id wfID nodeID joinID scopePath itemsVar baseVars ps).
      scope_depth (str_var (ch_Vars c) VarScopePath) > scope_depth scopePath) \<and>
   (\<forall>items. scope_depth (scope_path (vars_of s)) \<ge> DefaultMaxBatchDepth \<longrightarrow>
      (\<exists>e. run_batch env def exec node es joinID items s = Done (Some e) s))"
proof (intro conjI ballI allI impI)
  fix c assume "c \<in> set (batch_children def case_id wfID nodeID joinID scopePath itemsVar baseVars ps)"
  then obtain edgeID where "str_var (ch_Vars c) VarScopePath = scopePath @ ''/'' @ nodeID @ ''/'' @ edgeID"
    by (auto simp: batch_children_def Let_def str_var_def)
  then show "scope_depth scopePath < scope_depth (str_var (ch_Vars c) VarScopePath)"
    by (simp add: scope_depth_def)
next
  fix items assume "scope_depth (scope_path (vars_of s)) \<ge> DefaultMaxBatchDepth"
  then show "\<exists>e. run_batch env def exec node es joinID items s = Done (Some e) s"
    by (auto simp: run_batch_def Let_def def_err_def split: option.split)
qed

end
