(* ===== verification/Samples.thy ===== *)
theory Samples
  imports Sub_Graph
begin

text \<open>
  Concrete workflow definitions on which the properties are instantiated, and the witnesses of
  the properties of \<open>Gateway_Validate\<close> and \<open>Sub_Graph\<close>.
\<close>

definition mk_edge :: "string \<Rightarrow> string \<Rightarrow> string \<Rightarrow> string \<Rightarrow> Edge" where
  "mk_edge i s t c = \<lparr>e_ID = i, e_SourceID = s, e_TargetID = t, e_Condition = c\<rparr>"

definition gateway_node :: "string \<Rightarrow> GatewayType \<Rightarrow> Node" where
  "gateway_node i t = (plain_node i NodeTypeGateway)\<lparr>n_GatewayType := t\<rparr>"

text \<open>START, a BATCH_SPLIT with the two branches lab and visual, its BATCH_JOIN, END.\<close>

definition sample_batch :: WorkflowDefinition where
  "sample_batch =
     \<lparr>wd_ID = ''wf'', wd_Name = ''sample'', wd_Version = 1,
      wd_Nodes =
        [plain_node ''start'' NodeTypeStart, gateway_node ''split'' GatewayTypeBatchSplit,
         plain_node ''lab'' NodeTypeTask, plain_node ''visual'' NodeTypeTask,
         (gateway_node ''join'' GatewayTypeBatchJoin)
           \<lparr>n_BatchJoin := Some \<lparr>bj_GatewayNodeID = ''split'', bj_ItemsVariable = [], bj_IDField = []\<rparr>\<rparr>,
         plain_node ''end'' NodeTypeEnd],
      wd_Edges =
        [mk_edge ''e1'' ''start'' ''split'' [], mk_edge ''e2'' ''split'' ''lab'' ''item.lab'',
         mk_edge ''e3'' ''split'' ''visual'' [], mk_edge ''e4'' ''lab'' ''join'' [],
         mk_edge ''e5'' ''visual'' ''join'' [], mk_edge ''e6'' ''join'' ''end'' []]\<rparr>"

definition sample_parallel :: WorkflowDefinition where
  "sample_parallel =
     \<lparr>wd_ID = ''wf'', wd_Name = ''sample'', wd_Version = 1,
      wd_Nodes =
        [plain_node ''start'' NodeTypeStart, gateway_node ''split'' GatewayTypeParallelSplit,
         plain_node ''lab'' NodeTypeTask, plain_node ''visual'' NodeTypeTask,
         (gateway_node ''join'' GatewayTypeParallelJoin)
           \<lparr>n_ParallelJoin := Some \<lparr>pj_GatewayNodeID = ''split'', pj_MergeByID = [(''items'', ''id'')]\<rparr>\<rparr>,
         plain_node ''end'' NodeTypeEnd],
      wd_Edges =
        [mk_edge ''e1'' ''start'' ''split'' [], mk_edge ''e2'' ''split'' ''lab'' [],
         mk_edge ''e3'' ''split'' ''visual'' [], mk_edge ''e4'' ''lab'' ''join'' [],
         mk_edge ''e5'' ''visual'' ''join'' [], mk_edge ''e6'' ''join'' ''end'' []]\<rparr>"

lemma sample_batch_valid: "ValidateBatchGateways sample_batch = None"
  by code_simp

lemma sample_parallel_valid: "ValidateParallelGateways sample_parallel = None"
  by code_simp

lemmas sample_simps = sample_batch_def sample_parallel_def plain_node_def gateway_node_def mk_edge_def

lemma sample_batch_join: "findPairedBatchJoin sample_batch ''split'' = ''join''"
  by code_simp

lemma sample_parallel_join: "findPairedParallelJoin sample_parallel ''split'' = ''join''"
  by code_simp

lemma sample_edges:
  "is_path (wd_Edges sample_batch) [''split'', ''lab'']"
  "is_path (wd_Edges sample_parallel) [''split'', ''visual'']"
  by (simp_all add: sample_simps edge_rel_def)

lemma gateway_node_id [simp]: "n_ID (gateway_node i t) = i" "is_gateway t (gateway_node i t)"
  by (simp_all add: gateway_node_def plain_node_def is_gateway_def)

lemma sample_split_in:
  "gateway_node ''split'' GatewayTypeBatchSplit \<in> set (wd_Nodes sample_batch)"
  "gateway_node ''split'' GatewayTypeParallelSplit \<in> set (wd_Nodes sample_parallel)"
  by (simp_all add: sample_batch_def sample_parallel_def)

lemma sample_distinct:
  "distinct (map n_ID (wd_Nodes sample_batch))" "distinct (map n_ID (wd_Nodes sample_parallel))"
  by code_simp+

theorem batch_region_no_escape_witness:
  "(\<exists>y. (''lab'', y) \<in> edge_rel (wd_Edges sample_batch)) \<and>
   (''lab'', ''join'') \<in> (edge_rel (wd_Edges sample_batch))\<^sup>* \<and>
   length (forwardEdges (wd_Edges sample_batch) ''join'') = 1"
  using batch_region_no_escape[OF sample_batch_valid sample_distinct(1) sample_split_in(1),
      of "''join''" "[''lab'']"] sample_batch_join sample_edges(1)
  by simp

theorem parallel_region_contained_witness:
  "(''visual'', ''join'') \<in> (edge_rel (wd_Edges sample_parallel))\<^sup>* \<and>
   ''lab'' \<in> region (wd_Edges sample_parallel) ''split'' ''join''"
proof -
  have "(''lab'', ''join'') \<in> edge_rel (wd_Edges sample_parallel)"
    by (simp add: sample_simps edge_rel_def)
  then show ?thesis
    using parallel_region_contained[OF sample_parallel_valid sample_distinct(2) sample_split_in(2),
        of "''join''" "[''visual'']"] sample_parallel_join sample_edges(2)
    by simp
qed

theorem extractSubGraph_correct_witness:
  "edges_resolved (extractSubGraph sample_batch ''lab'' ''join'') \<and>
   n_ID ` set (wd_Nodes (extractSubGraph sample_batch ''lab'' ''join'')) =
     {batch_start_id, batch_end_id} \<union> region (wd_Edges sample_batch) ''lab'' ''join''"
proof -
  have "edges_resolved sample_batch" by code_simp
  moreover have "''lab'' \<in> n_ID ` set (wd_Nodes sample_batch)"
    by (simp add: sample_simps)
  ultimately show ?thesis
    using extractSubGraph_correct[of sample_batch "''lab''" "''join''"] by simp
qed

end
