(* ===== verification/Item_Samples.thy ===== *)
theory Item_Samples
  imports Samples Parallel_Merge
begin

text \<open>
  Concrete items, conditions and branch results, and the witnesses of the properties of
  \<open>Batch_Items\<close> and \<open>Parallel_Merge\<close>.
\<close>

definition lab_item :: item where
  "lab_item = [''id'' \<mapsto> VStr ''a'', ''lab'' \<mapsto> VBool True]"

definition visual_item :: item where
  "visual_item = [''id'' \<mapsto> VStr ''b'']"

definition sample_items :: "item list" where
  "sample_items = [lab_item, visual_item]"

text \<open>A condition language with one condition: does the item need the lab?\<close>

definition sample_expr :: cond_eval where
  "sample_expr c ctx =
     (case ctx ''item'' of
        Some (VMap it) \<Rightarrow> (case it ''lab'' of Some (VBool b) \<Rightarrow> Inr b | _ \<Rightarrow> Inr False)
      | _ \<Rightarrow> Inl (ForeignErr ''no item''))"

definition sample_out_edges :: "Edge list" where
  "sample_out_edges = [mk_edge ''e2'' ''split'' ''lab'' ''item.lab'', mk_edge ''e3'' ''split'' ''visual'' []]"

definition sample_parts :: "batchPartition list" where
  "sample_parts =
     [\<lparr>bp_Edge = mk_edge ''e2'' ''split'' ''lab'' ''item.lab'', bp_Items = [lab_item]\<rparr>,
      \<lparr>bp_Edge = mk_edge ''e3'' ''split'' ''visual'' [], bp_Items = [visual_item]\<rparr>]"

definition hand_back :: "batchPartition \<Rightarrow> vars" where
  "hand_back p = [''_items'' \<mapsto> VList (toAnySlice (bp_Items p))]"

lemmas item_sample_simps = lab_item_def visual_item_def sample_items_def sample_expr_def
  sample_out_edges_def sample_parts_def mk_edge_def hand_back_def

lemma sample_partition:
  "partitionItems sample_expr sample_items sample_out_edges empty_map ''split'' ''id'' = Inr sample_parts"
  by (simp add: item_sample_simps partitionItems_def EvaluateCondition_def item_scope_def empty_map_def
      DefaultMaxChildrenPerGateway_def)

lemma sample_ids_ok: "check_item_ids ''id'' [] sample_items = None"
  by (simp add: item_sample_simps item_id_def getItemID_def)

lemma items_top_level: "top_level ''_items''" "top_level ''x''"
  by (simp_all add: top_level_def)

lemma hand_back_items:
  "\<forall>p \<in> set sample_parts. GetNestedKey (hand_back p) ''_items'' = Some (VList (toAnySlice (bp_Items p)))"
  by (simp add: items_top_level hand_back_def)

theorem partitionItems_exact_witness:
  "distinct (part_ids sample_parts) \<and> length sample_parts \<le> 20 \<and>
   mset (concat (map bp_Items sample_parts)) = mset sample_items"
  using partitionItems_exact[OF sample_partition] by blast

theorem batch_round_trip_witness:
  "collectAndMergeBatchResults (map (\<lambda>p. (e_ID (bp_Edge p), Inr (Some (hand_back p)))) sample_parts)
     sample_items ''_items'' ''id'' ''split'' = Inr (toAnySlice sample_items, map hand_back sample_parts)"
  using batch_round_trip[OF sample_ids_ok sample_partition hand_back_items] .

definition returned_lab :: item where
  "returned_lab = lab_item(''result'' \<mapsto> VStr ''pass'')"

definition sample_children :: "(string \<times> (wferr + vars option)) list" where
  "sample_children =
     [(''e2'', Inr (Some [''_items'' \<mapsto> VMaps [returned_lab]])),
      (''e3'', Inr (Some [''_items'' \<mapsto> VMaps [visual_item]]))]"

theorem collectAndMerge_by_id_witness:
  "\<exists>rs childVars.
     collectAndMergeBatchResults sample_children sample_items ''_items'' ''id'' ''split'' =
       Inr (map VMap rs, childVars) \<and> length rs = 2 \<and> getItemID (rs ! 0) ''id'' = VStr ''a''"
proof -
  let ?cv = "[[''_items'' \<mapsto> VMaps [returned_lab]], [''_items'' \<mapsto> VMaps [visual_item]]]"
  have run: "collectAndMergeBatchResults sample_children sample_items ''_items'' ''id'' ''split'' =
      Inr (map VMap [returned_lab, visual_item], ?cv)"
    by (simp add: collectAndMergeBatchResults_def sample_children_def items_top_level toItemSlice_def
        item_sample_simps returned_lab_def item_id_def getItemID_def)
  from collectAndMerge_by_id[OF run] obtain rs where
    rs: "map VMap [returned_lab, visual_item] = map VMap rs" "length rs = length sample_items"
    and ids: "\<forall>k < length sample_items. getItemID (rs ! k) ''id'' = getItemID (sample_items ! k) ''id''"
    by blast
  have "getItemID (rs ! 0) ''id'' = VStr ''a''"
    using ids by (simp add: item_sample_simps getItemID_def)
  then show ?thesis
    using run rs by (intro exI[of _ rs] exI[of _ ?cv]) (simp add: sample_items_def)
qed

definition flag_marshal :: "jval \<Rightarrow> wferr + string" where
  "flag_marshal v = (case v of VStr s \<Rightarrow> Inr s | _ \<Rightarrow> Inl (ForeignErr ''unsupported''))"

theorem output_values_unique_witness:
  "output_values flag_marshal ''x'' [[''x'' \<mapsto> VStr ''p''], [''x'' \<mapsto> VList [VStr ''q'', VStr ''p'']]] =
     Inr [VStr ''p'', VStr ''q''] \<and>
   distinct (map flag_marshal [VStr ''p'', VStr ''q''])"
proof -
  have run: "output_values flag_marshal ''x'' [[''x'' \<mapsto> VStr ''p''], [''x'' \<mapsto> VList [VStr ''q'', VStr ''p'']]] =
     Inr [VStr ''p'', VStr ''q'']"
    by (simp add: output_values_def contribution_def items_top_level flag_marshal_def)
  show ?thesis using run output_values_unique[OF run] by simp
qed

section \<open>Parallel branches\<close>

definition no_fmt :: "jval \<Rightarrow> string" where "no_fmt v = []"

definition par_base :: vars where "par_base = [''x'' \<mapsto> VInt 0]"

lemma par_merge_runs: "\<exists>r. mergeParallelBranches no_fmt par_base bvs [] = Inr r"
  by (simp add: mergeParallelBranches_def)

theorem parallel_branch_write_survives_witness:
  "\<exists>result. mergeParallelBranches no_fmt par_base ([] @ par_base(''y'' \<mapsto> VInt 1) # [par_base]) [] = Inr result \<and>
            GetNestedKey result ''y'' = Some (VInt 1)"
proof -
  have top: "top_level ''y''" by (simp add: top_level_def)
  then have keys: "path_keys ''y'' = [''y'']" by (simp add: path_keys_leaf top_level_cut)
  obtain result where run:
    "mergeParallelBranches no_fmt par_base ([] @ par_base(''y'' \<mapsto> VInt 1) # [par_base]) [] = Inr result"
    using par_merge_runs by blast
  have "GetNestedKey result ''y'' = Some (VInt 1)"
    by (rule parallel_branch_write_survives[OF run]) (simp_all add: top keys par_base_def)
  with run show ?thesis by blast
qed


lemma by_id_run:
  "mergeItemsByID no_fmt [''x'' \<mapsto> VMaps [lab_item]] [[''x'' \<mapsto> VMaps [returned_lab]]] ''x'' ''id'' =
   Inr [VMap (lab_item ++ returned_lab)]"
  by (auto simp: map_add_def fun_eq_iff mergeItemsByID_def absorb_def items_top_level toItemSlice_def getItemID_def lab_item_def
      returned_lab_def fmt_v_def option.map_ident_strong Let_def)

theorem mergeItemsByID_united_witness:
  "\<exists>its. its = copy_items ''x'' [''x'' \<mapsto> VMaps [lab_item]] @
             concat (map (copy_items ''x'') [[''x'' \<mapsto> VMaps [returned_lab]]]) \<and>
     [VMap (lab_item ++ returned_lab)] =
       map (\<lambda>i. VMap (united (copies_of no_fmt ''id'' its i))) (first_seen (map (item_key no_fmt ''id'') its))"
  using mergeItemsByID_united[OF by_id_run] .

definition listed_result :: vars where
  "listed_result = [''x'' \<mapsto> VList [], ''y'' \<mapsto> VList []]"

theorem mergeParallelBranches_order_witness:
  "mergeParallelBranches no_fmt empty_map [] [(''y'', ''id''), (''x'', ''id'')] = Inr listed_result"
proof -
  have "mergeParallelBranches no_fmt empty_map [] [(''x'', ''id''), (''y'', ''id'')] = Inr listed_result"
    by (simp add: mergeParallelBranches_def mergeItemsByID_def absorb_def top_level_def empty_map_def
        listed_result_def)
  then show ?thesis
    by (subst (asm) mergeParallelBranches_order[of _ "[(''y'', ''id''), (''x'', ''id'')]"])
      (simp_all add: top_level_def add_mset_commute)
qed

end
