(* ===== verification/Engine_Samples.thy ===== *)
theory Engine_Samples
  imports Engine_Node_Props Item_Samples
begin

text \<open>
  Concrete runs of the interpreter, and the witnesses of the properties of \<open>Engine_Props\<close>,
  \<open>Engine_Total\<close> and \<open>Engine_Node_Props\<close>.
\<close>

definition sample_env :: env where
  "sample_env = \<lparr>en_run_expr = sample_expr, en_marshal = flag_marshal, en_fmt = no_fmt, en_uuid = id,
     en_range = id, en_err_text = (\<lambda>_. ''error''), en_top = True\<rparr>"

text \<open>START, one task whose output is mapped, END.\<close>

definition task_node :: Node where
  "task_node = (plain_node ''t'' NodeTypeTask)\<lparr>n_InputMapping := [(''x'', ''x'')], n_OutputMapping := [(''out'', ''y'')]\<rparr>"

definition line_def :: WorkflowDefinition where
  "line_def =
     \<lparr>wd_ID = ''d'', wd_Name = ''line'', wd_Version = 1,
      wd_Nodes = [plain_node ''s'' NodeTypeStart, task_node, plain_node ''e'' NodeTypeEnd],
      wd_Edges = [mk_edge ''1'' ''s'' ''t'' [], mk_edge ''2'' ''t'' ''e'' []]\<rparr>"

text \<open>The task suspends; two completions arrive; the completion hook succeeds.\<close>

definition line_events :: "event list" where
  "line_events =
     [EvTask ''w:t:2'' (Inr \<lparr>tr_Suspended = True, tr_Output = None\<rparr>),
      EvComplete ''w:t:2'' (Some [''out'' \<mapsto> VInt 5]), EvComplete ''w:t:2'' (Some [''out'' \<mapsto> VInt 6]),
      EvSettled ''w:e:3'' None]"

abbreviation line_workflow :: "wferr + wferr option run" where
  "line_workflow \<equiv> GraphInterpreterWorkflow 4 sample_env ''w'' line_def [''x'' \<mapsto> VInt 1] line_events"

lemma line_valid:
  "ValidateBatchGateways line_def = None" "ValidateParallelGateways line_def = None"
  by code_simp+

lemma line_start: "findStartNode line_def = Some (plain_node ''s'' NodeTypeStart)"
  by (simp add: findStartNode_def line_def_def plain_node_def)

lemma line_nodes: "wi_NodeInfo (initial_instance ''w'' line_def vs) = map_option initial_info \<circ>
    nodesByID (wd_Nodes line_def)"
  by (simp add: initial_instance_def fun_eq_iff)

lemma line_edges: "first_error (edge_error (initial_instance ''w'' line_def vs)) (wd_Edges line_def) = None"
  by (simp add: edge_error_def line_nodes) (simp add: line_def_def task_node_def plain_node_def mk_edge_def nodesByID_def)

lemma line_runs: "\<exists>r. line_workflow = Inr r"
  by (simp add: GraphInterpreterWorkflow_def line_valid line_edges line_start Let_def)

definition line_rank :: "string \<Rightarrow> nat" where
  "line_rank i = (if i = ''s'' then 2 else if i = ''t'' then 1 else 0)"

lemma line_ranked: "ranked line_rank line_def"
  by (simp add: ranked_def next_edges_def out_edges_def line_def_def task_node_def plain_node_def mk_edge_def
      findPairedBatchJoin_def findPairedParallelJoin_def find_paired_def line_rank_def)

lemma line_final: "\<exists>r s. line_workflow = Inr r \<and> final_state r = Some s"
proof -
  obtain r where r: "line_workflow = Inr r" using line_runs by blast
  have "r \<noteq> OutOfFuel"
    using workflow_start[OF r line_start] executeNode_not_fuel[OF line_ranked, of "''s''" 4 sample_env]
    by (auto simp: bind_run_fuel plain_node_def line_rank_def split: option.splits)
  then show ?thesis using r by (cases r) auto
qed

theorem activations_unique_witness:
  "\<exists>r s. line_workflow = Inr r \<and> final_state r = Some s \<and>
     mint_seqs (is_log s) = rev [1..<Suc (is_seq s)] \<and> distinct (map fst (tasks (is_log s)))"
  using line_final activations_unique[of 4 sample_env "''w''" line_def "[''x'' \<mapsto> VInt 1]" line_events]
  by (fastforce simp: sample_env_def)

theorem completion_at_most_once_witness:
  "\<exists>r s. line_workflow = Inr r \<and> final_state r = Some s \<and> accepted ''w:t:2'' (is_log s) \<le> 1"
  using line_final completion_at_most_once[of 4 sample_env "''w''" line_def "[''x'' \<mapsto> VInt 1]" line_events _ _ "''w:t:2''"]
  by (fastforce simp: sample_env_def)

theorem workflow_terminates_witness:
  "\<exists>r. line_workflow = Inr r \<and> ((\<exists>err s. r = Done err s) \<or> (\<exists>s. r = Waiting s))"
  using line_runs workflow_terminates[OF line_ranked line_start, of 4 sample_env "''w''" "[''x'' \<mapsto> VInt 1]" line_events]
  by (auto simp: line_rank_def plain_node_def)

text \<open>The same definition as a child: no completion hook.\<close>

theorem completion_hook_top_only_witness:
  "\<exists>r s. GraphInterpreterWorkflow 4 (sample_env\<lparr>en_top := False\<rparr>) ''w'' line_def [''x'' \<mapsto> VInt 1] line_events = Inr r \<and>
     final_state r = Some s \<and> filter is_completion (is_log s) = []"
proof -
  let ?env = "sample_env\<lparr>en_top := False\<rparr>"
  obtain r where r: "GraphInterpreterWorkflow 4 ?env ''w'' line_def [''x'' \<mapsto> VInt 1] line_events = Inr r"
    by (simp add: GraphInterpreterWorkflow_def line_valid line_edges line_start Let_def)
  have "r \<noteq> OutOfFuel"
    using workflow_start[OF r line_start] executeNode_not_fuel[OF line_ranked, of "''s''" 4 ?env]
    by (auto simp: bind_run_fuel plain_node_def line_rank_def split: option.splits)
  then obtain s where s: "final_state r = Some s" by (cases r) auto
  then show ?thesis
    using r completion_hook_top_only[OF r s] by (simp add: filter_empty_conv)
qed

section \<open>A node given up\<close>

text \<open>A START node without edges parks; the admin aborts it.\<close>

definition stuck_def :: WorkflowDefinition where
  "stuck_def = \<lparr>wd_ID = ''d'', wd_Name = ''stuck'', wd_Version = 1,
     wd_Nodes = [plain_node ''s'' NodeTypeStart], wd_Edges = []\<rparr>"

definition abort_signal :: AdminResolutionSignal where
  "abort_signal = \<lparr>ar_NodeID = ''s'', ar_ActivationID = ''w:s:1'', ar_Action = AdminActionAbort, ar_Patch = [],
     ar_Reason = ''broken definition''\<rparr>"

definition abort_events :: "event list" where
  "abort_events = [EvAdmin abort_signal, EvNotified ''w:s:1'' None]"

lemma itoa_1: "itoa (Suc 0) = ''1''"
  by code_simp

lemma stuck_setup:
  "ValidateBatchGateways stuck_def = None" "ValidateParallelGateways stuck_def = None"
  "findStartNode stuck_def = Some (plain_node ''s'' NodeTypeStart)" "wd_Edges stuck_def = []"
  "nodesByID (wd_Nodes stuck_def) ''s'' = Some (plain_node ''s'' NodeTypeStart)"
  by (code_simp, code_simp, simp_all add: findStartNode_def stuck_def_def plain_node_def nodesByID_def)

lemma plain_node_simps: "n_ID (plain_node i t) = i" "n_Type (plain_node i t) = t"
  "n_InputMapping (plain_node i t) = []" "n_OutputMapping (plain_node i t) = []"
  by (simp_all add: plain_node_def)

definition stuck_parked :: istate where
  "stuck_parked = mintActivation sample_env ''s''
     (set_status ''s'' NodeStatusRunning (initial_state (initial_instance ''w'' stuck_def empty_map) abort_events))"

lemma stuck_info: "node_info stuck_parked ''s'' =
   Some ((initial_info (plain_node ''s'' NodeTypeStart))\<lparr>ni_Status := NodeStatusRunning, ni_ActivationID := ''w:s:1'', ni_Seq := 1\<rparr>)"
  by (simp add: stuck_parked_def mintActivation_def Let_def node_info_def issue_def upd_info_def set_status_def
      initial_state_def initial_instance_def stuck_setup newActivationID_def sample_env_def itoa_1)

lemma stuck_state:
  "is_inbox stuck_parked = abort_events" "is_cancelled stuck_parked = False" "is_notifying stuck_parked = []"
  "is_pendingAdmin stuck_parked = []" "is_adminSettled stuck_parked = Map.empty"
  by (simp_all add: stuck_parked_def mintActivation_def Let_def issue_def upd_info_def set_status_def initial_state_def)

lemma stuck_run:
  "\<exists>s. GraphInterpreterWorkflow 1 sample_env ''w'' stuck_def empty_map abort_events =
     Inr (Done (Some (TerminalAdminErr (CategorizedErr ParkCategoryDefinitionError
       (Errorf ''START node has no outgoing edges'' [])))) s)"
proof -
  let ?node = "plain_node ''s'' NodeTypeStart"
  let ?e = "CategorizedErr ParkCategoryDefinitionError (Errorf ''START node has no outgoing edges'' [])"
  have act: "activation_of (notifyAdminPark ?node (park ?node ?e stuck_parked)) ''s'' = ''w:s:1''"
    using stuck_info
    by (simp add: activation_of_def notifyAdminPark_def park_def Let_def plain_node_simps node_info_def upd_info_def
        audit_def issue_def)
  have "\<exists>s. parkNodeForAdmin sample_env stuck_def exec ?node [] ?e stuck_parked = Done (Some (TerminalAdminErr ?e)) s" for exec
    using stuck_info
    by (simp add: parkNodeForAdmin_def stuck_state abort_events_def park_loop.simps Let_def act plain_node_simps
        awaitAdminResolution_def wait_for_def wait_loop.simps joinNotify_def notifyAdminPark_def park_def
        node_info_def upd_info_def audit_def issue_def handle_event_def dispatchAdminResolution_def settle_def
        abort_signal_def finishNotify_def resolve_parked_def activation_of_def)
  then have "\<exists>s. executeNode 1 sample_env stuck_def ''s''
      (initial_state (initial_instance ''w'' stuck_def empty_map) abort_events) = Done (Some (TerminalAdminErr ?e)) s"
    by (simp add: stuck_setup initial_info_known plain_node_simps out_edges_def dispatchNodeHandler_def handleStartNode_def
        def_err_def stuck_parked_def[symmetric] stuck_state isTerminalAdminError_def Let_def)
  then show ?thesis
    by (auto simp: GraphInterpreterWorkflow_def stuck_setup Let_def plain_node_simps)
qed


section \<open>Single nodes\<close>

lemma xy_top: "top_level ''x''" "top_level ''y''" "top_level ''out''" "top_level ''c''"
  by (simp_all add: top_level_def)

lemma xy_valid: "valid_path ''x''" "valid_path ''y''" "valid_path ''c''"
  by (simp_all add: valid_path_def path_keys_leaf top_level_cut xy_top)

lemma key_facts: "source_of ''x'' = ''x''" "source_of ''out'' = ''out''" "\<not> is_optional ''x''" "\<not> is_optional ''out''"
  by (simp_all add: source_of_def is_optional_def parseMappingKey_def has_suffix_def)

lemma one_entry: "sorted_entries [(k, v)] = [(k, v)]"
  by (simp add: sorted_entries_def)

theorem mapTaskOutputs_all_or_nothing_witness:
  "\<exists>vs'. mapTaskOutputs empty_map [(''out'', ''y'')] [''out'' \<mapsto> VInt 5] = (None, vs') \<and>
     GetNestedKey vs' ''y'' = Some (VInt 5)"
proof -
  obtain err vs' where run: "mapTaskOutputs empty_map [(''out'', ''y'')] [''out'' \<mapsto> VInt 5] = (err, vs')"
    by (cases "mapTaskOutputs empty_map [(''out'', ''y'')] [''out'' \<mapsto> VInt 5]")
  have sep: "separate (sorted_entries [(''out'', ''y'')])" by (simp add: separate_def one_entry xy_valid)
  have err: "err = None"
    using run by (simp add: mapTaskOutputs_eq one_entry absent_def key_facts xy_top)
  have "map_of [(''out'', ''y'')] ''out'' = Some ''y''"
    "GetNestedKey [''out'' \<mapsto> VInt 5] (source_of ''out'') = Some (VInt 5)"
    by (simp_all add: key_facts xy_top)
  then have "GetNestedKey vs' ''y'' = Some (merge_val (VInt 5) (GetNestedKey empty_map ''y''))"
    using mapTaskOutputs_all_or_nothing[OF run] sep err by blast
  then show ?thesis using run err by (simp add: merge_val_not_map)
qed

theorem mapTaskInputs_reads_witness:
  "\<exists>inputs. mapTaskInputs [''x'' \<mapsto> VInt 1] [(''x'', ''y'')] = Inr inputs \<and> GetNestedKey inputs ''y'' = Some (VInt 1)"
proof -
  have "\<exists>inputs. mapTaskInputs [''x'' \<mapsto> VInt 1] [(''x'', ''y'')] = Inr inputs"
    by (simp add: mapTaskInputs_def applyInputMapping_def input_loop_eq one_entry absent_def key_facts xy_top)
  then obtain inputs where run: "mapTaskInputs [''x'' \<mapsto> VInt 1] [(''x'', ''y'')] = Inr inputs" by blast
  have "separate (sorted_entries [(''x'', ''y'')])" by (simp add: separate_def one_entry xy_valid)
  moreover have "map_of [(''x'', ''y'')] ''x'' = Some ''y''" "GetNestedKey [''x'' \<mapsto> VInt 1] (source_of ''x'') = Some (VInt 1)"
    by (simp_all add: key_facts xy_top)
  ultimately show ?thesis using mapTaskInputs_reads[OF run] run by blast
qed

theorem applyVariablesPatch_writes_witness:
  "GetNestedKey (applyVariablesPatch empty_map [(''x'', VInt 3)]) ''x'' = Some (VInt 3)"
proof -
  have "\<forall>(k, v) \<in> set (sorted_entries [(''x'', VInt 3)]). valid_path k"
    "sorted_wrt (\<lambda>(k, v) (k', v'). diverges k k') (sorted_entries [(''x'', VInt 3)])"
    by (simp_all add: one_entry xy_valid)
  from applyVariablesPatch_writes[OF this, of empty_map] show ?thesis by (simp add: merge_val_not_map)
qed

definition stop_exec :: exec where
  "stop_exec i s = Done None s"

definition line_state :: istate where
  "line_state = initial_state (initial_instance ''w'' line_def [''x'' \<mapsto> VInt 1]) []"

lemma line_state_simps:
  "is_inbox line_state = []" "\<not> is_cancelled line_state" "is_settled line_state a = None" "is_completed line_state a = None"
  "is_tasks line_state a = None" "vars_of line_state ''c'' = None" "is_pendingCompletions line_state = []"
  by (simp_all add: line_state_def initial_state_def vars_of_def initial_instance_def initial_variables_def VarCaseID_def)

theorem exclusive_split_first_witness:
  "handleExclusiveSplit sample_env stop_exec task_node [mk_edge ''1'' ''t'' ''e'' [], mk_edge ''2'' ''t'' ''s'' []] line_state =
   transitionTo stop_exec (mk_edge ''1'' ''t'' ''e'' []) (set_status (n_ID task_node) NodeStatusCompleted line_state)"
  by (rule exclusive_split_first[of _ "[]"]) (simp_all add: EvaluateCondition_def mk_edge_def)

theorem waiting_step_open_witness:
  "\<exists>s'. awaitTask (activation_of line_state (n_ID task_node)) (startTask task_node empty_map line_state) = Waiting s' \<and>
     step_open (activation_of line_state (n_ID task_node)) s'"
proof -
  obtain s' where run: "awaitTask (activation_of line_state (n_ID task_node)) (startTask task_node empty_map line_state) = Waiting s'"
    by (simp add: awaitTask_def wait_for_def wait_loop.simps startTask_def issue_def expectCompletion_def line_state_simps)
  from waiting_step_open[OF run] run show ?thesis by blast
qed


definition timer_node :: Node where
  "timer_node = (plain_node ''t'' NodeTypeTimer)\<lparr>n_Timer := Some \<lparr>tm_Duration = ''5s'', tm_CounterKey = ''c''\<rparr>\<rparr>"

lemma five_seconds: "ParseDuration ''5s'' = Some 5000000000"
  by (simp add: ParseDuration_def duration_group_def is_digit_def unit_ns_def decimal_value_def digit_val_def Let_def
      less_eq_char_def)

theorem timer_counts_before_waiting_witness:
  "\<exists>s'. handleTimerNode stop_exec timer_node [mk_edge ''1'' ''t'' ''e'' []] line_state = Waiting s' \<and>
     GetNestedKey (vars_of s') ''c'' = Some (VInt 1)"
  using timer_counts_before_waiting[of timer_node "\<lparr>tm_Duration = ''5s'', tm_CounterKey = ''c''\<rparr>" 5000000000 line_state
      stop_exec "mk_edge ''1'' ''t'' ''e'' []"]
  by (auto simp: timer_node_def plain_node_def five_seconds line_state_simps timer_counter_key_def xy_valid xy_top)

definition lax_split :: SplitTaskConfig where
  "lax_split = \<lparr>st_Mode = SplitModeSameTemplate, st_ItemsVariable = ''x'', st_ResultsVariable = [],
     st_FailureMode = FailureModeOther [], st_IterationKey = []\<rparr>"

text \<open>One child, which fails.\<close>

theorem unset_failure_mode_swallows_witness:
  "\<exists>s'. monitorChildWorkflows sample_env ''a'' lax_split ''t'' [(''c1'', \<lparr>ab_BranchID = ''b'', ab_Index = 0\<rparr>)]
          (line_state\<lparr>is_inbox := [EvChild ''a'' ''c1'' (Inl (ForeignErr ''crashed''))]\<rparr>) = Done None s'"
proof -
  have "\<exists>err s'. monitorChildWorkflows sample_env ''a'' lax_split ''t'' [(''c1'', \<lparr>ab_BranchID = ''b'', ab_Index = 0\<rparr>)]
          (line_state\<lparr>is_inbox := [EvChild ''a'' ''c1'' (Inl (ForeignErr ''crashed''))]\<rparr>) = Done err s'"
    by (simp add: monitorChildWorkflows_def monitor_fuel_def line_state_def initial_state_def wait_for_def
        wait_loop.simps monitor_ready_def sample_env_def handle_event_def settle_def lax_split_def drop_branch_def
        Let_def)
  then show ?thesis
    using unset_failure_mode_swallows[of lax_split "[]"] by (auto simp: lax_split_def)
qed

theorem batch_depth_bounded_witness:
  "scope_depth (str_var (ch_Vars (hd (batch_children sample_batch ''case'' ''w'' ''split'' ''join'' ''root'' ''_items'' empty_map sample_parts)))
     VarScopePath) > scope_depth ''root''"
proof -
  have "hd (batch_children sample_batch ''case'' ''w'' ''split'' ''join'' ''root'' ''_items'' empty_map sample_parts) \<in>
      set (batch_children sample_batch ''case'' ''w'' ''split'' ''join'' ''root'' ''_items'' empty_map sample_parts)"
    by (intro list.set_sel) (simp add: batch_children_def sample_parts_def filter_empty_conv)
  then show ?thesis
    using batch_depth_bounded[of sample_batch "''case''" "''w''" "''split''" "''join''" "''root''" "''_items''"
        empty_map sample_parts] by blast
qed

end
