(* ===== verification/Refid_Date.thy ===== *)
theory Refid_Date
  imports Go_Time
begin

text \<open>
  The date formats of package \<open>refid\<close> (\<open>datefmt.go\<close>): the compiler of patterns such as \<open>yyyyMMdd\<close>
  and the renderer of the compiled parts. A \<open>time.Time\<close> in a location is the record of its civil
  nfields; \<open>civil_of\<close> computes them from seconds since 1970 the way package \<open>time\<close> does.
\<close>

section \<open>Times and errors\<close>

record civil =
  cv_Year :: int
  cv_Month :: int
  cv_Day :: int
  cv_Hour :: int
  cv_Minute :: int
  cv_Second :: int

text \<open>The proleptic Gregorian calendar, counted in eras of 400 years from 1 March of year 0.\<close>

definition civil_of :: "int \<Rightarrow> civil" where
  "civil_of secs =
     (let z = secs div 86400 + 719468;
          t = secs mod 86400;
          era = z div 146097;
          doe = z mod 146097;
          yoe = (doe - doe div 1460 + doe div 36524 - doe div 146096) div 365;
          doy = doe - (365 * yoe + yoe div 4 - yoe div 100);
          mp = (5 * doy + 2) div 153;
          d = doy - (153 * mp + 2) div 5 + 1;
          m = (if mp < 10 then mp + 3 else mp - 9);
          y = yoe + era * 400 + (if m \<le> 2 then 1 else 0)
      in \<lparr>cv_Year = y, cv_Month = m, cv_Day = d, cv_Hour = t div 3600, cv_Minute = t div 60 mod 60,
          cv_Second = t mod 60\<rparr>)"

text \<open>The sentinel errors of \<open>errors.go\<close> with what their messages carry, other errors, and wrapping.\<close>

datatype rferr =
    ErrUnknownIssuer string
  | ErrUnknownIDType string string
  | ErrInvalidParam string "string list"
  | ErrCounterOverflow string int
  | ErrRandomCollision string string
  | ErrRandomExhausted string int nat
  | RefidErr string "string list"
  | RefidWrap string "string list" rferr

section \<open>Parts\<close>

datatype timeField = FYear | FYearOfCentury | FMonth | FDay | FHour | FMinute | FSecond

datatype datePart = LiteralPart string | IntPart timeField nat

type_synonym dateFormat = "datePart list"

definition yearOfCentury :: "civil \<Rightarrow> int" where
  "yearOfCentury t = (let y = cv_Year t in (if y < 0 then - y else y) mod 100)"

fun get_field :: "timeField \<Rightarrow> civil \<Rightarrow> int" where
  "get_field FYear t = cv_Year t"
| "get_field FYearOfCentury t = yearOfCentury t"
| "get_field FMonth t = cv_Month t"
| "get_field FDay t = cv_Day t"
| "get_field FHour t = cv_Hour t"
| "get_field FMinute t = cv_Minute t"
| "get_field FSecond t = cv_Second t"

definition intPart :: "(civil \<Rightarrow> int) \<Rightarrow> nat \<Rightarrow> civil \<Rightarrow> string" where
  "intPart get width t =
     (let n = get t in (if n < 0 then ''-'' else []) @ zero_pad width (itoa (nat \<bar>n\<bar>)))"

fun render_part :: "datePart \<Rightarrow> civil \<Rightarrow> string" where
  "render_part (LiteralPart s) t = s"
| "render_part (IntPart f w) t = intPart (get_field f) w t"

definition render_date :: "dateFormat \<Rightarrow> civil \<Rightarrow> string" where
  "render_date f t = concat (map (\<lambda>part. render_part part t) f)"

text \<open>The table of fields: per letter its name and its forms, each a token and its part.\<close>

definition dateFields :: "(char \<times> string \<times> (string \<times> datePart) list) list" where
  "dateFields =
     [(CHR ''y'', ''year'', [(''yyyy'', IntPart FYear 4), (''yy'', IntPart FYearOfCentury 2)]),
      (CHR ''M'', ''month'', [(''MM'', IntPart FMonth 2), (''M'', IntPart FMonth 1)]),
      (CHR ''d'', ''day of the month'', [(''dd'', IntPart FDay 2), (''d'', IntPart FDay 1)]),
      (CHR ''H'', ''hour (0-23)'', [(''HH'', IntPart FHour 2), (''H'', IntPart FHour 1)]),
      (CHR ''m'', ''minute'', [(''mm'', IntPart FMinute 2), (''m'', IntPart FMinute 1)]),
      (CHR ''s'', ''second'', [(''ss'', IntPart FSecond 2), (''s'', IntPart FSecond 1)])]"

section \<open>The compiler\<close>

definition unsupportedDateLetters :: "char \<Rightarrow> string option" where
  "unsupportedDateLetters c = map_of
     [(CHR ''h'', ''12-hour time''), (CHR ''K'', ''12-hour time''), (CHR ''a'', ''AM/PM markers''),
      (CHR ''k'', ''hours numbered 1 to 24''), (CHR ''E'', ''day names''), (CHR ''e'', ''day names''),
      (CHR ''c'', ''day names''), (CHR ''L'', ''month names''), (CHR ''S'', ''fractions of a second''),
      (CHR ''A'', ''fractions of a second''), (CHR ''n'', ''fractions of a second''),
      (CHR ''N'', ''fractions of a second''), (CHR ''z'', ''time zones''), (CHR ''Z'', ''time zones''),
      (CHR ''X'', ''time zones''), (CHR ''x'', ''time zones''), (CHR ''O'', ''time zones''),
      (CHR ''V'', ''time zones''), (CHR ''v'', ''time zones''), (CHR ''G'', ''eras''), (CHR ''Q'', ''quarters''),
      (CHR ''q'', ''quarters''), (CHR ''w'', ''week numbers''), (CHR ''W'', ''week numbers'')] c"

definition unknownLetterError :: "char \<Rightarrow> rferr" where
  "unknownLetterError c =
     (if c = CHR ''Y'' then RefidErr ''not a format letter: week-based year'' [[c]]
      else if c = CHR ''D'' then RefidErr ''not a format letter: day of the year'' [[c]]
      else case unsupportedDateLetters c of
             Some what \<Rightarrow> RefidErr ''is not supported'' [[c], what]
           | None \<Rightarrow> RefidErr ''unknown letter'' [[c]])"

definition fieldForRun :: "char \<Rightarrow> nat \<Rightarrow> rferr + datePart" where
  "fieldForRun c n =
     (case map_of dateFields c of
        None \<Rightarrow> Inl (unknownLetterError c)
      | Some (name, forms) \<Rightarrow>
          (case find (\<lambda>(token, _). length token = n) forms of
             Some (_, render) \<Rightarrow> Inr render
           | None \<Rightarrow>
               Inl (RefidErr (if c = CHR ''M'' \<and> n \<ge> 3 then ''not a form of the field (month names are not supported)''
                              else ''not a form of the field'') (replicate n c # name # map fst forms))))"

definition isASCIILetter :: "char \<Rightarrow> bool" where
  "isASCIILetter c = ((CHR ''a'' \<le> c \<and> c \<le> CHR ''z'') \<or> (CHR ''A'' \<le> c \<and> c \<le> CHR ''Z''))"

definition quote :: char where "quote = CHR 0x27"

text \<open>The loop of \<open>scanQuoted\<close>: the text up to the closing quote, and what follows it.\<close>

fun scan_text :: "string \<Rightarrow> (string \<times> string) option" where
  "scan_text [] = None"
| "scan_text (c # s) =
     (if c \<noteq> quote then map_option (\<lambda>(body, rest). (c # body, rest)) (scan_text s)
      else case s of
             [] \<Rightarrow> Some ([], [])
           | d # s' \<Rightarrow>
               if d = quote then map_option (\<lambda>(body, rest). (quote # body, rest)) (scan_text s')
               else Some ([], s))"

text \<open>\<open>scanQuoted\<close>, given what follows the opening quote.\<close>

definition scanQuoted :: "string \<Rightarrow> (string \<times> string) option" where
  "scanQuoted s =
     (case s of
        [] \<Rightarrow> None
      | d # s' \<Rightarrow> if d = quote then Some ([quote], s') else scan_text s)"

lemma scan_text_shorter: "scan_text s = Some (body, rest) \<Longrightarrow> length rest < length s"
  by (induction s arbitrary: body rest rule: scan_text.induct)
    (fastforce split: if_splits list.splits)+

lemma scanQuoted_shorter: "scanQuoted s = Some (body, rest) \<Longrightarrow> length rest < length s"
proof (cases s)
  case (Cons d s')
  assume "scanQuoted s = Some (body, rest)"
  with Cons show ?thesis
    by (auto simp: scanQuoted_def simp del: scan_text.simps dest: scan_text_shorter split: if_splits)
qed (simp add: scanQuoted_def)

definition flush :: "string \<Rightarrow> dateFormat \<Rightarrow> dateFormat" where
  "flush lit parts = (if lit = [] then parts else parts @ [LiteralPart lit])"

function compile_loop :: "string \<Rightarrow> string \<Rightarrow> dateFormat \<Rightarrow> nat \<Rightarrow> rferr + dateFormat" where
  "compile_loop [] lit parts nfields =
     (if nfields = 0 then Inl (RefidErr ''it has no date or time field'' []) else Inr (flush lit parts))"
| "compile_loop (c # s) lit parts nfields =
     (if c = quote then
        (case scanQuoted s of
           None \<Rightarrow> Inl (RefidErr ''unterminated quote'' [c # s])
         | Some (body, rest) \<Rightarrow> compile_loop rest (lit @ body) parts nfields)
      else if isASCIILetter c then
        (case fieldForRun c (Suc (length (takeWhile ((=) c) s))) of
           Inl e \<Rightarrow> Inl e
         | Inr render \<Rightarrow> compile_loop (dropWhile ((=) c) s) [] (flush lit parts @ [render]) (nfields + 1))
      else if is_digit c then Inl (RefidErr ''unquoted digit'' [[c]])
      else compile_loop s (lit @ [c]) parts nfields)"
  by pat_completeness auto
termination
  by (relation "measure (\<lambda>(s, _, _, _). length s)")
    (auto dest: scanQuoted_shorter simp: less_Suc_eq_le length_dropWhile_le)

declare compile_loop.simps [simp del]

definition compileDateFormat :: "string \<Rightarrow> rferr + dateFormat" where
  "compileDateFormat format = compile_loop format [] [] 0"

section \<open>Printing a compiled format\<close>

definition date_forms :: "(string \<times> datePart) list" where
  "date_forms =
     [(''yyyy'', IntPart FYear 4), (''yy'', IntPart FYearOfCentury 2), (''MM'', IntPart FMonth 2),
      (''M'', IntPart FMonth 1), (''dd'', IntPart FDay 2), (''d'', IntPart FDay 1), (''HH'', IntPart FHour 2),
      (''H'', IntPart FHour 1), (''mm'', IntPart FMinute 2), (''m'', IntPart FMinute 1),
      (''ss'', IntPart FSecond 2), (''s'', IntPart FSecond 1)]"

definition part_token :: "datePart \<Rightarrow> string" where
  "part_token p = (case find (\<lambda>(_, q). q = p) date_forms of Some (token, _) \<Rightarrow> token | None \<Rightarrow> [])"

definition escape :: "string \<Rightarrow> string" where
  "escape s = concat (map (\<lambda>c. if c = quote then [quote, quote] else [c]) s)"

text \<open>Apostrophes in front stand outside the quotes: a literal cannot open with a doubled quote.\<close>

definition print_literal :: "string \<Rightarrow> string" where
  "print_literal s =
     (let body = dropWhile ((=) quote) s
      in concat (map (\<lambda>_. [quote, quote]) (takeWhile ((=) quote) s)) @
         (if body = [] then [] else quote # escape body @ [quote]))"

fun print_part :: "datePart \<Rightarrow> string" where
  "print_part (LiteralPart s) = print_literal s"
| "print_part (IntPart f w) = part_token (IntPart f w)"

definition print_date :: "dateFormat \<Rightarrow> string" where
  "print_date parts = concat (map print_part parts)"

fun part_ok :: "datePart \<Rightarrow> bool" where
  "part_ok (LiteralPart s) = (s \<noteq> [])"
| "part_ok (IntPart f w) = (part_token (IntPart f w) \<noteq> [])"

fun apart :: "datePart \<Rightarrow> datePart \<Rightarrow> bool" where
  "apart (LiteralPart s) (LiteralPart t) = False"
| "apart (IntPart f v) (IntPart g w) = (hd (part_token (IntPart f v)) \<noteq> hd (part_token (IntPart g w)))"
| "apart p q = True"

fun is_field :: "datePart \<Rightarrow> bool" where
  "is_field (LiteralPart s) = False"
| "is_field (IntPart f w) = True"

definition canonical :: "dateFormat \<Rightarrow> bool" where
  "canonical parts =
     ((\<forall>p \<in> set parts. part_ok p) \<and> successively apart parts \<and>
      (\<exists>p \<in> set parts. is_field p))"

section \<open>Parsing what was printed\<close>

lemma forms_check:
  "list_all (\<lambda>(t, p). part_token p = t \<and> t = replicate (length t) (hd t) \<and> t \<noteq> [] \<and> isASCIILetter (hd t) \<and>
     hd t \<noteq> quote \<and> fieldForRun (hd t) (length t) = Inr p) date_forms"
  by code_simp

lemma token_spec:
  assumes "part_token p \<noteq> []"
  obtains c n where "part_token p = replicate (Suc n) c" "isASCIILetter c" "c \<noteq> quote" "fieldForRun c (Suc n) = Inr p"
proof -
  obtain t where "(t, p) \<in> set date_forms"
    using assms by (auto simp: part_token_def dest: find_SomeD split: option.splits)
  then have t: "part_token p = t" "t = replicate (length t) (hd t)" "t \<noteq> []" "isASCIILetter (hd t)" "hd t \<noteq> quote"
    "fieldForRun (hd t) (length t) = Inr p"
    using forms_check unfolding list_all_iff by blast+
  moreover have "length t = Suc (length t - 1)" using t(3) by (cases t) auto
  ultimately show ?thesis using that[of "length t - 1" "hd t"] by metis
qed

lemma scan_text_escape:
  "rest = [] \<or> hd rest \<noteq> quote \<Longrightarrow> scan_text (escape b @ quote # rest) = Some (b, rest)"
proof (induction b)
  case Nil
  then show ?case by (cases rest) (auto simp: escape_def)
next
  case (Cons c b)
  then show ?case by (auto simp: escape_def)
qed

lemma compile_loop_quotes:
  "compile_loop (concat (map (\<lambda>_. [quote, quote]) qs) @ rest) lit parts n =
   compile_loop rest (lit @ replicate (length qs) quote) parts n"
proof (induction qs arbitrary: lit)
  case (Cons q qs)
  have "compile_loop (quote # quote # s) lit parts n = compile_loop s (lit @ [quote]) parts n" for s
    by (simp only: compile_loop.simps(2) scanQuoted_def list.case refl if_True option.case prod.case)
  with Cons[of "lit @ [quote]"] show ?case by simp
qed simp

lemma compile_loop_literal:
  assumes "rest = [] \<or> hd rest \<noteq> quote"
  shows "compile_loop (print_literal s @ rest) lit parts n = compile_loop rest (lit @ s) parts n"
proof -
  let ?qs = "takeWhile ((=) quote) s" and ?b = "dropWhile ((=) quote) s"
  have qs: "replicate (length ?qs) quote = ?qs"
    by (rule replicate_length_same) (auto dest: set_takeWhileD)
  show ?thesis
  proof (cases ?b)
    case Nil
    then have "s = ?qs" by (metis append_Nil2 takeWhile_dropWhile_id)
    with Nil qs show ?thesis
      by (simp add: print_literal_def compile_loop_quotes)
  next
    case (Cons c b)
    then have "c \<noteq> quote" by (metis hd_dropWhile list.sel(1) list.distinct(1))
    then have "scanQuoted (escape ?b @ quote # rest) = Some (?b, rest)"
      using scan_text_escape[OF assms, of ?b] Cons by (simp add: scanQuoted_def escape_def)
    moreover have "?qs @ ?b = s" by simp
    ultimately show ?thesis
      using Cons qs by (simp add: print_literal_def compile_loop_quotes compile_loop.simps(2) del: takeWhile_dropWhile_id)
  qed
qed

lemma compile_loop_field:
  assumes "part_token p \<noteq> []" and "rest = [] \<or> hd rest \<noteq> hd (part_token p)"
  shows "compile_loop (part_token p @ rest) lit parts n = compile_loop rest [] (flush lit parts @ [p]) (Suc n)"
proof -
  obtain c k where t: "part_token p = replicate (Suc k) c" "isASCIILetter c" "c \<noteq> quote" "fieldForRun c (Suc k) = Inr p"
    using token_spec[OF assms(1)] .
  have "takeWhile ((=) c) (replicate k c @ rest) = replicate k c" "dropWhile ((=) c) (replicate k c @ rest) = rest"
    using assms(2) t(1) by (cases rest; auto simp: takeWhile_append dropWhile_append)+
  with t show ?thesis by (simp add: compile_loop.simps)
qed

lemma print_head:
  assumes "part_ok p"
  shows "print_part p \<noteq> [] \<and>
         (is_field p \<longrightarrow> hd (print_part p) = hd (part_token p) \<and> hd (print_part p) \<noteq> quote) \<and>
         (\<not> is_field p \<longrightarrow> hd (print_part p) = quote)"
proof (cases p)
  case (LiteralPart s)
  with assms show ?thesis
    by (cases s) (auto simp: print_literal_def Let_def)
next
  case (IntPart f w)
  with assms obtain c n where "part_token p = replicate (Suc n) c" "c \<noteq> quote"
    by (auto elim: token_spec)
  with IntPart show ?thesis by auto
qed

lemma print_date_Cons [simp]: "print_date (p # ps) = print_part p @ print_date ps"
  by (simp add: print_date_def)

lemma print_part_field [simp]: "is_field p \<Longrightarrow> print_part p = part_token p"
  by (cases p) auto

lemma print_date_head:
  assumes "\<forall>q \<in> set ps. part_ok q" and "successively apart (p # ps)" and "part_ok p"
  shows "is_field p \<Longrightarrow> print_date ps = [] \<or> hd (print_date ps) \<noteq> hd (part_token p)"
    and "\<not> is_field p \<Longrightarrow> print_date ps = [] \<or> hd (print_date ps) \<noteq> quote"
proof -
  have "(is_field p \<longrightarrow> print_date ps = [] \<or> hd (print_date ps) \<noteq> hd (part_token p)) \<and>
        (\<not> is_field p \<longrightarrow> print_date ps = [] \<or> hd (print_date ps) \<noteq> quote)"
  proof (cases ps)
    case (Cons q qs)
    with assms have "part_ok q" "apart p q" by auto
    with assms(3) Cons show ?thesis
      using print_head[of p] print_head[of q] by (cases p; cases q) auto
  qed (simp add: print_date_def)
  then show "is_field p \<Longrightarrow> print_date ps = [] \<or> hd (print_date ps) \<noteq> hd (part_token p)"
    and "\<not> is_field p \<Longrightarrow> print_date ps = [] \<or> hd (print_date ps) \<noteq> quote" by auto
qed

lemma compile_print:
  assumes "\<forall>p \<in> set ps. part_ok p" and "successively apart ps"
    and "lit \<noteq> [] \<Longrightarrow> ps = [] \<or> is_field (hd ps)" and "0 < n + length (filter is_field ps)"
  shows "compile_loop (print_date ps) lit acc n = Inr (flush lit acc @ ps)"
  using assms
proof (induction ps arbitrary: lit acc n)
  case Nil
  then show ?case by (simp add: print_date_def compile_loop.simps)
next
  case (Cons p ps)
  have ps: "\<forall>q \<in> set ps. part_ok q" "part_ok p" "successively apart ps"
    using Cons.prems by (auto simp: successively_Cons)
  show ?case
  proof (cases p)
    case (LiteralPart s)
    with Cons.prems have "lit = []" "s \<noteq> []" by auto
    moreover have "ps = [] \<or> is_field (hd ps)"
      using Cons.prems(2) LiteralPart by (cases ps; cases "hd ps") auto
    moreover have "print_date ps = [] \<or> hd (print_date ps) \<noteq> quote"
      using print_date_head(2)[OF ps(1) Cons.prems(2) ps(2)] LiteralPart by simp
    ultimately show ?thesis
      using Cons.IH[of s n acc] Cons.prems(4) ps LiteralPart by (simp add: compile_loop_literal flush_def)
  next
    case (IntPart f w)
    have "print_date ps = [] \<or> hd (print_date ps) \<noteq> hd (part_token p)"
      using print_date_head(1)[OF ps(1) Cons.prems(2) ps(2)] IntPart by simp
    moreover have "part_token p \<noteq> []" using ps(2) IntPart by simp
    ultimately show ?thesis
      using Cons.IH[of "[]" "Suc n" "flush lit acc @ [p]"] ps IntPart by (simp add: compile_loop_field flush_def)
  qed
qed

lemma fields_check:
  "list_all (\<lambda>(c, _, forms). list_all (\<lambda>(_, p). is_field p \<and> part_ok p \<and> hd (part_token p) = c) forms) dateFields"
  by code_simp

lemma fieldForRun_token: "fieldForRun c n = Inr p \<Longrightarrow> is_field p \<and> part_ok p \<and> hd (part_token p) = c"
  using fields_check by (fastforce simp: fieldForRun_def list_all_iff dest: map_of_SomeD find_SomeD split: option.splits)

lemma canonical_flush:
  assumes "\<forall>p \<in> set parts. part_ok p" and "successively apart parts" and "parts \<noteq> [] \<Longrightarrow> is_field (last parts)"
  shows "(\<forall>p \<in> set (flush lit parts). part_ok p) \<and> successively apart (flush lit parts) \<and>
         filter is_field (flush lit parts) = filter is_field parts \<and> set parts \<subseteq> set (flush lit parts)"
  using assms by (cases "last parts") (auto simp: flush_def successively_append_iff)

lemma scanQuoted_body: "scanQuoted s = Some (body, rest) \<Longrightarrow> body \<noteq> []"
  by (cases s) (auto simp: scanQuoted_def split: if_splits)

lemma compile_loop_canonical:
  assumes "compile_loop s lit parts n = Inr out"
    and "\<forall>p \<in> set parts. part_ok p" and "successively apart parts" and "parts \<noteq> [] \<Longrightarrow> is_field (last parts)"
    and "n = length (filter is_field parts)"
    and "lit = [] \<Longrightarrow> parts \<noteq> [] \<Longrightarrow> s \<noteq> [] \<Longrightarrow> hd s \<noteq> hd (part_token (last parts))"
  shows "canonical out"
  using assms
proof (induction s lit parts n rule: compile_loop.induct)
  case (1 lit parts n)
  then show ?case
    using canonical_flush[of parts lit] by (fastforce simp: canonical_def compile_loop.simps filter_empty_conv split: if_splits)
next
  case (2 c s lit parts n)
  show ?case
  proof (cases "isASCIILetter c \<and> c \<noteq> quote")
    case True
    let ?k = "Suc (length (takeWhile ((=) c) s))"
    from True "2.prems"(1) obtain p where p: "fieldForRun c ?k = Inr p"
      and go: "compile_loop (dropWhile ((=) c) s) [] (flush lit parts @ [p]) (n + 1) = Inr out"
      by (auto simp: compile_loop.simps split: sum.splits)
    have f: "is_field p" "part_ok p" "hd (part_token p) = c" using fieldForRun_token[OF p] by auto
    have fl: "\<forall>q \<in> set (flush lit parts). part_ok q" "successively apart (flush lit parts)"
      "filter is_field (flush lit parts) = filter is_field parts"
      using canonical_flush[OF "2.prems"(2,3,4)] by auto
    have "flush lit parts \<noteq> [] \<Longrightarrow> apart (last (flush lit parts)) p"
      using f "2.prems"(4,6) by (cases p; cases "last parts") (auto simp: flush_def)
    moreover have "dropWhile ((=) c) s \<noteq> [] \<Longrightarrow> hd (dropWhile ((=) c) s) \<noteq> c"
      by (metis hd_dropWhile)
    ultimately show ?thesis
      using True p f fl "2.prems"(5) by (intro "2.IH"(2)[OF _ _ p go]) (auto simp: successively_append_iff)
  next
    case False
    then consider (quoted) body rest where "c = quote" "scanQuoted s = Some (body, rest)"
        "compile_loop rest (lit @ body) parts n = Inr out"
      | (plain) "c \<noteq> quote" "\<not> isASCIILetter c" "\<not> is_digit c" "compile_loop s (lit @ [c]) parts n = Inr out"
      using "2.prems"(1) by (auto simp: compile_loop.simps split: option.splits if_splits)
    then show ?thesis
    proof cases
      case quoted
      then have "lit @ body \<noteq> []" using scanQuoted_body by auto
      with quoted "2.prems" show ?thesis by (intro "2.IH"(1)[OF _ _ refl]) auto
    next
      case plain
      with "2.prems" show ?thesis by (intro "2.IH"(3)) auto
    qed
  qed
qed

text \<open>Date formats parse back: every format \<open>compileDateFormat\<close> accepts compiles to canonical parts
  (at least one field, no empty or adjacent literals, no two fields that would read as one run of
  letters), and printing canonical parts, literals in quotes, gives a format that compiles to
  exactly them.\<close>

theorem date_format_round_trip:
  "(\<forall>format parts. compileDateFormat format = Inr parts \<longrightarrow> canonical parts) \<and>
   (\<forall>parts. canonical parts \<longrightarrow> compileDateFormat (print_date parts) = Inr parts)"
proof (intro conjI allI impI)
  fix format parts
  assume "compileDateFormat format = Inr parts"
  then show "canonical parts"
    using compile_loop_canonical[of format "[]" "[]" 0 parts] by (simp add: compileDateFormat_def)
next
  fix parts
  assume a: "canonical parts"
  then have "0 < length (filter is_field parts)" by (auto simp: canonical_def filter_empty_conv)
  with a show "compileDateFormat (print_date parts) = Inr parts"
    using compile_print[of parts "[]" 0 "[]"] by (simp add: canonical_def compileDateFormat_def flush_def)
qed

end
