(* ===== verification/Refid_Store.thy ===== *)
theory Refid_Store
  imports Refid_Date
begin

text \<open>
  The stores behind stateful segments of package \<open>refid\<close>: the interfaces \<open>SequenceStore\<close> and
  \<open>RandomStore\<close> (\<open>sequence.go\<close>, \<open>random.go\<close>) as a locale of laws, and the SQL backends
  (\<open>store/postgres\<close>, \<open>store/sqlite\<close>, \<open>store/internal/sqlident\<close>). Each store call is one atomic SQL
  statement over a table; a statement may fail, and then has no effect. The drivers' row counts
  are taken as they are.
\<close>

section \<open>Table names\<close>

definition ident_char :: "char \<Rightarrow> bool" where
  "ident_char c = (isASCIILetter c \<or> is_digit c \<or> c = CHR ''_'')"

definition sqlident_Validate :: "string \<Rightarrow> rferr option" where
  "sqlident_Validate name =
     (case name of
        c # cs \<Rightarrow> if ident_char c \<and> \<not> is_digit c \<and> list_all ident_char cs then None
                  else Some (RefidErr ''invalid table name'' [name])
      | [] \<Rightarrow> Some (RefidErr ''invalid table name'' [name]))"

record storeConfig =
  sf_tableName :: string
  sf_err :: "rferr option"

definition DefaultSequenceTableName :: string where "DefaultSequenceTableName = ''refid_sequences''"
definition DefaultRandomTableName :: string where "DefaultRandomTableName = ''refid_random_values''"

definition WithTableName :: "string \<Rightarrow> storeConfig \<Rightarrow> storeConfig" where
  "WithTableName name cfg =
     (if name = [] then cfg
      else case sqlident_Validate name of
             Some err \<Rightarrow> cfg\<lparr>sf_err := Some err\<rparr>
           | None \<Rightarrow> cfg\<lparr>sf_tableName := name\<rparr>)"

text \<open>\<open>WithTableName\<close> is the only option there is, so a list of options is a list of names.\<close>

definition store_config :: "string \<Rightarrow> string list \<Rightarrow> storeConfig" where
  "store_config table names = fold WithTableName names \<lparr>sf_tableName = table, sf_err = None\<rparr>"

definition sql_lines :: "string list \<Rightarrow> string" where
  "sql_lines ls = [CHR 0x0A] @ join_with [CHR 0x0A] ls"

definition postgres_sequence_query :: "string \<Rightarrow> string" where
  "postgres_sequence_query t = sql_lines
     [''INSERT INTO '' @ t @ '' (scope_key, counter, updated_at)'', ''VALUES ($1, 1, now())'',
      ''ON CONFLICT (scope_key) DO UPDATE'', ''  SET counter    = '' @ t @ ''.counter + 1,'',
      ''      updated_at = now()'', ''WHERE '' @ t @ ''.counter < $2'', ''RETURNING counter'']"

definition postgres_NewSequence :: "string list \<Rightarrow> rferr + string" where
  "postgres_NewSequence opts =
     (let cfg = store_config DefaultSequenceTableName opts
      in case sf_err cfg of Some err \<Rightarrow> Inl err | None \<Rightarrow> Inr (postgres_sequence_query (sf_tableName cfg)))"

definition postgres_NewRandom :: "string list \<Rightarrow> rferr + string" where
  "postgres_NewRandom opts =
     (let cfg = store_config DefaultRandomTableName opts
      in case sf_err cfg of
           Some err \<Rightarrow> Inl err
         | None \<Rightarrow> Inr (sql_lines
             [''INSERT INTO '' @ sf_tableName cfg @ '' (scope_key, value, issued_at)'',
              ''VALUES ($1, $2, now())'', ''ON CONFLICT DO NOTHING'']))"

definition sqlite_sequence_query :: "string \<Rightarrow> string" where
  "sqlite_sequence_query t = sql_lines
     [''INSERT INTO '' @ t @ '' (scope_key, counter, updated_at)'',
      ''VALUES (?1, 1, datetime('' @ [quote] @ ''now'' @ [quote] @ ''))'',
      ''ON CONFLICT (scope_key) DO UPDATE SET'', ''  counter    = counter + 1,'',
      ''  updated_at = datetime('' @ [quote] @ ''now'' @ [quote] @ '')'', ''WHERE counter < ?2'', ''RETURNING counter'']"

definition sqlite_NewSequence :: "string list \<Rightarrow> rferr + string" where
  "sqlite_NewSequence opts =
     (let cfg = store_config DefaultSequenceTableName opts
      in case sf_err cfg of Some err \<Rightarrow> Inl err | None \<Rightarrow> Inr (sqlite_sequence_query (sf_tableName cfg)))"

section \<open>The tables\<close>

text \<open>The world of a process: the two tables, the outcome of the coming statements (a message for one
  that fails; statements beyond the list succeed), the coming results of the random source (\<open>None\<close> for
  a failure) and the clock.\<close>

record host =
  ho_counters :: "string \<Rightarrow> int option"
  ho_values :: "(string \<times> string) list"
  ho_faults :: "string option list"
  ho_draws :: "nat option list"
  ho_now :: int

definition statement :: "(host \<Rightarrow> 'r \<times> host) \<Rightarrow> host \<Rightarrow> (string + 'r) \<times> host" where
  "statement run h =
     (let h' = h\<lparr>ho_faults := drop 1 (ho_faults h)\<rparr>
      in case ho_faults h of
           Some msg # _ \<Rightarrow> (Inl msg, h')
         | _ \<Rightarrow> (case run h' of (r, h'') \<Rightarrow> (Inr r, h'')))"

text \<open>\<open>INSERT ... ON CONFLICT (scope_key) DO UPDATE SET counter = counter + 1 WHERE counter < max
  RETURNING counter\<close>: the returned row, if any.\<close>

definition upsert_counter :: "string \<Rightarrow> int \<Rightarrow> host \<Rightarrow> int option \<times> host" where
  "upsert_counter key max_value h =
     (case ho_counters h key of
        None \<Rightarrow> (Some 1, h\<lparr>ho_counters := (ho_counters h)(key \<mapsto> 1)\<rparr>)
      | Some c \<Rightarrow>
          if c < max_value then (Some (c + 1), h\<lparr>ho_counters := (ho_counters h)(key \<mapsto> c + 1)\<rparr>)
          else (None, h))"

text \<open>\<open>INSERT ... ON CONFLICT DO NOTHING\<close>: the number of rows affected.\<close>

definition insert_value :: "string \<Rightarrow> string \<Rightarrow> host \<Rightarrow> nat \<times> host" where
  "insert_value key value h =
     (if (key, value) \<in> set (ho_values h) then (0, h)
      else (1, h\<lparr>ho_values := (key, value) # ho_values h\<rparr>))"

definition sql_Next :: "string \<Rightarrow> string \<Rightarrow> int \<Rightarrow> host \<Rightarrow> (rferr + int) \<times> host" where
  "sql_Next pkg scopeKey max_value h =
     (case statement (upsert_counter scopeKey max_value) h of
        (Inl msg, h') \<Rightarrow> (Inl (RefidErr (pkg @ '': sequence increment failed'') [scopeKey, msg]), h')
      | (Inr None, h') \<Rightarrow> (Inl (ErrCounterOverflow scopeKey max_value), h')
      | (Inr (Some counter), h') \<Rightarrow> (Inr counter, h'))"

definition sql_Reserve :: "string \<Rightarrow> string \<Rightarrow> string \<Rightarrow> host \<Rightarrow> rferr option \<times> host" where
  "sql_Reserve pkg scopeKey value h =
     (case statement (insert_value scopeKey value) h of
        (Inl msg, h') \<Rightarrow> (Some (RefidErr (pkg @ '': random reserve failed'') [scopeKey, msg]), h')
      | (Inr n, h') \<Rightarrow> (if n = 0 then Some (ErrRandomCollision scopeKey value) else None, h'))"

definition postgres_Next :: "string \<Rightarrow> int \<Rightarrow> host \<Rightarrow> (rferr + int) \<times> host" where
  "postgres_Next = sql_Next ''refid/store/postgres''"

definition postgres_Reserve :: "string \<Rightarrow> string \<Rightarrow> host \<Rightarrow> rferr option \<times> host" where
  "postgres_Reserve = sql_Reserve ''refid/store/postgres''"

definition sqlite_Next :: "string \<Rightarrow> int \<Rightarrow> host \<Rightarrow> (rferr + int) \<times> host" where
  "sqlite_Next = sql_Next ''refid/store/sqlite''"

definition sqlite_Reserve :: "string \<Rightarrow> string \<Rightarrow> host \<Rightarrow> rferr option \<times> host" where
  "sqlite_Reserve = sql_Reserve ''refid/store/sqlite''"

text \<open>\<open>rand.Int(rand.Reader, max)\<close>: a number below \<open>max\<close>, or the failure of the source.\<close>

definition rand_Int :: "nat \<Rightarrow> host \<Rightarrow> (rferr + nat) \<times> host" where
  "rand_Int bound h =
     (let h' = h\<lparr>ho_draws := drop 1 (ho_draws h)\<rparr>
      in case ho_draws h of
           Some n # _ \<Rightarrow> (Inr (n mod bound), h')
         | _ \<Rightarrow> (Inl (RefidErr ''random source failed'' []), h'))"

section \<open>The interfaces\<close>

text \<open>What \<open>SequenceStore\<close> and \<open>RandomStore\<close> promise, over the observable counters and reservations of a
  world, together with a random source that leaves both alone.\<close>

locale id_stores =
  fixes nxt :: "string \<Rightarrow> int \<Rightarrow> 's \<Rightarrow> (rferr + int) \<times> 's"
    and reserve :: "string \<Rightarrow> string \<Rightarrow> 's \<Rightarrow> rferr option \<times> 's"
    and draw :: "nat \<Rightarrow> 's \<Rightarrow> (rferr + nat) \<times> 's"
    and counter :: "'s \<Rightarrow> string \<Rightarrow> int"
    and reserved :: "'s \<Rightarrow> (string \<times> string) set"
  assumes next_ok: "nxt k m s = (Inr c, s') \<Longrightarrow> 0 < m \<Longrightarrow>
        c = counter s k + 1 \<and> c \<le> m \<and> counter s' = (counter s)(k := c) \<and> reserved s' = reserved s"
    and next_err: "nxt k m s = (Inl e, s') \<Longrightarrow> counter s' = counter s \<and> reserved s' = reserved s"
    and reserve_ok: "reserve k v s = (None, s') \<Longrightarrow>
        (k, v) \<notin> reserved s \<and> reserved s' = insert (k, v) (reserved s) \<and> counter s' = counter s"
    and reserve_err: "reserve k v s = (Some e, s') \<Longrightarrow> counter s' = counter s \<and> reserved s' = reserved s"
    and draw_keeps: "draw n s = (r, s') \<Longrightarrow> counter s' = counter s \<and> reserved s' = reserved s"
    and draw_below: "draw n s = (Inr i, s') \<Longrightarrow> 0 < n \<Longrightarrow> i < n"

definition host_counter :: "host \<Rightarrow> string \<Rightarrow> int" where
  "host_counter h k = (case ho_counters h k of Some c \<Rightarrow> c | None \<Rightarrow> 0)"

definition host_reserved :: "host \<Rightarrow> (string \<times> string) set" where
  "host_reserved h = set (ho_values h)"

lemmas store_defs = statement_def sql_Next_def sql_Reserve_def upsert_counter_def insert_value_def rand_Int_def
  host_counter_def host_reserved_def

text \<open>One interpretation for both backends: they differ in the package their errors name.\<close>

interpretation sql: id_stores "sql_Next pkg" "sql_Reserve pkg" rand_Int host_counter host_reserved for pkg
  by unfold_locales
    (auto simp: store_defs Let_def fun_eq_iff split: list.splits option.splits if_splits prod.splits)

end
