(* ===== verification/Refid_Registry.thy ===== *)
theory Refid_Registry
  imports Refid_Store
begin

text \<open>
  Reference IDs (package \<open>refid\<close>): the configuration (\<open>config.go\<close>), the six segment types and the
  scope keys (\<open>segments.go\<close>), and the registry (\<open>registry.go\<close>). The type parameter is the world the
  stores, the random source and the clock live in. Regular expressions and the time zone database
  are arguments.
\<close>

section \<open>Configuration\<close>

record SequenceSegmentConfig =
  qc_ScopeKey :: string
  qc_Padding :: int

record RandomSegmentConfig =
  rc_ScopeKey :: string
  rc_Charset :: string
  rc_Length :: int
  rc_MaxAttempts :: int

record SegmentConfig =
  sc_Type :: string
  sc_Value :: string
  sc_List :: string
  sc_Param :: string
  sc_Pattern :: string
  sc_Format :: string
  sc_Sequence :: "SequenceSegmentConfig option"
  sc_Random :: "RandomSegmentConfig option"

record FormatConfig =
  fc_IDType :: string
  fc_Timezone :: string
  fc_Segments :: "SegmentConfig list"

record IssuerConfig =
  ic_Issuer :: string
  ic_Formats :: "FormatConfig list"

record Config =
  cf_Issuers :: "IssuerConfig list"
  cf_Lists :: "(string \<times> string list) list"

text \<open>A format's location is the offset from UTC, in seconds, at each instant.\<close>

type_synonym location = "int \<Rightarrow> int"
type_synonym params = "(string \<times> string) list"
type_synonym 's seq_store = "string \<Rightarrow> int \<Rightarrow> 's \<Rightarrow> (rferr + int) \<times> 's"
type_synonym 's rand_store = "string \<Rightarrow> string \<Rightarrow> 's \<Rightarrow> rferr option \<times> 's"

record 's refid_env =
  ev_regexp :: "string \<Rightarrow> rferr + (string \<Rightarrow> bool)"
  ev_zone :: "string \<Rightarrow> rferr + location"
  ev_rand :: "nat \<Rightarrow> 's \<Rightarrow> (rferr + nat) \<times> 's"

section \<open>Scope keys\<close>

text \<open>\<open>strings.NewReplacer(...).Replace\<close>: at each position the first pair, in argument order, whose old
  string stands there; old strings are not empty here.\<close>

function replace_all :: "(string \<times> string) list \<Rightarrow> string \<Rightarrow> string" where
  "replace_all pairs [] = []"
| "replace_all pairs (c # s) =
     (case find (\<lambda>(old, _). has_prefix (c # s) old) pairs of
        Some (old, new) \<Rightarrow> new @ replace_all pairs (drop (length old - 1) s)
      | None \<Rightarrow> c # replace_all pairs s)"
  by pat_completeness auto
termination
  by (relation "measure (\<lambda>(_, s). length s)") auto

definition dateScopeTokens :: "(string \<times> dateFormat) list" where
  "dateScopeTokens =
     [(''{yyyy}'', [IntPart FYear 4]), (''{yyyyMM}'', [IntPart FYear 4, IntPart FMonth 2]),
      (''{yyyyMMdd}'', [IntPart FYear 4, IntPart FMonth 2, IntPart FDay 2])]"

text \<open>The built-in formats are what their patterns compile to.\<close>

lemma dateScopeTokens_compiled:
  "map (\<lambda>(token, f). compileDateFormat (butlast (tl token))) dateScopeTokens = map (\<lambda>(_, f). Inr f) dateScopeTokens"
  by code_simp

definition scopeKeyUsesDate :: "string \<Rightarrow> bool" where
  "scopeKeyUsesDate tmpl = list_ex (\<lambda>(token, _). str_contains tmpl token) dateScopeTokens"

definition replacements :: "string \<Rightarrow> string \<Rightarrow> params \<Rightarrow> civil \<Rightarrow> (string \<times> string) list" where
  "replacements issuer idType params now =
     [(''{issuer}'', issuer), (''{idType}'', idType)] @
     map (\<lambda>(token, f). (token, render_date f now)) dateScopeTokens @
     map (\<lambda>(k, v). (''{'' @ k @ ''}'', v)) params"

definition resolveScopeKey :: "string \<Rightarrow> string \<Rightarrow> string \<Rightarrow> params \<Rightarrow> civil \<Rightarrow> rferr + string" where
  "resolveScopeKey tmpl issuer idType params now =
     (let key = replace_all (replacements issuer idType params now) tmpl
      in case index_byte key (CHR ''{'') of
           None \<Rightarrow> Inr key
         | Some op \<Rightarrow>
             (case index_byte (drop op key) (CHR ''}'') of
                None \<Rightarrow> Inr key
              | Some closeIdx \<Rightarrow>
                  if closeIdx > 1
                  then Inl (ErrInvalidParam ''unresolved placeholder'' [key, take (closeIdx + 1) (drop op key)])
                  else Inr key))"

section \<open>Segments\<close>

record 's sequenceSegment =
  sq_issuer :: string
  sq_idType :: string
  sq_scopeKeyTmpl :: string
  sq_padding :: nat
  sq_store :: "'s seq_store"

record 's randomSegment =
  rs_issuer :: string
  rs_idType :: string
  rs_scopeKeyTmpl :: string
  rs_length :: nat
  rs_alphabet :: string
  rs_maxAttempts :: nat
  rs_store :: "'s rand_store"

datatype 's segment =
    LiteralSegment string
  | ListSegment string "string list"
  | ParamSegment string "string \<Rightarrow> bool" string
  | DateSegment dateFormat
  | SequenceSegment "'s sequenceSegment"
  | RandomSegment "'s randomSegment"

fun isStateful :: "'s segment \<Rightarrow> bool" where
  "isStateful (SequenceSegment q) = True"
| "isStateful (RandomSegment r) = True"
| "isStateful _ = False"

definition validate_list :: "string \<Rightarrow> string list \<Rightarrow> params \<Rightarrow> rferr option" where
  "validate_list paramKey allowed params =
     (case map_of params paramKey of
        None \<Rightarrow> Some (ErrInvalidParam ''param is required'' [paramKey])
      | Some val \<Rightarrow>
          if val = [] then Some (ErrInvalidParam ''param is required'' [paramKey])
          else if val \<in> set allowed then None
          else Some (ErrInvalidParam ''value is not in the allowed list'' [val, paramKey]))"

definition validate_param :: "string \<Rightarrow> (string \<Rightarrow> bool) \<Rightarrow> string \<Rightarrow> params \<Rightarrow> rferr option" where
  "validate_param paramKey matches source params =
     (case map_of params paramKey of
        None \<Rightarrow> Some (ErrInvalidParam ''param is required'' [paramKey])
      | Some val \<Rightarrow>
          if val = [] then Some (ErrInvalidParam ''param is required'' [paramKey])
          else if matches val then None
          else Some (ErrInvalidParam ''value does not match pattern'' [paramKey, source]))"

definition validate_scope :: "string \<Rightarrow> string \<Rightarrow> string \<Rightarrow> params \<Rightarrow> civil \<Rightarrow> rferr option" where
  "validate_scope tmpl issuer idType params now =
     (case resolveScopeKey tmpl issuer idType params now of Inl err \<Rightarrow> Some err | Inr _ \<Rightarrow> None)"

fun validate_segment :: "'s segment \<Rightarrow> params \<Rightarrow> civil \<Rightarrow> rferr option" where
  "validate_segment (LiteralSegment v) params now = None"
| "validate_segment (ListSegment k allowed) params now = validate_list k allowed params"
| "validate_segment (ParamSegment k matches source) params now = validate_param k matches source params"
| "validate_segment (DateSegment f) params now = None"
| "validate_segment (SequenceSegment q) params now =
     validate_scope (sq_scopeKeyTmpl q) (sq_issuer q) (sq_idType q) params now"
| "validate_segment (RandomSegment r) params now =
     validate_scope (rs_scopeKeyTmpl r) (rs_issuer r) (rs_idType r) params now"

text \<open>\<open>%0*d\<close> of a counter.\<close>

definition format_counter :: "nat \<Rightarrow> int \<Rightarrow> string" where
  "format_counter w n =
     (if n < 0 then ''-'' @ zero_pad (w - 1) (itoa (nat (- n))) else zero_pad w (itoa (nat n)))"

definition render_sequence :: "'s sequenceSegment \<Rightarrow> params \<Rightarrow> civil \<Rightarrow> 's \<Rightarrow> (rferr + string) \<times> 's" where
  "render_sequence q params now s =
     (case resolveScopeKey (sq_scopeKeyTmpl q) (sq_issuer q) (sq_idType q) params now of
        Inl err \<Rightarrow> (Inl err, s)
      | Inr key \<Rightarrow>
          (let maxValue = 10 ^ sq_padding q - 1
           in case sq_store q key maxValue s of
                (Inl err, s') \<Rightarrow> (Inl err, s')
              | (Inr counter, s') \<Rightarrow> (Inr (format_counter (sq_padding q) counter), s')))"

primrec randomString :: "(nat \<Rightarrow> 's \<Rightarrow> (rferr + nat) \<times> 's) \<Rightarrow> string \<Rightarrow> nat \<Rightarrow> 's \<Rightarrow> (rferr + string) \<times> 's" where
  "randomString draw alphabet 0 s = (Inr [], s)"
| "randomString draw alphabet (Suc n) s =
     (case draw (length alphabet) s of
        (Inl err, s') \<Rightarrow> (Inl err, s')
      | (Inr i, s') \<Rightarrow>
          (case randomString draw alphabet n s' of
             (Inl err, s'') \<Rightarrow> (Inl err, s'')
           | (Inr b, s'') \<Rightarrow> (Inr (alphabet ! i # b), s'')))"

text \<open>\<open>errors.Is(err, ErrRandomCollision)\<close>.\<close>

fun is_collision :: "rferr \<Rightarrow> bool" where
  "is_collision (ErrRandomCollision k v) = True"
| "is_collision (RefidWrap m as e) = is_collision e"
| "is_collision _ = False"

primrec reserve_loop ::
  "(nat \<Rightarrow> 's \<Rightarrow> (rferr + nat) \<times> 's) \<Rightarrow> 's randomSegment \<Rightarrow> string \<Rightarrow> nat \<Rightarrow> 's \<Rightarrow> (rferr + string) \<times> 's" where
  "reserve_loop draw r key 0 s =
     (Inl (ErrRandomExhausted key (int (rs_length r)) (rs_maxAttempts r)), s)"
| "reserve_loop draw r key (Suc k) s =
     (case randomString draw (rs_alphabet r) (rs_length r) s of
        (Inl err, s1) \<Rightarrow> (Inl (RefidWrap ''failed to generate random value'' [] err), s1)
      | (Inr v, s1) \<Rightarrow>
          (case rs_store r key v s1 of
             (None, s2) \<Rightarrow> (Inr v, s2)
           | (Some err, s2) \<Rightarrow> if is_collision err then reserve_loop draw r key k s2 else (Inl err, s2)))"

definition render_random ::
  "(nat \<Rightarrow> 's \<Rightarrow> (rferr + nat) \<times> 's) \<Rightarrow> 's randomSegment \<Rightarrow> params \<Rightarrow> civil \<Rightarrow> 's \<Rightarrow> (rferr + string) \<times> 's" where
  "render_random draw r params now s =
     (case resolveScopeKey (rs_scopeKeyTmpl r) (rs_issuer r) (rs_idType r) params now of
        Inl err \<Rightarrow> (Inl err, s)
      | Inr key \<Rightarrow> reserve_loop draw r key (rs_maxAttempts r) s)"

definition param_value :: "params \<Rightarrow> string \<Rightarrow> string" where
  "param_value params k = (case map_of params k of Some v \<Rightarrow> v | None \<Rightarrow> [])"

fun render_segment :: "'s refid_env \<Rightarrow> 's segment \<Rightarrow> params \<Rightarrow> civil \<Rightarrow> 's \<Rightarrow> (rferr + string) \<times> 's" where
  "render_segment env (LiteralSegment v) params now s = (Inr v, s)"
| "render_segment env (ListSegment k allowed) params now s =
     (case validate_list k allowed params of Some err \<Rightarrow> (Inl err, s) | None \<Rightarrow> (Inr (param_value params k), s))"
| "render_segment env (ParamSegment k matches source) params now s =
     (case validate_param k matches source params of
        Some err \<Rightarrow> (Inl err, s) | None \<Rightarrow> (Inr (param_value params k), s))"
| "render_segment env (DateSegment f) params now s = (Inr (render_date f now), s)"
| "render_segment env (SequenceSegment q) params now s = render_sequence q params now s"
| "render_segment env (RandomSegment r) params now s = render_random (ev_rand env) r params now s"

section \<open>Constructors\<close>

definition newLiteralSegment :: "SegmentConfig \<Rightarrow> rferr + 's segment" where
  "newLiteralSegment cfg =
     (if sc_Value cfg = [] then Inl (RefidErr ''literal segment requires a non-empty value'' [])
      else Inr (LiteralSegment (sc_Value cfg)))"

definition newListSegment :: "SegmentConfig \<Rightarrow> string list \<Rightarrow> rferr + 's segment" where
  "newListSegment cfg vals =
     (if sc_Param cfg = [] then Inl (RefidErr ''list segment requires a non-empty param'' [])
      else if vals = [] then Inl (RefidErr ''list segment references list which is empty or undefined'' [sc_List cfg])
      else Inr (ListSegment (sc_Param cfg) vals))"

definition newParamSegment :: "(string \<Rightarrow> rferr + (string \<Rightarrow> bool)) \<Rightarrow> SegmentConfig \<Rightarrow> rferr + 's segment" where
  "newParamSegment regexp_Compile cfg =
     (if sc_Param cfg = [] then Inl (RefidErr ''param segment requires a non-empty param'' [])
      else if sc_Pattern cfg = [] then Inl (RefidErr ''param segment requires a pattern'' [sc_Param cfg])
      else case regexp_Compile ([CHR 0x5C] @ ''A(?:'' @ sc_Pattern cfg @ '')'' @ [CHR 0x5C] @ ''z'') of
             Inl err \<Rightarrow> Inl (RefidWrap ''param segment has an invalid pattern'' [sc_Pattern cfg] err)
           | Inr re \<Rightarrow> Inr (ParamSegment (sc_Param cfg) re (sc_Pattern cfg)))"

definition newDateSegment :: "SegmentConfig \<Rightarrow> rferr + 's segment" where
  "newDateSegment cfg =
     (if sc_Format cfg = [] then Inl (RefidErr ''date segment requires a non-empty format'' [])
      else case compileDateFormat (sc_Format cfg) of
             Inl err \<Rightarrow> Inl (RefidWrap ''date segment has an invalid format'' [sc_Format cfg] err)
           | Inr format \<Rightarrow> Inr (DateSegment format))"

definition newSequenceSegment :: "SegmentConfig \<Rightarrow> string \<Rightarrow> string \<Rightarrow> 's seq_store option \<Rightarrow> rferr + 's segment" where
  "newSequenceSegment cfg issuer idType store =
     (case sc_Sequence cfg of
        None \<Rightarrow> Inl (RefidErr ''sequence segment requires a non-nil sequence config'' [])
      | Some q \<Rightarrow>
          if qc_ScopeKey q = [] then Inl (RefidErr ''sequence segment requires a non-empty scopeKey'' [])
          else case store of
                 None \<Rightarrow> Inl (RefidErr ''sequence segment requires a non-nil SequenceStore'' [])
               | Some st \<Rightarrow>
                   if qc_Padding q < 1 \<or> qc_Padding q > 18
                   then Inl (RefidErr ''sequence segment padding must be between 1 and 18'' [])
                   else Inr (SequenceSegment \<lparr>sq_issuer = issuer, sq_idType = idType,
                          sq_scopeKeyTmpl = qc_ScopeKey q, sq_padding = nat (qc_Padding q), sq_store = st\<rparr>))"

definition randomAlphabets :: "(string \<times> string) list" where
  "randomAlphabets =
     [(''numeric'', ''0123456789''), (''alpha'', ''ABCDEFGHIJKLMNOPQRSTUVWXYZ''),
      (''alphanumeric'', ''ABCDEFGHIJKLMNOPQRSTUVWXYZ0123456789'')]"

definition defaultRandomMaxAttempts :: nat where "defaultRandomMaxAttempts = 10"
definition maxRandomMaxAttempts :: nat where "maxRandomMaxAttempts = 100"

definition newRandomSegment :: "SegmentConfig \<Rightarrow> string \<Rightarrow> string \<Rightarrow> 's rand_store option \<Rightarrow> rferr + 's segment" where
  "newRandomSegment cfg issuer idType store =
     (case sc_Random cfg of
        None \<Rightarrow> Inl (RefidErr ''random segment requires a non-nil random config'' [])
      | Some r \<Rightarrow>
          if rc_ScopeKey r = [] then Inl (RefidErr ''random segment requires a non-empty scopeKey'' [])
          else case store of
                 None \<Rightarrow> Inl (RefidErr ''random segment requires a non-nil RandomStore'' [])
               | Some st \<Rightarrow>
                   if rc_Length r < 1 then Inl (RefidErr ''random segment length must be at least 1'' [])
                   else case map_of randomAlphabets (rc_Charset r) of
                          None \<Rightarrow> Inl (RefidErr ''random segment has unknown charset'' [rc_Charset r])
                        | Some alphabet \<Rightarrow>
                            if rc_MaxAttempts r < 0 \<or> rc_MaxAttempts r > int maxRandomMaxAttempts
                            then Inl (RefidErr ''random segment maxAttempts out of range'' [])
                            else Inr (RandomSegment \<lparr>rs_issuer = issuer, rs_idType = idType,
                                   rs_scopeKeyTmpl = rc_ScopeKey r, rs_length = nat (rc_Length r),
                                   rs_alphabet = alphabet,
                                   rs_maxAttempts = (if rc_MaxAttempts r = 0 then defaultRandomMaxAttempts
                                                     else nat (rc_MaxAttempts r)),
                                   rs_store = st\<rparr>))"

definition compileSegment ::
  "'s refid_env \<Rightarrow> SegmentConfig \<Rightarrow> string \<Rightarrow> string \<Rightarrow> (string \<times> string list) list \<Rightarrow>
   's seq_store option \<Rightarrow> 's rand_store option \<Rightarrow> rferr + 's segment" where
  "compileSegment env sc issuer idType named_lists store randomStore =
     (if sc_Type sc = ''literal'' then newLiteralSegment sc
      else if sc_Type sc = ''list'' then
        (case map_of named_lists (sc_List sc) of
           None \<Rightarrow> Inl (RefidErr ''list is not defined in config'' [sc_List sc])
         | Some vals \<Rightarrow> newListSegment sc vals)
      else if sc_Type sc = ''param'' then newParamSegment (ev_regexp env) sc
      else if sc_Type sc = ''date'' then newDateSegment sc
      else if sc_Type sc = ''sequence'' then newSequenceSegment sc issuer idType store
      else if sc_Type sc = ''random'' then newRandomSegment sc issuer idType randomStore
      else Inl (RefidErr ''unknown segment type'' [sc_Type sc]))"

section \<open>The registry\<close>

record 's compiledFormat =
  cp_segments :: "'s segment list"
  cp_location :: location

record 's registryConfig =
  rg_sequenceStore :: "'s seq_store option"
  rg_randomStore :: "'s rand_store option"
  rg_now :: "('s \<Rightarrow> int) option"

record 's registry =
  re_formats :: "((string \<times> string) \<times> 's compiledFormat) list"
  re_now :: "'s \<Rightarrow> int"

definition formatUsesDate :: "FormatConfig \<Rightarrow> bool" where
  "formatUsesDate cfg =
     list_ex (\<lambda>sc.
        if sc_Type sc = ''date'' then True
        else if sc_Type sc = ''sequence'' then
          (case sc_Sequence sc of Some q \<Rightarrow> scopeKeyUsesDate (qc_ScopeKey q) | None \<Rightarrow> False)
        else if sc_Type sc = ''random'' then
          (case sc_Random sc of Some r \<Rightarrow> scopeKeyUsesDate (rc_ScopeKey r) | None \<Rightarrow> False)
        else False) (fc_Segments cfg)"

definition resolveTimezone :: "(string \<Rightarrow> rferr + location) \<Rightarrow> FormatConfig \<Rightarrow> rferr + location" where
  "resolveTimezone loadLocation cfg =
     (if fc_Timezone cfg = [] then
        (if formatUsesDate cfg then Inl (RefidErr ''timezone is required'' []) else Inr (\<lambda>_. 0))
      else if fc_Timezone cfg = ''Local'' then Inl (RefidErr ''timezone is not allowed because it depends on the host'' [fc_Timezone cfg])
      else case loadLocation (fc_Timezone cfg) of
             Inl err \<Rightarrow> Inl (RefidWrap ''timezone is not a known IANA zone name'' [fc_Timezone cfg] err)
           | Inr loc \<Rightarrow> Inr loc)"

fun compile_segments ::
  "(SegmentConfig \<Rightarrow> rferr + 's segment) \<Rightarrow> nat \<Rightarrow> SegmentConfig list \<Rightarrow> rferr + 's segment list" where
  "compile_segments compile i [] = Inr []"
| "compile_segments compile i (sc # scs) =
     (case compile sc of
        Inl err \<Rightarrow> Inl (RefidWrap ''segment'' [itoa i, sc_Type sc] err)
      | Inr seg \<Rightarrow>
          (case compile_segments compile (Suc i) scs of Inl err \<Rightarrow> Inl err | Inr segs \<Rightarrow> Inr (seg # segs)))"

definition compileFormat ::
  "'s refid_env \<Rightarrow> FormatConfig \<Rightarrow> string \<Rightarrow> (string \<times> string list) list \<Rightarrow>
   's seq_store option \<Rightarrow> 's rand_store option \<Rightarrow> rferr + 's compiledFormat" where
  "compileFormat env cfg issuer named_lists store randomStore =
     (if fc_Segments cfg = [] then Inl (RefidErr ''format has no segments'' [])
      else case compile_segments (\<lambda>sc. compileSegment env sc issuer (fc_IDType cfg) named_lists store randomStore) 0 (fc_Segments cfg) of
             Inl err \<Rightarrow> Inl err
           | Inr segs \<Rightarrow>
               if length (filter isStateful segs) > 1
               then Inl (RefidErr ''format has too many stateful segments'' [itoa (length (filter isStateful segs))])
               else case resolveTimezone (ev_zone env) cfg of
                      Inl err \<Rightarrow> Inl err
                    | Inr loc \<Rightarrow> Inr \<lparr>cp_segments = segs, cp_location = loc\<rparr>)"

fun add_formats ::
  "(FormatConfig \<Rightarrow> rferr + 's compiledFormat) \<Rightarrow> string \<Rightarrow> FormatConfig list \<Rightarrow>
   ((string \<times> string) \<times> 's compiledFormat) list \<Rightarrow> rferr + ((string \<times> string) \<times> 's compiledFormat) list" where
  "add_formats compile issuer [] formats = Inr formats"
| "add_formats compile issuer (fc # fcs) formats =
     (if fc_IDType fc = [] then Inl (RefidErr ''issuer has a format with an empty idType'' [issuer])
      else if map_of formats (issuer, fc_IDType fc) \<noteq> None
      then Inl (RefidErr ''duplicate format'' [issuer, fc_IDType fc])
      else case compile fc of
             Inl err \<Rightarrow> Inl (RefidWrap ''compiling format'' [issuer, fc_IDType fc] err)
           | Inr compiled \<Rightarrow> add_formats compile issuer fcs (((issuer, fc_IDType fc), compiled) # formats))"

fun add_issuers ::
  "(string \<Rightarrow> FormatConfig \<Rightarrow> rferr + 's compiledFormat) \<Rightarrow> IssuerConfig list \<Rightarrow>
   ((string \<times> string) \<times> 's compiledFormat) list \<Rightarrow> rferr + ((string \<times> string) \<times> 's compiledFormat) list" where
  "add_issuers compile [] formats = Inr formats"
| "add_issuers compile (ic # ics) formats =
     (if ic_Issuer ic = [] then Inl (RefidErr ''issuer config has an empty issuer name'' [])
      else case add_formats (compile (ic_Issuer ic)) (ic_Issuer ic) (ic_Formats ic) formats of
             Inl err \<Rightarrow> Inl err
           | Inr formats' \<Rightarrow> add_issuers compile ics formats')"

datatype 's RegistryOption =
    WithSequenceStore "'s seq_store option"
  | WithRandomStore "'s rand_store option"
  | WithClock "('s \<Rightarrow> int) option"

fun apply_option :: "'s RegistryOption \<Rightarrow> 's registryConfig \<Rightarrow> 's registryConfig" where
  "apply_option (WithSequenceStore st) rc = rc\<lparr>rg_sequenceStore := st\<rparr>"
| "apply_option (WithRandomStore st) rc = rc\<lparr>rg_randomStore := st\<rparr>"
| "apply_option (WithClock now) rc = rc\<lparr>rg_now := now\<rparr>"

definition NewRegistry ::
  "'s refid_env \<Rightarrow> ('s \<Rightarrow> int) \<Rightarrow> Config \<Rightarrow> 's RegistryOption list \<Rightarrow> rferr + 's registry" where
  "NewRegistry env time_Now cfg opts =
     (let rc = fold apply_option opts \<lparr>rg_sequenceStore = None, rg_randomStore = None, rg_now = Some time_Now\<rparr>
      in case rg_now rc of
           None \<Rightarrow> Inl (RefidErr ''WithClock needs a non-nil clock'' [])
         | Some now \<Rightarrow>
             (case add_issuers (\<lambda>issuer fc. compileFormat env fc issuer (cf_Lists cfg) (rg_sequenceStore rc) (rg_randomStore rc))
                     (cf_Issuers cfg) [] of
                Inl err \<Rightarrow> Inl err
              | Inr formats \<Rightarrow> Inr \<lparr>re_formats = formats, re_now = now\<rparr>))"

fun validate_all :: "'s segment list \<Rightarrow> params \<Rightarrow> civil \<Rightarrow> rferr option" where
  "validate_all [] params now = None"
| "validate_all (seg # segs) params now =
     (case validate_segment seg params now of Some err \<Rightarrow> Some err | None \<Rightarrow> validate_all segs params now)"

fun render_all :: "'s refid_env \<Rightarrow> 's segment list \<Rightarrow> params \<Rightarrow> civil \<Rightarrow> 's \<Rightarrow> (rferr + string) \<times> 's" where
  "render_all env [] params now s = (Inr [], s)"
| "render_all env (seg # segs) params now s =
     (case render_segment env seg params now s of
        (Inl err, s') \<Rightarrow> (Inl err, s')
      | (Inr part, s') \<Rightarrow>
          (case render_all env segs params now s' of
             (Inl err, s'') \<Rightarrow> (Inl err, s'')
           | (Inr rest, s'') \<Rightarrow> (Inr (part @ rest), s'')))"

definition Generate ::
  "'s refid_env \<Rightarrow> 's registry \<Rightarrow> string \<Rightarrow> string \<Rightarrow> params \<Rightarrow> 's \<Rightarrow> (rferr + string) \<times> 's" where
  "Generate env reg issuer idType params s =
     (case map_of (re_formats reg) (issuer, idType) of
        None \<Rightarrow>
          if list_ex (\<lambda>((i, _), _). i = issuer) (re_formats reg)
          then (Inl (ErrUnknownIDType issuer idType), s)
          else (Inl (ErrUnknownIssuer issuer), s)
      | Some compiled \<Rightarrow>
          (let instant = re_now reg s;
               now = civil_of (instant + cp_location compiled instant)
           in case validate_all (cp_segments compiled) params now of
                Some err \<Rightarrow> (Inl err, s)
              | None \<Rightarrow> render_all env (cp_segments compiled) params now s))"

end
