(* ===== verification/Refid_Props.thy ===== *)
theory Refid_Props
  imports Refid_Registry
begin

text \<open>
  What reference IDs promise: a failed \<open>Generate\<close> leaves no trace in the stores, an ID is not issued
  twice, a counter keeps its width, and scope keys are what their templates say. The store-dependent
  lemmas are proved in the locale \<open>id_stores\<close> and reach the SQL backends through its interpretation.
\<close>

section \<open>What a registry is made of\<close>

fun backed :: "'s seq_store \<Rightarrow> 's rand_store \<Rightarrow> 's RegistryOption \<Rightarrow> bool" where
  "backed nxt reserve (WithSequenceStore st) = (st = None \<or> st = Some nxt)"
| "backed nxt reserve (WithRandomStore st) = (st = None \<or> st = Some reserve)"
| "backed nxt reserve (WithClock now) = True"

fun uses_stores :: "'s seq_store \<Rightarrow> 's rand_store \<Rightarrow> 's segment \<Rightarrow> bool" where
  "uses_stores nxt reserve (SequenceSegment q) = (sq_store q = nxt \<and> 0 < sq_padding q)"
| "uses_stores nxt reserve (RandomSegment r) = (rs_store r = reserve)"
| "uses_stores nxt reserve _ = True"

definition format_ok :: "'s seq_store \<Rightarrow> 's rand_store \<Rightarrow> 's compiledFormat \<Rightarrow> bool" where
  "format_ok nxt reserve cp =
     ((\<forall>seg \<in> set (cp_segments cp). uses_stores nxt reserve seg) \<and> length (filter isStateful (cp_segments cp)) \<le> 1)"

lemma compileSegment_uses:
  assumes "compileSegment env sc issuer idType ls st rst = Inr seg"
    and "st = None \<or> st = Some nxt" and "rst = None \<or> rst = Some reserve"
  shows "uses_stores nxt reserve seg"
proof -
  have "newSequenceSegment sc issuer idType st = Inr seg \<Longrightarrow> uses_stores nxt reserve seg"
    using assms(2) by (auto simp: newSequenceSegment_def split: option.splits if_splits)
  moreover have "newRandomSegment sc issuer idType rst = Inr seg \<Longrightarrow> uses_stores nxt reserve seg"
    using assms(3) by (auto simp: newRandomSegment_def split: option.splits if_splits)
  moreover have "newLiteralSegment sc = Inr seg \<Longrightarrow> uses_stores nxt reserve seg"
    "newListSegment sc vs = Inr seg \<Longrightarrow> uses_stores nxt reserve seg"
    "newParamSegment re sc = Inr seg \<Longrightarrow> uses_stores nxt reserve seg"
    "newDateSegment sc = Inr seg \<Longrightarrow> uses_stores nxt reserve seg" for vs re
    by (auto simp: newLiteralSegment_def newListSegment_def newParamSegment_def newDateSegment_def
        split: if_splits sum.splits)
  ultimately show ?thesis
    using assms(1) by (auto simp: compileSegment_def split: if_splits option.splits)
qed

lemma compile_segments_all:
  "compile_segments compile i scs = Inr segs \<Longrightarrow> (\<And>sc seg. compile sc = Inr seg \<Longrightarrow> P seg) \<Longrightarrow> \<forall>seg \<in> set segs. P seg"
  by (induction compile i scs arbitrary: segs rule: compile_segments.induct) (auto split: sum.splits)

lemma compileFormat_ok:
  assumes "compileFormat env fc issuer ls st rst = Inr cp"
    and "st = None \<or> st = Some nxt" and "rst = None \<or> rst = Some reserve"
  shows "format_ok nxt reserve cp"
proof -
  from assms(1) obtain segs where
    "compile_segments (\<lambda>sc. compileSegment env sc issuer (fc_IDType fc) ls st rst) 0 (fc_Segments fc) = Inr segs"
    and "length (filter isStateful segs) \<le> 1" and "cp_segments cp = segs"
    by (auto simp: compileFormat_def split: if_splits sum.splits)
  then show ?thesis
    using compile_segments_all[where P = "uses_stores nxt reserve"] compileSegment_uses[OF _ assms(2,3)]
    by (fastforce simp: format_ok_def)
qed

lemma add_formats_all:
  "add_formats compile issuer fcs formats = Inr out \<Longrightarrow> (\<And>fc cp. compile fc = Inr cp \<Longrightarrow> P cp) \<Longrightarrow>
   \<forall>(k, cp) \<in> set formats. P cp \<Longrightarrow> \<forall>(k, cp) \<in> set out. P cp"
  by (induction compile issuer fcs formats rule: add_formats.induct) (auto split: if_splits sum.splits)

lemma add_issuers_all:
  assumes "add_issuers compile ics formats = Inr out" and "\<And>i fc cp. compile i fc = Inr cp \<Longrightarrow> P cp"
    and "\<forall>(k, cp) \<in> set formats. P cp"
  shows "\<forall>(k, cp) \<in> set out. P cp"
  using assms
proof (induction compile ics formats rule: add_issuers.induct)
  case (2 compile ic ics formats)
  then obtain formats' where f: "add_formats (compile (ic_Issuer ic)) (ic_Issuer ic) (ic_Formats ic) formats = Inr formats'"
    and "add_issuers compile ics formats' = Inr out"
    by (auto split: if_splits sum.splits)
  moreover have "\<forall>(k, cp) \<in> set formats'. P cp"
    using add_formats_all[OF f] "2.prems"(2,3) by blast
  ultimately show ?case using 2 by (auto split: if_splits)
qed simp

lemma fold_options_backed:
  "\<forall>opt \<in> set opts. backed nxt reserve opt \<Longrightarrow>
   rg_sequenceStore rc = None \<or> rg_sequenceStore rc = Some nxt \<Longrightarrow>
   rg_randomStore rc = None \<or> rg_randomStore rc = Some reserve \<Longrightarrow>
   (rg_sequenceStore (fold apply_option opts rc) = None \<or> rg_sequenceStore (fold apply_option opts rc) = Some nxt) \<and>
   (rg_randomStore (fold apply_option opts rc) = None \<or> rg_randomStore (fold apply_option opts rc) = Some reserve)"
proof (induction opts arbitrary: rc)
  case (Cons opt opts)
  then show ?case by (cases opt) auto
qed simp

lemma NewRegistry_formats:
  assumes "NewRegistry env tn cfg opts = Inr reg" and "\<forall>opt \<in> set opts. backed nxt reserve opt"
    and "map_of (re_formats reg) k = Some cp"
  shows "format_ok nxt reserve cp"
proof -
  let ?rc = "fold apply_option opts \<lparr>rg_sequenceStore = None, rg_randomStore = None, rg_now = Some tn\<rparr>"
  have st: "rg_sequenceStore ?rc = None \<or> rg_sequenceStore ?rc = Some nxt"
    "rg_randomStore ?rc = None \<or> rg_randomStore ?rc = Some reserve"
    using fold_options_backed[OF assms(2), of "\<lparr>rg_sequenceStore = None, rg_randomStore = None, rg_now = Some tn\<rparr>"]
    by simp_all
  have "add_issuers (\<lambda>issuer fc. compileFormat env fc issuer (cf_Lists cfg) (rg_sequenceStore ?rc) (rg_randomStore ?rc))
          (cf_Issuers cfg) [] = Inr (re_formats reg)"
    using assms(1) by (auto simp: NewRegistry_def Let_def split: option.splits sum.splits)
  from add_issuers_all[OF this, of "format_ok nxt reserve"] compileFormat_ok[OF _ st]
  have "\<forall>(k, cp) \<in> set (re_formats reg). format_ok nxt reserve cp" by auto
  with map_of_SomeD[OF assms(3)] show ?thesis by auto
qed

section \<open>Rendering\<close>

text \<open>What a stateless segment contributes, whatever the world.\<close>

fun static_part :: "'s segment \<Rightarrow> params \<Rightarrow> civil \<Rightarrow> string" where
  "static_part (LiteralSegment v) params now = v"
| "static_part (ListSegment k allowed) params now = param_value params k"
| "static_part (ParamSegment k matches source) params now = param_value params k"
| "static_part (DateSegment f) params now = render_date f now"
| "static_part _ params now = []"

lemma render_stateless:
  "\<not> isStateful seg \<Longrightarrow> validate_segment seg params now = None \<Longrightarrow>
   render_segment env seg params now s = (Inr (static_part seg params now), s)"
  by (cases seg) auto

lemma validate_all_iff: "validate_all segs params now = None \<longleftrightarrow> (\<forall>seg \<in> set segs. validate_segment seg params now = None)"
  by (induction segs params now rule: validate_all.induct) (auto split: option.splits)

lemma render_all_stateless:
  "filter isStateful segs = [] \<Longrightarrow> validate_all segs params now = None \<Longrightarrow>
   render_all env segs params now s = (Inr (concat (map (\<lambda>seg. static_part seg params now) segs)), s)"
  by (induction env segs params now s rule: render_all.induct)
    (auto simp: render_stateless split: option.splits if_splits)

text \<open>With one stateful segment, everything around it is fixed by the parameters and the time.\<close>

lemma render_all_one:
  assumes "validate_all (pre @ seg # post) params now = None"
    and "filter isStateful pre = []" and "filter isStateful post = []"
  shows "render_all env (pre @ seg # post) params now s =
         (case render_segment env seg params now s of
            (Inl err, s') \<Rightarrow> (Inl err, s')
          | (Inr v, s') \<Rightarrow> (Inr (concat (map (\<lambda>x. static_part x params now) pre) @ v @
                                   concat (map (\<lambda>x. static_part x params now) post)), s'))"
  using assms
proof (induction pre arbitrary: s)
  case Nil
  then show ?case
    by (auto simp: render_all_stateless split: prod.splits sum.splits option.splits)
next
  case (Cons p pre)
  then show ?case
    by (auto simp: render_stateless split: prod.splits sum.splits option.splits if_splits)
qed

lemma one_stateful:
  assumes "length (filter isStateful segs) \<le> 1"
  obtains "filter isStateful segs = []"
  | pre seg post where "segs = pre @ seg # post" "isStateful seg" "filter isStateful pre = []" "filter isStateful post = []"
proof (cases "filter isStateful segs")
  case (Cons x xs)
  then obtain pre post where "segs = pre @ x # post" "\<forall>y \<in> set pre. \<not> isStateful y" "isStateful x" "xs = filter isStateful post"
    by (auto simp: filter_eq_Cons_iff)
  moreover have "xs = []" using assms Cons by simp
  ultimately show ?thesis by (intro that(2)[of pre x post]) simp_all
qed (use that in auto)

section \<open>The laws of the stores carry over\<close>

context id_stores
begin

definition same_tables :: "'s \<Rightarrow> 's \<Rightarrow> bool" where
  "same_tables s s' \<longleftrightarrow> counter s' = counter s \<and> reserved s' = reserved s"

lemma same_tables_refl [simp]: "same_tables s s"
  by (simp add: same_tables_def)

lemma randomString_keeps: "randomString draw alphabet n s = (r, s') \<Longrightarrow> same_tables s s'"
proof (induction n arbitrary: s r s')
  case (Suc n)
  then show ?case
    by (fastforce simp: same_tables_def dest: draw_keeps split: prod.splits sum.splits)
qed simp

text \<open>The loop of a random segment: on success its value is new in the scope, on failure nothing changed.\<close>

lemma reserve_loop_effect:
  assumes "reserve_loop draw r key n s = (res, s')" and "rs_store r = reserve"
  shows "case res of
           Inl _ \<Rightarrow> same_tables s s'
         | Inr v \<Rightarrow> (key, v) \<notin> reserved s \<and> reserved s' = insert (key, v) (reserved s) \<and> counter s' = counter s"
  using assms(1)
proof (induction n arbitrary: s)
  case 0
  then show ?case by (auto simp: same_tables_def)
next
  case (Suc n)
  obtain rv s1 where draw: "randomString draw (rs_alphabet r) (rs_length r) s = (rv, s1)" by fastforce
  then have s1: "same_tables s s1" by (rule randomString_keeps)
  show ?case
  proof (cases rv)
    case (Inl e)
    with draw Suc.prems s1 show ?thesis by auto
  next
    case (Inr v)
    obtain o2 s2 where st: "reserve key v s1 = (o2, s2)" by fastforce
    show ?thesis
    proof (cases o2)
      case None
      with draw Inr st Suc.prems assms(2) have "res = Inr v" "s' = s2" by auto
      with reserve_ok[of key v s1 s2] st None s1 show ?thesis by (auto simp: same_tables_def)
    next
      case (Some e)
      with st have s2: "same_tables s1 s2" using reserve_err[of key v s1 e s2] by (auto simp: same_tables_def)
      show ?thesis
      proof (cases "is_collision e")
        case True
        with draw Inr st Some Suc.prems assms(2) have "reserve_loop draw r key n s2 = (res, s')" by simp
        from Suc.IH[OF this] s1 s2 show ?thesis by (auto simp: same_tables_def split: sum.splits)
      next
        case False
        with draw Inr st Some Suc.prems assms(2) s1 s2 show ?thesis by (auto simp: same_tables_def)
      qed
    qed
  qed
qed

lemma render_sequence_effect:
  assumes "render_sequence q params now s = (res, s')" and "sq_store q = nxt" and "0 < sq_padding q"
  shows "case res of
           Inl _ \<Rightarrow> same_tables s s'
         | Inr v \<Rightarrow> \<exists>key c. resolveScopeKey (sq_scopeKeyTmpl q) (sq_issuer q) (sq_idType q) params now = Inr key \<and>
             c = counter s key + 1 \<and> c \<le> 10 ^ sq_padding q - 1 \<and> v = format_counter (sq_padding q) c \<and>
             counter s' = (counter s)(key := c) \<and> reserved s' = reserved s"
proof (cases "resolveScopeKey (sq_scopeKeyTmpl q) (sq_issuer q) (sq_idType q) params now")
  case (Inl e)
  with assms(1) have "res = Inl e" "s' = s" by (simp_all add: render_sequence_def)
  then show ?thesis by simp
next
  case (Inr key)
  obtain r s1 where st: "nxt key (10 ^ sq_padding q - 1) s = (r, s1)" by fastforce
  have "(0::int) < 10 ^ sq_padding q - 1"
    using assms(3) one_less_power[of "10::int" "sq_padding q"] by simp
  with st Inr assms(1,2) next_ok next_err show ?thesis
    by (cases r) (fastforce simp: render_sequence_def same_tables_def)+
qed

lemma render_segment_failed:
  assumes "render_segment env seg params now s = (Inl e, s')" and "uses_stores nxt reserve seg" and "ev_rand env = draw"
  shows "same_tables s s'"
proof (cases seg)
  case (SequenceSegment q)
  with assms render_sequence_effect[of q params now s "Inl e" s'] show ?thesis by simp
next
  case (RandomSegment r)
  with assms show ?thesis
    using reserve_loop_effect[of r _ "rs_maxAttempts r" s "Inl e" s']
    by (auto simp: render_random_def same_tables_def split: sum.splits)
qed (use assms in \<open>auto simp: same_tables_def split: option.splits\<close>)

lemma render_all_failed:
  assumes "render_all env segs params now s = (Inl e, s')" and "validate_all segs params now = None"
    and "\<forall>seg \<in> set segs. uses_stores nxt reserve seg" and "length (filter isStateful segs) \<le> 1"
    and "ev_rand env = draw"
  shows "same_tables s s'"
  using assms(4)
proof (cases rule: one_stateful)
  case 1
  with assms(1,2) show ?thesis by (simp add: render_all_stateless)
next
  case (2 pre seg post)
  with assms(1,2) have "render_segment env seg params now s = (Inl e, s')"
    by (auto simp: render_all_one split: prod.splits sum.splits)
  with 2 assms(3,5) show ?thesis by (auto intro: render_segment_failed)
qed

lemma Generate_failed:
  assumes "Generate env reg issuer idType params s = (Inl e, s')"
    and "NewRegistry env tn cfg opts = Inr reg" and "\<forall>opt \<in> set opts. backed nxt reserve opt" and "ev_rand env = draw"
  shows "same_tables s s'"
proof (cases "map_of (re_formats reg) (issuer, idType)")
  case None
  with assms(1) show ?thesis by (auto simp: Generate_def same_tables_def split: if_splits)
next
  case (Some cp)
  with assms(2,3) have "format_ok nxt reserve cp" by (rule NewRegistry_formats)
  with Some assms(1,4) show ?thesis
    by (auto simp: Generate_def Let_def format_ok_def split: option.splits intro: render_all_failed)
qed

text \<open>A success advances the one table entry the segment's scope names.\<close>

definition later :: "'s \<Rightarrow> 's \<Rightarrow> bool" where
  "later s t \<longleftrightarrow> (\<forall>k. counter s k \<le> counter t k) \<and> reserved s \<subseteq> reserved t"

lemma later_refl [simp]: "later s s"
  by (simp add: later_def)

lemma later_trans: "later s t \<Longrightarrow> later t u \<Longrightarrow> later s u"
  unfolding later_def by (meson order_trans)

lemma same_tables_later: "same_tables s t \<Longrightarrow> later s t"
  by (simp add: same_tables_def later_def)

lemma render_segment_later:
  assumes "render_segment env seg params now s = (r, s')" and "uses_stores nxt reserve seg" and "ev_rand env = draw"
  shows "later s s'"
proof (cases r)
  case (Inl e)
  with assms render_segment_failed same_tables_later show ?thesis by blast
next
  case (Inr v)
  show ?thesis
  proof (cases seg)
    case (SequenceSegment q)
    with assms Inr show ?thesis
      using render_sequence_effect[of q params now s "Inr v" s'] by (auto simp: later_def)
  next
    case (RandomSegment rs)
    with assms Inr show ?thesis
      using reserve_loop_effect[of rs _ "rs_maxAttempts rs" s "Inr v" s']
      by (fastforce simp: render_random_def later_def split: sum.splits)
  qed (use assms in \<open>auto split: option.splits\<close>)
qed

lemma render_all_later:
  "render_all env segs params now s = (r, s') \<Longrightarrow> \<forall>seg \<in> set segs. uses_stores nxt reserve seg \<Longrightarrow> ev_rand env = draw \<Longrightarrow>
   later s s'"
proof (induction segs arbitrary: s r)
  case (Cons seg segs)
  obtain r1 s1 where seg: "render_segment env seg params now s = (r1, s1)" by fastforce
  then have "later s s1" using Cons.prems render_segment_later by auto
  moreover have "s' = s1 \<or> (\<exists>r2. render_all env segs params now s1 = (r2, s'))"
    using Cons.prems(1) seg by (auto split: sum.splits prod.splits)
  ultimately show ?case using Cons.IH Cons.prems later_trans by fastforce
qed simp

lemma Generate_later:
  assumes "Generate env reg issuer idType params s = (r, s')"
    and "NewRegistry env tn cfg opts = Inr reg" and "\<forall>opt \<in> set opts. backed nxt reserve opt" and "ev_rand env = draw"
  shows "later s s'"
proof (cases "map_of (re_formats reg) (issuer, idType)")
  case None
  with assms(1) show ?thesis by (auto simp: Generate_def split: if_splits)
next
  case (Some cp)
  with assms(2,3) have "format_ok nxt reserve cp" by (rule NewRegistry_formats)
  with Some assms(1,4) show ?thesis
    by (auto simp: Generate_def Let_def format_ok_def split: option.splits intro: render_all_later)
qed

end

text \<open>The scope a stateful segment draws from, and when two times are the same for a format: every date
  it prints and every scope it counts in is the same.\<close>

fun scope_of :: "'s segment \<Rightarrow> params \<Rightarrow> civil \<Rightarrow> rferr + string" where
  "scope_of (SequenceSegment q) params now = resolveScopeKey (sq_scopeKeyTmpl q) (sq_issuer q) (sq_idType q) params now"
| "scope_of (RandomSegment r) params now = resolveScopeKey (rs_scopeKeyTmpl r) (rs_issuer r) (rs_idType r) params now"
| "scope_of _ params now = Inr []"

definition same_period :: "'s segment list \<Rightarrow> params \<Rightarrow> civil \<Rightarrow> civil \<Rightarrow> bool" where
  "same_period segs params a b =
     (\<forall>seg \<in> set segs. static_part seg params a = static_part seg params b \<and> scope_of seg params a = scope_of seg params b)"

definition civil_now :: "'s registry \<Rightarrow> 's compiledFormat \<Rightarrow> 's \<Rightarrow> civil" where
  "civil_now reg cp s = civil_of (re_now reg s + cp_location cp (re_now reg s))"

lemma format_counter_inj: "format_counter w m = format_counter w n \<Longrightarrow> m = n"
proof -
  assume eq: "format_counter w m = format_counter w n"
  have dash: "CHR ''-'' \<notin> set (zero_pad v (itoa k))" for v k
    using itoa_digits[of k] digit_char_neq[of _ "CHR ''-''"] by (force simp: zero_pad_def)
  show ?thesis
  proof (cases "m < 0"; cases "n < 0")
    assume "m < 0" "n < 0"
    with eq have "nat (- m) = nat (- n)" by (auto simp: format_counter_def dest: zero_pad_itoa_inj)
    with \<open>m < 0\<close> \<open>n < 0\<close> show ?thesis by simp
  next
    assume "\<not> m < 0" "\<not> n < 0"
    with eq have "nat m = nat n" by (auto simp: format_counter_def dest: zero_pad_itoa_inj)
    with \<open>\<not> m < 0\<close> \<open>\<not> n < 0\<close> show ?thesis by simp
  qed (use eq dash in \<open>auto simp: format_counter_def; metis list.set_intros(1)\<close>)+
qed

context id_stores
begin

lemma render_segment_fresh:
  assumes "render_segment env seg params now1 s = (Inr v1, s1)" and "later s1 t"
    and "render_segment env seg params now2 t = (Inr v2, t1)" and "scope_of seg params now1 = scope_of seg params now2"
    and "isStateful seg" and "uses_stores nxt reserve seg" and "ev_rand env = draw"
  shows "v1 \<noteq> v2"
proof (cases seg)
  case (SequenceSegment q)
  with assms(6) have q: "sq_store q = nxt" "0 < sq_padding q" by simp_all
  obtain k c where 1: "scope_of seg params now1 = Inr k" "v1 = format_counter (sq_padding q) c" "counter s1 k = c"
    using render_sequence_effect[OF _ q, of params now1 s "Inr v1" s1] assms(1) SequenceSegment by auto
  obtain k' c' where 2: "scope_of seg params now2 = Inr k'" "v2 = format_counter (sq_padding q) c'" "c' = counter t k' + 1"
    using render_sequence_effect[OF _ q, of params now2 t "Inr v2" t1] assms(3) SequenceSegment by auto
  have "k = k'" using 1 2 assms(4) by simp
  with 1 2 assms(2) have "c < c'" by (auto simp: later_def)
  with 1 2 show ?thesis using format_counter_inj[of "sq_padding q" c c'] by auto
next
  case (RandomSegment r)
  with assms(6) have r: "rs_store r = reserve" by simp
  obtain k where 1: "scope_of seg params now1 = Inr k" "(k, v1) \<in> reserved s1"
    using reserve_loop_effect[OF _ r, of _ "rs_maxAttempts r" s "Inr v1" s1] assms(1,7) RandomSegment
    by (auto simp: render_random_def split: sum.splits)
  obtain k' where 2: "scope_of seg params now2 = Inr k'" "(k', v2) \<notin> reserved t"
    using reserve_loop_effect[OF _ r, of _ "rs_maxAttempts r" t "Inr v2" t1] assms(3,7) RandomSegment
    by (auto simp: render_random_def split: sum.splits)
  from 1 2 assms(2,4) show ?thesis by (auto simp: later_def)
qed (use assms(5) in auto)

lemma Generate_fresh:
  assumes "NewRegistry env tn cfg opts = Inr reg" and "\<forall>opt \<in> set opts. backed nxt reserve opt" and "ev_rand env = draw"
    and "map_of (re_formats reg) (issuer, idType) = Some cp" and "\<exists>seg \<in> set (cp_segments cp). isStateful seg"
    and "Generate env reg issuer idType params s = (Inr id1, s1)" and "later s1 t"
    and "Generate env reg issuer idType params t = (Inr id2, t1)"
    and "same_period (cp_segments cp) params (civil_now reg cp s) (civil_now reg cp t)"
  shows "id1 \<noteq> id2"
proof -
  have ok: "format_ok nxt reserve cp" using assms(1,2,4) by (rule NewRegistry_formats)
  then obtain pre seg post where segs: "cp_segments cp = pre @ seg # post" "isStateful seg"
    "filter isStateful pre = []" "filter isStateful post = []"
    using one_stateful[of "cp_segments cp" thesis] assms(5) by (auto simp: format_ok_def filter_empty_conv)
  note one = render_all_one[OF _ segs(3,4)]
  obtain v1 where v1: "render_segment env seg params (civil_now reg cp s) s = (Inr v1, s1)"
    "id1 = concat (map (\<lambda>x. static_part x params (civil_now reg cp s)) pre) @ v1 @
           concat (map (\<lambda>x. static_part x params (civil_now reg cp s)) post)"
    using assms(4,6) segs(1)
    by (auto simp: Generate_def Let_def civil_now_def[symmetric] one split: option.splits prod.splits sum.splits)
  obtain v2 where v2: "render_segment env seg params (civil_now reg cp t) t = (Inr v2, t1)"
    "id2 = concat (map (\<lambda>x. static_part x params (civil_now reg cp t)) pre) @ v2 @
           concat (map (\<lambda>x. static_part x params (civil_now reg cp t)) post)"
    using assms(4,8) segs(1)
    by (auto simp: Generate_def Let_def civil_now_def[symmetric] one split: option.splits prod.splits sum.splits)
  have same: "map (\<lambda>x. static_part x params (civil_now reg cp s)) xs = map (\<lambda>x. static_part x params (civil_now reg cp t)) xs"
    if "set xs \<subseteq> set (cp_segments cp)" for xs
    using assms(9) that by (auto simp: same_period_def)
  have "v1 \<noteq> v2"
    using render_segment_fresh[OF v1(1) assms(7) v2(1)] assms(3,9) segs(1,2) ok by (auto simp: same_period_def format_ok_def)
  moreover have "id1 = concat (map (\<lambda>x. static_part x params (civil_now reg cp t)) pre) @ v1 @
                 concat (map (\<lambda>x. static_part x params (civil_now reg cp t)) post)"
  proof -
    have "set pre \<subseteq> set (cp_segments cp)" "set post \<subseteq> set (cp_segments cp)" using segs(1) by auto
    then show ?thesis unfolding v1(2) by (simp only: same)
  qed
  ultimately show ?thesis using v2(2) by simp
qed

end

section \<open>Properties\<close>


text \<open>The life of the tables: calls of any registry over these stores, and time passing.\<close>

inductive host_steps :: "string \<Rightarrow> host \<Rightarrow> host \<Rightarrow> bool" for pkg where
  start: "host_steps pkg h h"
| call: "host_steps pkg h h1 \<Longrightarrow> NewRegistry env tn cfg opts = Inr reg \<Longrightarrow>
    \<forall>opt \<in> set opts. backed (sql_Next pkg) (sql_Reserve pkg) opt \<Longrightarrow> ev_rand env = rand_Int \<Longrightarrow>
    Generate env reg issuer idType params h1 = (r, h2) \<Longrightarrow> host_steps pkg h h2"
| elapse: "host_steps pkg h h1 \<Longrightarrow> ho_counters h2 = ho_counters h1 \<Longrightarrow> ho_values h2 = ho_values h1 \<Longrightarrow>
    host_steps pkg h h2"

lemma host_steps_later: "host_steps pkg h h' \<Longrightarrow> id_stores.later host_counter host_reserved h h'"
proof (induction rule: host_steps.induct)
  case (call h h1 env tn cfg opts reg issuer idType params r h2)
  with sql.Generate_later sql.later_trans show ?case by blast
next
  case (elapse h h1 h2)
  then have "host_counter h2 = host_counter h1" "host_reserved h2 = host_reserved h1"
    by (auto simp: host_counter_def host_reserved_def fun_eq_iff)
  with elapse.IH show ?case by (simp add: sql.later_def)
qed simp

text \<open>C14. An ID is issued once: two successful calls for the same issuer, ID type and parameters, in the same
  period of the format (it prints the same dates and counts in the same scope), give different
  IDs, whatever calls of whatever registries happen on the stores in between.\<close>

theorem generated_ids_unique:
  assumes "NewRegistry env tn cfg opts = Inr reg"
    and "\<forall>opt \<in> set opts. backed (sql_Next pkg) (sql_Reserve pkg) opt" and "ev_rand env = rand_Int"
    and "map_of (re_formats reg) (issuer, idType) = Some cp" and "\<exists>seg \<in> set (cp_segments cp). isStateful seg"
    and "Generate env reg issuer idType params h = (Inr id1, h1)" and "host_steps pkg h1 k"
    and "Generate env reg issuer idType params k = (Inr id2, k1)"
    and "same_period (cp_segments cp) params (civil_now reg cp h) (civil_now reg cp k)"
  shows "id1 \<noteq> id2"
  using sql.Generate_fresh[OF assms(1-6) host_steps_later[OF assms(7)] assms(8,9)] .

text \<open>A counter keeps its width: a sequence segment with padding \<open>p\<close> (between 1 and 18) renders its counter
  as exactly \<open>p\<close> digits, the counter just stored, which is between 1 and \<open>10^p - 1\<close>; and a scope whose
  counter has reached that maximum is refused, unchanged, with \<open>ErrCounterOverflow\<close>.\<close>

theorem sequence_fixed_width:
  assumes "newSequenceSegment cfg issuer idType (Some (sql_Next pkg)) = Inr (SequenceSegment q)"
    and "resolveScopeKey (sq_scopeKeyTmpl q) issuer idType params now = Inr key"
    and "0 \<le> host_counter h key"
  shows "1 \<le> sq_padding q \<and> sq_padding q \<le> 18 \<and>
         (\<forall>part h'. render_sequence q params now h = (Inr part, h') \<longrightarrow>
            length part = sq_padding q \<and> int (decimal_value part) = host_counter h' key \<and>
            1 \<le> host_counter h' key \<and> host_counter h' key \<le> 10 ^ sq_padding q - 1) \<and>
         (host_counter h key = 10 ^ sq_padding q - 1 \<and> ho_faults h = [] \<longrightarrow>
            render_sequence q params now h = (Inl (ErrCounterOverflow key (10 ^ sq_padding q - 1)), h))"
proof -
  have q: "sq_store q = sql_Next pkg" "0 < sq_padding q" "sq_padding q \<le> 18" "sq_issuer q = issuer" "sq_idType q = idType"
    using assms(1) by (auto simp: newSequenceSegment_def split: option.splits if_splits)
  have "length part = sq_padding q \<and> int (decimal_value part) = host_counter h' key \<and>
        1 \<le> host_counter h' key \<and> host_counter h' key \<le> 10 ^ sq_padding q - 1"
    if r: "render_sequence q params now h = (Inr part, h')" for part h'
  proof -
    obtain c where c: "c = host_counter h key + 1" "c \<le> 10 ^ sq_padding q - 1" "part = format_counter (sq_padding q) c"
      "host_counter h' key = c"
      using sql.render_sequence_effect[OF r q(1,2)] assms(2) q(4,5) by auto
    then have part: "part = zero_pad (sq_padding q) (itoa (nat c))" and "nat c < 10 ^ sq_padding q"
      using assms(3) by (auto simp: format_counter_def nat_less_iff)
    then show ?thesis
      using c assms(3) q(2) by (simp add: length_zero_pad_itoa decimal_value_zero_pad)
  qed
  moreover have "render_sequence q params now h = (Inl (ErrCounterOverflow key (10 ^ sq_padding q - 1)), h)"
    if full: "host_counter h key = 10 ^ sq_padding q - 1" "ho_faults h = []"
  proof -
    have "ho_counters h key = Some (10 ^ sq_padding q - 1)"
      using full(1) one_less_power[of "10::int" "sq_padding q"] q(2) by (cases "ho_counters h key") (auto simp: host_counter_def)
    with full(2) q assms(2) show ?thesis
      by (simp add: render_sequence_def sql_Next_def statement_def upsert_counter_def)
  qed
  ultimately show ?thesis using q by auto
qed

section \<open>Scope key templates\<close>

datatype tmpl_token = Text string | Hole string

fun print_token :: "tmpl_token \<Rightarrow> string" where
  "print_token (Text s) = s"
| "print_token (Hole n) = ''{'' @ n @ ''}''"

fun token_ok :: "tmpl_token \<Rightarrow> bool" where
  "token_ok (Text s) = (CHR ''{'' \<notin> set s \<and> CHR ''}'' \<notin> set s)"
| "token_ok (Hole n) = (n \<noteq> [] \<and> CHR ''{'' \<notin> set n \<and> CHR ''}'' \<notin> set n)"

definition brace_free :: "string \<Rightarrow> bool" where
  "brace_free s = (CHR ''{'' \<notin> set s \<and> CHR ''}'' \<notin> set s)"

text \<open>What the placeholders stand for, reserved names first.\<close>

definition bindings :: "string \<Rightarrow> string \<Rightarrow> params \<Rightarrow> civil \<Rightarrow> params" where
  "bindings issuer idType params now =
     [(''issuer'', issuer), (''idType'', idType), (''yyyy'', render_date [IntPart FYear 4] now),
      (''yyyyMM'', render_date [IntPart FYear 4, IntPart FMonth 2] now),
      (''yyyyMMdd'', render_date [IntPart FYear 4, IntPart FMonth 2, IntPart FDay 2] now)] @ params"

fun token_value :: "params \<Rightarrow> tmpl_token \<Rightarrow> string" where
  "token_value bs (Text s) = s"
| "token_value bs (Hole n) = (case map_of bs n of Some v \<Rightarrow> v | None \<Rightarrow> ''{'' @ n @ ''}'')"

definition wrap :: "params \<Rightarrow> (string \<times> string) list" where
  "wrap bs = map (\<lambda>(k, v). (''{'' @ k @ ''}'', v)) bs"

lemma replacements_wrap: "replacements issuer idType params now = wrap (bindings issuer idType params now)"
  by (simp add: replacements_def bindings_def dateScopeTokens_def wrap_def)

lemma prefix_hole:
  "CHR ''}'' \<notin> set k \<Longrightarrow> CHR ''}'' \<notin> set n \<Longrightarrow>
   has_prefix (CHR ''{'' # n @ CHR ''}'' # rest) (''{'' @ k @ ''}'') \<longleftrightarrow> k = n"
proof (induction k arbitrary: n)
  case Nil
  then show ?case by (cases n) (auto simp: has_prefix_def)
next
  case (Cons c k)
  then show ?case by (cases n) (auto simp: has_prefix_def)
qed

lemma find_hole:
  "\<forall>(k, v) \<in> set bs. CHR ''}'' \<notin> set k \<Longrightarrow> CHR ''}'' \<notin> set n \<Longrightarrow>
   find (\<lambda>(old, _). has_prefix (CHR ''{'' # n @ CHR ''}'' # rest) old) (wrap bs) =
   map_option (\<lambda>v. (''{'' @ n @ ''}'', v)) (map_of bs n)"
  by (induction bs) (auto simp: prefix_hole[simplified] wrap_def)

lemma replace_text: "CHR ''{'' \<notin> set s \<Longrightarrow> replace_all (wrap bs) (s @ rest) = s @ replace_all (wrap bs) rest"
proof (induction s)
  case (Cons c s)
  then have "find (\<lambda>(old, _). has_prefix (c # s @ rest) old) (wrap bs) = None"
    by (auto simp: find_None_iff has_prefix_def wrap_def)
  with Cons show ?case by simp
qed simp

lemma replace_tokens:
  assumes "\<forall>(k, v) \<in> set bs. CHR ''}'' \<notin> set k" and "\<forall>t \<in> set toks. token_ok t"
  shows "replace_all (wrap bs) (concat (map print_token toks)) = concat (map (token_value bs) toks)"
  using assms(2)
proof (induction toks)
  case (Cons t toks)
  show ?case
  proof (cases t)
    case (Text s)
    with Cons show ?thesis by (simp add: replace_text)
  next
    case (Hole n)
    have "replace_all (wrap bs) (''{'' @ n @ ''}'' @ rest) =
          (case map_of bs n of Some v \<Rightarrow> v | None \<Rightarrow> ''{'' @ n @ ''}'') @ replace_all (wrap bs) rest" for rest
      using find_hole[OF assms(1), of n rest] replace_text[of "n @ ''}''" bs rest] Cons.prems Hole
      by (cases "map_of bs n") auto
    with Cons Hole show ?thesis by simp
  qed
qed simp

lemma index_byte_append: "c \<notin> set s \<Longrightarrow> index_byte (s @ c # t) c = Some (length s)"
  by (induction s) auto

lemma index_byte_None: "index_byte s c = None \<longleftrightarrow> c \<notin> set s"
  by (induction s) auto

lemma render_int_brace_free: "brace_free (render_part (IntPart f w) now)"
proof -
  have "brace_free (itoa n)" for n
    using itoa_digits[of n] digit_char_neq[of _ "CHR ''{''"] digit_char_neq[of _ "CHR ''}''"]
    by (fastforce simp: brace_free_def)
  then show ?thesis by (simp add: brace_free_def intPart_def zero_pad_def Let_def)
qed

text \<open>A scope key is its template filled in: with texts, names and values free of braces, each
  placeholder is replaced by its value, reserved names (\<open>issuer\<close>, \<open>idType\<close>, the dates) before parameters of
  the same name, and a template with an unbound placeholder is refused with \<open>ErrInvalidParam\<close>.\<close>

theorem scope_key_template:
  assumes "\<forall>t \<in> set toks. token_ok t" and "brace_free issuer" and "brace_free idType"
    and "\<forall>(k, v) \<in> set params. brace_free k \<and> brace_free v"
  shows "if \<forall>n. Hole n \<in> set toks \<longrightarrow> map_of (bindings issuer idType params now) n \<noteq> None
         then resolveScopeKey (concat (map print_token toks)) issuer idType params now =
                Inr (concat (map (token_value (bindings issuer idType params now)) toks))
         else \<exists>args. resolveScopeKey (concat (map print_token toks)) issuer idType params now =
                Inl (ErrInvalidParam ''unresolved placeholder'' args)"
proof -
  let ?bs = "bindings issuer idType params now"
  have "brace_free (render_date (map (\<lambda>(f, w). IntPart f w) fws) now)" for fws
    using render_int_brace_free by (induction fws) (auto simp: render_date_def brace_free_def)
  from this[of "[(FYear, 4)]"] this[of "[(FYear, 4), (FMonth, 2)]"] this[of "[(FYear, 4), (FMonth, 2), (FDay, 2)]"]
  have bs: "\<forall>(k, v) \<in> set ?bs. brace_free k \<and> brace_free v"
    using assms(2-4) by (auto simp: bindings_def brace_free_def)
  then have key: "replace_all (replacements issuer idType params now) (concat (map print_token toks)) =
      concat (map (token_value ?bs) toks)"
    using replace_tokens[of ?bs toks] assms(1) by (auto simp: replacements_wrap brace_free_def)
  have bound: "brace_free (token_value ?bs t)" if "t \<in> set toks" "\<forall>n. t = Hole n \<longrightarrow> map_of ?bs n \<noteq> None" for t
    using that assms(1) bs by - (cases t; fastforce simp: brace_free_def dest: map_of_SomeD)
  show ?thesis
  proof (cases "\<forall>n. Hole n \<in> set toks \<longrightarrow> map_of ?bs n \<noteq> None")
    case True
    then have "brace_free (concat (map (token_value ?bs) toks))"
      using bound by (fastforce simp: brace_free_def)
    then have "index_byte (concat (map (token_value ?bs) toks)) (CHR ''{'') = None"
      unfolding index_byte_None by (simp add: brace_free_def)
    with True key show ?thesis by (simp add: resolveScopeKey_def)
  next
    case False
    let ?unbound = "\<lambda>t. \<exists>n. t = Hole n \<and> map_of ?bs n = None"
    from False have "\<exists>t \<in> set toks. ?unbound t" by auto
    then obtain pre n post where toks: "toks = pre @ Hole n # post" "map_of ?bs n = None" "\<forall>t \<in> set pre. \<not> ?unbound t"
      using split_list_first_prop[of toks ?unbound] by blast
    let ?pre = "concat (map (token_value ?bs) pre)" and ?post = "concat (map (token_value ?bs) post)"
    have "brace_free ?pre" using toks bound by (fastforce simp: brace_free_def)
    moreover have "concat (map (token_value ?bs) toks) = ?pre @ CHR ''{'' # (n @ CHR ''}'' # ?post)" using toks by simp
    moreover have "index_byte (CHR ''{'' # n @ CHR ''}'' # ?post) (CHR ''}'') = Some (Suc (length n))" "n \<noteq> []"
      using assms(1) toks(1) index_byte_append[of "CHR ''}''" "CHR ''{'' # n" ?post] by auto
    ultimately have "\<exists>args. resolveScopeKey (concat (map print_token toks)) issuer idType params now =
        Inl (ErrInvalidParam ''unresolved placeholder'' args)"
      using key by (simp add: resolveScopeKey_def brace_free_def index_byte_append Let_def)
    with False show ?thesis by (simp only: if_False)
  qed
qed

text \<open>The check looks at the first brace only: an empty pair of braces in front hides an unresolved
  placeholder.\<close>

lemma empty_braces_hide_placeholder:
  "resolveScopeKey ''{}{office}'' issuer idType [] now = Inr ''{}{office}''"
  by (simp add: resolveScopeKey_def replacements_def dateScopeTokens_def has_prefix_def)

section \<open>Errors\<close>

lemma validate_segment_invalid:
  "validate_segment seg params now = Some e \<Longrightarrow> \<exists>m args. e = ErrInvalidParam m args"
  by (cases seg)
    (auto simp: validate_list_def validate_param_def validate_scope_def resolveScopeKey_def Let_def
      split: option.splits if_splits sum.splits)

lemma validate_all_invalid: "validate_all segs params now = Some e \<Longrightarrow> \<exists>m args. e = ErrInvalidParam m args"
  by (induction segs params now rule: validate_all.induct)
    (auto dest: validate_segment_invalid split: option.splits)

fun is_invalid_param :: "rferr \<Rightarrow> bool" where
  "is_invalid_param (ErrInvalidParam m args) = True"
| "is_invalid_param _ = False"

lemma sql_errors:
  "sql_Next pkg k m h = (Inl e, h') \<Longrightarrow> \<not> is_invalid_param e"
  "sql_Reserve pkg k v h = (Some e, h') \<Longrightarrow> \<not> is_invalid_param e"
  by (auto simp: sql_Next_def sql_Reserve_def split: prod.splits sum.splits option.splits if_splits)

lemma reserve_loop_error:
  "reserve_loop draw r key n h = (Inl e, h') \<Longrightarrow> rs_store r = sql_Reserve pkg \<Longrightarrow> \<not> is_invalid_param e"
  by (induction n arbitrary: h) (auto dest: sql_errors(2) split: prod.splits sum.splits option.splits if_splits)

lemma render_segment_error:
  assumes "render_segment env seg params now h = (Inl e, h')" and "validate_segment seg params now = None"
    and "uses_stores (sql_Next pkg) (sql_Reserve pkg) seg"
  shows "\<not> is_invalid_param e"
proof (cases seg)
  case (SequenceSegment q)
  with assms show ?thesis
    by (auto simp: render_sequence_def validate_scope_def Let_def dest: sql_errors(1) split: sum.splits prod.splits)
next
  case (RandomSegment r)
  with assms show ?thesis
    by (auto simp: render_random_def validate_scope_def dest: reserve_loop_error split: sum.splits)
qed (use assms in \<open>auto split: option.splits\<close>)

lemma render_all_error:
  "render_all env segs params now h = (Inl e, h') \<Longrightarrow> validate_all segs params now = None \<Longrightarrow>
   \<forall>seg \<in> set segs. uses_stores (sql_Next pkg) (sql_Reserve pkg) seg \<Longrightarrow> \<not> is_invalid_param e"
  by (induction segs arbitrary: h) (auto dest: render_segment_error split: prod.splits sum.splits option.splits)

text \<open>The errors of \<open>Generate\<close> say what is wrong: an unknown issuer and an unknown ID type of a known issuer
  are told apart, \<open>ErrInvalidParam\<close> is returned exactly when a segment of the format turns the
  parameters down, and none of the three has touched the stores.\<close>

theorem generate_errors:
  assumes "NewRegistry env tn cfg opts = Inr reg"
    and "\<forall>opt \<in> set opts. backed (sql_Next pkg) (sql_Reserve pkg) opt"
    and "Generate env reg issuer idType params h = (Inl e, h')"
  shows "case map_of (re_formats reg) (issuer, idType) of
           None \<Rightarrow> h' = h \<and> e = (if \<exists>t cp. ((issuer, t), cp) \<in> set (re_formats reg)
                                then ErrUnknownIDType issuer idType else ErrUnknownIssuer issuer)
         | Some cp \<Rightarrow>
             (is_invalid_param e \<longleftrightarrow>
                (\<exists>seg \<in> set (cp_segments cp). validate_segment seg params (civil_now reg cp h) \<noteq> None)) \<and>
             (is_invalid_param e \<longrightarrow> h' = h)"
proof (cases "map_of (re_formats reg) (issuer, idType)")
  case None
  with assms(3) show ?thesis
    by (auto simp: Generate_def list_ex_iff split: if_splits prod.splits)
next
  case (Some cp)
  with assms(1,2) have ok: "format_ok (sql_Next pkg) (sql_Reserve pkg) cp" by (rule NewRegistry_formats)
  show ?thesis
  proof (cases "validate_all (cp_segments cp) params (civil_now reg cp h)")
    case None
    with Some assms(3) have "render_all env (cp_segments cp) params (civil_now reg cp h) h = (Inl e, h')"
      by (simp add: Generate_def Let_def civil_now_def)
    with None ok have "\<not> is_invalid_param e" using render_all_error[of env "cp_segments cp"] by (auto simp: format_ok_def)
    with Some None show ?thesis by (simp add: validate_all_iff)
  next
    case (Some err)
    with \<open>map_of (re_formats reg) (issuer, idType) = Some cp\<close> assms(3) have "e = err" "h' = h"
      by (simp_all add: Generate_def Let_def civil_now_def)
    moreover have "is_invalid_param err" using validate_all_invalid[OF Some] by auto
    moreover have "\<exists>seg \<in> set (cp_segments cp). validate_segment seg params (civil_now reg cp h) \<noteq> None"
      using Some validate_all_iff[of "cp_segments cp" params "civil_now reg cp h"] by auto
    ultimately show ?thesis using \<open>map_of (re_formats reg) (issuer, idType) = Some cp\<close> by simp
  qed
qed

section \<open>Table names\<close>

lemma store_config_ok:
  "sf_err (store_config table names) = None \<Longrightarrow> sqlident_Validate table = None \<Longrightarrow>
   sqlident_Validate (sf_tableName (store_config table names)) = None"
proof (induction names rule: rev_induct)
  case (snoc n names)
  then show ?case by (auto simp: store_config_def WithTableName_def split: if_splits option.splits)
qed (simp add: store_config_def)

text \<open>No SQL injection through a table name: the statement a PostgreSQL or SQLite sequence store is built with
  is the fixed text around one name made of letters, digits and underscores, whatever names the
  options carry.\<close>

theorem table_name_safe:
  "(\<forall>opts query. postgres_NewSequence opts = Inr query \<longrightarrow>
      (\<exists>t. query = postgres_sequence_query t \<and> t \<noteq> [] \<and> list_all ident_char t \<and> \<not> is_digit (hd t))) \<and>
   (\<forall>opts query. sqlite_NewSequence opts = Inr query \<longrightarrow>
      (\<exists>t. query = sqlite_sequence_query t \<and> t \<noteq> [] \<and> list_all ident_char t \<and> \<not> is_digit (hd t)))"
proof -
  have "sqlident_Validate DefaultSequenceTableName = None" by code_simp
  then have "sf_err (store_config DefaultSequenceTableName opts) = None \<Longrightarrow>
      sqlident_Validate (sf_tableName (store_config DefaultSequenceTableName opts)) = None" for opts
    by (rule store_config_ok[rotated])
  moreover have "sqlident_Validate t = None \<Longrightarrow> t \<noteq> [] \<and> list_all ident_char t \<and> \<not> is_digit (hd t)" for t
    by (auto simp: sqlident_Validate_def split: list.splits if_splits)
  ultimately show ?thesis
    by (auto simp: postgres_NewSequence_def sqlite_NewSequence_def Let_def split: option.splits)
qed

end
