(* ===== verification/Refid_Samples.thy ===== *)
theory Refid_Samples
  imports Refid_Props
begin

text \<open>
  A small registry over the PostgreSQL stores, and the witnesses of the properties of \<open>Refid_Date\<close> and
  \<open>Refid_Props\<close>.
\<close>

theorem date_format_round_trip_witness:
  "compileDateFormat ''yyyy-MM'' = Inr [IntPart FYear 4, LiteralPart ''-'', IntPart FMonth 2] \<and>
   canonical [IntPart FYear 4, LiteralPart ''-'', IntPart FMonth 2] \<and>
   compileDateFormat (print_date [IntPart FYear 4, LiteralPart ''-'', IntPart FMonth 2]) =
     Inr [IntPart FYear 4, LiteralPart ''-'', IntPart FMonth 2]"
proof -
  have c: "compileDateFormat ''yyyy-MM'' = Inr [IntPart FYear 4, LiteralPart ''-'', IntPart FMonth 2]" by code_simp
  with date_format_round_trip show ?thesis by blast
qed

section \<open>A registry\<close>

definition pg :: string where "pg = ''refid/store/postgres''"

definition refid_sample_env :: "host refid_env" where
  "refid_sample_env = \<lparr>ev_regexp = (\<lambda>_. Inr (\<lambda>_. True)), ev_zone = (\<lambda>_. Inr (\<lambda>_. 0)), ev_rand = rand_Int\<rparr>"

definition blank :: SegmentConfig where
  "blank = \<lparr>sc_Type = [], sc_Value = [], sc_List = [], sc_Param = [], sc_Pattern = [], sc_Format = [],
     sc_Sequence = None, sc_Random = None\<rparr>"

definition seq_cfg :: SegmentConfig where
  "seq_cfg = blank\<lparr>sc_Type := ''sequence'', sc_Sequence := Some \<lparr>qc_ScopeKey = ''{issuer}'', qc_Padding = 2\<rparr>\<rparr>"

definition refid_sample_cfg :: Config where
  "refid_sample_cfg =
     \<lparr>cf_Issuers = [\<lparr>ic_Issuer = ''RTA'', ic_Formats =
        [\<lparr>fc_IDType = ''app'', fc_Timezone = [],
          fc_Segments = [blank\<lparr>sc_Type := ''literal'', sc_Value := ''A-''\<rparr>, seq_cfg]\<rparr>]\<rparr>],
      cf_Lists = []\<rparr>"

definition refid_sample_opts :: "host RegistryOption list" where
  "refid_sample_opts = [WithSequenceStore (Some (sql_Next pg))]"

definition seq_segment :: "host sequenceSegment" where
  "seq_segment = \<lparr>sq_issuer = ''RTA'', sq_idType = ''app'', sq_scopeKeyTmpl = ''{issuer}'', sq_padding = 2,
     sq_store = sql_Next pg\<rparr>"

definition sample_format :: "host compiledFormat" where
  "sample_format = \<lparr>cp_segments = [LiteralSegment ''A-'', SequenceSegment seq_segment], cp_location = (\<lambda>_. 0)\<rparr>"

definition sample_registry :: "host registry" where
  "sample_registry = \<lparr>re_formats = [((''RTA'', ''app''), sample_format)], re_now = ho_now\<rparr>"

lemma seq_cfg_compiles: "newSequenceSegment seq_cfg ''RTA'' ''app'' (Some (sql_Next pg)) = Inr (SequenceSegment seq_segment)"
  by (simp add: newSequenceSegment_def seq_cfg_def blank_def seq_segment_def)

lemma sample_compiles: "NewRegistry refid_sample_env ho_now refid_sample_cfg refid_sample_opts = Inr sample_registry"
  using seq_cfg_compiles
  by (simp add: NewRegistry_def refid_sample_cfg_def refid_sample_opts_def compileFormat_def compileSegment_def
      newLiteralSegment_def blank_def seq_cfg_def resolveTimezone_def formatUsesDate_def scopeKeyUsesDate_def
      dateScopeTokens_def has_prefix_def sample_registry_def sample_format_def)

lemma sample_backed: "\<forall>opt \<in> set refid_sample_opts. backed (sql_Next pg) (sql_Reserve pg) opt"
  by (simp add: refid_sample_opts_def)

lemma sample_rand: "ev_rand refid_sample_env = rand_Int"
  by (simp add: refid_sample_env_def)

definition counted :: "int \<Rightarrow> host" where
  "counted n = \<lparr>ho_counters = [''RTA'' \<mapsto> n], ho_values = [], ho_faults = [], ho_draws = [], ho_now = 0\<rparr>"

lemma sample_key: "resolveScopeKey ''{issuer}'' ''RTA'' ''app'' [] now = Inr ''RTA''"
  by (simp add: resolveScopeKey_def replacements_def has_prefix_def)

lemma sample_render:
  "render_sequence seq_segment [] now (counted n) =
     (if n < 99 then (Inr (format_counter 2 (n + 1)), counted (n + 1))
      else (Inl (ErrCounterOverflow ''RTA'' 99), counted n))"
  by (simp add: render_sequence_def seq_segment_def sample_key sql_Next_def statement_def upsert_counter_def counted_def)

lemma sample_generate:
  "Generate refid_sample_env sample_registry ''RTA'' ''app'' [] (counted n) =
     (if n < 99 then (Inr (''A-'' @ format_counter 2 (n + 1)), counted (n + 1))
      else (Inl (ErrCounterOverflow ''RTA'' 99), counted n))"
  using sample_render[of _ n]
  by (simp add: Generate_def sample_registry_def sample_format_def validate_scope_def)
    (simp add: seq_segment_def sample_key)

section \<open>Witnesses\<close>

text \<open>The database is down for the coming statement.\<close>

definition broken :: host where
  "broken = (counted 7)\<lparr>ho_faults := [Some ''down'']\<rparr>"


theorem generated_ids_unique_witness:
  "Generate refid_sample_env sample_registry ''RTA'' ''app'' [] (counted 7) = (Inr (''A-'' @ format_counter 2 8), counted 8) \<and>
   Generate refid_sample_env sample_registry ''RTA'' ''app'' [] (counted 8) = (Inr (''A-'' @ format_counter 2 9), counted 9) \<and>
   ''A-'' @ format_counter 2 8 \<noteq> ''A-'' @ format_counter 2 9"
proof -
  have fmt: "map_of (re_formats sample_registry) (''RTA'', ''app'') = Some sample_format"
    by (simp add: sample_registry_def)
  have st: "\<exists>seg \<in> set (cp_segments sample_format). isStateful seg"
    by (simp add: sample_format_def)
  have g: "Generate refid_sample_env sample_registry ''RTA'' ''app'' [] (counted 7) = (Inr (''A-'' @ format_counter 2 8), counted 8)"
    "Generate refid_sample_env sample_registry ''RTA'' ''app'' [] (counted 8) = (Inr (''A-'' @ format_counter 2 9), counted 9)"
    by (simp_all add: sample_generate)
  have now: "civil_now sample_registry sample_format (counted 7) = civil_now sample_registry sample_format (counted 8)"
    by (simp add: civil_now_def sample_registry_def sample_format_def counted_def)
  then have "same_period (cp_segments sample_format) [] (civil_now sample_registry sample_format (counted 7))
      (civil_now sample_registry sample_format (counted 8))"
    by (simp add: same_period_def)
  from generated_ids_unique[OF sample_compiles sample_backed sample_rand fmt st g(1) host_steps.start g(2) this] g
  show ?thesis by blast
qed

theorem sequence_fixed_width_witness:
  "length (format_counter 2 8) = 2 \<and> int (decimal_value (format_counter 2 8)) = host_counter (counted 8) ''RTA'' \<and>
   render_sequence seq_segment [] (civil_of 0) (counted 99) = (Inl (ErrCounterOverflow ''RTA'' 99), counted 99)"
proof -
  have key: "resolveScopeKey (sq_scopeKeyTmpl seq_segment) ''RTA'' ''app'' [] (civil_of 0) = Inr ''RTA''"
    using sample_key by (simp add: seq_segment_def)
  have "sq_padding seq_segment = 2" by (simp add: seq_segment_def)
  moreover have "host_counter (counted n) ''RTA'' = n" for n by (simp add: host_counter_def counted_def)
  moreover have "ho_faults (counted n) = []" for n by (simp add: counted_def)
  ultimately show ?thesis
    using sequence_fixed_width[OF seq_cfg_compiles key, of "counted 7"] sequence_fixed_width[OF seq_cfg_compiles key, of "counted 99"]
    by (simp add: sample_render)
qed

theorem scope_key_template_witness:
  "resolveScopeKey ''{issuer}:{office}'' ''RTA'' ''app'' [(''office'', ''COL'')] (civil_of 0) = Inr ''RTA:COL'' \<and>
   (\<exists>args. resolveScopeKey ''{issuer}:{office}'' ''RTA'' ''app'' [] (civil_of 0) =
      Inl (ErrInvalidParam ''unresolved placeholder'' args))"
proof -
  let ?toks = "[Hole ''issuer'', Text '':'', Hole ''office'']"
  have t: "\<forall>t \<in> set ?toks. token_ok t" by simp
  have b: "brace_free ''RTA''" "brace_free ''app''" by (simp_all add: brace_free_def)
  have "\<not> (\<forall>n. Hole n \<in> set ?toks \<longrightarrow> map_of (bindings ''RTA'' ''app'' [] (civil_of 0)) n \<noteq> None)"
    by (auto simp: bindings_def intro!: exI[of _ "''office''"])
  moreover have "\<forall>n. Hole n \<in> set ?toks \<longrightarrow> map_of (bindings ''RTA'' ''app'' [(''office'', ''COL'')] (civil_of 0)) n \<noteq> None"
    by (simp add: bindings_def)
  moreover have "\<forall>(k, v) \<in> set [(''office'', ''COL'')]. brace_free k \<and> brace_free v" by (simp add: brace_free_def)
  ultimately show ?thesis
    using scope_key_template[OF t b, of "[]" "civil_of 0"] scope_key_template[OF t b, of "[(''office'', ''COL'')]" "civil_of 0"]
    by (simp add: bindings_def)
qed

theorem generate_errors_witness:
  "Generate refid_sample_env sample_registry ''RTA'' ''permit'' [] (counted 7) = (Inl (ErrUnknownIDType ''RTA'' ''permit''), counted 7) \<and>
   (\<exists>t cp. ((''RTA'', t), cp) \<in> set (re_formats sample_registry))"
proof -
  have "Generate refid_sample_env sample_registry ''RTA'' ''permit'' [] (counted 7) = (Inl (ErrUnknownIDType ''RTA'' ''permit''), counted 7)"
    by (simp add: Generate_def sample_registry_def)
  moreover from generate_errors[OF sample_compiles sample_backed this]
  have "\<exists>t cp. ((''RTA'', t), cp) \<in> set (re_formats sample_registry)"
    by (simp add: sample_registry_def split: if_splits)
  ultimately show ?thesis by blast
qed

theorem table_name_safe_witness:
  "postgres_NewSequence [''ids''] = Inr (postgres_sequence_query ''ids'') \<and>
   (\<exists>t. postgres_sequence_query ''ids'' = postgres_sequence_query t \<and> t \<noteq> [] \<and> list_all ident_char t \<and> \<not> is_digit (hd t))"
proof -
  have "postgres_NewSequence [''ids''] = Inr (postgres_sequence_query ''ids'')" by code_simp
  with table_name_safe show ?thesis by blast
qed

end
