(* ===== verification/Task_Store.thy ===== *)
theory Task_Store
  imports Json_Value
begin

text \<open>
  The task table of package \<open>taskflow\<close>: \<open>store/db.go\<close> (records, filters, states) and its GORM
  implementation \<open>store/gorm\<close> (\<open>model.go\<close>, \<open>store.go\<close>). Every write of a step is one guarded UPDATE that
  reports how many rows it changed. A statement may fail, and then changes nothing; this also stands
  for data that cannot be encoded. Creation and update times are not modelled.
\<close>

section \<open>Records\<close>

record TaskRecord =
  tk_TaskID :: string
  tk_TaskType :: string
  tk_State :: string
  tk_TaskTemplateID :: string
  tk_ParentWorkflowID :: string
  tk_ParentStepID :: string
  tk_CaseID :: string
  tk_ReadRoles :: "string list"
  tk_ManifestVersion :: int
  tk_TaskWorkflowID :: string
  tk_ActiveTaskTemplateID :: string
  tk_ActiveStepID :: string
  tk_Seq :: int
  tk_Data :: "vars option"
  tk_ClaimedBy :: string
  tk_ClaimedAt :: "int option"

definition StateStartingStep :: string where "StateStartingStep = ''STARTING_STEP''"
definition StateCompleted :: string where "StateCompleted = ''COMPLETED''"
definition StateAdvancing :: string where "StateAdvancing = ''ADVANCING''"
definition StateCancelled :: string where "StateCancelled = ''CANCELLED''"
definition StateOnHold :: string where "StateOnHold = ''ON_HOLD''"

lemmas state_names = StateStartingStep_def StateCompleted_def StateAdvancing_def StateCancelled_def StateOnHold_def

record TaskFilter =
  fl_CaseID :: string
  fl_Roles :: "string list"

definition Matches :: "TaskFilter \<Rightarrow> TaskRecord \<Rightarrow> bool" where
  "Matches f r =
     (if fl_CaseID f \<noteq> [] \<and> tk_CaseID r \<noteq> fl_CaseID f then False
      else if fl_Roles f = [] then True
      else list_ex (\<lambda>role. role \<in> set (fl_Roles f)) (tk_ReadRoles r))"

record StepClaim =
  cl_StepID :: string
  cl_Seq :: int
  cl_ActiveTaskTemplateID :: string
  cl_State :: string
  cl_Data :: "vars option"

section \<open>Rows\<close>

record TaskRecordModel =
  tm_TaskID :: string
  tm_TaskType :: string
  tm_State :: string
  tm_TaskTemplateID :: string
  tm_ParentWorkflowID :: string
  tm_CaseID :: string
  tm_ManifestVersion :: int
  tm_ParentStepID :: string
  tm_TaskWorkflowID :: string
  tm_ActiveTaskTemplateID :: string
  tm_ActiveStepID :: "string option"
  tm_Seq :: int
  tm_Data :: "vars option"
  tm_ClaimedBy :: "string option"
  tm_ClaimedAt :: "int option"

record TaskRoleModel =
  tl_TaskID :: string
  tl_Role :: string
  tl_CaseID :: string

definition roleModels :: "TaskRecord \<Rightarrow> TaskRoleModel list" where
  "roleModels r = map (\<lambda>role. \<lparr>tl_TaskID = tk_TaskID r, tl_Role = role, tl_CaseID = tk_CaseID r\<rparr>) (tk_ReadRoles r)"

definition ToDomain :: "TaskRecordModel \<Rightarrow> TaskRecord" where
  "ToDomain m =
     \<lparr>tk_TaskID = tm_TaskID m, tk_TaskType = tm_TaskType m, tk_State = tm_State m,
      tk_TaskTemplateID = tm_TaskTemplateID m, tk_ParentWorkflowID = tm_ParentWorkflowID m,
      tk_ParentStepID = tm_ParentStepID m, tk_CaseID = tm_CaseID m, tk_ReadRoles = [],
      tk_ManifestVersion = tm_ManifestVersion m, tk_TaskWorkflowID = tm_TaskWorkflowID m,
      tk_ActiveTaskTemplateID = tm_ActiveTaskTemplateID m,
      tk_ActiveStepID = (case tm_ActiveStepID m of Some s \<Rightarrow> s | None \<Rightarrow> []), tk_Seq = tm_Seq m,
      tk_Data = tm_Data m, tk_ClaimedBy = (case tm_ClaimedBy m of Some h \<Rightarrow> h | None \<Rightarrow> []),
      tk_ClaimedAt = tm_ClaimedAt m\<rparr>"

definition FromDomain :: "TaskRecord \<Rightarrow> TaskRecordModel" where
  "FromDomain r =
     \<lparr>tm_TaskID = tk_TaskID r, tm_TaskType = tk_TaskType r, tm_State = tk_State r,
      tm_TaskTemplateID = tk_TaskTemplateID r, tm_ParentWorkflowID = tk_ParentWorkflowID r,
      tm_CaseID = tk_CaseID r, tm_ManifestVersion = tk_ManifestVersion r, tm_ParentStepID = tk_ParentStepID r,
      tm_TaskWorkflowID = tk_TaskWorkflowID r, tm_ActiveTaskTemplateID = tk_ActiveTaskTemplateID r,
      tm_ActiveStepID = (if tk_ActiveStepID r = [] then None else Some (tk_ActiveStepID r)),
      tm_Seq = tk_Seq r, tm_Data = tk_Data r,
      tm_ClaimedBy = (if tk_ClaimedBy r = [] then None else Some (tk_ClaimedBy r)), tm_ClaimedAt = tk_ClaimedAt r\<rparr>"

section \<open>Statements\<close>

text \<open>The two tables, and the outcome of the coming statements: a message for one that fails.\<close>

record task_db =
  td_tasks :: "TaskRecordModel list"
  td_roles :: "TaskRoleModel list"
  td_faults :: "string option list"

definition sql_exec :: "(task_db \<Rightarrow> 'r \<times> task_db) \<Rightarrow> task_db \<Rightarrow> (string + 'r) \<times> task_db" where
  "sql_exec run db =
     (let db' = db\<lparr>td_faults := drop 1 (td_faults db)\<rparr>
      in case td_faults db of
           Some msg # _ \<Rightarrow> (Inl msg, db')
         | _ \<Rightarrow> (case run db' of (r, db'') \<Rightarrow> (Inr r, db'')))"

text \<open>\<open>ON CONFLICT DO NOTHING\<close> on the primary keys.\<close>

definition insert_task :: "TaskRecordModel \<Rightarrow> TaskRecordModel list \<Rightarrow> TaskRecordModel list" where
  "insert_task m ms = (if list_ex (\<lambda>x. tm_TaskID x = tm_TaskID m) ms then ms else ms @ [m])"

definition insert_role :: "TaskRoleModel \<Rightarrow> TaskRoleModel list \<Rightarrow> TaskRoleModel list" where
  "insert_role l ls =
     (if list_ex (\<lambda>x. tl_TaskID x = tl_TaskID l \<and> tl_Role x = tl_Role l) ls then ls else ls @ [l])"

definition InitTask :: "TaskRecord \<Rightarrow> task_db \<Rightarrow> string option \<times> task_db" where
  "InitTask record db =
     (let model = (FromDomain record)\<lparr>tm_ActiveStepID := None, tm_Seq := 0, tm_ClaimedBy := None, tm_ClaimedAt := None\<rparr>
      in case sql_exec (\<lambda>db. ((), db\<lparr>td_tasks := insert_task model (td_tasks db),
                                   td_roles := fold insert_role (roleModels record) (td_roles db)\<rparr>)) db of
           (Inl msg, db') \<Rightarrow> (Some msg, db')
         | (Inr _, db') \<Rightarrow> (None, db'))"

text \<open>\<open>First\<close> orders by primary key; an error counts as not found.\<close>

definition first_where :: "(TaskRecordModel \<Rightarrow> bool) \<Rightarrow> task_db \<Rightarrow> TaskRecord option \<times> task_db" where
  "first_where p db =
     (case sql_exec (\<lambda>db. (find p (sort_key tm_TaskID (td_tasks db)), db)) db of
        (Inr (Some m), db') \<Rightarrow> (Some (ToDomain m), db')
      | (_, db') \<Rightarrow> (None, db'))"

definition GetTask :: "string \<Rightarrow> task_db \<Rightarrow> TaskRecord option \<times> task_db" where
  "GetTask taskID = first_where (\<lambda>m. tm_TaskID m = taskID)"

definition GetTaskByWorkflowID :: "string \<Rightarrow> task_db \<Rightarrow> TaskRecord option \<times> task_db" where
  "GetTaskByWorkflowID workflowID = first_where (\<lambda>m. tm_TaskWorkflowID m = workflowID)"

definition tasks_query :: "TaskFilter \<Rightarrow> task_db \<Rightarrow> TaskRecordModel list" where
  "tasks_query f db =
     (let matching = map tl_TaskID (filter (\<lambda>l. tl_Role l \<in> set (fl_Roles f) \<and>
                       (fl_CaseID f \<noteq> [] \<longrightarrow> tl_CaseID l = fl_CaseID f)) (td_roles db))
      in filter (\<lambda>m. (fl_CaseID f \<noteq> [] \<longrightarrow> tm_CaseID m = fl_CaseID f) \<and>
                     (fl_Roles f \<noteq> [] \<longrightarrow> tm_TaskID m \<in> set matching)) (td_tasks db))"

definition GetTasks :: "TaskFilter \<Rightarrow> task_db \<Rightarrow> TaskRecord list \<times> task_db" where
  "GetTasks f db =
     (case sql_exec (\<lambda>db. (tasks_query f db, db)) db of
        (Inl msg, db') \<Rightarrow> ([], db')
      | (Inr ms, db') \<Rightarrow> (map ToDomain ms, db'))"

definition update_where ::
  "string \<Rightarrow> (TaskRecordModel \<Rightarrow> bool) \<Rightarrow> (TaskRecordModel \<Rightarrow> TaskRecordModel) \<Rightarrow> TaskRecordModel list \<Rightarrow> TaskRecordModel list" where
  "update_where taskID guard upd ms = map (\<lambda>m. if tm_TaskID m = taskID \<and> guard m then upd m else m) ms"

definition stepUpdate ::
  "string \<Rightarrow> (TaskRecordModel \<Rightarrow> bool) \<Rightarrow> (TaskRecordModel \<Rightarrow> TaskRecordModel) \<Rightarrow> task_db \<Rightarrow> (string + nat) \<times> task_db" where
  "stepUpdate taskID guard upd =
     sql_exec (\<lambda>db. (length (filter (\<lambda>m. tm_TaskID m = taskID \<and> guard m) (td_tasks db)),
                     db\<lparr>td_tasks := update_where taskID guard upd (td_tasks db)\<rparr>))"

definition ClaimStep :: "string \<Rightarrow> StepClaim \<Rightarrow> task_db \<Rightarrow> (string + nat) \<times> task_db" where
  "ClaimStep taskID c =
     stepUpdate taskID (\<lambda>m. tm_Seq m \<le> cl_Seq c \<and> tm_State m \<noteq> StateCancelled)
       (\<lambda>m. m\<lparr>tm_ActiveStepID := Some (cl_StepID c), tm_Seq := cl_Seq c,
              tm_ActiveTaskTemplateID := cl_ActiveTaskTemplateID c, tm_State := cl_State c, tm_Data := cl_Data c\<rparr>)"

definition WriteRenderState ::
  "string \<Rightarrow> string \<Rightarrow> int \<Rightarrow> string \<Rightarrow> vars option \<Rightarrow> task_db \<Rightarrow> (string + nat) \<times> task_db" where
  "WriteRenderState taskID stepID seq state data =
     stepUpdate taskID (\<lambda>m. tm_ActiveStepID m = Some stepID \<and> tm_Seq m = seq)
       (\<lambda>m. m\<lparr>tm_State := state, tm_Data := data\<rparr>)"

definition PersistSubmission ::
  "string \<Rightarrow> string \<Rightarrow> int \<Rightarrow> vars option \<Rightarrow> task_db \<Rightarrow> (string + nat) \<times> task_db" where
  "PersistSubmission taskID stepID seq data =
     stepUpdate taskID (\<lambda>m. tm_ActiveStepID m = Some stepID \<and> tm_Seq m = seq)
       (\<lambda>m. m\<lparr>tm_Data := data, tm_State := StateAdvancing, tm_Seq := seq + 1\<rparr>)"

definition WriteDraft :: "string \<Rightarrow> string \<Rightarrow> int \<Rightarrow> vars option \<Rightarrow> task_db \<Rightarrow> (string + nat) \<times> task_db" where
  "WriteDraft taskID stepID seq data =
     stepUpdate taskID
       (\<lambda>m. tm_ActiveStepID m = Some stepID \<and> tm_Seq m = seq \<and>
            tm_State m \<notin> {StateStartingStep, StateAdvancing, StateCompleted, StateCancelled, StateOnHold})
       (\<lambda>m. m\<lparr>tm_Data := data\<rparr>)"

definition db_CancelTask :: "string \<Rightarrow> task_db \<Rightarrow> (string + nat) \<times> task_db" where
  "db_CancelTask taskID =
     stepUpdate taskID (\<lambda>m. tm_State m \<noteq> StateCompleted) (\<lambda>m. m\<lparr>tm_State := StateCancelled, tm_Seq := tm_Seq m + 1\<rparr>)"

definition db_HoldTask :: "string \<Rightarrow> int \<Rightarrow> task_db \<Rightarrow> (string + nat) \<times> task_db" where
  "db_HoldTask taskID seq =
     stepUpdate taskID
       (\<lambda>m. (tm_Seq m \<le> seq \<or> (tm_State m = StateAdvancing \<and> tm_Seq m = seq + 1)) \<and>
            tm_State m \<notin> {StateCompleted, StateCancelled})
       (\<lambda>m. m\<lparr>tm_State := StateOnHold, tm_Seq := (if tm_Seq m > seq then tm_Seq m else seq)\<rparr>)"

definition CompleteTask :: "string \<Rightarrow> int \<Rightarrow> task_db \<Rightarrow> (string + nat) \<times> task_db" where
  "CompleteTask taskID seq =
     stepUpdate taskID (\<lambda>m. tm_Seq m \<le> seq \<and> tm_State m \<noteq> StateCancelled)
       (\<lambda>m. m\<lparr>tm_State := StateCompleted, tm_Seq := seq\<rparr>)"

definition db_ClaimTask :: "string \<Rightarrow> string \<Rightarrow> int \<Rightarrow> task_db \<Rightarrow> (string + nat) \<times> task_db" where
  "db_ClaimTask taskID holder now =
     stepUpdate taskID
       (\<lambda>m. (tm_ClaimedBy m = None \<or> tm_ClaimedBy m = Some holder) \<and> tm_State m \<notin> {StateCompleted, StateCancelled})
       (\<lambda>m. m\<lparr>tm_ClaimedBy := Some holder,
              tm_ClaimedAt := (if tm_ClaimedBy m = Some holder then tm_ClaimedAt m else Some now)\<rparr>)"

definition db_ReleaseTask :: "string \<Rightarrow> string \<Rightarrow> task_db \<Rightarrow> (string + nat) \<times> task_db" where
  "db_ReleaseTask taskID holder =
     stepUpdate taskID (\<lambda>m. tm_ClaimedBy m = Some holder) (\<lambda>m. m\<lparr>tm_ClaimedBy := None, tm_ClaimedAt := None\<rparr>)"

section \<open>The row of a task\<close>

definition row :: "task_db \<Rightarrow> string \<Rightarrow> TaskRecordModel option" where
  "row db i = find (\<lambda>m. tm_TaskID m = i) (td_tasks db)"

definition keyed :: "task_db \<Rightarrow> bool" where
  "keyed db = distinct (map tm_TaskID (td_tasks db))"

text \<open>A guarded update, seen at the rows: it changes the named row if the guard holds there, nothing
  else, and reports one row or none; or it fails without effect.\<close>

lemma find_update_where:
  "(\<And>m. tm_TaskID (upd m) = tm_TaskID m) \<Longrightarrow>
   find (\<lambda>m. tm_TaskID m = i) (update_where k guard upd ms) =
   map_option (\<lambda>m. if i = k \<and> guard m then upd m else m) (find (\<lambda>m. tm_TaskID m = i) ms)"
  by (induction ms) (auto simp: update_where_def)

lemma count_where:
  "distinct (map tm_TaskID ms) \<Longrightarrow>
   length (filter (\<lambda>m. tm_TaskID m = k \<and> guard m) ms) =
   (case find (\<lambda>m. tm_TaskID m = k) ms of Some m \<Rightarrow> if guard m then 1 else 0 | None \<Rightarrow> 0)"
proof (induction ms)
  case (Cons m ms)
  show ?case
  proof (cases "tm_TaskID m = k")
    case True
    with Cons.prems have "filter (\<lambda>m. tm_TaskID m = k \<and> guard m) ms = []"
      by (auto simp: filter_empty_conv) (metis image_eqI)
    with True show ?thesis by simp
  qed (use Cons in auto)
qed simp

lemma stepUpdate_row:
  assumes "stepUpdate k guard upd db = (r, db')" and "\<And>m. tm_TaskID (upd m) = tm_TaskID m" and "keyed db"
  shows "keyed db' \<and> td_roles db' = td_roles db \<and>
         ((\<exists>msg. r = Inl msg \<and> td_tasks db' = td_tasks db) \<or>
          (r = Inr (case row db k of Some m \<Rightarrow> if guard m then 1 else 0 | None \<Rightarrow> 0) \<and>
           (\<forall>i. row db' i = map_option (\<lambda>m. if i = k \<and> guard m then upd m else m) (row db i))))"
proof -
  have "map tm_TaskID (update_where k guard upd ms) = map tm_TaskID ms" for ms
    using assms(2) by (induction ms) (auto simp: update_where_def)
  moreover have "td_tasks db' = td_tasks db \<and> (\<exists>msg. r = Inl msg) \<or>
      td_tasks db' = update_where k guard upd (td_tasks db) \<and>
      r = Inr (length (filter (\<lambda>m. tm_TaskID m = k \<and> guard m) (td_tasks db)))" "td_roles db' = td_roles db"
    using assms(1) by (auto simp: stepUpdate_def sql_exec_def Let_def split: list.splits option.splits)
  ultimately show ?thesis
    using assms(3) find_update_where[OF assms(2)] count_where[of "td_tasks db" k guard]
    by (auto simp: keyed_def row_def)
qed

lemma row_same_tasks: "td_tasks db' = td_tasks db \<Longrightarrow> row db' = row db"
  by (simp add: row_def fun_eq_iff)

lemma GetTask_row:
  assumes "GetTask t db = (r, db')" and "keyed db"
  shows "td_tasks db' = td_tasks db \<and> td_roles db' = td_roles db \<and>
         (r = map_option ToDomain (row db t) \<or> r = None \<and> (\<exists>msg fs. td_faults db = Some msg # fs))"
  using assms find_sorted[of tm_TaskID "td_tasks db" t tm_TaskID]
  by (auto simp: GetTask_def first_where_def sql_exec_def Let_def keyed_def row_def split: list.splits option.splits)

end
