(* ===== verification/Task_Rows.thy ===== *)
theory Task_Rows
  imports Task_Store
begin

text \<open>
  Concurrent life of a task row. Calls of the task manager run at the same time on several replicas;
  what interleaves are their statements. A state is the database together with the tickets, the
  (step, seq) pairs that running calls hold: a call gets one by claiming a step
  (\<open>StartTaskStep\<close>) or by reading an open row (\<open>CompleteTaskStep\<close>, \<open>SaveDraft\<close>), and only then issues
  the statements guarded by it.
\<close>

type_synonym tickets = "(string \<times> int) set"

inductive task_step :: "string \<Rightarrow> task_db \<times> tickets \<Rightarrow> task_db \<times> tickets \<Rightarrow> bool" for t where
  claim: "ClaimStep t c db = (Inr (Suc 0), db') \<Longrightarrow> cl_State c = StateStartingStep \<Longrightarrow>
    task_step t (db, k) (db', insert (cl_StepID c, cl_Seq c) k)"
| claim_dropped: "ClaimStep t c db = (r, db') \<Longrightarrow> r \<noteq> Inr (Suc 0) \<Longrightarrow> cl_State c = StateStartingStep \<Longrightarrow>
    task_step t (db, k) (db', k)"
| read: "GetTask t db = (Some r, db') \<Longrightarrow> tk_State r \<notin> {StateCompleted, StateCancelled} \<Longrightarrow>
    task_step t (db, k) (db', insert (tk_ActiveStepID r, tk_Seq r) k)"
| render: "(s, n) \<in> k \<Longrightarrow> WriteRenderState t s n st data db = (r, db') \<Longrightarrow> st \<notin> {StateCompleted, StateCancelled} \<Longrightarrow>
    task_step t (db, k) (db', k)"
| submit: "(s, n) \<in> k \<Longrightarrow> PersistSubmission t s n data db = (r, db') \<Longrightarrow> task_step t (db, k) (db', k)"
| draft: "(s, n) \<in> k \<Longrightarrow> WriteDraft t s n data db = (r, db') \<Longrightarrow> task_step t (db, k) (db', k)"
| complete: "CompleteTask t n db = (r, db') \<Longrightarrow> task_step t (db, k) (db', k)"
| cancel: "db_CancelTask t db = (r, db') \<Longrightarrow> task_step t (db, k) (db', k)"
| hold: "db_HoldTask t n db = (r, db') \<Longrightarrow> task_step t (db, k) (db', k)"
| take_claim: "db_ClaimTask t holder now db = (r, db') \<Longrightarrow> task_step t (db, k) (db', k)"
| release: "db_ReleaseTask t holder db = (r, db') \<Longrightarrow> task_step t (db, k) (db', k)"
| init_again: "InitTask record db = (r, db') \<Longrightarrow> task_step t (db, k) (db', k)"

inductive task_run :: "string \<Rightarrow> task_db \<times> tickets \<Rightarrow> task_db \<times> tickets \<Rightarrow> bool" for t where
  refl: "task_run t x x"
| step: "task_run t x y \<Longrightarrow> task_step t y z \<Longrightarrow> task_run t x z"

text \<open>What every state keeps: rows are keyed by task, tickets are not ahead of the row, and on a
  cancelled row they are all behind.\<close>

definition row_inv :: "string \<Rightarrow> task_db \<times> tickets \<Rightarrow> bool" where
  "row_inv t x \<longleftrightarrow>
     (case x of (db, k) \<Rightarrow>
        keyed db \<and>
        (\<forall>m. row db t = Some m \<longrightarrow>
           (\<forall>(s, n) \<in> k. n \<le> tm_Seq m \<and> (tm_State m = StateCancelled \<longrightarrow> n < tm_Seq m))) \<and>
        (row db t = None \<longrightarrow> k = {}))"

text \<open>How a step moves the row.\<close>

definition row_moves :: "string \<Rightarrow> task_db \<times> tickets \<Rightarrow> task_db \<times> tickets \<Rightarrow> bool" where
  "row_moves t x y \<longleftrightarrow>
     (\<forall>m. row (fst x) t = Some m \<longrightarrow>
        (\<exists>m'. row (fst y) t = Some m' \<and> tm_Seq m \<le> tm_Seq m' \<and>
              (tm_State m = StateCancelled \<longrightarrow> tm_State m' = StateCancelled)))"

lemma guarded_step:
  assumes "stepUpdate t guard upd db = (r, db')" and "row_inv t (db, k)" and "\<And>m. tm_TaskID (upd m) = tm_TaskID m"
    and "\<And>m. row db t = Some m \<Longrightarrow> guard m \<Longrightarrow>
           tm_Seq m \<le> tm_Seq (upd m) \<and>
           (tm_State (upd m) = StateCancelled \<longrightarrow> tm_Seq m < tm_Seq (upd m) \<or> tm_State m = StateCancelled) \<and>
           (tm_State m = StateCancelled \<longrightarrow> tm_State (upd m) = StateCancelled)"
  shows "row_inv t (db', k) \<and> row_moves t (db, k) (db', k)"
proof -
  have "keyed db" using assms(2) by (simp add: row_inv_def)
  note upd = stepUpdate_row[OF assms(1,3) this]
  have "row db' t = row db t \<or> row db' t = map_option (\<lambda>m. if guard m then upd m else m) (row db t)"
    using upd row_same_tasks[of db' db] by auto
  then consider (same) "row db' t = row db t"
    | (changed) m where "row db t = Some m" "guard m" "row db' t = Some (upd m)"
    by (cases "row db t") (auto split: if_splits)
  then show ?thesis
  proof cases
    case same
    with upd assms(2) show ?thesis by (auto simp: row_inv_def row_moves_def)
  next
    case changed
    with assms(4)[OF changed(1,2)] upd assms(2) show ?thesis
      by (fastforce simp: row_inv_def row_moves_def)
  qed
qed

lemmas update_defs = ClaimStep_def WriteRenderState_def PersistSubmission_def WriteDraft_def db_CancelTask_def
  db_HoldTask_def CompleteTask_def db_ClaimTask_def db_ReleaseTask_def

text \<open>A ticket holder's write matches the row only at the ticket's seq, so never on a cancelled row.\<close>

lemma ticket_step:
  assumes "stepUpdate t guard upd db = (r, db')" and "row_inv t (db, k)" and "(s, n) \<in> k"
    and "\<And>m. tm_TaskID (upd m) = tm_TaskID m" and "\<And>m. guard m \<Longrightarrow> tm_Seq m = n"
    and "\<And>m. guard m \<Longrightarrow> tm_Seq m \<le> tm_Seq (upd m)"
    and "\<And>m. tm_State (upd m) = StateCancelled \<Longrightarrow> tm_State m = StateCancelled"
  shows "row_inv t (db', k) \<and> row_moves t (db, k) (db', k)"
proof (rule guarded_step[OF assms(1,2,4)])
  fix m
  assume m: "row db t = Some m" "guard m"
  with assms(2,3,5) have "tm_State m \<noteq> StateCancelled" by (auto simp: row_inv_def)
  with m assms(6,7) show "tm_Seq m \<le> tm_Seq (upd m) \<and>
      (tm_State (upd m) = StateCancelled \<longrightarrow> tm_Seq m < tm_Seq (upd m) \<or> tm_State m = StateCancelled) \<and>
      (tm_State m = StateCancelled \<longrightarrow> tm_State (upd m) = StateCancelled)" by blast
qed

lemma ticket_added:
  assumes "row_inv t (db, k)" and "row db t = Some m" and "n \<le> tm_Seq m" and "tm_State m \<noteq> StateCancelled"
  shows "row_inv t (db, insert (s, n) k)"
  using assms by (auto simp: row_inv_def)

lemma row_inv_tasks: "td_tasks db' = td_tasks db \<Longrightarrow> row_inv t (db', k) \<longleftrightarrow> row_inv t (db, k)"
  by (simp add: row_inv_def keyed_def row_def)

lemma row_moves_tasks: "td_tasks db' = td_tasks db \<Longrightarrow> row_moves t (db, k) (db', k')"
  by (simp add: row_moves_def row_def)

lemma claim_row:
  assumes "ClaimStep t c db = (Inr (Suc 0), db')" and "keyed db"
  shows "\<exists>m. row db' t = Some m \<and> tm_Seq m = cl_Seq c \<and> tm_State m = cl_State c"
proof -
  note upd = stepUpdate_row[OF assms(1)[unfolded ClaimStep_def] _ assms(2)]
  show ?thesis using upd by (cases "row db t") (auto split: if_splits)
qed

lemma init_step:
  assumes "InitTask record db = (r, db')" and "row_inv t (db, k)"
  shows "row_inv t (db', k) \<and> row_moves t (db, k) (db', k)"
proof -
  let ?m = "(FromDomain record)\<lparr>tm_ActiveStepID := None, tm_Seq := 0, tm_ClaimedBy := None, tm_ClaimedAt := None\<rparr>"
  have "td_tasks db' = td_tasks db \<or> td_tasks db' = insert_task ?m (td_tasks db)"
    using assms(1) by (auto simp: InitTask_def sql_exec_def Let_def split: list.splits option.splits)
  moreover have "keyed db' \<and> (\<forall>m. row db t = Some m \<longrightarrow> row db' t = Some m)" if "td_tasks db' = insert_task ?m (td_tasks db)"
  proof -
    have "find P (xs @ ys) = (case find P xs of Some y \<Rightarrow> Some y | None \<Rightarrow> find P ys)" for P and xs ys :: "TaskRecordModel list"
      by (induction xs) auto
    with that assms(2) show ?thesis
      by (auto simp: keyed_def row_def insert_task_def row_inv_def list_ex_iff)
  qed
  ultimately show ?thesis
    using assms(2) row_inv_tasks[of db' db t k] row_moves_tasks[of db' db t k k]
    by (cases "row db t") (auto simp: row_inv_def row_moves_def)
qed

lemma task_step_inv:
  assumes "task_step t x y" and "row_inv t x"
  shows "row_inv t y \<and> row_moves t x y"
  using assms
proof (induction rule: task_step.induct)
  case (claim c db db' k)
  have "row_inv t (db', k) \<and> row_moves t (db, k) (db', k)"
    using claim(1)[unfolded ClaimStep_def] claim(3) by (rule guarded_step) (use claim(2) in \<open>auto simp: state_names\<close>)
  moreover have "keyed db" using claim(3) by (simp add: row_inv_def)
  ultimately show ?case
    using claim_row[OF claim(1)] claim(2) ticket_added[of t db' k] by (fastforce simp: row_moves_def state_names)
next
  case (claim_dropped c db r db' k)
  show ?case
    using claim_dropped(1)[unfolded ClaimStep_def] claim_dropped(4)
    by (rule guarded_step) (use claim_dropped(3) in \<open>auto simp: state_names\<close>)
next
  case (read db r db' k)
  then have keyed: "keyed db" by (simp add: row_inv_def)
  have "td_tasks db' = td_tasks db" using GetTask_row[OF read(1) keyed] by simp
  moreover obtain m where "row db t = Some m" "r = ToDomain m"
    using GetTask_row[OF read(1) keyed] by (cases "row db t") auto
  ultimately show ?case
    using read ticket_added[of t db k m "tk_Seq r" "tk_ActiveStepID r"] row_inv_tasks[of db' db t] row_moves_tasks[of db' db t k]
    by (simp add: ToDomain_def)
next
  case (render s n k st data db r db')
  show ?case
    using render(2)[unfolded WriteRenderState_def] render(4,1) by (rule ticket_step) (use render(3) in auto)
next
  case (submit s n k data db r db')
  show ?case
    using submit(2)[unfolded PersistSubmission_def] submit(3,1) by (rule ticket_step) (auto simp: state_names)
next
  case (draft s n k data db r db')
  show ?case
    using draft(2)[unfolded WriteDraft_def] draft(3,1) by (rule ticket_step) auto
next
  case (complete n db r db' k)
  show ?case
    using complete(1)[unfolded CompleteTask_def] complete(2) by (rule guarded_step) (auto simp: state_names)
next
  case (cancel db r db' k)
  show ?case
    using cancel(1)[unfolded db_CancelTask_def] cancel(2) by (rule guarded_step) auto
next
  case (hold n db r db' k)
  show ?case
    using hold(1)[unfolded db_HoldTask_def] hold(2) by (rule guarded_step) (auto simp: state_names)
next
  case (take_claim holder now db r db' k)
  show ?case
    using take_claim(1)[unfolded db_ClaimTask_def] take_claim(2) by (rule guarded_step) auto
next
  case (release holder db r db' k)
  show ?case
    using release(1)[unfolded db_ReleaseTask_def] release(2) by (rule guarded_step) auto
next
  case (init_again rec db r db' k)
  then show ?case by (rule init_step)
qed

lemma task_run_inv: "task_run t x y \<Longrightarrow> row_inv t x \<Longrightarrow> row_inv t y \<and> row_moves t x y"
proof (induction rule: task_run.induct)
  case (step x y z)
  then have y: "row_inv t y" "row_moves t x y" and z: "row_inv t z" "row_moves t y z"
    using task_step_inv by blast+
  have "row_moves t x z"
    unfolding row_moves_def
  proof (intro allI impI)
    fix m
    assume "row (fst x) t = Some m"
    with y(2) obtain m1 where 1: "row (fst y) t = Some m1" "tm_Seq m \<le> tm_Seq m1"
      "tm_State m = StateCancelled \<longrightarrow> tm_State m1 = StateCancelled" unfolding row_moves_def by blast
    with z(2) obtain m2 where "row (fst z) t = Some m2" "tm_Seq m1 \<le> tm_Seq m2"
      "tm_State m1 = StateCancelled \<longrightarrow> tm_State m2 = StateCancelled" unfolding row_moves_def by blast
    with 1 show "\<exists>m'. row (fst z) t = Some m' \<and> tm_Seq m \<le> tm_Seq m' \<and>
        (tm_State m = StateCancelled \<longrightarrow> tm_State m' = StateCancelled)" by auto
  qed
  with z show ?case by blast
qed (simp add: row_moves_def)

text \<open>C15. Whatever calls of the task manager run at the same time on a task, and however their statements
  interleave, the version of its row never goes back, the row never disappears, and once it is
  CANCELLED it stays CANCELLED: no claim, render state, submission, draft, hold or completion still
  in flight can bring it back.\<close>

theorem task_row_monotone:
  assumes "keyed db0" and "task_run t (db0, {}) (db1, k1)" and "task_run t (db1, k1) (db2, k2)"
    and "row db1 t = Some m1"
  shows "\<exists>m2. row db2 t = Some m2 \<and> tm_Seq m1 \<le> tm_Seq m2 \<and>
           (tm_State m1 = StateCancelled \<longrightarrow> tm_State m2 = StateCancelled)"
proof -
  have "row_inv t (db0, {})" using assms(1) by (simp add: row_inv_def)
  with assms(2) have "row_inv t (db1, k1)" using task_run_inv by blast
  with assms(3) have "row_moves t (db1, k1) (db2, k2)" using task_run_inv by blast
  with assms(4) show ?thesis by (simp add: row_moves_def)
qed

section \<open>Listing tasks\<close>

text \<open>How the tables come about: tasks are created, possibly by a repeated call for the same task, and rows
  are updated by statements that keep the task and its case.\<close>

inductive stored :: "task_db \<Rightarrow> bool" where
  empty: "stored \<lparr>td_tasks = [], td_roles = [], td_faults = fs\<rparr>"
| init: "stored db \<Longrightarrow> InitTask r db = (e, db') \<Longrightarrow>
    \<forall>m \<in> set (td_tasks db). tm_TaskID m = tk_TaskID r \<longrightarrow> tm_CaseID m = tk_CaseID r \<Longrightarrow> stored db'"
| update: "stored db \<Longrightarrow> stepUpdate t guard upd db = (x, db') \<Longrightarrow>
    \<forall>m. tm_TaskID (upd m) = tm_TaskID m \<and> tm_CaseID (upd m) = tm_CaseID m \<Longrightarrow> stored db'"

text \<open>The record of a row together with its roles, which the read methods leave out.\<close>

definition full_record :: "task_db \<Rightarrow> TaskRecordModel \<Rightarrow> TaskRecord" where
  "full_record db m =
     (ToDomain m)\<lparr>tk_ReadRoles := map tl_Role (filter (\<lambda>l. tl_TaskID l = tm_TaskID m) (td_roles db))\<rparr>"

definition roles_ok :: "task_db \<Rightarrow> bool" where
  "roles_ok db \<longleftrightarrow> keyed db \<and>
     (\<forall>l \<in> set (td_roles db). \<exists>m \<in> set (td_tasks db). tm_TaskID m = tl_TaskID l \<and> tm_CaseID m = tl_CaseID l)"

lemma set_insert_role: "set (fold insert_role ls acc) \<subseteq> set ls \<union> set acc"
  by (induction ls arbitrary: acc) (fastforce simp: insert_role_def split: if_splits)+

lemma roles_ok_init:
  assumes "roles_ok db" and "InitTask r db = (e, db')"
    and "\<forall>m \<in> set (td_tasks db). tm_TaskID m = tk_TaskID r \<longrightarrow> tm_CaseID m = tk_CaseID r"
  shows "roles_ok db'"
proof -
  let ?m = "(FromDomain r)\<lparr>tm_ActiveStepID := None, tm_Seq := 0, tm_ClaimedBy := None, tm_ClaimedAt := None\<rparr>"
  have m: "tm_TaskID ?m = tk_TaskID r" "tm_CaseID ?m = tk_CaseID r" by (simp_all add: FromDomain_def)
  consider (failed) "td_tasks db' = td_tasks db" "td_roles db' = td_roles db"
    | (saved) "td_tasks db' = insert_task ?m (td_tasks db)" "td_roles db' = fold insert_role (roleModels r) (td_roles db)"
    using assms(2) by (auto simp: InitTask_def sql_exec_def Let_def split: list.splits option.splits)
  then show ?thesis
  proof cases
    case failed
    with assms(1) show ?thesis by (simp add: roles_ok_def keyed_def)
  next
    case saved
    have "keyed db'" using saved(1) assms(1) by (auto simp: roles_ok_def keyed_def insert_task_def list_ex_iff)
    moreover have "\<exists>x \<in> set (td_tasks db'). tm_TaskID x = tk_TaskID r \<and> tm_CaseID x = tk_CaseID r"
      using saved(1) assms(3) m by (auto simp: insert_task_def list_ex_iff)
    moreover have "set (td_tasks db) \<subseteq> set (td_tasks db')" using saved(1) by (auto simp: insert_task_def)
    moreover have "l \<in> set (roleModels r) \<Longrightarrow> tl_TaskID l = tk_TaskID r \<and> tl_CaseID l = tk_CaseID r" for l
      by (auto simp: roleModels_def)
    ultimately show ?thesis
      using saved(2) assms(1) set_insert_role[of "roleModels r" "td_roles db"] unfolding roles_ok_def by fastforce
  qed
qed

lemma roles_ok_update:
  assumes "roles_ok db" and "stepUpdate t guard upd db = (x, db')"
    and "\<forall>m. tm_TaskID (upd m) = tm_TaskID m \<and> tm_CaseID (upd m) = tm_CaseID m"
  shows "roles_ok db'"
proof -
  have "td_roles db' = td_roles db" and "td_tasks db' = td_tasks db \<or> td_tasks db' = update_where t guard upd (td_tasks db)"
    using assms(2) by (auto simp: stepUpdate_def sql_exec_def Let_def split: list.splits option.splits)
  moreover have "keyed db'"
    using stepUpdate_row[OF assms(2)] assms(1,3) by (auto simp: roles_ok_def)
  moreover have "\<exists>y \<in> set (update_where t guard upd (td_tasks db)). tm_TaskID y = tm_TaskID m \<and> tm_CaseID y = tm_CaseID m"
    if "m \<in> set (td_tasks db)" for m
    using that assms(3) by (auto simp: update_where_def image_iff)
  ultimately show ?thesis using assms(1) unfolding roles_ok_def by metis
qed

lemma stored_roles: "stored db \<Longrightarrow> roles_ok db"
proof (induction rule: stored.induct)
  case (empty fs)
  then show ?case by (simp add: roles_ok_def keyed_def)
next
  case (init db r e db')
  then show ?case using roles_ok_init by blast
next
  case (update db t guard upd x db')
  then show ?case using roles_ok_update by blast
qed

text \<open>C19. Listing refines its specification: the SQL of \<open>GetTasks\<close>, with its subquery on the roles table, returns
  exactly the tasks that \<open>TaskFilter.Matches\<close> accepts, each once.\<close>

theorem GetTasks_refines_Matches:
  assumes "stored db" and "td_faults db = []"
  shows "fst (GetTasks f db) = map ToDomain (filter (\<lambda>m. Matches f (full_record db m)) (td_tasks db)) \<and>
         distinct (map tk_TaskID (fst (GetTasks f db)))"
proof -
  have ok: "roles_ok db" using assms(1) by (rule stored_roles)
  have same: "tl_CaseID l = tm_CaseID m" if "l \<in> set (td_roles db)" "m \<in> set (td_tasks db)" "tl_TaskID l = tm_TaskID m" for l m
  proof -
    obtain m' where "m' \<in> set (td_tasks db)" "tm_TaskID m' = tl_TaskID l" "tm_CaseID m' = tl_CaseID l"
      using ok \<open>l \<in> set (td_roles db)\<close> by (auto simp: roles_ok_def)
    with that ok show ?thesis by (metis eq_key_imp_eq_value inj_on_eq_iff distinct_map roles_ok_def keyed_def)
  qed
  have "tasks_query f db = filter (\<lambda>m. Matches f (full_record db m)) (td_tasks db)"
    unfolding tasks_query_def Let_def
  proof (rule filter_cong[OF HOL.refl])
    fix m
    assume m: "m \<in> set (td_tasks db)"
    show "((fl_CaseID f \<noteq> [] \<longrightarrow> tm_CaseID m = fl_CaseID f) \<and>
           (fl_Roles f \<noteq> [] \<longrightarrow> tm_TaskID m \<in> set (map tl_TaskID (filter (\<lambda>l. tl_Role l \<in> set (fl_Roles f) \<and>
              (fl_CaseID f \<noteq> [] \<longrightarrow> tl_CaseID l = fl_CaseID f)) (td_roles db))))) =
          Matches f (full_record db m)"
      using same m by (auto simp: Matches_def full_record_def ToDomain_def list_ex_iff image_iff)
  qed
  moreover have "td_tasks (db\<lparr>td_faults := []\<rparr>) = td_tasks db" "tasks_query f (db\<lparr>td_faults := []\<rparr>) = tasks_query f db"
    by (simp_all add: tasks_query_def)
  ultimately have "fst (GetTasks f db) = map ToDomain (filter (\<lambda>m. Matches f (full_record db m)) (td_tasks db))"
    using assms(2) by (simp add: GetTasks_def sql_exec_def)
  moreover have "distinct (map tm_TaskID (filter P (td_tasks db)))" for P
    using ok by (simp add: roles_ok_def keyed_def distinct_map_filter)
  ultimately show ?thesis by (simp add: comp_def ToDomain_def)
qed

end
