(* ===== verification/Task_Env.thy ===== *)
theory Task_Env
  imports Task_Store Engine_State
begin

text \<open>
  What the task manager works with: errors and their wrapping (\<open>taskflow/plugins/errors.go\<close>, the
  sentinels of \<open>orchestrator\<close>), the templates of \<open>artifact/adapter/types\<close>, the payloads of the engine, the
  registries of plugins and extensions, and the world in which a call runs.

  Artifacts, plugins, extensions, the task workflow manager and the completion callback are fields of the
  manager record, so every theorem holds for all of them. The world holds the database, what other calls
  do to it before each coming statement of this call (\<open>tw_others\<close>), and the calls made to the
  outside, oldest first (\<open>tw_calls\<close>). An outside function also sees the calls made so far, so
  it may answer the same call differently each time. Contexts, log lines and message texts are
  not modelled.
\<close>

section \<open>Errors\<close>

datatype tferr =
    ErrStaleStep
  | ErrTaskNotOpen
  | ErrStepIDRequired
  | ErrTaskNotFound
  | ErrStepNotGuarded
  | ErrHolderRequired
  | ErrClaimHeld
  | ErrNotClaimHolder
  | ErrTaskCompleted
  | ErrDraftNotEnabled
  | ErrNoTaskTemplate
  | ErrSuspended
  | ErrResultPending
  | ErrNotFound
  | ErrInvalid
  | ErrUnknownManifestVersion
  | ErrActivationNotPending
  | ErrWorkflowNotFound
  | ErrInvalidToken
  | ClaimHeldError string "int option"
  | RemoteError int
  | PlainError string
  | Wrapped tferr
  | PermanentError string tferr
  | ApplicationError string bool "tferr option"

text \<open>An error and what it wraps, outermost first. \<open>fmt.Errorf\<close> with \<open>%w\<close> is \<open>Wrapped\<close>; with \<open>%v\<close>
  it is a \<open>PlainError\<close>.\<close>

fun tf_chain :: "tferr \<Rightarrow> tferr list" where
  "tf_chain (Wrapped e) = Wrapped e # tf_chain e"
| "tf_chain (PermanentError t e) = PermanentError t e # tf_chain e"
| "tf_chain (ApplicationError t n (Some e)) = ApplicationError t n (Some e) # tf_chain e"
| "tf_chain e = [e]"

fun is_claim_held :: "tferr \<Rightarrow> bool" where
  "is_claim_held (ClaimHeldError h since) = True"
| "is_claim_held _ = False"

definition errors_Is :: "tferr \<Rightarrow> tferr \<Rightarrow> bool" where
  "errors_Is e target =
     (target \<in> set (tf_chain e) \<or> target = ErrClaimHeld \<and> list_ex is_claim_held (tf_chain e))"

definition ErrorTypeConfig :: string where "ErrorTypeConfig = ''InvalidConfig''"
definition ErrorTypeInput :: string where "ErrorTypeInput = ''InvalidInput''"
definition ErrorTypeRejected :: string where "ErrorTypeRejected = ''RemoteRejected''"

fun is_permanent_error :: "tferr \<Rightarrow> bool" where
  "is_permanent_error (PermanentError t e) = True"
| "is_permanent_error _ = False"

fun is_application_error :: "tferr \<Rightarrow> bool" where
  "is_application_error (ApplicationError t n c) = True"
| "is_application_error _ = False"

fun is_remote_error :: "tferr \<Rightarrow> bool" where
  "is_remote_error (RemoteError code) = True"
| "is_remote_error _ = False"

definition PermanentType :: "tferr \<Rightarrow> string option" where
  "PermanentType err =
     (case find is_permanent_error (tf_chain err) of
        Some (PermanentError t e) \<Rightarrow> Some t
      | _ \<Rightarrow> (case find is_application_error (tf_chain err) of
                Some (ApplicationError t nonRetryable c) \<Rightarrow> if nonRetryable then Some t else None
              | _ \<Rightarrow> None))"

definition IsPermanent :: "tferr \<Rightarrow> bool" where
  "IsPermanent err \<longleftrightarrow> PermanentType err \<noteq> None"

definition RetryableStatus :: "int \<Rightarrow> bool" where
  "RetryableStatus code \<longleftrightarrow> code = 408 \<or> code = 429 \<or> code \<ge> 500"

definition ClassifyRemote :: "tferr \<Rightarrow> tferr" where
  "ClassifyRemote err =
     (case find is_remote_error (tf_chain err) of
        Some (RemoteError code) \<Rightarrow> if \<not> RetryableStatus code then PermanentError ErrorTypeRejected err else err
      | _ \<Rightarrow> err)"

definition artifactError :: "tferr \<Rightarrow> tferr" where
  "artifactError err =
     (if errors_Is err ErrNotFound \<or> errors_Is err ErrInvalid then PermanentError ErrorTypeConfig err else err)"

definition surfacePermanent :: "tferr \<Rightarrow> tferr" where
  "surfacePermanent err =
     (if is_application_error err then err
      else case PermanentType err of
             None \<Rightarrow> err
           | Some errType \<Rightarrow> ApplicationError errType True None)"

section \<open>Templates and payloads\<close>

record TaskTemplate =
  tt_ID :: string
  tt_Type :: string
  tt_WorkflowID :: string
  tt_RenderConfigID :: string
  tt_Claimable :: bool
  tt_ReadRoles :: "string list"

definition PhasePreResume :: string where "PhasePreResume = ''PRE_RESUME''"
definition PhasePostResume :: string where "PhasePostResume = ''POST_RESUME''"

record ExtensionConfig =
  xc_ID :: string
  xc_Phase :: string
  xc_Properties :: string

record StepTemplate =
  sp_ID :: string
  sp_PluginType :: string
  sp_PluginProperties :: string
  sp_OutputNamespace :: string
  sp_Extensions :: "ExtensionConfig list"
  sp_Draft :: "string option"

text \<open>A Go map that is ranged over is the list of its entries in the order Go gives them.\<close>

type_synonym entries = "(string \<times> jval) list"

record TaskPayload =
  tp_WorkflowID :: string
  tp_NodeID :: string
  tp_ActivationID :: string
  tp_Seq :: int
  tp_TaskTemplateID :: string
  tp_Inputs :: entries
  tp_CaseID :: string
  tp_ManifestVersion :: int

record WorkflowCompletion =
  wc_WorkflowID :: string
  wc_Seq :: int
  wc_FinalVariables :: vars

record TaskView =
  tv_TaskID :: string
  tv_TaskType :: string
  tv_State :: string
  tv_StepID :: string
  tv_Version :: int
  tv_ClaimedBy :: string
  tv_ClaimedAt :: "int option"
  tv_View :: "string option"

definition record_DeepCopy :: "TaskRecord \<Rightarrow> TaskRecord" where
  "record_DeepCopy r = r\<lparr>tk_Data := map_option deepcopy_Map (tk_Data r)\<rparr>"

section \<open>The world and the manager\<close>

datatype tcall =
    StartedWorkflow string WorkflowDefinition vars "tferr option"
  | CompletedActivation string string vars "tferr option"
  | TerminatedWorkflow string string "tferr option"
  | ResumedParent string string vars "tferr option"
  | RanPlugin string TaskRecord "tferr option"
  | RanExtension string string TaskRecord vars "tferr option"

record tworld =
  tw_db :: task_db
  tw_others :: "(task_db \<Rightarrow> task_db) list"
  tw_calls :: "tcall list"

text \<open>A plugin may change the record it is handed a pointer to, an extension the copies it is handed.\<close>

type_synonym plugin = "TaskRecord \<Rightarrow> entries \<Rightarrow> string \<Rightarrow> string \<Rightarrow> tcall list \<Rightarrow> tferr option \<times> TaskRecord"
type_synonym extension = "TaskRecord \<Rightarrow> vars \<Rightarrow> string \<Rightarrow> tcall list \<Rightarrow> tferr option \<times> TaskRecord \<times> vars"

record TaskManager =
  mg_artifacts :: "int \<Rightarrow> tferr option"
  mg_taskTemplate :: "int \<Rightarrow> string \<Rightarrow> tferr + TaskTemplate"
  mg_workflowDef :: "int \<Rightarrow> string \<Rightarrow> tferr + WorkflowDefinition"
  mg_genericTemplate :: "int \<Rightarrow> string \<Rightarrow> tferr + string"
  mg_stepTemplate :: "int \<Rightarrow> string \<Rightarrow> tferr + StepTemplate"
  mg_renderer :: "string \<Rightarrow> string \<Rightarrow> vars option \<Rightarrow> tferr + string"
  mg_plugins :: "(string \<times> plugin) list"
  mg_extensions :: "(string \<times> extension) list option"
  mg_StartWorkflow :: "string \<Rightarrow> WorkflowDefinition \<Rightarrow> vars \<Rightarrow> tcall list \<Rightarrow> tferr option"
  mg_CompleteActivation :: "string \<Rightarrow> string \<Rightarrow> vars \<Rightarrow> tcall list \<Rightarrow> tferr option"
  mg_TerminateWorkflow :: "(string \<Rightarrow> string \<Rightarrow> tcall list \<Rightarrow> tferr option) option"
  mg_onTaskCompleted :: "string \<Rightarrow> string \<Rightarrow> vars \<Rightarrow> tcall list \<Rightarrow> tferr option"
  mg_requiredPreResume :: "string list"

definition WithRequiredPreResumeExtensions :: "string list \<Rightarrow> TaskManager \<Rightarrow> TaskManager" where
  "WithRequiredPreResumeExtensions ids mg = mg\<lparr>mg_requiredPreResume := filter (\<lambda>i. i \<noteq> []) ids\<rparr>"

text \<open>Both registries: a name can be registered once.\<close>

definition registry_Register :: "string \<Rightarrow> 'p \<Rightarrow> (string \<times> 'p) list \<Rightarrow> tferr + (string \<times> 'p) list" where
  "registry_Register name p reg =
     (case map_of reg name of
        Some _ \<Rightarrow> Inl (PlainError ''already registered'')
      | None \<Rightarrow> Inr ((name, p) # reg))"

definition registry_Get :: "(string \<times> 'p) list \<Rightarrow> string \<Rightarrow> 'p option" where
  "registry_Get reg name = map_of reg name"

text \<open>One statement of this call: what the others did in the meantime comes first.\<close>

definition meanwhile :: "tworld \<Rightarrow> task_db" where
  "meanwhile w = (case tw_others w of f # _ \<Rightarrow> f (tw_db w) | [] \<Rightarrow> tw_db w)"

definition stmt :: "(task_db \<Rightarrow> 'r \<times> task_db) \<Rightarrow> tworld \<Rightarrow> 'r \<times> tworld" where
  "stmt run w =
     (case run (meanwhile w) of (r, db) \<Rightarrow> (r, w\<lparr>tw_db := db, tw_others := drop 1 (tw_others w)\<rparr>))"

definition called :: "tcall \<Rightarrow> tworld \<Rightarrow> tworld" where
  "called c w = w\<lparr>tw_calls := tw_calls w @ [c]\<rparr>"

lemma called_simps [simp]:
  "tw_db (called c w) = tw_db w" "tw_others (called c w) = tw_others w" "tw_calls (called c w) = tw_calls w @ [c]"
  "meanwhile (called c w) = meanwhile w"
  by (simp_all add: called_def meanwhile_def split: list.split)

lemma stmt_calls: "stmt run w = (r, w') \<Longrightarrow> tw_calls w' = tw_calls w"
  by (auto simp: stmt_def split: prod.splits)

lemma stmt_db: "stmt run w = (r, w') \<Longrightarrow> run (meanwhile w) = (r, tw_db w')"
  by (auto simp: stmt_def split: prod.splits)

text \<open>An error that is or wraps a permanent one leaves an Activity non-retryable, and no other error
  becomes so.\<close>

lemma surfacePermanent_cases:
  "\<not> is_application_error e \<Longrightarrow>
   surfacePermanent e = (if IsPermanent e then ApplicationError (the (PermanentType e)) True None else e)"
  by (auto simp: surfacePermanent_def IsPermanent_def)

end
