(* ===== verification/Task_Manager.thy ===== *)
theory Task_Manager
  imports Task_Env
begin

text \<open>
  The task manager, \<open>taskflow/orchestrator\<close> (\<open>manager.go\<close>, \<open>claim.go\<close>, \<open>draft.go\<close>) and
  \<open>renderconfig.Load\<close>: starting tasks and steps, submissions, drafts, claims, cancellation, holds and
  completion.
\<close>

section \<open>Starting\<close>

definition registryFor :: "TaskManager \<Rightarrow> int \<Rightarrow> tferr option" where
  "registryFor mg v =
     (if v \<le> 0 then Some (ApplicationError ''NoManifestVersion'' True (Some ErrUnknownManifestVersion))
      else map_option Wrapped (mg_artifacts mg v))"

definition nested_inputs :: "entries \<Rightarrow> vars" where
  "nested_inputs inputs = fold (\<lambda>(k, v) m. SetNestedKey m k v) inputs empty_map"

definition is_parallel_split :: "Node \<Rightarrow> bool" where
  "is_parallel_split n \<longleftrightarrow> n_Type n = NodeTypeGateway \<and> n_GatewayType n = GatewayTypeParallelSplit"

definition initial_data :: "TaskPayload \<Rightarrow> vars" where
  "initial_data p =
     (nested_inputs (tp_Inputs p))(''_task_id'' \<mapsto> VStr (tp_ActivationID p), VarManifestVersion \<mapsto> VInt (tp_ManifestVersion p))"

definition task_record :: "TaskPayload \<Rightarrow> TaskTemplate \<Rightarrow> TaskRecord" where
  "task_record p template =
     \<lparr>tk_TaskID = tp_ActivationID p, tk_TaskType = tt_Type template, tk_State = ''STARTING'', tk_TaskTemplateID = tt_ID template,
      tk_ParentWorkflowID = tp_WorkflowID p, tk_ParentStepID = tp_ActivationID p, tk_CaseID = tp_CaseID p,
      tk_ReadRoles = tt_ReadRoles template, tk_ManifestVersion = tp_ManifestVersion p,
      tk_TaskWorkflowID = ''task-wf-'' @ tp_ActivationID p, tk_ActiveTaskTemplateID = [], tk_ActiveStepID = [], tk_Seq = 0,
      tk_Data = Some (initial_data p), tk_ClaimedBy = [], tk_ClaimedAt = None\<rparr>"

definition create_task :: "TaskManager \<Rightarrow> TaskPayload \<Rightarrow> TaskTemplate \<Rightarrow> WorkflowDefinition \<Rightarrow> tworld \<Rightarrow> tferr \<times> tworld" where
  "create_task mg p template wfDef w =
     (case stmt (InitTask (task_record p template)) w of
        (Some msg, w') \<Rightarrow> (Wrapped (PlainError msg), w')
      | (None, w') \<Rightarrow>
          (let wfID = ''task-wf-'' @ tp_ActivationID p;
               err = mg_StartWorkflow mg wfID wfDef (initial_data p) (tw_calls w');
               w'' = called (StartedWorkflow wfID wfDef (initial_data p) err) w'
           in case err of
                Some e \<Rightarrow> (PlainError ''failed to start task workflow'', w'')
              | None \<Rightarrow> (ErrResultPending, w'')))"

text \<open>The error of \<open>StartTask\<close> before it is surfaced; \<open>ErrResultPending\<close> is success.\<close>

definition startTask_body :: "TaskManager \<Rightarrow> TaskPayload \<Rightarrow> tworld \<Rightarrow> tferr \<times> tworld" where
  "startTask_body mg p w =
     (let v = tp_ManifestVersion p
      in case registryFor mg v of
           Some e \<Rightarrow> (e, w)
         | None \<Rightarrow>
      (case mg_taskTemplate mg v (tp_TaskTemplateID p) of
           Inl e \<Rightarrow> (Wrapped (artifactError e), w)
         | Inr template \<Rightarrow>
      (case mg_workflowDef mg v (tt_WorkflowID template) of
           Inl e \<Rightarrow> (Wrapped (artifactError e), w)
         | Inr wfDef \<Rightarrow>
      (case mg_genericTemplate mg v (tt_RenderConfigID template) of
           Inl e \<Rightarrow> (Wrapped (artifactError e), w)
         | Inr _ \<Rightarrow>
             if tp_ActivationID p = [] then (PermanentError ErrorTypeInput (PlainError ''payload has no step ID''), w)
             else if list_ex is_parallel_split (wd_Nodes wfDef)
             then (PermanentError ErrorTypeConfig (PlainError ''parallel steps are not supported''), w)
             else create_task mg p template wfDef w))))"

definition StartTask :: "TaskManager \<Rightarrow> TaskPayload \<Rightarrow> tworld \<Rightarrow> tferr \<times> tworld" where
  "StartTask mg p w = (case startTask_body mg p w of (e, w') \<Rightarrow> (surfacePermanent e, w'))"

text \<open>A step: the claim, the plugin on a copy of the record, the render state.\<close>

definition step_claim :: "TaskPayload \<Rightarrow> StepClaim" where
  "step_claim p =
     \<lparr>cl_StepID = tp_ActivationID p, cl_Seq = tp_Seq p, cl_ActiveTaskTemplateID = tp_TaskTemplateID p,
      cl_State = StateStartingStep, cl_Data = Some (nested_inputs (tp_Inputs p))\<rparr>"

definition claimed_record :: "TaskPayload \<Rightarrow> TaskRecord \<Rightarrow> TaskRecord" where
  "claimed_record p record =
     record\<lparr>tk_ActiveStepID := tp_ActivationID p, tk_Seq := tp_Seq p, tk_ActiveTaskTemplateID := tp_TaskTemplateID p,
            tk_State := StateStartingStep, tk_Data := Some (nested_inputs (tp_Inputs p))\<rparr>"

definition run_plugin ::
  "plugin \<Rightarrow> StepTemplate \<Rightarrow> TaskPayload \<Rightarrow> TaskRecord \<Rightarrow> tworld \<Rightarrow> (tferr + vars option) \<times> tworld" where
  "run_plugin pl template p record w =
     (case pl record (tp_Inputs p) (sp_OutputNamespace template) (sp_PluginProperties template) (tw_calls w) of
        (err, record') \<Rightarrow>
          (let w' = called (RanPlugin (sp_PluginType template) record err) w;
               suspended = (case err of Some e \<Rightarrow> errors_Is e ErrSuspended | None \<Rightarrow> False)
           in case err of
                Some e \<Rightarrow> if \<not> suspended then (Inl (Wrapped e), w')
                  else (case stmt (WriteRenderState (tk_TaskID record') (tp_ActivationID p) (tp_Seq p) (tk_State record') (tk_Data record')) w' of
                          (Inl msg, w'') \<Rightarrow> (Inl (Wrapped (PlainError msg)), w'')
                        | (Inr _, w'') \<Rightarrow> (Inl ErrResultPending, w''))
              | None \<Rightarrow>
                  (case stmt (WriteRenderState (tk_TaskID record') (tp_ActivationID p) (tp_Seq p) (tk_State record') (tk_Data record')) w' of
                     (Inl msg, w'') \<Rightarrow> (Inl (Wrapped (PlainError msg)), w'')
                   | (Inr _, w'') \<Rightarrow> (Inr (tk_Data record'), w''))))"

definition startTaskStep_body :: "TaskManager \<Rightarrow> TaskPayload \<Rightarrow> tworld \<Rightarrow> (tferr + vars option) \<times> tworld" where
  "startTaskStep_body mg p w =
     (if tp_ActivationID p = [] then (Inl (PermanentError ErrorTypeInput (PlainError ''payload has no step ID'')), w)
      else case stmt (GetTaskByWorkflowID (tp_WorkflowID p)) w of
             (None, w1) \<Rightarrow> (Inl (PlainError ''no task record found''), w1)
           | (Some record, w1) \<Rightarrow>
      (case registryFor mg (tk_ManifestVersion record) of
             Some e \<Rightarrow> (Inl e, w1)
           | None \<Rightarrow>
      (case mg_stepTemplate mg (tk_ManifestVersion record) (tp_TaskTemplateID p) of
             Inl e \<Rightarrow> (Inl (Wrapped (artifactError e)), w1)
           | Inr template \<Rightarrow>
      (case registry_Get (mg_plugins mg) (sp_PluginType template) of
             None \<Rightarrow> (Inl (PermanentError ErrorTypeConfig (PlainError ''unregistered plugin'')), w1)
           | Some pl \<Rightarrow>
      (case stmt (ClaimStep (tk_TaskID record) (step_claim p)) w1 of
             (Inl msg, w2) \<Rightarrow> (Inl (Wrapped (PlainError msg)), w2)
           | (Inr rows, w2) \<Rightarrow>
               if rows = 0 then (Inl (ApplicationError ''StaleStep'' True (Some ErrStaleStep)), w2)
               else run_plugin pl template p (claimed_record p record) w2)))))"

definition StartTaskStep :: "TaskManager \<Rightarrow> TaskPayload \<Rightarrow> tworld \<Rightarrow> (tferr + vars option) \<times> tworld" where
  "StartTaskStep mg p w =
     (case startTaskStep_body mg p w of
        (Inl e, w') \<Rightarrow> (Inl (surfacePermanent e), w')
      | (Inr out, w') \<Rightarrow> (Inr out, w'))"

section \<open>Completion of the task workflow\<close>

definition resume_parent :: "TaskManager \<Rightarrow> TaskRecord \<Rightarrow> WorkflowCompletion \<Rightarrow> tworld \<Rightarrow> tferr option \<times> tworld" where
  "resume_parent mg record c w =
     (let err = mg_onTaskCompleted mg (tk_ParentWorkflowID record) (tk_ParentStepID record) (wc_FinalVariables c) (tw_calls w);
          w' = called (ResumedParent (tk_ParentWorkflowID record) (tk_ParentStepID record) (wc_FinalVariables c) err) w
      in case err of
           Some e \<Rightarrow> (if errors_Is e ErrActivationNotPending then None else Some e, w')
         | None \<Rightarrow> (None, w'))"

definition HandleTaskCompletion :: "TaskManager \<Rightarrow> WorkflowCompletion \<Rightarrow> tworld \<Rightarrow> tferr option \<times> tworld" where
  "HandleTaskCompletion mg c w =
     (case stmt (GetTaskByWorkflowID (wc_WorkflowID c)) w of
        (None, w1) \<Rightarrow> (None, w1)
      | (Some record, w1) \<Rightarrow>
          if tk_State record = StateCancelled then (None, w1)
          else case stmt (CompleteTask (tk_TaskID record) (wc_Seq c)) w1 of
                 (Inl msg, w2) \<Rightarrow> (Some (Wrapped (PlainError msg)), w2)
               | (Inr rows, w2) \<Rightarrow>
                   if rows = 0
                   then (case stmt (GetTask (tk_TaskID record)) w2 of
                           (Some cur, w3) \<Rightarrow>
                             if tk_State cur = StateCancelled then (None, w3) else resume_parent mg record c w3
                         | (None, w3) \<Rightarrow> resume_parent mg record c w3)
                   else resume_parent mg record c w2)"

section \<open>Extensions\<close>

definition declaresExtension :: "ExtensionConfig list \<Rightarrow> string \<Rightarrow> string \<Rightarrow> bool" where
  "declaresExtension extensions eid phase = list_ex (\<lambda>x. xc_ID x = eid \<and> xc_Phase x = phase) extensions"

definition checkRequiredPreResume :: "TaskManager \<Rightarrow> StepTemplate \<Rightarrow> tferr option" where
  "checkRequiredPreResume mg step =
     (if mg_requiredPreResume mg = [] then None
      else if mg_extensions mg = None then Some (Wrapped ErrStepNotGuarded)
      else if list_all (\<lambda>eid. declaresExtension (sp_Extensions step) eid PhasePreResume) (mg_requiredPreResume mg) then None
      else Some (Wrapped ErrStepNotGuarded))"

fun ext_loop ::
  "(string \<times> extension) list \<Rightarrow> string \<Rightarrow> ExtensionConfig list \<Rightarrow> bool \<Rightarrow> TaskRecord \<Rightarrow> vars \<Rightarrow> tworld \<Rightarrow> tferr option \<times> tworld" where
  "ext_loop reg phase [] stopOnError record payload w = (None, w)"
| "ext_loop reg phase (cfg # cfgs) stopOnError record payload w =
     (if xc_Phase cfg \<noteq> phase then ext_loop reg phase cfgs stopOnError record payload w
      else case registry_Get reg (xc_ID cfg) of
             None \<Rightarrow> if stopOnError then (Some (PlainError ''not registered''), w)
                     else ext_loop reg phase cfgs stopOnError record payload w
           | Some ext \<Rightarrow>
               (case ext record payload (xc_Properties cfg) (tw_calls w) of
                  (err, record', payload') \<Rightarrow>
                    (let w' = called (RanExtension (xc_ID cfg) phase record payload err) w
                     in case err of
                          Some e \<Rightarrow> if stopOnError then (Some (Wrapped e), w')
                                    else ext_loop reg phase cfgs stopOnError record' payload' w'
                        | None \<Rightarrow> ext_loop reg phase cfgs stopOnError record' payload' w')))"

definition runExtensions ::
  "TaskManager \<Rightarrow> TaskRecord \<Rightarrow> string \<Rightarrow> ExtensionConfig list \<Rightarrow> vars \<Rightarrow> bool \<Rightarrow> tworld \<Rightarrow> tferr option \<times> tworld" where
  "runExtensions mg record phase extensions payload stopOnError w =
     (case mg_extensions mg of
        None \<Rightarrow> (None, w)
      | Some reg \<Rightarrow> ext_loop reg phase extensions stopOnError record payload w)"

section \<open>Submissions and drafts\<close>

definition withoutSystemVars :: "entries \<Rightarrow> entries" where
  "withoutSystemVars payload = filter (\<lambda>(k, v). \<not> has_prefix ''__'' k) payload"

definition data_of :: "TaskRecord \<Rightarrow> vars" where
  "data_of record = (case map_option deepcopy_Map (tk_Data record) of Some d \<Rightarrow> d | None \<Rightarrow> empty_map)"

definition submissionData :: "TaskRecord \<Rightarrow> StepTemplate \<Rightarrow> entries \<Rightarrow> vars" where
  "submissionData record template payload =
     (if payload = [] then data_of record
      else if sp_OutputNamespace template = [] then data_of record
      else (data_of record)(sp_OutputNamespace template \<mapsto> VMap (map_of (withoutSystemVars payload))))"

text \<open>Recording an accepted submission, and the background run of the post-resume extensions: nothing
  here can fail the call.\<close>

definition record_submission ::
  "TaskManager \<Rightarrow> TaskRecord \<Rightarrow> StepTemplate \<Rightarrow> string \<Rightarrow> string \<Rightarrow> entries \<Rightarrow> tworld \<Rightarrow> tworld" where
  "record_submission mg record template taskID stepID payload w =
     (let data = submissionData record template payload; seq = tk_Seq record
      in case stmt (PersistSubmission taskID stepID seq (Some data)) w of
           (r, w1) \<Rightarrow>
             (let record' = (case r of
                               Inr rows \<Rightarrow> if rows = 0 then record
                                 else record\<lparr>tk_Data := Some data, tk_State := StateAdvancing, tk_Seq := seq + 1\<rparr>
                             | Inl _ \<Rightarrow> record)
              in if mg_extensions mg \<noteq> None \<and> sp_Extensions template \<noteq> []
                 then snd (runExtensions mg ((record_DeepCopy record')\<lparr>tk_Data := Some (deepcopy_Map data)\<rparr>) PhasePostResume
                             (sp_Extensions template) (deepcopy_Map (map_of payload)) False w1)
                 else w1))"

definition resume_step ::
  "TaskManager \<Rightarrow> TaskRecord \<Rightarrow> StepTemplate \<Rightarrow> string \<Rightarrow> string \<Rightarrow> entries \<Rightarrow> tworld \<Rightarrow> tferr option \<times> tworld" where
  "resume_step mg record template taskID stepID payload w =
     (let err = mg_CompleteActivation mg (tk_TaskWorkflowID record) stepID (map_of payload) (tw_calls w);
          w' = called (CompletedActivation (tk_TaskWorkflowID record) stepID (map_of payload) err) w
      in case err of
           Some e \<Rightarrow> (Some (if errors_Is e ErrActivationNotPending then Wrapped ErrStaleStep else Wrapped e), w')
         | None \<Rightarrow> (None, record_submission mg record template taskID stepID payload w'))"

definition CompleteTaskStep ::
  "TaskManager \<Rightarrow> string \<Rightarrow> string \<Rightarrow> entries \<Rightarrow> tworld \<Rightarrow> tferr option \<times> tworld" where
  "CompleteTaskStep mg taskID stepID payload w =
     (if stepID = [] then (Some ErrStepIDRequired, w)
      else case stmt (GetTask taskID) w of
             (None, w1) \<Rightarrow> (Some (Wrapped ErrTaskNotFound), w1)
           | (Some record, w1) \<Rightarrow>
               if tk_State record = StateCompleted \<or> tk_State record = StateCancelled then (Some (Wrapped ErrStaleStep), w1)
               else if tk_ActiveStepID record \<noteq> stepID then (Some (Wrapped ErrStaleStep), w1)
               else
      (case registryFor mg (tk_ManifestVersion record) of
             Some e \<Rightarrow> (Some (Wrapped e), w1)
           | None \<Rightarrow>
      (case mg_stepTemplate mg (tk_ManifestVersion record) (tk_ActiveTaskTemplateID record) of
             Inl e \<Rightarrow> (Some (Wrapped e), w1)
           | Inr template \<Rightarrow>
      (case checkRequiredPreResume mg template of
             Some e \<Rightarrow> (Some e, w1)
           | None \<Rightarrow>
      (case runExtensions mg (record_DeepCopy record) PhasePreResume (sp_Extensions template) (deepcopy_Map (map_of payload)) True w1 of
             (Some e, w2) \<Rightarrow> (Some e, w2)
           | (None, w2) \<Rightarrow> resume_step mg record template taskID stepID payload w2)))))"

definition CommandVar :: string where "CommandVar = ''__command''"

definition draftable :: "string \<Rightarrow> bool" where
  "draftable state \<longleftrightarrow> state \<notin> {StateStartingStep, StateAdvancing, StateCompleted, StateCancelled, StateOnHold}"

definition write_draft :: "TaskRecord \<Rightarrow> StepTemplate \<Rightarrow> string \<Rightarrow> string \<Rightarrow> entries \<Rightarrow> tworld \<Rightarrow> tferr option \<times> tworld" where
  "write_draft record template taskID stepID payload w =
     (let data = (data_of record)(sp_OutputNamespace template \<mapsto> VMap (map_of (withoutSystemVars payload)))
      in case stmt (WriteDraft taskID stepID (tk_Seq record) (Some data)) w of
           (Inl msg, w') \<Rightarrow> (Some (Wrapped (PlainError msg)), w')
         | (Inr rows, w') \<Rightarrow> (if rows = 0 then Some (Wrapped ErrStaleStep) else None, w'))"

definition SaveDraft ::
  "TaskManager \<Rightarrow> string \<Rightarrow> string \<Rightarrow> entries \<Rightarrow> tworld \<Rightarrow> tferr option \<times> tworld" where
  "SaveDraft mg taskID stepID payload w =
     (if stepID = [] then (Some ErrStepIDRequired, w)
      else case stmt (GetTask taskID) w of
             (None, w1) \<Rightarrow> (Some (Wrapped ErrTaskNotFound), w1)
           | (Some record, w1) \<Rightarrow>
               if tk_ActiveStepID record \<noteq> stepID then (Some (Wrapped ErrStaleStep), w1)
               else if \<not> draftable (tk_State record) then (Some (Wrapped ErrStaleStep), w1)
               else
      (case registryFor mg (tk_ManifestVersion record) of
             Some e \<Rightarrow> (Some (Wrapped e), w1)
           | None \<Rightarrow>
      (case mg_stepTemplate mg (tk_ManifestVersion record) (tk_ActiveTaskTemplateID record) of
             Inl e \<Rightarrow> (Some (Wrapped e), w1)
           | Inr template \<Rightarrow>
      (case sp_Draft template of
             None \<Rightarrow> (Some (Wrapped ErrDraftNotEnabled), w1)
           | Some command \<Rightarrow>
      (case checkRequiredPreResume mg template of
             Some e \<Rightarrow> (Some e, w1)
           | None \<Rightarrow>
      (case runExtensions mg (record_DeepCopy record) PhasePreResume (sp_Extensions template)
                ((deepcopy_Map (map_of payload))(CommandVar \<mapsto> VStr command)) True w1 of
             (Some e, w2) \<Rightarrow> (Some e, w2)
           | (None, w2) \<Rightarrow> write_draft record template taskID stepID payload w2))))))"

section \<open>Cancelling, holding, claims\<close>

definition CancelTask :: "TaskManager \<Rightarrow> string \<Rightarrow> string \<Rightarrow> tworld \<Rightarrow> tferr option \<times> tworld" where
  "CancelTask mg taskID reason w =
     (case mg_TerminateWorkflow mg of
        None \<Rightarrow> (Some (PlainError ''the task workflow manager cannot terminate workflows''), w)
      | Some terminate \<Rightarrow>
     (case stmt (GetTask taskID) w of
        (None, w1) \<Rightarrow> (Some (Wrapped ErrTaskNotOpen), w1)
      | (Some record, w1) \<Rightarrow>
          if tk_State record = StateCompleted then (Some (Wrapped ErrTaskNotOpen), w1)
          else (let err = terminate (tk_TaskWorkflowID record) reason (tw_calls w1);
                    w2 = called (TerminatedWorkflow (tk_TaskWorkflowID record) reason err) w1;
                    failed = (case err of Some e \<Rightarrow> \<not> errors_Is e ErrWorkflowNotFound | None \<Rightarrow> False)
                in if failed then (Some (Wrapped (the err)), w2)
                   else case stmt (db_CancelTask taskID) w2 of
                          (Inl msg, w3) \<Rightarrow> (Some (Wrapped (PlainError msg)), w3)
                        | (Inr rows, w3) \<Rightarrow> (if rows = 0 then Some (Wrapped ErrTaskNotOpen) else None, w3))))"

definition HoldTask :: "AdminParkPayload \<Rightarrow> tworld \<Rightarrow> tferr option \<times> tworld" where
  "HoldTask p w =
     (case stmt (GetTaskByWorkflowID (ap_WorkflowID p)) w of
        (None, w1) \<Rightarrow> (None, w1)
      | (Some record, w1) \<Rightarrow>
          (case stmt (db_HoldTask (tk_TaskID record) (int (ap_Seq p))) w1 of
             (Inl msg, w2) \<Rightarrow> (Some (Wrapped (PlainError msg)), w2)
           | (Inr _, w2) \<Rightarrow> (None, w2)))"

definition claimAttempts :: nat where "claimAttempts = 3"

text \<open>\<open>now n\<close> is the time read when \<open>n\<close> attempts are left after this one.\<close>

fun claim_loop :: "(nat \<Rightarrow> int) \<Rightarrow> string \<Rightarrow> string \<Rightarrow> nat \<Rightarrow> tworld \<Rightarrow> tferr option \<times> tworld" where
  "claim_loop now taskID holder 0 w = (Some (PlainError ''the claim kept changing, try again''), w)"
| "claim_loop now taskID holder (Suc n) w =
     (case stmt (db_ClaimTask taskID holder (now n)) w of
        (Inl msg, w1) \<Rightarrow> (Some (Wrapped (PlainError msg)), w1)
      | (Inr rows, w1) \<Rightarrow>
          if rows > 0 then (None, w1)
          else (case stmt (GetTask taskID) w1 of
                  (None, w2) \<Rightarrow> (Some (Wrapped ErrTaskNotFound), w2)
                | (Some record, w2) \<Rightarrow>
                    if tk_State record = StateCompleted then (Some (Wrapped ErrTaskCompleted), w2)
                    else if tk_ClaimedBy record \<noteq> [] \<and> tk_ClaimedBy record \<noteq> holder
                    then (Some (ClaimHeldError (tk_ClaimedBy record) (tk_ClaimedAt record)), w2)
                    else claim_loop now taskID holder n w2))"

definition ClaimTask :: "(nat \<Rightarrow> int) \<Rightarrow> string \<Rightarrow> string \<Rightarrow> tworld \<Rightarrow> tferr option \<times> tworld" where
  "ClaimTask now taskID holder w =
     (if holder = [] then (Some ErrHolderRequired, w) else claim_loop now taskID holder claimAttempts w)"

fun release_loop :: "string \<Rightarrow> string \<Rightarrow> nat \<Rightarrow> tworld \<Rightarrow> tferr option \<times> tworld" where
  "release_loop taskID holder 0 w = (Some (PlainError ''the claim kept changing, try again''), w)"
| "release_loop taskID holder (Suc n) w =
     (case stmt (db_ReleaseTask taskID holder) w of
        (Inl msg, w1) \<Rightarrow> (Some (Wrapped (PlainError msg)), w1)
      | (Inr rows, w1) \<Rightarrow>
          if rows > 0 then (None, w1)
          else (case stmt (GetTask taskID) w1 of
                  (None, w2) \<Rightarrow> (Some (Wrapped ErrTaskNotFound), w2)
                | (Some record, w2) \<Rightarrow>
                    if tk_ClaimedBy record = [] then (None, w2)
                    else if tk_ClaimedBy record \<noteq> holder then (Some (Wrapped ErrNotClaimHolder), w2)
                    else release_loop taskID holder n w2))"

definition ReleaseTask :: "string \<Rightarrow> string \<Rightarrow> tworld \<Rightarrow> tferr option \<times> tworld" where
  "ReleaseTask taskID holder w =
     (if holder = [] then (Some ErrHolderRequired, w) else release_loop taskID holder claimAttempts w)"

section \<open>Views\<close>

definition view_of :: "TaskRecord \<Rightarrow> string option \<Rightarrow> TaskView" where
  "view_of r view =
     \<lparr>tv_TaskID = tk_TaskID r, tv_TaskType = tk_TaskType r, tv_State = tk_State r, tv_StepID = tk_ActiveStepID r,
      tv_Version = tk_Seq r, tv_ClaimedBy = tk_ClaimedBy r, tv_ClaimedAt = tk_ClaimedAt r, tv_View = view\<rparr>"

definition renderconfig_Load :: "TaskManager \<Rightarrow> TaskRecord \<Rightarrow> tferr + string" where
  "renderconfig_Load mg record =
     (if tk_TaskTemplateID record = [] then Inl (Wrapped ErrNoTaskTemplate)
      else case mg_artifacts mg (tk_ManifestVersion record) of
             Some e \<Rightarrow> Inl (Wrapped e)
           | None \<Rightarrow>
      (case mg_taskTemplate mg (tk_ManifestVersion record) (tk_TaskTemplateID record) of
             Inl e \<Rightarrow> Inl (Wrapped e)
           | Inr template \<Rightarrow>
      (case mg_genericTemplate mg (tk_ManifestVersion record) (tt_RenderConfigID template) of
             Inl e \<Rightarrow> Inl (Wrapped e)
           | Inr raw \<Rightarrow> Inr raw)))"

definition GetTaskRenderInfo :: "TaskManager \<Rightarrow> string \<Rightarrow> tworld \<Rightarrow> (tferr + TaskView) \<times> tworld" where
  "GetTaskRenderInfo mg taskID w =
     (case stmt (GetTask taskID) w of
        (None, w1) \<Rightarrow> (Inl (Wrapped ErrTaskNotFound), w1)
      | (Some record, w1) \<Rightarrow>
          (case renderconfig_Load mg record of
             Inl e \<Rightarrow> (Inl (Wrapped e), w1)
           | Inr config \<Rightarrow>
               (case mg_renderer mg config (tk_State record) (tk_Data record) of
                  Inl e \<Rightarrow> (Inl (Wrapped e), w1)
                | Inr view \<Rightarrow> (Inr (view_of record (Some view)), w1))))"

definition mg_GetTasks :: "TaskFilter \<Rightarrow> tworld \<Rightarrow> TaskView list \<times> tworld" where
  "mg_GetTasks f w = (case stmt (GetTasks f) w of (records, w1) \<Rightarrow> (map (\<lambda>r. view_of r None) records, w1))"

end
