(* ===== verification/Task_Props.thy ===== *)
theory Task_Props
  imports Task_Manager
begin

text \<open>
  What the task manager guarantees while other calls run at the same time: submissions reach the workflow
  once and only past their guards, late starts of a step have no effect, claims are exclusive.
\<close>

section \<open>Extension runs\<close>

fun ran_extension :: "string \<Rightarrow> tcall \<Rightarrow> bool" where
  "ran_extension phase (RanExtension i ph r p e) \<longleftrightarrow> ph = phase"
| "ran_extension phase _ \<longleftrightarrow> False"

fun passed :: "string \<Rightarrow> string \<Rightarrow> tcall \<Rightarrow> bool" where
  "passed phase i (RanExtension j ph r p e) \<longleftrightarrow> j = i \<and> ph = phase \<and> e = None"
| "passed phase i _ \<longleftrightarrow> False"

lemma ext_loop_frame:
  "ext_loop reg phase cfgs stop r p w = (e, w') \<Longrightarrow>
   tw_db w' = tw_db w \<and> tw_others w' = tw_others w \<and>
   (\<exists>cs. tw_calls w' = tw_calls w @ cs \<and> list_all (ran_extension phase) cs \<and>
      (stop \<and> e = None \<longrightarrow> (\<forall>cfg \<in> set cfgs. xc_Phase cfg = phase \<longrightarrow> list_ex (passed phase (xc_ID cfg)) cs)))"
proof (induction cfgs arbitrary: r p w)
  case (Cons cfg cfgs)
  consider (skipped) "ext_loop reg phase cfgs stop r p w = (e, w')" "stop \<longrightarrow> xc_Phase cfg \<noteq> phase"
    | (unknown) "w' = w" "e \<noteq> None"
    | (failed) err where "w' = called (RanExtension (xc_ID cfg) phase r p err) w" "e \<noteq> None"
    | (ran) err r' p' where "ext_loop reg phase cfgs stop r' p' (called (RanExtension (xc_ID cfg) phase r p err) w) = (e, w')"
        "stop \<longrightarrow> err = None"
    using Cons.prems by (auto simp: Let_def split: if_splits option.splits prod.splits)
  then show ?case
  proof cases
    case skipped
    with Cons.IH[OF skipped(1)] show ?thesis by auto
  next
    case unknown
    then show ?thesis by auto
  next
    case failed
    then show ?thesis by auto
  next
    case ran
    from Cons.IH[OF ran(1)] obtain cs where "tw_db w' = tw_db w" "tw_others w' = tw_others w"
      "tw_calls w' = tw_calls w @ RanExtension (xc_ID cfg) phase r p err # cs" "list_all (ran_extension phase) cs"
      "stop \<and> e = None \<longrightarrow> (\<forall>cfg \<in> set cfgs. xc_Phase cfg = phase \<longrightarrow> list_ex (passed phase (xc_ID cfg)) cs)"
      by auto
    with ran(2) show ?thesis
      by (intro conjI exI[of _ "RanExtension (xc_ID cfg) phase r p err # cs"])
        auto
  qed
qed simp

lemma runExtensions_frame:
  assumes "runExtensions mg r phase cfgs p stop w = (e, w')"
  obtains cs where "tw_db w' = tw_db w" and "tw_others w' = tw_others w" and "tw_calls w' = tw_calls w @ cs"
    and "list_all (ran_extension phase) cs"
    and "stop \<and> e = None \<and> mg_extensions mg \<noteq> None \<longrightarrow> (\<forall>i. declaresExtension cfgs i phase \<longrightarrow> list_ex (passed phase i) cs)"
proof (cases "mg_extensions mg")
  case None
  with assms that[of "[]"] show ?thesis by (simp add: runExtensions_def)
next
  case (Some reg)
  with assms have "ext_loop reg phase cfgs stop r p w = (e, w')" by (simp add: runExtensions_def)
  from ext_loop_frame[OF this] that show ?thesis by (fastforce simp: declaresExtension_def list_ex_iff)
qed

lemma record_submission_frame:
  assumes "record_submission mg r tpl t s p w = w'"
  obtains res post where "PersistSubmission t s (tk_Seq r) (Some (submissionData r tpl p)) (meanwhile w) = (res, tw_db w')"
    and "tw_calls w' = tw_calls w @ post" and "list_all (ran_extension PhasePostResume) post"
proof -
  obtain res w1 where st: "stmt (PersistSubmission t s (tk_Seq r) (Some (submissionData r tpl p))) w = (res, w1)" by fastforce
  from assms st consider "w' = w1"
    | r' q where "w' = snd (runExtensions mg r' PhasePostResume (sp_Extensions tpl) q False w1)"
    unfolding record_submission_def Let_def by (auto split: if_splits)
  then have "tw_db w' = tw_db w1 \<and> (\<exists>post. tw_calls w' = tw_calls w1 @ post \<and> list_all (ran_extension PhasePostResume) post)"
  proof cases
    case 2
    then show ?thesis by (metis runExtensions_frame surjective_pairing)
  qed simp
  with that stmt_db[OF st] stmt_calls[OF st] show ?thesis by auto
qed

section \<open>Submissions\<close>

text \<open>The read and the checks every submission goes through.\<close>

definition open_step :: "string \<Rightarrow> string \<Rightarrow> task_db \<Rightarrow> TaskRecord \<Rightarrow> bool" where
  "open_step t s db r \<longleftrightarrow>
     fst (GetTask t db) = Some r \<and> tk_State r \<notin> {StateCompleted, StateCancelled} \<and> tk_ActiveStepID r = s"

lemma CompleteTaskStep_stages:
  assumes "CompleteTaskStep mg t s p w = (e, w')"
  obtains
    (refused) err where "e = Some err" "tw_calls w' = tw_calls w" "w' = w \<or> tw_db w' = snd (GetTask t (meanwhile w))"
  | (rejected) r cfgs w1 err where "e = Some err" "tw_db w1 = snd (GetTask t (meanwhile w))" "tw_calls w1 = tw_calls w"
      "runExtensions mg r PhasePreResume cfgs (map_of p) True w1 = (Some err, w')"
  | (resumed) r tpl w1 w2 where "open_step t s (meanwhile w) r" "tw_db w1 = snd (GetTask t (meanwhile w))" "tw_calls w1 = tw_calls w"
      "mg_stepTemplate mg (tk_ManifestVersion r) (tk_ActiveTaskTemplateID r) = Inr tpl"
      "checkRequiredPreResume mg tpl = None"
      "runExtensions mg (record_DeepCopy r) PhasePreResume (sp_Extensions tpl) (map_of p) True w1 = (None, w2)"
      "resume_step mg r tpl t s p w2 = (e, w')"
proof -
  obtain rd w1 where st: "stmt (GetTask t) w = (rd, w1)" by fastforce
  have "tw_db w1 = snd (GetTask t (meanwhile w))" "rd = fst (GetTask t (meanwhile w))"
    using stmt_db[OF st] by simp_all
  note rd = this stmt_calls[OF st]
  from assms have "(\<exists>err. e = Some err \<and> (w' = w \<or> w' = w1)) \<or>
     (\<exists>r cfgs err. e = Some err \<and> runExtensions mg r PhasePreResume cfgs (map_of p) True w1 = (Some err, w')) \<or>
     (\<exists>r tpl w2. rd = Some r \<and> tk_State r \<notin> {StateCompleted, StateCancelled} \<and> tk_ActiveStepID r = s \<and>
        mg_stepTemplate mg (tk_ManifestVersion r) (tk_ActiveTaskTemplateID r) = Inr tpl \<and> checkRequiredPreResume mg tpl = None \<and>
        runExtensions mg (record_DeepCopy r) PhasePreResume (sp_Extensions tpl) (map_of p) True w1 = (None, w2) \<and>
        resume_step mg r tpl t s p w2 = (e, w'))"
    unfolding CompleteTaskStep_def st by (auto split: if_splits option.splits sum.splits prod.splits)
  then show ?thesis
  proof (elim disjE exE conjE)
    fix r tpl w2
    assume "rd = Some r" "tk_State r \<notin> {StateCompleted, StateCancelled}" "tk_ActiveStepID r = s"
    with rd have "open_step t s (meanwhile w) r" by (simp add: open_step_def)
    then show "mg_stepTemplate mg (tk_ManifestVersion r) (tk_ActiveTaskTemplateID r) = Inr tpl \<Longrightarrow> checkRequiredPreResume mg tpl = None \<Longrightarrow>
        runExtensions mg (record_DeepCopy r) PhasePreResume (sp_Extensions tpl) (map_of p) True w1 = (None, w2) \<Longrightarrow>
        resume_step mg r tpl t s p w2 = (e, w') \<Longrightarrow> thesis"
      using rd by (intro resumed)
  qed (use rd in \<open>auto intro: refused rejected\<close>)
qed

lemma resume_step_cases:
  assumes "resume_step mg r tpl t s p w = (e, w')"
  obtains
    (turned_away) err where "e \<noteq> None" "tw_db w' = tw_db w"
      "tw_calls w' = tw_calls w @ [CompletedActivation (tk_TaskWorkflowID r) s (map_of p) (Some err)]"
  | (accepted) post db res where "e = None"
      "tw_calls w' = tw_calls w @ CompletedActivation (tk_TaskWorkflowID r) s (map_of p) None # post"
      "list_all (ran_extension PhasePostResume) post"
      "PersistSubmission t s (tk_Seq r) (Some (submissionData r tpl p)) db = (res, tw_db w')"
proof (cases "mg_CompleteActivation mg (tk_TaskWorkflowID r) s (map_of p) (tw_calls w)")
  case None
  with assms have e: "e = None" and
    "record_submission mg r tpl t s p (called (CompletedActivation (tk_TaskWorkflowID r) s (map_of p) None) w) = w'"
    by (simp_all add: resume_step_def Let_def)
  from record_submission_frame[OF this(2)] show ?thesis using accepted[OF e] by (metis append.assoc append_Cons append_Nil called_simps(3))
next
  case (Some err)
  with assms show ?thesis by (intro turned_away[of err]) (auto simp: resume_step_def Let_def)
qed


section \<open>Guards\<close>

lemma required_declared:
  "checkRequiredPreResume mg tpl = None \<Longrightarrow> i \<in> set (mg_requiredPreResume mg) \<Longrightarrow>
   mg_extensions mg \<noteq> None \<and> declaresExtension (sp_Extensions tpl) i PhasePreResume"
  by (auto simp: checkRequiredPreResume_def list_all_iff split: if_splits)

lemma guarded_run:
  assumes "checkRequiredPreResume mg tpl = None" and "i \<in> set (mg_requiredPreResume mg)"
    and "runExtensions mg r PhasePreResume (sp_Extensions tpl) p True w = (None, w')"
  shows "\<exists>cs. tw_calls w' = tw_calls w @ cs \<and> list_ex (passed PhasePreResume i) cs"
  using required_declared[OF assms(1,2)] assms(3) by (metis runExtensions_frame)

lemma SaveDraft_checked:
  assumes "SaveDraft mg t s p w = (None, w')"
  obtains r tpl q w1 w2 where "tw_calls w1 = tw_calls w" and "checkRequiredPreResume mg tpl = None"
    and "runExtensions mg r PhasePreResume (sp_Extensions tpl) q True w1 = (None, w2)" and "tw_calls w' = tw_calls w2"
proof -
  obtain rd w1 where st: "stmt (GetTask t) w = (rd, w1)" by fastforce
  from assms obtain r r' tpl q w2 where "checkRequiredPreResume mg tpl = None"
      "runExtensions mg r PhasePreResume (sp_Extensions tpl) q True w1 = (None, w2)" "write_draft r' tpl t s p w2 = (None, w')"
    unfolding SaveDraft_def st by (auto split: if_splits option.splits sum.splits prod.splits)
  moreover from this(3) have "tw_calls w' = tw_calls w2"
    by (auto simp: write_draft_def Let_def dest: stmt_calls split: prod.splits sum.splits)
  ultimately show ?thesis using that stmt_calls[OF st] by blast
qed

text \<open>C17. Nobody gets past a required extension: when the manager was built with required pre-resume
  extensions and a submission or a draft goes through, every one of them has run during that call without
  an error, whatever the step template declares.\<close>

theorem step_guarded:
  assumes "CompleteTaskStep mg t s p w = (None, w') \<or> SaveDraft mg t s p w = (None, w')"
    and "i \<in> set (mg_requiredPreResume mg)"
  shows "\<exists>cs. tw_calls w' = tw_calls w @ cs \<and> list_ex (passed PhasePreResume i) cs"
  using assms(1)
proof
  assume "CompleteTaskStep mg t s p w = (None, w')"
  then show ?thesis
  proof (cases rule: CompleteTaskStep_stages)
    case (resumed r tpl w1 w2)
    from guarded_run[OF resumed(5) assms(2) resumed(6)] resumed(3)
    obtain cs where cs: "tw_calls w2 = tw_calls w @ cs" "list_ex (passed PhasePreResume i) cs" by auto
    from resumed(7) have "\<exists>post. tw_calls w' = tw_calls w2 @ post"
      by (cases rule: resume_step_cases) auto
    with cs show ?thesis by auto
  qed auto
next
  assume "SaveDraft mg t s p w = (None, w')"
  then obtain r tpl q w1 w2 where d: "tw_calls w1 = tw_calls w" "checkRequiredPreResume mg tpl = None"
    "runExtensions mg r PhasePreResume (sp_Extensions tpl) q True w1 = (None, w2)" "tw_calls w' = tw_calls w2"
    by (rule SaveDraft_checked)
  from guarded_run[OF d(2) assms(2) d(3)] d(1,4) show ?thesis by simp
qed

section \<open>Statements among other calls\<close>

text \<open>Other calls may do anything that keeps the primary key.\<close>

definition orderly :: "tworld \<Rightarrow> bool" where
  "orderly w \<longleftrightarrow> keyed (tw_db w) \<and> (\<forall>f \<in> set (tw_others w). \<forall>db. keyed db \<longrightarrow> keyed (f db))"

lemma orderly_meanwhile: "orderly w \<Longrightarrow> keyed (meanwhile w)"
  by (auto simp: orderly_def meanwhile_def split: list.splits)

lemma stmt_orderly: "stmt run w = (r, w') \<Longrightarrow> orderly w \<Longrightarrow> keyed (tw_db w') \<Longrightarrow> orderly w'"
  by (auto simp: stmt_def orderly_def split: prod.splits) (meson in_set_dropD)

lemma stmt_others: "stmt run w = (r, w') \<Longrightarrow> tw_others w' = drop 1 (tw_others w)"
  by (auto simp: stmt_def split: prod.splits)

lemma stmt_update:
  assumes "stmt (stepUpdate k guard upd) w = (r, w')" and "\<And>m. tm_TaskID (upd m) = tm_TaskID m" and "orderly w"
  shows "orderly w' \<and>
         ((\<exists>msg. r = Inl msg \<and> td_tasks (tw_db w') = td_tasks (meanwhile w)) \<or>
          r = Inr 0 \<and> row (tw_db w') = row (meanwhile w) \<or>
          (\<exists>m. r = Inr 1 \<and> row (meanwhile w) k = Some m \<and> guard m \<and> row (tw_db w') k = Some (upd m)))"
proof -
  note u = stepUpdate_row[OF stmt_db[OF assms(1)] assms(2) orderly_meanwhile[OF assms(3)]]
  then have "orderly w'" using stmt_orderly[OF assms(1,3)] by blast
  moreover have "r = Inr 0 \<and> row (tw_db w') = row (meanwhile w)"
    if "r = Inr (case row (meanwhile w) k of None \<Rightarrow> 0 | Some m \<Rightarrow> if guard m then 1 else 0)"
      "\<forall>i. row (tw_db w') i = map_option (\<lambda>m. if i = k \<and> guard m then upd m else m) (row (meanwhile w) i)"
      "\<forall>m. row (meanwhile w) k = Some m \<longrightarrow> \<not> guard m"
    using that by (auto simp: fun_eq_iff split: option.splits intro!: option.map_ident_strong)
  ultimately show ?thesis using u by (cases "\<exists>m. row (meanwhile w) k = Some m \<and> guard m") auto
qed

lemma stmt_read:
  assumes "stmt (GetTask k) w = (r, w')" and "orderly w"
  shows "orderly w' \<and> td_tasks (tw_db w') = td_tasks (meanwhile w) \<and>
         (r = None \<or> r = map_option ToDomain (row (tw_db w') k))"
proof -
  note g = GetTask_row[OF stmt_db[OF assms(1)] orderly_meanwhile[OF assms(2)]]
  then have "keyed (tw_db w')" using orderly_meanwhile[OF assms(2)] by (simp add: keyed_def)
  then have "orderly w'" using stmt_orderly[OF assms] by blast
  with g show ?thesis using row_same_tasks[of "tw_db w'" "meanwhile w"] by auto
qed

section \<open>Claims\<close>

definition claim_taken :: "string \<Rightarrow> string \<Rightarrow> task_db \<Rightarrow> task_db \<Rightarrow> bool" where
  "claim_taken t h before after \<longleftrightarrow>
     (\<exists>m m'. row before t = Some m \<and> tm_ClaimedBy m \<in> {None, Some h} \<and> tm_State m \<notin> {StateCompleted, StateCancelled} \<and>
        row after t = Some m' \<and> tm_ClaimedBy m' = Some h \<and>
        (tm_ClaimedBy m = Some h \<longrightarrow> tm_ClaimedAt m' = tm_ClaimedAt m))"

lemma claim_loop_result:
  assumes "claim_loop now t h n w = (e, w')" and "orderly w"
  shows "(e = None \<longrightarrow> (\<exists>db. claim_taken t h db (tw_db w'))) \<and>
         (\<forall>h' since. e = Some (ClaimHeldError h' since) \<longrightarrow> h' \<noteq> h \<and>
            (\<exists>m. row (tw_db w') t = Some m \<and> tm_ClaimedBy m = Some h' \<and> tm_ClaimedAt m = since)) \<and>
         (e \<noteq> None \<and> tw_others w = [] \<longrightarrow> row (tw_db w') = row (tw_db w))"
  using assms
proof (induction n arbitrary: w)
  case (Suc n)
  obtain r w1 where st: "stmt (db_ClaimTask t h (now n)) w = (r, w1)" by fastforce
  have idle: "meanwhile w = tw_db w \<and> tw_others w1 = []" if "tw_others w = []"
    using that stmt_others[OF st] by (simp add: meanwhile_def)
  have "(\<exists>msg. r = Inl msg \<and> td_tasks (tw_db w1) = td_tasks (meanwhile w)) \<or>
        r = Inr 0 \<and> row (tw_db w1) = row (meanwhile w) \<and> orderly w1 \<or> r = Inr 1 \<and> claim_taken t h (meanwhile w) (tw_db w1)"
    using stmt_update[OF st[unfolded db_ClaimTask_def] _ Suc.prems(2), simplified] unfolding claim_taken_def by fastforce
  then consider (failed) msg where "r = Inl msg" "td_tasks (tw_db w1) = td_tasks (meanwhile w)"
    | (unmatched) "r = Inr 0" "row (tw_db w1) = row (meanwhile w)" "orderly w1"
    | (matched) "r = Inr 1" "claim_taken t h (meanwhile w) (tw_db w1)" by blast
  then show ?case
  proof cases
    case (failed msg)
    with Suc.prems(1) st idle show ?thesis by (auto dest: row_same_tasks)
  next
    case matched
    with Suc.prems(1) st show ?thesis by auto
  next
    case unmatched
    obtain rd w2 where rd: "stmt (GetTask t) w1 = (rd, w2)" by fastforce
    note read = stmt_read[OF rd unmatched(3)]
    have same: "row (tw_db w2) = row (tw_db w) \<and> tw_others w2 = []" if "tw_others w = []"
      using that idle unmatched(2) read stmt_others[OF rd] row_same_tasks[of "tw_db w2" "meanwhile w1"]
      by (simp add: meanwhile_def)
    show ?thesis
    proof (cases rd)
      case None
      with Suc.prems(1) st unmatched(1) rd same show ?thesis by auto
    next
      case (Some rc)
      with read obtain m where m: "row (tw_db w2) t = Some m" "rc = ToDomain m"
        by (cases "row (tw_db w2) t") auto
      show ?thesis
      proof (cases "tk_State rc = StateCompleted \<or> tk_ClaimedBy rc \<noteq> [] \<and> tk_ClaimedBy rc \<noteq> h")
        case True
        with Some Suc.prems(1) st unmatched(1) rd same m show ?thesis
          by (auto simp: ToDomain_def split: if_splits option.splits)
      next
        case False
        with Some Suc.prems(1) st unmatched(1) rd have "claim_loop now t h n w2 = (e, w')" by (auto split: if_splits)
        with Suc.IH[of w2] read same show ?thesis by auto
      qed
    qed
  qed
qed auto

text \<open>Claims are exclusive whatever other calls do in between. \<open>ClaimTask\<close> succeeds only by one statement that
  found the task open and either unclaimed or already held by the caller, and that keeps the time of
  the caller's own earlier claim; a refusal names the holder the row really has, who is somebody else; and
  a call that fails has changed no row.\<close>

theorem ClaimTask_exclusive:
  assumes "ClaimTask now t h w = (e, w')" and "orderly w"
  shows "(e = None \<longrightarrow> (\<exists>db. claim_taken t h db (tw_db w'))) \<and>
         (\<forall>h' since. e = Some (ClaimHeldError h' since) \<longrightarrow> h' \<noteq> h \<and>
            (\<exists>m. row (tw_db w') t = Some m \<and> tm_ClaimedBy m = Some h' \<and> tm_ClaimedAt m = since)) \<and>
         (e \<noteq> None \<and> tw_others w = [] \<longrightarrow> row (tw_db w') = row (tw_db w))"
  using assms claim_loop_result[of now t h claimAttempts w e w'] by (auto simp: ClaimTask_def split: if_splits)

text \<open>An unclaimed task that was cancelled is reported as contention: no error the documentation of
  \<open>ClaimTask\<close> lists, but ``the claim kept changing, try again''.\<close>

lemma stmt_idle:
  "tw_others w = [] \<Longrightarrow> stmt run w = (fst (run (tw_db w)), w\<lparr>tw_db := snd (run (tw_db w))\<rparr>)"
  by (cases w) (simp add: stmt_def meanwhile_def split: prod.splits)

lemma stepUpdate_idle:
  assumes "\<And>m. row db t = Some m \<Longrightarrow> \<not> guard m" and "keyed db" and "td_faults db = []"
  shows "stepUpdate t guard upd db = (Inr 0, db)"
proof -
  have "\<not> (tm_TaskID x = t \<and> guard x)" if "x \<in> set (td_tasks db)" for x
    using that assms(1,2) find_keyed[of tm_TaskID "td_tasks db" t] unfolding row_def keyed_def by metis
  then have "update_where t guard upd (td_tasks db) = td_tasks db"
    "filter (\<lambda>m. tm_TaskID m = t \<and> guard m) (td_tasks db) = []"
    by (auto simp: update_where_def filter_empty_conv intro!: map_idI)
  with assms(3) show ?thesis by (simp add: stepUpdate_def sql_exec_def)
qed

theorem claim_of_cancelled_task:
  assumes "row (tw_db w) t = Some m" and "tm_State m = StateCancelled" and "tm_ClaimedBy m = None"
    and "keyed (tw_db w)" and "td_faults (tw_db w) = []" and "tw_others w = []" and "h \<noteq> []"
  shows "fst (ClaimTask now t h w) = Some (PlainError ''the claim kept changing, try again'')"
proof -
  have "claim_loop now t h n w = (Some (PlainError ''the claim kept changing, try again''), w)" for n
  proof (induction n)
    case (Suc n)
    have "db_ClaimTask t h (now n) (tw_db w) = (Inr 0, tw_db w)"
      unfolding db_ClaimTask_def using assms(1,2,4,5) by (intro stepUpdate_idle) auto
    moreover have "GetTask t (tw_db w) = (Some (ToDomain m), tw_db w)"
      using find_sorted[of tm_TaskID "td_tasks (tw_db w)" t tm_TaskID] assms(1,4,5)
      by (cases "tw_db w") (simp add: GetTask_def first_where_def sql_exec_def keyed_def row_def)
    ultimately show ?case using Suc assms(2,3,6)
      by (simp add: stmt_idle ToDomain_def state_names)
  qed simp
  with assms(7) show ?thesis by (simp add: ClaimTask_def)
qed

section \<open>Starting a step\<close>

lemma surfacePermanent_pending:
  "surfacePermanent e = ErrResultPending \<Longrightarrow> e = ErrResultPending"
  by (auto simp: surfacePermanent_def split: if_splits option.splits)

lemma first_where_tasks: "first_where q db = (r, db') \<Longrightarrow> td_tasks db' = td_tasks db"
  by (auto simp: first_where_def sql_exec_def Let_def split: list.splits option.splits)

lemma run_plugin_calls:
  assumes "run_plugin pl tpl p r w = (res, w')"
  shows "\<exists>err. tw_calls w' = tw_calls w @ [RanPlugin (sp_PluginType tpl) r err]"
  using assms by (auto simp: run_plugin_def Let_def dest!: stmt_calls split: prod.splits option.splits sum.splits if_splits)

text \<open>Either the start fails before the plugin, or the claim matched and the plugin ran once.\<close>

lemma startTaskStep_stages:
  assumes "startTaskStep_body mg p w = (res, w')"
  shows "(\<exists>e. res = Inl e \<and> e \<noteq> ErrResultPending \<and> tw_calls w' = tw_calls w) \<or>
         (\<exists>rc w1 w2 pl tpl rows. stmt (GetTaskByWorkflowID (tp_WorkflowID p)) w = (Some rc, w1) \<and>
            stmt (ClaimStep (tk_TaskID rc) (step_claim p)) w1 = (Inr rows, w2) \<and> rows \<noteq> 0 \<and>
            run_plugin pl tpl p (claimed_record p rc) w2 = (res, w'))"
proof -
  obtain rd w1 where rd: "stmt (GetTaskByWorkflowID (tp_WorkflowID p)) w = (rd, w1)" by fastforce
  show ?thesis
  proof (cases rd)
    case None
    with rd assms stmt_calls[OF rd] show ?thesis by (auto simp: startTaskStep_body_def split: if_splits)
  next
    case (Some rc)
    obtain r w2 where cl: "stmt (ClaimStep (tk_TaskID rc) (step_claim p)) w1 = (r, w2)" by fastforce
    have "(\<exists>e. res = Inl e \<and> e \<noteq> ErrResultPending \<and> (w' = w \<or> w' = w1 \<or> w' = w2)) \<or>
          (\<exists>pl tpl rows. r = Inr rows \<and> rows \<noteq> 0 \<and> run_plugin pl tpl p (claimed_record p rc) w2 = (res, w'))"
      using assms Some
      by (simp add: startTaskStep_body_def rd cl registryFor_def split: if_splits option.splits sum.splits) auto
    with rd cl Some stmt_calls[OF rd] stmt_calls[OF cl] show ?thesis by auto
  qed
qed


end
