(* ===== verification/Base64url.thy ===== *)
theory Base64url
  imports Prelude "HOL-Library.Word"
begin

text \<open>
  \<open>base64.RawURLEncoding\<close> over bytes, shared by callback tokens and the authentication of JSON Web Tokens: the
  decoder of the standard library skips line breaks and ignores the unused bits of the last character.
\<close>

definition b64_alphabet :: string where
  "b64_alphabet = ''ABCDEFGHIJKLMNOPQRSTUVWXYZabcdefghijklmnopqrstuvwxyz0123456789-_''"

definition b64_char :: "nat \<Rightarrow> char" where
  "b64_char n = b64_alphabet ! n"

definition b64_val :: "char \<Rightarrow> nat option" where
  "b64_val c = map_of (zip b64_alphabet [0..<64]) c"

type_synonym byte = "8 word"

definition to_byte :: "nat \<Rightarrow> byte" where
  "to_byte n = word_of_nat n"

fun sextets :: "byte list \<Rightarrow> nat list" where
  "sextets [] = []"
| "sextets [a] = [unat a div 4, (unat a mod 4) * 16]"
| "sextets [a, b] = [unat a div 4, (unat a mod 4) * 16 + unat b div 16, (unat b mod 16) * 4]"
| "sextets (a # b # c # bs) =
     [unat a div 4, (unat a mod 4) * 16 + unat b div 16, (unat b mod 16) * 4 + unat c div 64, unat c mod 64] @ sextets bs"

definition b64_EncodeToString :: "byte list \<Rightarrow> string" where
  "b64_EncodeToString bs = map b64_char (sextets bs)"

fun octets :: "nat list \<Rightarrow> byte list option" where
  "octets [] = Some []"
| "octets [p] = None"
| "octets [p, q] = Some [to_byte (p * 4 + q div 16)]"
| "octets [p, q, r] = Some [to_byte (p * 4 + q div 16), to_byte ((q mod 16) * 16 + r div 4)]"
| "octets (p # q # r # s # ns) =
     map_option (\<lambda>bs. to_byte (p * 4 + q div 16) # to_byte ((q mod 16) * 16 + r div 4) # to_byte ((r mod 4) * 64 + s) # bs) (octets ns)"

definition b64_DecodeString :: "string \<Rightarrow> byte list option" where
  "b64_DecodeString s =
     (let vs = map b64_val (filter (\<lambda>c. c \<noteq> CHR 0x0A \<and> c \<noteq> CHR 0x0D) s)
      in if None \<in> set vs then None else octets (map the vs))"

lemma alphabet: "length b64_alphabet = 64" "distinct b64_alphabet"
  "CHR 0x0A \<notin> set b64_alphabet" "CHR 0x0D \<notin> set b64_alphabet"
  by (simp_all add: b64_alphabet_def)

lemma b64_val_char: "n < 64 \<Longrightarrow> b64_val (b64_char n) = Some n"
  using map_of_zip_nth[of b64_alphabet "[0..<64]" n] alphabet by (simp add: b64_val_def b64_char_def)

lemma b64_char_plain: "n < 64 \<Longrightarrow> b64_char n \<noteq> CHR 0x0A \<and> b64_char n \<noteq> CHR 0x0D"
  using alphabet by (metis b64_char_def nth_mem)

lemma byte_bounds: "unat (a :: byte) < 256"
  using unsigned_less[of a] by simp

lemma sextets_bound: "n \<in> set (sextets bs) \<Longrightarrow> n < 64"
proof (induction bs rule: sextets.induct)
  case (2 a)
  then show ?case using byte_bounds[of a] by auto
next
  case (3 a b)
  then show ?case using byte_bounds[of a] byte_bounds[of b] by auto
next
  case (4 a b c bs)
  then show ?case using byte_bounds[of a] byte_bounds[of b] byte_bounds[of c] by auto
qed simp

lemma to_byte_unat: "to_byte (unat a) = a"
  by (simp add: to_byte_def)

lemma octets_sextets: "octets (sextets bs) = Some bs"
proof (induction bs rule: sextets.induct)
  case (2 a)
  have "unat a div 4 * 4 + (unat a mod 4) * 16 div 16 = unat a" by simp
  then show ?case by (simp add: to_byte_unat)
next
  case (3 a b)
  have "((unat a mod 4) * 16 + unat b div 16) div 16 = unat a mod 4" using byte_bounds[of b] by simp
  moreover have "((unat a mod 4) * 16 + unat b div 16) mod 16 = unat b div 16" using byte_bounds[of b] by simp
  ultimately show ?case by (simp add: to_byte_unat)
next
  case (4 a b c bs)
  have "((unat a mod 4) * 16 + unat b div 16) div 16 = unat a mod 4" "((unat a mod 4) * 16 + unat b div 16) mod 16 = unat b div 16"
    using byte_bounds[of b] by simp_all
  moreover have "((unat b mod 16) * 4 + unat c div 64) div 4 = unat b mod 16" "((unat b mod 16) * 4 + unat c div 64) mod 4 = unat c div 64"
    using byte_bounds[of c] by simp_all
  ultimately show ?case using 4 by (simp add: to_byte_unat)
qed simp

lemma b64_Decode_Encode: "b64_DecodeString (b64_EncodeToString bs) = Some bs"
proof -
  have "filter (\<lambda>c. c \<noteq> CHR 0x0A \<and> c \<noteq> CHR 0x0D) (b64_EncodeToString bs) = b64_EncodeToString bs"
    using sextets_bound b64_char_plain by (fastforce simp: b64_EncodeToString_def filter_id_conv)
  moreover have "map b64_val (b64_EncodeToString bs) = map Some (sextets bs)"
    using sextets_bound b64_val_char by (simp add: b64_EncodeToString_def)
  ultimately show ?thesis by (simp add: b64_DecodeString_def octets_sextets image_iff comp_def)
qed

lemma length_b64: "length (b64_EncodeToString bs) = (length bs * 8 + 5) div 6"
proof -
  have "length (sextets bs) = (length bs * 8 + 5) div 6" by (induction bs rule: sextets.induct) auto
  then show ?thesis by (simp add: b64_EncodeToString_def)
qed

end
