(* ===== verification/Callback_Token.thy ===== *)
theory Callback_Token
  imports Task_Manager Base64url
begin

text \<open>
  Callback tokens (\<open>taskflow/callbacktoken\<close>, \<open>plugins.CallbackToken\<close>) and submissions addressed by one
  (\<open>CompleteTaskStepByToken\<close>). The bytes are written in base64url (theory \<open>Base64url\<close>). Package \<open>uuid\<close> is a parameter: \<open>parse\<close>,
  \<open>fromBytes\<close> and \<open>str\<close>.
\<close>

section \<open>Tokens\<close>

definition Version :: char where "Version = CHR ''1''"
definition Length :: nat where "Length = 44"

definition Encode :: "(string \<Rightarrow> byte list option) \<Rightarrow> string \<Rightarrow> string \<Rightarrow> tferr + string" where
  "Encode parse taskID stepID =
     (case parse taskID of
        None \<Rightarrow> Inl (Wrapped (PlainError ''task ID is not a UUID''))
      | Some task \<Rightarrow>
     (case parse stepID of
        None \<Rightarrow> Inl (Wrapped (PlainError ''step ID is not a UUID''))
      | Some step \<Rightarrow> Inr (Version # b64_EncodeToString (task @ step))))"

definition Decode ::
  "(byte list \<Rightarrow> byte list option) \<Rightarrow> (byte list \<Rightarrow> string) \<Rightarrow> string \<Rightarrow> tferr + (string \<times> string)" where
  "Decode fromBytes str token =
     (if length token \<noteq> Length then Inl (Wrapped ErrInvalidToken)
      else if hd token \<noteq> Version then Inl (Wrapped ErrInvalidToken)
      else case b64_DecodeString (tl token) of
             None \<Rightarrow> Inl (Wrapped ErrInvalidToken)
           | Some raw \<Rightarrow>
               if length raw \<noteq> 32 then Inl (Wrapped ErrInvalidToken)
               else (case fromBytes (take 16 raw) of
                       None \<Rightarrow> Inl (Wrapped ErrInvalidToken)
                     | Some task \<Rightarrow>
                    (case fromBytes (drop 16 raw) of
                       None \<Rightarrow> Inl (Wrapped ErrInvalidToken)
                     | Some step \<Rightarrow> Inr (str task, str step))))"

definition CallbackToken :: "(string \<Rightarrow> byte list option) \<Rightarrow> TaskRecord \<Rightarrow> tferr + string" where
  "CallbackToken parse rc =
     (case Encode parse (tk_TaskID rc) (tk_ActiveStepID rc) of Inl e \<Rightarrow> Inl (Wrapped e) | Inr token \<Rightarrow> Inr token)"

definition CompleteTaskStepByToken ::
  "(byte list \<Rightarrow> byte list option) \<Rightarrow> (byte list \<Rightarrow> string) \<Rightarrow> TaskManager \<Rightarrow> string \<Rightarrow> entries \<Rightarrow> tworld \<Rightarrow> tferr option \<times> tworld" where
  "CompleteTaskStepByToken fromBytes str mg token payload w =
     (case Decode fromBytes str token of
        Inl e \<Rightarrow> (Some e, w)
      | Inr (taskID, stepID) \<Rightarrow> CompleteTaskStep mg taskID stepID payload w)"

text \<open>What is relied on of package \<open>uuid\<close>: a UUID has 16 bytes, 16 bytes are a UUID, and \<open>Parse\<close> reads the
  canonical form \<open>String\<close> prints.\<close>

definition uuid_package ::
  "(string \<Rightarrow> byte list option) \<Rightarrow> (byte list \<Rightarrow> byte list option) \<Rightarrow> (byte list \<Rightarrow> string) \<Rightarrow> bool" where
  "uuid_package parse fromBytes str \<longleftrightarrow>
     (\<forall>x b. parse x = Some b \<longrightarrow> length b = 16) \<and>
     (\<forall>b. length b = 16 \<longrightarrow> fromBytes b = Some b \<and> parse (str b) = Some b)"

lemma Encode_Decode:
  assumes "uuid_package parse fromBytes str" and "Encode parse t s = Inr token"
  shows "\<exists>task step. parse t = Some task \<and> parse s = Some step \<and>
           length token = Length \<and> Decode fromBytes str token = Inr (str task, str step)"
proof -
  obtain task step where p: "parse t = Some task" "parse s = Some step" "token = Version # b64_EncodeToString (task @ step)"
    using assms(2) by (auto simp: Encode_def split: option.splits)
  with assms(1) have "length task = 16" "length step = 16" by (auto simp: uuid_package_def)
  moreover from this assms(1) have "fromBytes task = Some task" "fromBytes step = Some step" by (auto simp: uuid_package_def)
  ultimately show ?thesis using p
    by (simp add: Decode_def Length_def length_b64 b64_Decode_Encode)
qed

text \<open>C20. A callback token is the address of one step. A token that \<open>CallbackToken\<close> made for a record decodes to the
  canonical form of exactly its task and active step, so a submission by that token is a submission to that step; a different
  pair of UUIDs never gets the same token; and encoding the decoded pair gives the token back.\<close>

theorem callback_token_round_trip:
  assumes "uuid_package parse fromBytes str" and "CallbackToken parse r = Inr token"
  shows "\<exists>task step. parse (tk_TaskID r) = Some task \<and> parse (tk_ActiveStepID r) = Some step \<and>
           Decode fromBytes str token = Inr (str task, str step) \<and>
           CompleteTaskStepByToken fromBytes str mg token p w = CompleteTaskStep mg (str task) (str step) p w \<and>
           Encode parse (str task) (str step) = Inr token \<and>
           (\<forall>r'. CallbackToken parse r' = Inr token \<longrightarrow>
              parse (tk_TaskID r') = Some task \<and> parse (tk_ActiveStepID r') = Some step)"
proof -
  have made: "Encode parse (tk_TaskID x) (tk_ActiveStepID x) = Inr token" if "CallbackToken parse x = Inr token" for x
    using that by (auto simp: CallbackToken_def split: sum.splits)
  obtain task step where d: "parse (tk_TaskID r) = Some task" "parse (tk_ActiveStepID r) = Some step"
      "Decode fromBytes str token = Inr (str task, str step)"
    using Encode_Decode[OF assms(1) made[OF assms(2)]] by blast
  have canon: "parse (str task) = Some task" "parse (str step) = Some step"
    using assms(1) d by (auto simp: uuid_package_def)
  have "parse (tk_TaskID r') = Some task \<and> parse (tk_ActiveStepID r') = Some step" if r': "CallbackToken parse r' = Inr token" for r'
  proof -
    obtain task' step' where d': "parse (tk_TaskID r') = Some task'" "parse (tk_ActiveStepID r') = Some step'"
        "Decode fromBytes str token = Inr (str task', str step')"
      using Encode_Decode[OF assms(1) made[OF r']] by blast
    with d have "str task' = str task" "str step' = str step" by simp_all
    moreover have "parse (str task') = Some task'" "parse (str step') = Some step'"
      using assms(1) d' by (auto simp: uuid_package_def)
    ultimately show ?thesis using canon d' by (metis option.inject)
  qed
  moreover have "Encode parse (str task) (str step) = Inr token"
    using made[OF assms(2)] d canon by (simp add: Encode_def)
  moreover have "CompleteTaskStepByToken fromBytes str mg token p w = CompleteTaskStep mg (str task) (str step) p w"
    using d by (simp add: CompleteTaskStepByToken_def)
  ultimately show ?thesis using d by blast
qed

text \<open>The last character of a token has two bits that carry nothing. \<open>Encode\<close> sets them to zero and \<open>Decode\<close> does not look
  at them, so tokens \<open>Encode\<close> never makes are accepted.\<close>

lemma octets_last: "length ns mod 4 = 2 \<Longrightarrow> r div 4 = r' div 4 \<Longrightarrow> octets (ns @ [r]) = octets (ns @ [r'])"
  by (induction ns rule: octets.induct) auto

lemma sextets_last: "length bs mod 3 = 2 \<Longrightarrow> last (sextets bs) mod 4 = 0"
proof (induction bs rule: sextets.induct)
  case (4 a b c bs)
  from 4(2) have "length bs mod 3 = 2" by simp
  moreover from this have "sextets bs \<noteq> []" by (cases bs rule: sextets.cases) auto
  ultimately show ?case using 4(1) by simp
qed auto

theorem trailing_bits_ignored:
  assumes "length cs = 42" and "set cs \<subseteq> set b64_alphabet" and "n div 4 = n' div 4" and "n < 64" and "n' < 64"
  shows "Decode fromBytes str (Version # cs @ [b64_char n]) = Decode fromBytes str (Version # cs @ [b64_char n'])"
proof -
  have plain: "filter (\<lambda>c. c \<noteq> CHR 0x0A \<and> c \<noteq> CHR 0x0D) cs = cs"
    using assms(2) alphabet by (auto simp: filter_id_conv)
  have "b64_val c \<noteq> None" if "c \<in> set cs" for c
    using that assms(2) alphabet(1) unfolding b64_val_def
    by (metis diff_zero length_upt map_of_zip_is_None subsetD)
  then have known: "None \<notin> b64_val ` set cs" by force
  have "octets (map the (map b64_val cs) @ [n]) = octets (map the (map b64_val cs) @ [n'])"
    using assms(1,3) by (intro octets_last) simp_all
  with plain known assms(4,5) have "b64_DecodeString (cs @ [b64_char n]) = b64_DecodeString (cs @ [b64_char n'])"
    by (simp add: b64_DecodeString_def b64_val_char b64_char_plain)
  with assms(1) show ?thesis by (simp add: Decode_def)
qed

end
