(* ===== verification/Task_Samples.thy ===== *)
theory Task_Samples
  imports Task_Rows Task_Props Callback_Token
begin

text \<open>
  Sample tasks: concrete rows, templates and environments on which the theorems on package
  \<open>taskflow\<close> are applied.
\<close>

section \<open>A row\<close>

definition sample_task :: TaskRecord where
  "sample_task =
     \<lparr>tk_TaskID = ''t1'', tk_TaskType = ''APPLICATION'', tk_State = ''STARTING'', tk_TaskTemplateID = ''tpl'',
      tk_ParentWorkflowID = ''wf'', tk_ParentStepID = ''t1'', tk_CaseID = ''c1'', tk_ReadRoles = [''trader''],
      tk_ManifestVersion = 1, tk_TaskWorkflowID = ''task-wf-t1'', tk_ActiveTaskTemplateID = [],
      tk_ActiveStepID = [], tk_Seq = 0, tk_Data = Some empty_map, tk_ClaimedBy = [], tk_ClaimedAt = None\<rparr>"

definition no_tasks :: task_db where
  "no_tasks = \<lparr>td_tasks = [], td_roles = [], td_faults = []\<rparr>"

definition sample_db :: task_db where
  "sample_db = snd (InitTask sample_task no_tasks)"

definition sample_claim :: StepClaim where
  "sample_claim = \<lparr>cl_StepID = ''s1'', cl_Seq = 2, cl_ActiveTaskTemplateID = ''form'', cl_State = StateStartingStep,
     cl_Data = Some empty_map\<rparr>"

lemmas sample_row_defs = sample_task_def no_tasks_def sample_db_def sample_claim_def InitTask_def sql_exec_def FromDomain_def
  insert_task_def insert_role_def roleModels_def stepUpdate_def update_where_def row_def keyed_def

text \<open>A step is claimed, the task is cancelled, and then the submission of that step arrives.\<close>

definition claimed_db :: task_db where
  "claimed_db = snd (ClaimStep ''t1'' sample_claim sample_db)"

definition cancelled_db :: task_db where
  "cancelled_db = snd (db_CancelTask ''t1'' claimed_db)"

definition late_db :: task_db where
  "late_db = snd (PersistSubmission ''t1'' ''s1'' 2 (Some empty_map) cancelled_db)"

lemma sample_runs:
  "task_run ''t1'' (sample_db, {}) (cancelled_db, {(''s1'', 2)})"
  "task_run ''t1'' (cancelled_db, {(''s1'', 2)}) (late_db, {(''s1'', 2)})"
proof -
  have "ClaimStep ''t1'' sample_claim sample_db = (Inr (Suc 0), claimed_db)"
    by (simp add: claimed_db_def ClaimStep_def sample_row_defs state_names)
  then have "task_step ''t1'' (sample_db, {}) (claimed_db, {(''s1'', 2)})"
    using task_step.claim[of "''t1''" sample_claim sample_db claimed_db "{}"] by (simp add: sample_claim_def)
  moreover have "task_step ''t1'' (claimed_db, k) (cancelled_db, k)" for k
    by (rule task_step.cancel[where r = "fst (db_CancelTask ''t1'' claimed_db)"]) (simp add: cancelled_db_def)
  ultimately show "task_run ''t1'' (sample_db, {}) (cancelled_db, {(''s1'', 2)})"
    by (blast intro: task_run.intros)
  have "task_step ''t1'' (cancelled_db, {(''s1'', 2)}) (late_db, {(''s1'', 2)})"
    by (rule task_step.submit[where s = "''s1''" and n = 2 and data = "Some empty_map"
          and r = "fst (PersistSubmission ''t1'' ''s1'' 2 (Some empty_map) cancelled_db)"]) (simp_all add: late_db_def)
  then show "task_run ''t1'' (cancelled_db, {(''s1'', 2)}) (late_db, {(''s1'', 2)})"
    by (blast intro: task_run.intros)
qed

theorem task_row_monotone_witness: "\<exists>m. row late_db ''t1'' = Some m \<and> 3 \<le> tm_Seq m \<and> tm_State m = StateCancelled"
proof -
  have "keyed sample_db" by (simp add: sample_row_defs)
  moreover obtain m where "row cancelled_db ''t1'' = Some m" "tm_Seq m = 3" "tm_State m = StateCancelled"
    by (simp add: cancelled_db_def claimed_db_def db_CancelTask_def ClaimStep_def sample_row_defs state_names)
  ultimately show ?thesis using task_row_monotone[OF _ sample_runs(1,2)] by fastforce
qed

theorem GetTasks_refines_Matches_witness:
  "map tk_TaskID (fst (GetTasks \<lparr>fl_CaseID = ''c1'', fl_Roles = [''trader'']\<rparr> sample_db)) = [''t1''] \<and>
   fst (GetTasks \<lparr>fl_CaseID = [], fl_Roles = [''officer'']\<rparr> sample_db) = []"
proof -
  have "stored no_tasks" unfolding no_tasks_def by (rule stored.empty)
  then have st: "stored sample_db" unfolding sample_db_def
    by (rule stored.init[where r = sample_task and e = "fst (InitTask sample_task no_tasks)"]) (simp_all add: no_tasks_def)
  have "td_faults sample_db = []" by (simp add: sample_row_defs)
  note list = GetTasks_refines_Matches[OF st this]
  show ?thesis
    using list[of "\<lparr>fl_CaseID = ''c1'', fl_Roles = [''trader'']\<rparr>"] list[of "\<lparr>fl_CaseID = [], fl_Roles = [''officer'']\<rparr>"]
    by (simp add: sample_row_defs Matches_def full_record_def ToDomain_def)
qed

section \<open>A manager\<close>

definition sample_step :: StepTemplate where
  "sample_step = \<lparr>sp_ID = ''form'', sp_PluginType = ''USER_INPUT'', sp_PluginProperties = [], sp_OutputNamespace = ''form'',
     sp_Extensions = [\<lparr>xc_ID = ''authz'', xc_Phase = ''PRE_RESUME'', xc_Properties = []\<rparr>], sp_Draft = Some ''save''\<rparr>"

definition user_input :: plugin where
  "user_input r inputs ns props calls = (Some ErrSuspended, r\<lparr>tk_State := ''PENDING_USER''\<rparr>)"

definition allow_all :: extension where
  "allow_all r p props calls = (None, r, p)"

definition sample_manager :: TaskManager where
  "sample_manager = WithRequiredPreResumeExtensions [''authz'']
     \<lparr>mg_artifacts = (\<lambda>v. None), mg_taskTemplate = (\<lambda>v i. Inl ErrNotFound), mg_workflowDef = (\<lambda>v i. Inl ErrNotFound),
      mg_genericTemplate = (\<lambda>v i. Inl ErrNotFound), mg_stepTemplate = (\<lambda>v i. Inr sample_step), mg_renderer = (\<lambda>c st d. Inr []),
      mg_plugins = [(''USER_INPUT'', user_input)], mg_extensions = Some [(''authz'', allow_all)],
      mg_StartWorkflow = (\<lambda>i d v calls. None), mg_CompleteActivation = (\<lambda>wf s p calls. None), mg_TerminateWorkflow = None,
      mg_onTaskCompleted = (\<lambda>wf s v calls. None), mg_requiredPreResume = []\<rparr>"

definition sample_payload :: entries where
  "sample_payload = [(''name'', VStr ''x''), (''__command'', VStr ''submit'')]"

definition sample_world :: tworld where
  "sample_world = \<lparr>tw_db = claimed_db, tw_others = [], tw_calls = []\<rparr>"

definition start_payload :: TaskPayload where
  "start_payload = \<lparr>tp_WorkflowID = ''task-wf-t1'', tp_NodeID = ''n1'', tp_ActivationID = ''s1'', tp_Seq = 2, tp_TaskTemplateID = ''form'',
     tp_Inputs = [], tp_CaseID = ''c1'', tp_ManifestVersion = 1\<rparr>"

lemma sample_submission: "fst (CompleteTaskStep sample_manager ''t1'' ''s1'' sample_payload sample_world) = None"
  by code_simp

lemma sample_open: "fst (GetTask ''t1'' (meanwhile sample_world)) = Some r \<Longrightarrow> tk_TaskWorkflowID r = ''task-wf-t1'' \<and> tk_Seq r = 2"
  by (auto simp: meanwhile_def sample_world_def claimed_db_def ClaimStep_def GetTask_def first_where_def ToDomain_def
      sample_row_defs state_names)


theorem step_guarded_witness:
  "list_ex (passed PhasePreResume ''authz'') (tw_calls (snd (CompleteTaskStep sample_manager ''t1'' ''s1'' sample_payload sample_world)))"
proof -
  let ?run = "CompleteTaskStep sample_manager ''t1'' ''s1'' sample_payload sample_world"
  have "?run = (None, snd ?run)" using sample_submission by (metis prod.collapse)
  moreover have "''authz'' \<in> set (mg_requiredPreResume sample_manager)"
    by (simp add: sample_manager_def WithRequiredPreResumeExtensions_def)
  ultimately show ?thesis using step_guarded[of sample_manager "''t1''" "''s1''" sample_payload sample_world "snd ?run" "''authz''"]
    by (auto simp: sample_world_def)
qed

lemma sample_orderly: "orderly sample_world"
  by (simp add: orderly_def sample_world_def claimed_db_def ClaimStep_def sample_row_defs state_names)

text \<open>Two officers, one after the other.\<close>

definition alice_world :: tworld where
  "alice_world = snd (ClaimTask (\<lambda>n. 100) ''t1'' ''alice'' sample_world)"

theorem ClaimTask_exclusive_witness:
  "(\<exists>db. claim_taken ''t1'' ''alice'' db (tw_db alice_world)) \<and>
   row (tw_db (snd (ClaimTask (\<lambda>n. 200) ''t1'' ''bob'' alice_world))) = row (tw_db alice_world)"
proof
  have "fst (ClaimTask (\<lambda>n. 100) ''t1'' ''alice'' sample_world) = None" by code_simp
  then have "ClaimTask (\<lambda>n. 100) ''t1'' ''alice'' sample_world = (None, alice_world)"
    by (simp add: alice_world_def prod_eq_iff)
  with ClaimTask_exclusive[OF this sample_orderly] show "\<exists>db. claim_taken ''t1'' ''alice'' db (tw_db alice_world)" by simp
  have "keyed (tw_db alice_world)" and idle: "tw_others alice_world = []" by code_simp+
  then have "orderly alice_world" by (simp add: orderly_def)
  moreover have "fst (ClaimTask (\<lambda>n. 200) ''t1'' ''bob'' alice_world) = Some (ClaimHeldError ''alice'' (Some 100))" by code_simp
  ultimately show "row (tw_db (snd (ClaimTask (\<lambda>n. 200) ''t1'' ''bob'' alice_world))) = row (tw_db alice_world)"
    using ClaimTask_exclusive[of "\<lambda>n. 200" "''t1''" "''bob''" alice_world] idle
    by (metis option.distinct(1) prod.collapse)
qed


section \<open>UUIDs\<close>

definition hex_digits :: string where "hex_digits = ''0123456789abcdef''"

definition hex_val :: "char \<Rightarrow> nat option" where
  "hex_val c = map_of (zip hex_digits [0..<16]) c"

definition hex_byte :: "byte \<Rightarrow> string" where
  "hex_byte b = [hex_digits ! (unat b div 16), hex_digits ! (unat b mod 16)]"

fun hex_parse :: "string \<Rightarrow> byte list option" where
  "hex_parse [] = Some []"
| "hex_parse [c] = None"
| "hex_parse (c # d # s) =
     (case (hex_val c, hex_val d, hex_parse s) of (Some h, Some l, Some bs) \<Rightarrow> Some (to_byte (16 * h + l) # bs) | _ \<Rightarrow> None)"

definition dashed :: "byte list \<Rightarrow> string" where
  "dashed b = concat (map hex_byte (take 4 b)) @ ''-'' @ concat (map hex_byte (take 2 (drop 4 b))) @ ''-'' @
     concat (map hex_byte (take 2 (drop 6 b))) @ ''-'' @ concat (map hex_byte (take 2 (drop 8 b))) @ ''-'' @
     concat (map hex_byte (drop 10 b))"

definition undash :: "string \<Rightarrow> byte list option" where
  "undash s =
     (case hex_parse (filter (\<lambda>c. c \<noteq> CHR ''-'') s) of Some b \<Rightarrow> if length b = 16 then Some b else None | None \<Rightarrow> None)"

lemma hex_digits: "length hex_digits = 16" "distinct hex_digits" "CHR ''-'' \<notin> set hex_digits"
  by (simp_all add: hex_digits_def)

lemma hex_val_nth: "n < 16 \<Longrightarrow> hex_val (hex_digits ! n) = Some n"
  using map_of_zip_nth[of hex_digits "[0..<16]" n] hex_digits by (simp add: hex_val_def)

lemma hex_parse_bytes: "hex_parse (concat (map hex_byte b)) = Some b"
proof (induction b)
  case (Cons x b)
  have "unat x div 16 < 16" "unat x mod 16 < 16" using byte_bounds[of x] by auto
  with Cons show ?case by (simp add: hex_byte_def hex_val_nth to_byte_unat)
qed simp

lemma hex_byte_no_dash: "filter (\<lambda>c. c \<noteq> CHR ''-'') (concat (map hex_byte b)) = concat (map hex_byte b)"
proof (induction b)
  case (Cons x b)
  have "unat x div 16 < length hex_digits" "unat x mod 16 < length hex_digits" using byte_bounds[of x] hex_digits(1) by auto
  then have "hex_digits ! (unat x div 16) \<noteq> CHR ''-''" "hex_digits ! (unat x mod 16) \<noteq> CHR ''-''"
    using hex_digits(3) nth_mem by metis+
  with Cons show ?case by (simp add: hex_byte_def)
qed simp

lemma undash_dashed: "length b = 16 \<Longrightarrow> undash (dashed b) = Some b"
proof -
  assume b: "length b = 16"
  have "take 4 b @ take 2 (drop 4 b) @ take 2 (drop 6 b) @ take 2 (drop 8 b) @ drop 10 b = b"
    using append_take_drop_id[of 2 "drop 8 b"] append_take_drop_id[of 2 "drop 6 b"] append_take_drop_id[of 2 "drop 4 b"]
    by simp
  then have "filter (\<lambda>c. c \<noteq> CHR ''-'') (dashed b) = concat (map hex_byte b)"
    by (simp add: dashed_def hex_byte_no_dash flip: concat_append map_append)
  with b show ?thesis by (simp add: undash_def hex_parse_bytes)
qed

lemma sample_uuid: "uuid_package undash Some dashed"
  using undash_dashed by (auto simp: uuid_package_def undash_def split: option.splits if_splits)

definition sample_record :: TaskRecord where
  "sample_record = sample_task\<lparr>tk_TaskID := dashed (replicate 16 1), tk_ActiveStepID := dashed (replicate 16 2)\<rparr>"

theorem callback_token_round_trip_witness:
  "\<exists>token. CallbackToken undash sample_record = Inr token \<and>
     Decode Some dashed token = Inr (dashed (replicate 16 1), dashed (replicate 16 2))"
proof -
  have p: "undash (tk_TaskID sample_record) = Some (replicate 16 1)" "undash (tk_ActiveStepID sample_record) = Some (replicate 16 2)"
    by (simp_all add: sample_record_def undash_dashed)
  then obtain token where "CallbackToken undash sample_record = Inr token" by (simp add: CallbackToken_def Encode_def)
  with callback_token_round_trip[OF sample_uuid this] p show ?thesis by auto
qed

end
