(* ===== verification/Go_Text.thy ===== *)
theory Go_Text
  imports Prelude
begin

text \<open>
  The functions of package \<open>strings\<close> that read white space and letter case, for ASCII: \<open>TrimSpace\<close>, \<open>Fields\<close>,
  \<open>ToLower\<close> and \<open>EqualFold\<close>. Strings are byte lists; the Unicode spaces and letters beyond ASCII, which are several
  bytes long, count as other text.
\<close>

definition is_space :: "char \<Rightarrow> bool" where
  "is_space c \<longleftrightarrow> c \<in> set [CHR 0x09, CHR 0x0A, CHR 0x0B, CHR 0x0C, CHR 0x0D, CHR 0x20]"

definition is_blank :: "string \<Rightarrow> bool" where
  "is_blank s = list_all is_space s"

definition TrimSpace :: "string \<Rightarrow> string" where
  "TrimSpace s = rev (dropWhile is_space (rev (dropWhile is_space s)))"

function Fields :: "string \<Rightarrow> string list" where
  "Fields [] = []"
| "Fields (c # s) =
     (if is_space c then Fields s
      else (c # takeWhile (\<lambda>d. \<not> is_space d) s) # Fields (dropWhile (\<lambda>d. \<not> is_space d) s))"
  by pat_completeness auto
termination by (relation "measure length") (auto simp: length_dropWhile_le le_imp_less_Suc)

definition fold_char :: "char \<Rightarrow> char" where
  "fold_char c =
     (case map_of (zip ''ABCDEFGHIJKLMNOPQRSTUVWXYZ'' ''abcdefghijklmnopqrstuvwxyz'') c of None \<Rightarrow> c | Some d \<Rightarrow> d)"

definition ToLower :: "string \<Rightarrow> string" where
  "ToLower s = map fold_char s"

definition EqualFold :: "string \<Rightarrow> string \<Rightarrow> bool" where
  "EqualFold a b \<longleftrightarrow> ToLower a = ToLower b"

section \<open>Trimming\<close>

text \<open>A text without white space at its ends.\<close>

definition trimmed :: "string \<Rightarrow> bool" where
  "trimmed s \<longleftrightarrow> s = [] \<or> \<not> is_space (hd s) \<and> \<not> is_space (last s)"

lemma dropWhile_id: "s = [] \<or> \<not> P (hd s) \<Longrightarrow> dropWhile P s = s"
  by (cases s) auto

lemma TrimSpace_id: "trimmed s \<Longrightarrow> TrimSpace s = s"
  by (auto simp: trimmed_def TrimSpace_def dropWhile_id hd_rev)

lemma dropWhile_hd: "dropWhile P s = [] \<or> \<not> P (hd (dropWhile P s))"
  by (induction s) auto

lemma trimmed_rev_dropWhile:
  assumes "t = [] \<or> \<not> is_space (hd t)"
  shows "trimmed (rev (dropWhile is_space (rev t)))"
proof (cases t)
  case (Cons c u)
  with assms have "rev (dropWhile is_space (rev t)) = c # rev (dropWhile is_space (rev u))"
    by (auto simp: dropWhile_append)
  moreover have "last (rev (dropWhile is_space (rev t))) = hd (dropWhile is_space (rev t))"
    by (simp add: last_rev)
  ultimately show ?thesis using assms Cons dropWhile_hd[of is_space "rev t"] by (auto simp: trimmed_def)
qed (simp add: trimmed_def)

lemma trimmed_TrimSpace [simp]: "trimmed (TrimSpace s)"
  using trimmed_rev_dropWhile[OF dropWhile_hd[of is_space s]] by (simp add: TrimSpace_def)

lemma TrimSpace_idem [simp]: "TrimSpace (TrimSpace s) = TrimSpace s"
  by (simp add: TrimSpace_id)

lemma TrimSpace_Nil_iff: "TrimSpace s = [] \<longleftrightarrow> is_blank s"
proof -
  have "TrimSpace s = [] \<longleftrightarrow> (\<forall>c \<in> set (dropWhile is_space s). is_space c)" by (simp add: TrimSpace_def)
  also have "\<dots> \<longleftrightarrow> (\<forall>c \<in> set s. is_space c)" by (induction s) auto
  finally show ?thesis by (simp add: is_blank_def list_all_iff)
qed

section \<open>Fields\<close>

lemma Fields_words: "w \<in> set (Fields s) \<Longrightarrow> w \<noteq> [] \<and> (\<forall>c \<in> set w. \<not> is_space c)"
proof (induction s rule: Fields.induct)
  case (2 c s)
  show ?case
  proof (cases "is_space c")
    case True
    with 2(3) have "w \<in> set (Fields s)" by simp
    then show ?thesis by (rule 2(1)[OF True])
  next
    case False
    with 2(3) consider "w = c # takeWhile (\<lambda>d. \<not> is_space d) s" | "w \<in> set (Fields (dropWhile (\<lambda>d. \<not> is_space d) s))"
      by auto
    then show ?thesis
    proof cases
      case 1
      with False show ?thesis by (auto dest: set_takeWhileD)
    qed (rule 2(2)[OF False])
  qed
qed simp

lemma word_trimmed: "w \<noteq> [] \<Longrightarrow> \<forall>c \<in> set w. \<not> is_space c \<Longrightarrow> trimmed w"
  by (simp add: trimmed_def)

lemma Fields_TrimSpace_word: "w \<in> set (Fields s) \<Longrightarrow> TrimSpace w = w"
  using Fields_words[of w s] by (blast intro: TrimSpace_id word_trimmed)

lemma Fields_word:
  assumes "w \<noteq> []" and "\<forall>c \<in> set w. \<not> is_space c" and "s = [] \<or> is_space (hd s)"
  shows "Fields (w @ s) = w # Fields s"
proof -
  obtain c v where w: "w = c # v" using assms(1) by (cases w) auto
  have "takeWhile (\<lambda>d. \<not> is_space d) (v @ s) = v" "dropWhile (\<lambda>d. \<not> is_space d) (v @ s) = s"
    using assms w by (cases s; auto simp: takeWhile_append dropWhile_append)+
  with assms w show ?thesis by simp
qed

lemma Fields_join:
  assumes "\<forall>w \<in> set ws. w \<noteq> [] \<and> (\<forall>c \<in> set w. \<not> is_space c)"
  shows "Fields (join_with '' '' ws) = ws"
  using assms
proof (induction ws rule: induct_list012)
  case (2 w)
  then show ?case using Fields_word[of w "[]"] by simp
next
  case (3 w v ws)
  have "Fields (w @ '' '' @ join_with '' '' (v # ws)) = w # Fields ('' '' @ join_with '' '' (v # ws))"
    using 3 by (intro Fields_word) (auto simp: is_space_def)
  with 3 show ?case by (simp add: is_space_def)
qed simp

section \<open>Letter case\<close>

lemma fold_char_lower: "list_all (\<lambda>d. fold_char d = d) ''abcdefghijklmnopqrstuvwxyz''"
  by code_simp

lemma fold_char_idem [simp]: "fold_char (fold_char c) = fold_char c"
proof (cases "map_of (zip ''ABCDEFGHIJKLMNOPQRSTUVWXYZ'' ''abcdefghijklmnopqrstuvwxyz'') c")
  case (Some d)
  then have "d \<in> set ''abcdefghijklmnopqrstuvwxyz''" by (meson map_of_SomeD set_zip_rightD)
  then have "fold_char d = d" using fold_char_lower by (meson list_all_iff)
  with Some show ?thesis by (simp add: fold_char_def)
qed (simp add: fold_char_def)

lemma ToLower_idem [simp]: "ToLower (ToLower s) = ToLower s"
  by (simp add: ToLower_def)

end
