(* ===== verification/Payment_Store.thy ===== *)
theory Payment_Store
  imports Json_Value "HOL-Library.AList" Go_Text
begin

text \<open>
  Package \<open>payment\<close>, its data: transactions and requests (\<open>models.go\<close>, \<open>gateway.go\<close>, \<open>gateway_info.go\<close>), payees and
  their mappings (\<open>payee.go\<close>), the registry of gateways (\<open>registry.go\<close>) and the transaction table (\<open>repository.go\<close>).

  A decimal amount is its rational value, a time is in nanoseconds, JSON and YAML texts are opaque strings and the JSON
  encoder is a parameter. Blanks and case folding are those of ASCII. A gateway is a record of its methods; a method that reaches the
  outside also sees the calls made so far.
\<close>

section \<open>Errors\<close>

datatype payerr =
    ErrTransactionNotFound
  | ErrAmountMismatch
  | ErrDuplicateReference
  | ErrUnsupportedWebhookStatus
  | ErrWebhookVerificationFailed
  | ErrPayeeNotMapped
  | PayErr string
  | PWrap payerr

fun pay_Is :: "payerr \<Rightarrow> payerr \<Rightarrow> bool" where
  "pay_Is (PWrap e) target \<longleftrightarrow> pay_Is e target"
| "pay_Is e target \<longleftrightarrow> e = target"

section \<open>Payees\<close>

record Payee =
  py_OrgID :: string
  py_ServiceID :: string

definition payee_validate :: "Payee \<Rightarrow> payerr option" where
  "payee_validate p =
     (if is_blank (py_OrgID p) then Some (PayErr ''payee.org_id is required'')
      else if is_blank (py_ServiceID p) then Some (PayErr ''payee.service_id is required'')
      else None)"

record OrgPayees =
  op_Defaults :: vars
  op_Services :: "(string \<times> vars) list"

text \<open>Maps that are ranged over are lists of entries, in the order Go gives them.\<close>

type_synonym payee_map = "(Payee \<times> string) list"

fun resolve_services ::
  "(vars \<Rightarrow> payerr + string) \<Rightarrow> string \<Rightarrow> vars \<Rightarrow> (string \<times> vars) list \<Rightarrow> payee_map \<Rightarrow> payerr + payee_map" where
  "resolve_services marshal orgID defs [] acc = Inr acc"
| "resolve_services marshal orgID defs ((serviceID, entry) # services) acc =
     (if is_blank serviceID then Inl (PayErr ''service id is empty'')
      else case marshal (defs ++ entry) of
             Inl e \<Rightarrow> Inl (PWrap e)
           | Inr mapping \<Rightarrow>
               resolve_services marshal orgID defs services
                 (AList.update \<lparr>py_OrgID = orgID, py_ServiceID = serviceID\<rparr> mapping acc))"

fun resolve_orgs :: "(vars \<Rightarrow> payerr + string) \<Rightarrow> (string \<times> OrgPayees) list \<Rightarrow> payee_map \<Rightarrow> payerr + payee_map" where
  "resolve_orgs marshal [] acc = Inr acc"
| "resolve_orgs marshal ((orgID, org) # payees) acc =
     (if is_blank orgID then Inl (PayErr ''payees: org id is empty'')
      else case resolve_services marshal orgID (op_Defaults org) (op_Services org) acc of
             Inl e \<Rightarrow> Inl e
           | Inr acc' \<Rightarrow> resolve_orgs marshal payees acc')"

definition resolvePayees :: "(vars \<Rightarrow> payerr + string) \<Rightarrow> (string \<times> OrgPayees) list \<Rightarrow> payerr + payee_map" where
  "resolvePayees marshal payees = resolve_orgs marshal payees []"

section \<open>Transactions and requests\<close>

definition PayPending :: string where "PayPending = ''PENDING''"
definition PaySuccess :: string where "PaySuccess = ''SUCCESS''"
definition PayFailed :: string where "PayFailed = ''FAILED''"

lemmas status_names = PayPending_def PaySuccess_def PayFailed_def

record Transaction =
  tx_ID :: string
  tx_ReferenceNumber :: string
  tx_CallbackToken :: string
  tx_GatewayID :: string
  tx_OrgID :: string
  tx_ServiceID :: string
  tx_SessionID :: string
  tx_Amount :: rat
  tx_Currency :: string
  tx_Status :: string
  tx_PaymentMethod :: string
  tx_ExpiryDate :: int
  tx_GatewayMetadata :: "string \<Rightarrow> string option"

record CreateCheckoutRequest =
  cr_GatewayID :: string
  cr_Payee :: Payee
  cr_Amount :: rat
  cr_Currency :: string
  cr_SuccessRedirectURL :: string
  cr_CancelRedirectURL :: string
  cr_ExpiresAt :: int
  cr_Metadata :: "string \<Rightarrow> string option"
  cr_CallbackToken :: string

definition checkout_validate :: "CreateCheckoutRequest \<Rightarrow> int \<Rightarrow> payerr option" where
  "checkout_validate r now =
     (if cr_GatewayID r = [] then Some (PayErr ''gateway_id is required'')
      else case payee_validate (cr_Payee r) of
             Some e \<Rightarrow> Some e
           | None \<Rightarrow>
               if cr_CallbackToken r = [] then Some (PayErr ''callback_token is required'')
               else if \<not> cr_Amount r > 0 then Some (PayErr ''amount must be greater than zero'')
               else if cr_Currency r = [] then Some (PayErr ''currency is required'')
               else if \<not> cr_ExpiresAt r > now then Some (PayErr ''expires_at must be in the future'')
               else None)"

record SessionRequest =
  sq_Amount :: rat
  sq_Currency :: string
  sq_SuccessRedirectURL :: string
  sq_CancelRedirectURL :: string
  sq_Payee :: Payee
  sq_PayeeMapping :: string
  sq_Metadata :: "string \<Rightarrow> string option"

record SessionResponse =
  sr_SessionID :: string
  sr_Type :: string
  sr_CheckoutURL :: string
  sr_Instructions :: string

record CreateCheckoutResponse =
  rs_ReferenceNumber :: string
  rs_SessionID :: string
  rs_Type :: string
  rs_CheckoutURL :: string
  rs_Instructions :: string
  rs_ExpiresIn :: int

record WebhookPayload =
  wp_ReferenceNumber :: string
  wp_GatewayTransactionID :: string
  wp_Status :: string
  wp_Amount :: rat
  wp_Currency :: string
  wp_PaymentMethod :: string
  wp_Timestamp :: string

record ValidationTransaction =
  vt_ReferenceNumber :: string
  vt_Amount :: rat
  vt_Currency :: string
  vt_Status :: string
  vt_ExpiryDate :: int
  vt_Metadata :: "string \<Rightarrow> string option"
  vt_Payee :: Payee
  vt_PayeeMapping :: string

text \<open>\<open>ValidationResponse\<close> and \<open>WebhookResponse\<close>: payload and HTTP status.\<close>

type_synonym gateway_response = "string \<times> int"

section \<open>Gateways and their registry\<close>

datatype pcall =
    CGenerated CreateCheckoutRequest "payerr + string"
  | CSession string SessionRequest "payerr + SessionResponse option"
  | CVerified string "payerr option"
  | CAnswered string "ValidationTransaction option" bool
  | CAdvanced string vars "payerr option"

type_synonym headers = "(string \<times> string list) list"

record gateway =
  gw_ValidatePayeeMapping :: "string \<Rightarrow> payerr option"
  gw_CreateSession :: "SessionRequest \<Rightarrow> pcall list \<Rightarrow> payerr + SessionResponse option"
  gw_VerifyWebhook :: "string \<Rightarrow> headers \<Rightarrow> pcall list \<Rightarrow> payerr option"
  gw_ExtractReferenceNumber :: "string \<Rightarrow> payerr + string"
  gw_HandleValidateReference ::
    "ValidationTransaction option \<Rightarrow> bool \<Rightarrow> string \<Rightarrow> payerr + gateway_response option"
  gw_ParseWebhook ::
    "string \<Rightarrow> headers \<Rightarrow> (string \<Rightarrow> payerr + string option) \<Rightarrow> pcall list \<Rightarrow> payerr + (WebhookPayload option \<times> gateway_response option)"

record GatewayInfo =
  gi_ID :: string
  gi_IsActive :: bool
  gi_DisplayName :: string
  gi_Description :: string
  gi_LogoURL :: string
  gi_DisplayOrder :: int
  gi_PrimaryColor :: string

record MethodConfig =
  mc_Info :: GatewayInfo
  mc_Config :: string
  mc_Payees :: "(string \<times> OrgPayees) list"

record paymentRegistry =
  pr_gateways :: "(string \<times> gateway) list"
  pr_infos :: "(string \<times> GatewayInfo) list"
  pr_payees :: "(string \<times> payee_map) list"

text \<open>A factory may be missing, or be registered as nil.\<close>

type_synonym factories = "(string \<times> (string \<Rightarrow> payerr + gateway) option) list"

fun check_mappings :: "gateway \<Rightarrow> payee_map \<Rightarrow> payerr option" where
  "check_mappings g [] = None"
| "check_mappings g ((payee, mapping) # ps) =
     (case gw_ValidatePayeeMapping g mapping of Some e \<Rightarrow> Some (PWrap e) | None \<Rightarrow> check_mappings g ps)"

definition add_method ::
  "(vars \<Rightarrow> payerr + string) \<Rightarrow> factories \<Rightarrow> MethodConfig \<Rightarrow> paymentRegistry \<Rightarrow> payerr + paymentRegistry" where
  "add_method marshal factories method reg =
     (let info = mc_Info method
      in case resolvePayees marshal (mc_Payees method) of
           Inl e \<Rightarrow> Inl (PWrap e)
         | Inr payees \<Rightarrow>
             (let reg' = reg\<lparr>pr_infos := AList.update (gi_ID info) info (pr_infos reg),
                            pr_payees := AList.update (gi_ID info) payees (pr_payees reg)\<rparr>
              in case map_of factories (gi_ID info) of
                   None \<Rightarrow> Inr reg'
                 | Some None \<Rightarrow> Inl (PayErr ''factory is nil'')
                 | Some (Some factory) \<Rightarrow>
                     (case factory (mc_Config method) of
                        Inl e \<Rightarrow> Inl (PWrap e)
                      | Inr g \<Rightarrow>
                          (case check_mappings g payees of
                             Some e \<Rightarrow> Inl e
                           | None \<Rightarrow> Inr (reg'\<lparr>pr_gateways := AList.update (gi_ID info) g (pr_gateways reg)\<rparr>)))))"

fun add_methods ::
  "(vars \<Rightarrow> payerr + string) \<Rightarrow> factories \<Rightarrow> MethodConfig list \<Rightarrow> paymentRegistry \<Rightarrow> payerr + paymentRegistry" where
  "add_methods marshal factories [] reg = Inr reg"
| "add_methods marshal factories (m # ms) reg =
     (case add_method marshal factories m reg of Inl e \<Rightarrow> Inl e | Inr reg' \<Rightarrow> add_methods marshal factories ms reg')"

definition payment_NewRegistry ::
  "(vars \<Rightarrow> payerr + string) \<Rightarrow> MethodConfig list \<Rightarrow> factories \<Rightarrow> payerr + paymentRegistry" where
  "payment_NewRegistry marshal methods factories =
     add_methods marshal factories methods \<lparr>pr_gateways = [], pr_infos = [], pr_payees = []\<rparr>"

definition registry_gateway :: "paymentRegistry \<Rightarrow> string \<Rightarrow> payerr + gateway" where
  "registry_gateway reg gid =
     (case map_of (pr_gateways reg) gid of None \<Rightarrow> Inl (PayErr ''gateway not found in registry'') | Some g \<Rightarrow> Inr g)"

definition payee_mapping :: "paymentRegistry \<Rightarrow> string \<Rightarrow> Payee \<Rightarrow> string option" where
  "payee_mapping reg gid payee = (case map_of (pr_payees reg) gid of None \<Rightarrow> None | Some ps \<Rightarrow> map_of ps payee)"

definition ResolvePayee :: "paymentRegistry \<Rightarrow> string \<Rightarrow> Payee \<Rightarrow> payerr + string" where
  "ResolvePayee reg gid payee =
     (case payee_mapping reg gid payee of None \<Rightarrow> Inl (PWrap ErrPayeeNotMapped) | Some m \<Rightarrow> Inr m)"

text \<open>\<open>sort.Slice\<close> by display order, then ID; the IDs differ, so the order is total.\<close>

definition ListInfo :: "paymentRegistry \<Rightarrow> Payee \<Rightarrow> GatewayInfo list" where
  "ListInfo reg payee =
     sort_key gi_DisplayOrder (sort_key gi_ID
       (filter (\<lambda>info. gi_IsActive info \<and> payee_mapping reg (gi_ID info) payee \<noteq> None) (map snd (pr_infos reg))))"

section \<open>The transaction table\<close>

record pay_db =
  pd_rows :: "Transaction list"
  pd_faults :: "string option list"

definition pay_exec :: "(pay_db \<Rightarrow> 'r \<times> pay_db) \<Rightarrow> pay_db \<Rightarrow> (payerr + 'r) \<times> pay_db" where
  "pay_exec run db =
     (let db' = db\<lparr>pd_faults := drop 1 (pd_faults db)\<rparr>
      in case pd_faults db of
           Some msg # _ \<Rightarrow> (Inl (PayErr msg), db')
         | _ \<Rightarrow> (case run db' of (r, db'') \<Rightarrow> (Inr r, db'')))"

definition tx_of :: "pay_db \<Rightarrow> string \<Rightarrow> Transaction option" where
  "tx_of db ref = find (\<lambda>t. tx_ReferenceNumber t = ref) (pd_rows db)"

definition GetByReferenceNumber :: "string \<Rightarrow> pay_db \<Rightarrow> (payerr + Transaction option) \<times> pay_db" where
  "GetByReferenceNumber ref = pay_exec (\<lambda>db. (find (\<lambda>t. tx_ReferenceNumber t = ref) (sort_key tx_ID (pd_rows db)), db))"

text \<open>An insert that reports a violation of the primary key or of the unique index on references.\<close>

definition insert_tx :: "Transaction \<Rightarrow> pay_db \<Rightarrow> bool \<times> pay_db" where
  "insert_tx t db =
     (if list_ex (\<lambda>x. tx_ID x = tx_ID t \<or> tx_ReferenceNumber x = tx_ReferenceNumber t) (pd_rows db) then (False, db)
      else (True, db\<lparr>pd_rows := pd_rows db @ [t]\<rparr>))"

text \<open>\<open>Save\<close> writes every column of the row with this ID, and inserts it when there is none.\<close>

definition save_tx :: "Transaction \<Rightarrow> pay_db \<Rightarrow> bool \<times> pay_db" where
  "save_tx t db =
     (if list_ex (\<lambda>x. tx_ID x = tx_ID t) (pd_rows db)
      then (True, db\<lparr>pd_rows := map (\<lambda>x. if tx_ID x = tx_ID t then t else x) (pd_rows db)\<rparr>)
      else insert_tx t db)"

definition repo_Update :: "Transaction \<Rightarrow> pay_db \<Rightarrow> payerr option \<times> pay_db" where
  "repo_Update t db =
     (case pay_exec (save_tx t) db of
        (Inl e, db') \<Rightarrow> (Some e, db')
      | (Inr ok, db') \<Rightarrow> (if ok then None else Some (PayErr ''duplicated key''), db'))"

definition UpdateStatus :: "string \<Rightarrow> string \<Rightarrow> pay_db \<Rightarrow> payerr option \<times> pay_db" where
  "UpdateStatus ref status db =
     (case pay_exec (\<lambda>db. ((), db\<lparr>pd_rows := map (\<lambda>x. if tx_ReferenceNumber x = ref then x\<lparr>tx_Status := status\<rparr> else x) (pd_rows db)\<rparr>)) db of
        (Inl e, db') \<Rightarrow> (Some e, db')
      | (Inr _, db') \<Rightarrow> (None, db'))"

text \<open>A database transaction: nothing of it stays when the function or the commit fails.\<close>

definition RunInTransaction :: "(pay_db \<Rightarrow> (payerr + 'r) \<times> pay_db) \<Rightarrow> pay_db \<Rightarrow> (payerr + 'r) \<times> pay_db" where
  "RunInTransaction fn db =
     (case fn db of
        (Inl e, db') \<Rightarrow> (Inl e, db\<lparr>pd_faults := pd_faults db'\<rparr>)
      | (Inr r, db') \<Rightarrow>
          (case pay_exec (\<lambda>db. ((), db)) db' of
             (Inl e, db'') \<Rightarrow> (Inl e, db\<lparr>pd_faults := pd_faults db''\<rparr>)
           | (Inr _, db'') \<Rightarrow> (Inr r, db'')))"

end
