(* ===== verification/Payment_Service.thy ===== *)
theory Payment_Service
  imports Payment_Store
begin

text \<open>
  The payment service (\<open>service.go\<close>) and its HTTP handler (\<open>handler.go\<close>): checkout, validation of references,
  webhooks. As in package \<open>taskflow\<close>, other calls may change the database before each statement of a call
  (\<open>pw_others\<close>), and calls to gateways, to the reference generator and to the task completer are logged. A database
  transaction is one statement, since it locks the row it reads. A lookup of payees during \<open>ParseWebhook\<close> reads the
  database as it is when parsing starts.
\<close>

record pworld =
  pw_db :: pay_db
  pw_others :: "(pay_db \<Rightarrow> pay_db) list"
  pw_calls :: "pcall list"

record paymentService =
  ps_registry :: paymentRegistry
  ps_refGen :: "CreateCheckoutRequest \<Rightarrow> pcall list \<Rightarrow> payerr + string"
  ps_taskCompleter :: "(string \<Rightarrow> vars \<Rightarrow> pcall list \<Rightarrow> payerr option) option"
  ps_newID :: "pcall list \<Rightarrow> string"
  ps_decimal :: "rat \<Rightarrow> string"

definition SetTaskCompleter :: "(string \<Rightarrow> vars \<Rightarrow> pcall list \<Rightarrow> payerr option) option \<Rightarrow> paymentService \<Rightarrow> paymentService" where
  "SetTaskCompleter completer svc = svc\<lparr>ps_taskCompleter := completer\<rparr>"

definition ListAvailableMethods :: "paymentService \<Rightarrow> Payee \<Rightarrow> GatewayInfo list" where
  "ListAvailableMethods svc payee = ListInfo (ps_registry svc) payee"

definition pay_meanwhile :: "pworld \<Rightarrow> pay_db" where
  "pay_meanwhile w = (case pw_others w of f # _ \<Rightarrow> f (pw_db w) | [] \<Rightarrow> pw_db w)"

definition pay_stmt :: "(pay_db \<Rightarrow> 'r \<times> pay_db) \<Rightarrow> pworld \<Rightarrow> 'r \<times> pworld" where
  "pay_stmt run w =
     (case run (pay_meanwhile w) of (r, db) \<Rightarrow> (r, w\<lparr>pw_db := db, pw_others := drop 1 (pw_others w)\<rparr>))"

definition pay_log :: "pcall \<Rightarrow> pworld \<Rightarrow> pworld" where
  "pay_log c w = w\<lparr>pw_calls := pw_calls w @ [c]\<rparr>"

section \<open>Repository calls of several statements\<close>

definition referenceHeldByAnother :: "Transaction \<Rightarrow> pworld \<Rightarrow> bool \<times> pworld" where
  "referenceHeldByAnother t w =
     (case pay_stmt (GetByReferenceNumber (tx_ReferenceNumber t)) w of
        (Inr (Some holder), w') \<Rightarrow> (tx_ID holder \<noteq> tx_ID t, w')
      | (_, w') \<Rightarrow> (False, w'))"

definition repo_Create :: "Transaction \<Rightarrow> pworld \<Rightarrow> payerr option \<times> pworld" where
  "repo_Create t w =
     (case pay_stmt (pay_exec (insert_tx t)) w of
        (Inl e, w') \<Rightarrow> (Some e, w')
      | (Inr ok, w') \<Rightarrow>
          if ok then (None, w')
          else case referenceHeldByAnother t w' of
                 (held, w'') \<Rightarrow> (Some (if held then PWrap ErrDuplicateReference else PayErr ''duplicated key''), w''))"

section \<open>Checkout\<close>

text \<open>\<open>ExpiresAt.Sub(now)\<close> saturates at the range of a 64-bit duration; whole seconds of it.\<close>

definition expires_in :: "int \<Rightarrow> int \<Rightarrow> int" where
  "expires_in expiresAt now = min (expiresAt - now) (2 ^ 63 - 1) div 10 ^ 9"

definition pending_tx :: "paymentService \<Rightarrow> CreateCheckoutRequest \<Rightarrow> string \<Rightarrow> pcall list \<Rightarrow> Transaction" where
  "pending_tx svc req ref calls =
     \<lparr>tx_ID = ps_newID svc calls, tx_ReferenceNumber = ref, tx_CallbackToken = cr_CallbackToken req, tx_GatewayID = cr_GatewayID req,
      tx_OrgID = py_OrgID (cr_Payee req), tx_ServiceID = py_ServiceID (cr_Payee req), tx_SessionID = [], tx_Amount = cr_Amount req,
      tx_Currency = cr_Currency req, tx_Status = PayPending, tx_PaymentMethod = [], tx_ExpiryDate = cr_ExpiresAt req,
      tx_GatewayMetadata = cr_Metadata req\<rparr>"

definition session_request :: "CreateCheckoutRequest \<Rightarrow> string \<Rightarrow> SessionRequest" where
  "session_request req mapping =
     \<lparr>sq_Amount = cr_Amount req, sq_Currency = cr_Currency req, sq_SuccessRedirectURL = cr_SuccessRedirectURL req,
      sq_CancelRedirectURL = cr_CancelRedirectURL req, sq_Payee = cr_Payee req, sq_PayeeMapping = mapping, sq_Metadata = cr_Metadata req\<rparr>"

definition checkout_response :: "CreateCheckoutRequest \<Rightarrow> string \<Rightarrow> SessionResponse \<Rightarrow> int \<Rightarrow> CreateCheckoutResponse" where
  "checkout_response req ref s now =
     \<lparr>rs_ReferenceNumber = ref, rs_SessionID = sr_SessionID s, rs_Type = sr_Type s, rs_CheckoutURL = sr_CheckoutURL s,
      rs_Instructions = sr_Instructions s, rs_ExpiresIn = expires_in (cr_ExpiresAt req) now\<rparr>"

text \<open>Steps 3 and 4: the gateway's session, and its ID saved with the row.\<close>

definition open_session ::
  "gateway \<Rightarrow> CreateCheckoutRequest \<Rightarrow> string \<Rightarrow> Transaction \<Rightarrow> int \<Rightarrow> pworld \<Rightarrow> (payerr + CreateCheckoutResponse) \<times> pworld" where
  "open_session g req mapping t now w =
     (let sreq = session_request req mapping;
          res = gw_CreateSession g sreq (pw_calls w);
          w1 = pay_log (CSession (cr_GatewayID req) sreq res) w
      in case res of
           Inl e \<Rightarrow> (case pay_stmt (repo_Update (t\<lparr>tx_Status := PayFailed\<rparr>)) w1 of (_, w2) \<Rightarrow> (Inl (PWrap e), w2))
         | Inr None \<Rightarrow> (Inl (PayErr ''gateway returned nil session response''), w1)
         | Inr (Some s) \<Rightarrow>
             if sr_SessionID s = [] then (Inr (checkout_response req (tx_ReferenceNumber t) s now), w1)
             else (case pay_stmt (repo_Update (t\<lparr>tx_SessionID := sr_SessionID s\<rparr>)) w1 of
                     (Some e, w2) \<Rightarrow> (Inl (PWrap e), w2)
                   | (None, w2) \<Rightarrow> (Inr (checkout_response req (tx_ReferenceNumber t) s now), w2)))"

definition CreateCheckoutSession ::
  "paymentService \<Rightarrow> int \<Rightarrow> CreateCheckoutRequest \<Rightarrow> pworld \<Rightarrow> (payerr + CreateCheckoutResponse) \<times> pworld" where
  "CreateCheckoutSession svc now req w =
     (case checkout_validate req now of
        Some e \<Rightarrow> (Inl (PWrap e), w)
      | None \<Rightarrow>
     (case registry_gateway (ps_registry svc) (cr_GatewayID req) of
        Inl e \<Rightarrow> (Inl (PWrap e), w)
      | Inr g \<Rightarrow>
     (case ResolvePayee (ps_registry svc) (cr_GatewayID req) (cr_Payee req) of
        Inl e \<Rightarrow> (Inl e, w)
      | Inr mapping \<Rightarrow>
          (let gen = ps_refGen svc req (pw_calls w); w1 = pay_log (CGenerated req gen) w
           in case gen of
                Inl e \<Rightarrow> (Inl (PWrap e), w1)
              | Inr ref \<Rightarrow>
                  if ref = [] then (Inl (PayErr ''the generator returned an empty reference''), w1)
                  else (let t = pending_tx svc req ref (pw_calls w1)
                        in case repo_Create t w1 of
                             (Some e, w2) \<Rightarrow> (Inl (PWrap e), w2)
                           | (None, w2) \<Rightarrow> open_session g req mapping t now w2)))))"

section \<open>Validation of references\<close>

definition verifyCaller :: "gateway \<Rightarrow> string \<Rightarrow> string \<Rightarrow> headers \<Rightarrow> pworld \<Rightarrow> payerr option \<times> pworld" where
  "verifyCaller g gatewayID body hdrs w =
     (let r = gw_VerifyWebhook g body hdrs (pw_calls w)
      in (map_option PWrap r, pay_log (CVerified gatewayID r) w))"

definition payee_of :: "Transaction \<Rightarrow> Payee" where
  "payee_of t = \<lparr>py_OrgID = tx_OrgID t, py_ServiceID = tx_ServiceID t\<rparr>"

definition validation_tx :: "Transaction \<Rightarrow> string \<Rightarrow> ValidationTransaction" where
  "validation_tx t mapping =
     \<lparr>vt_ReferenceNumber = tx_ReferenceNumber t, vt_Amount = tx_Amount t, vt_Currency = tx_Currency t, vt_Status = tx_Status t,
      vt_ExpiryDate = tx_ExpiryDate t, vt_Metadata = tx_GatewayMetadata t, vt_Payee = payee_of t, vt_PayeeMapping = mapping\<rparr>"

definition payable :: "int \<Rightarrow> Transaction \<Rightarrow> bool" where
  "payable now t \<longleftrightarrow> tx_Status t = PayPending \<and> now < tx_ExpiryDate t"

definition answer ::
  "gateway \<Rightarrow> string \<Rightarrow> ValidationTransaction option \<Rightarrow> bool \<Rightarrow> string \<Rightarrow> pworld \<Rightarrow> (payerr + gateway_response option) \<times> pworld" where
  "answer g gatewayID vt ok body w =
     (gw_HandleValidateReference g vt ok body, pay_log (CAnswered gatewayID vt ok) w)"

definition ValidateReference ::
  "paymentService \<Rightarrow> int \<Rightarrow> string \<Rightarrow> string \<Rightarrow> headers \<Rightarrow> pworld \<Rightarrow> (payerr + gateway_response option) \<times> pworld" where
  "ValidateReference svc now gatewayID body hdrs w =
     (case registry_gateway (ps_registry svc) gatewayID of
        Inl e \<Rightarrow> (Inl (PWrap e), w)
      | Inr g \<Rightarrow>
     (case verifyCaller g gatewayID body hdrs w of
        (Some e, w1) \<Rightarrow> (Inl e, w1)
      | (None, w1) \<Rightarrow>
     (case gw_ExtractReferenceNumber g body of
        Inl e \<Rightarrow> (Inl (PWrap e), w1)
      | Inr ref \<Rightarrow>
     (case pay_stmt (GetByReferenceNumber ref) w1 of
        (Inl e, w2) \<Rightarrow> (Inl (PWrap e), w2)
      | (Inr None, w2) \<Rightarrow> answer g gatewayID None False body w2
      | (Inr (Some t), w2) \<Rightarrow>
          if tx_GatewayID t \<noteq> gatewayID then answer g gatewayID None False body w2
          else (case ResolvePayee (ps_registry svc) gatewayID (payee_of t) of
                  Inl e \<Rightarrow> (Inl (PWrap e), w2)
                | Inr mapping \<Rightarrow> answer g gatewayID (Some (validation_tx t mapping)) (payable now t) body w2)))))"

section \<open>Webhooks\<close>

definition payeeLookup :: "paymentService \<Rightarrow> string \<Rightarrow> pay_db \<Rightarrow> string \<Rightarrow> payerr + string option" where
  "payeeLookup svc gatewayID db ref =
     (case fst (GetByReferenceNumber ref db) of
        Inl e \<Rightarrow> Inl (PWrap e)
      | Inr None \<Rightarrow> Inr None
      | Inr (Some t) \<Rightarrow>
          (case ResolvePayee (ps_registry svc) gatewayID (payee_of t) of Inl e \<Rightarrow> Inl (PWrap e) | Inr m \<Rightarrow> Inr (Some m)))"

definition toDomainStatus :: "string \<Rightarrow> payerr + string" where
  "toDomainStatus s =
     (if s = ''PENDING'' then Inr PayPending else if s = ''SUCCESS'' then Inr PaySuccess else if s = ''FAILED'' then Inr PayFailed
      else Inl (PWrap ErrUnsupportedWebhookStatus))"

definition settled :: "Transaction \<Rightarrow> bool" where
  "settled t \<longleftrightarrow> tx_Status t = PaySuccess \<or> tx_Status t = PayFailed"

definition settled_row :: "WebhookPayload \<Rightarrow> string \<Rightarrow> Transaction \<Rightarrow> Transaction" where
  "settled_row p status t =
     t\<lparr>tx_Status := status, tx_PaymentMethod := wp_PaymentMethod p,
       tx_GatewayMetadata := (tx_GatewayMetadata t)(''gateway_transaction_id'' \<mapsto> wp_GatewayTransactionID p, ''webhook_timestamp'' \<mapsto> wp_Timestamp p)\<rparr>"

text \<open>The function \<open>ProcessWebhook\<close> runs in a transaction: the row it claimed, or None when there was nothing to do.\<close>

definition settle_payment :: "WebhookPayload \<Rightarrow> string \<Rightarrow> pay_db \<Rightarrow> (payerr + Transaction option) \<times> pay_db" where
  "settle_payment p status db =
     (case GetByReferenceNumber (wp_ReferenceNumber p) db of
        (Inl e, db1) \<Rightarrow> (Inl (PWrap e), db1)
      | (Inr None, db1) \<Rightarrow> (Inl (PWrap ErrTransactionNotFound), db1)
      | (Inr (Some t), db1) \<Rightarrow>
          if settled t then (Inr None, db1)
          else if status = PaySuccess \<and> (wp_Amount p \<noteq> tx_Amount t \<or> \<not> EqualFold (wp_Currency p) (tx_Currency t))
          then (Inl (PWrap ErrAmountMismatch), db1)
          else (case repo_Update (settled_row p status t) db1 of
                  (Some e, db2) \<Rightarrow> (Inl (PWrap e), db2)
                | (None, db2) \<Rightarrow> (Inr (Some (settled_row p status t)), db2)))"

definition task_status :: "string \<Rightarrow> string" where
  "task_status s = (if s = PaySuccess then ''success'' else if s = PayFailed then ''fail'' else [])"

definition settlement_facts :: "paymentService \<Rightarrow> Transaction \<Rightarrow> vars" where
  "settlement_facts svc t =
     [''payment_status'' \<mapsto> VStr (task_status (tx_Status t)), ''reference_number'' \<mapsto> VStr (tx_ReferenceNumber t),
      ''amount'' \<mapsto> VStr (ps_decimal svc (tx_Amount t)), ''currency'' \<mapsto> VStr (tx_Currency t)]"

definition advance_task ::
  "paymentService \<Rightarrow> Transaction \<Rightarrow> gateway_response option \<Rightarrow> pworld \<Rightarrow> (payerr + gateway_response option) \<times> pworld" where
  "advance_task svc t resp w =
     (case ps_taskCompleter svc of
        None \<Rightarrow> (Inr resp, w)
      | Some completeStep \<Rightarrow>
          if task_status (tx_Status t) = [] then (Inr resp, w)
          else (let facts = settlement_facts svc t;
                    err = completeStep (tx_CallbackToken t) facts (pw_calls w);
                    w' = pay_log (CAdvanced (tx_CallbackToken t) facts err) w
                in case err of Some e \<Rightarrow> (Inl (PWrap e), w') | None \<Rightarrow> (Inr resp, w')))"

definition apply_webhook ::
  "paymentService \<Rightarrow> WebhookPayload \<Rightarrow> gateway_response option \<Rightarrow> pworld \<Rightarrow> (payerr + gateway_response option) \<times> pworld" where
  "apply_webhook svc p resp w =
     (case toDomainStatus (wp_Status p) of
        Inl e \<Rightarrow> (Inl (PWrap e), w)
      | Inr status \<Rightarrow>
     (case pay_stmt (RunInTransaction (settle_payment p status)) w of
        (Inl e, w1) \<Rightarrow> (Inl e, w1)
      | (Inr None, w1) \<Rightarrow> (Inr resp, w1)
      | (Inr (Some t), w1) \<Rightarrow> advance_task svc t resp w1))"

definition ProcessWebhook ::
  "paymentService \<Rightarrow> string \<Rightarrow> string \<Rightarrow> headers \<Rightarrow> pworld \<Rightarrow> (payerr + gateway_response option) \<times> pworld" where
  "ProcessWebhook svc gatewayID body hdrs w =
     (case registry_gateway (ps_registry svc) gatewayID of
        Inl e \<Rightarrow> (Inl (PWrap e), w)
      | Inr g \<Rightarrow>
     (case verifyCaller g gatewayID body hdrs w of
        (Some e, w1) \<Rightarrow> (Inl e, w1)
      | (None, w1) \<Rightarrow>
     (case gw_ParseWebhook g body hdrs (payeeLookup svc gatewayID (pay_meanwhile w1)) (pw_calls w1) of
        Inl e \<Rightarrow> (Inl (PWrap e), w1)
      | Inr (None, resp) \<Rightarrow> (Inl (PayErr ''gateway returned nil webhook payload''), w1)
      | Inr (Some p, resp) \<Rightarrow> apply_webhook svc p resp w1)))"

section \<open>HTTP\<close>

text \<open>The gateway ID of the path, and the body unless it is too large or unreadable; the answer is status and body.\<close>

definition pay_respond :: "payerr + gateway_response option \<Rightarrow> (payerr \<Rightarrow> int) \<Rightarrow> int \<times> string" where
  "pay_respond res code =
     (case res of
        Inl e \<Rightarrow> (code e, [])
      | Inr None \<Rightarrow> (500, [])
      | Inr (Some (payload, status)) \<Rightarrow> (status, payload))"

definition validation_code :: "payerr \<Rightarrow> int" where
  "validation_code e = (if pay_Is e ErrWebhookVerificationFailed then 401 else 500)"

definition webhook_code :: "payerr \<Rightarrow> int" where
  "webhook_code e =
     (if pay_Is e ErrWebhookVerificationFailed then 401
      else if pay_Is e ErrTransactionNotFound then 404
      else if pay_Is e ErrUnsupportedWebhookStatus then 400
      else if pay_Is e ErrAmountMismatch then 422
      else 500)"

definition http_ValidateReference ::
  "paymentService \<Rightarrow> int \<Rightarrow> string \<Rightarrow> string option \<Rightarrow> headers \<Rightarrow> pworld \<Rightarrow> (int \<times> string) \<times> pworld" where
  "http_ValidateReference svc now gatewayID body hdrs w =
     (if gatewayID = [] then ((400, []), w)
      else case body of
             None \<Rightarrow> ((400, []), w)
           | Some b \<Rightarrow> (case ValidateReference svc now gatewayID b hdrs w of (res, w') \<Rightarrow> (pay_respond res validation_code, w')))"

definition HandleWebhook ::
  "paymentService \<Rightarrow> string \<Rightarrow> string option \<Rightarrow> headers \<Rightarrow> pworld \<Rightarrow> (int \<times> string) \<times> pworld" where
  "HandleWebhook svc gatewayID body hdrs w =
     (if gatewayID = [] then ((400, []), w)
      else case body of
             None \<Rightarrow> ((400, []), w)
           | Some b \<Rightarrow> (case ProcessWebhook svc gatewayID b hdrs w of (res, w') \<Rightarrow> (pay_respond res webhook_code, w')))"

end
