(* ===== verification/Payment_Props.thy ===== *)
theory Payment_Props
  imports Payment_Service "HOL-Library.Multiset"
begin

text \<open>
  What the payment service guarantees: a payment counts as made only on the word of a verified gateway and for the right
  amount, a settlement is final and taken once, references are disclosed to their own gateway only, and what a checkout leaves
  behind. Two theorems describe behaviour that hosts have to know: the checkout's second write and the lost
  notification of the task.
\<close>

section \<open>The table\<close>

definition pay_ok :: "pay_db \<Rightarrow> bool" where
  "pay_ok db \<longleftrightarrow> distinct (map tx_ID (pd_rows db)) \<and> distinct (map tx_ReferenceNumber (pd_rows db))"

definition replaced :: "Transaction \<Rightarrow> Transaction list \<Rightarrow> Transaction list" where
  "replaced t ts = map (\<lambda>x. if tx_ID x = tx_ID t then t else x) ts"

lemma GetByReferenceNumber_row:
  assumes "GetByReferenceNumber ref db = (r, db')" and "pay_ok db"
  shows "pd_rows db' = pd_rows db \<and> (r = Inr (tx_of db ref) \<or> (\<exists>e. r = Inl e))"
  using assms find_sorted[of tx_ReferenceNumber "pd_rows db" ref tx_ID]
  by (auto simp: GetByReferenceNumber_def pay_exec_def Let_def pay_ok_def tx_of_def split: list.splits option.splits)

lemma tx_of_Some: "pay_ok db \<Longrightarrow> tx_of db ref = Some t \<longleftrightarrow> t \<in> set (pd_rows db) \<and> tx_ReferenceNumber t = ref"
  by (simp add: pay_ok_def tx_of_def find_keyed)

lemma tx_of_member: "tx_of db ref = Some t \<Longrightarrow> t \<in> set (pd_rows db) \<and> tx_ReferenceNumber t = ref"
  unfolding tx_of_def by (rule find_SomeD)

lemma replaced_keys:
  assumes "t \<in> set ts" and "distinct (map tx_ID ts)" and "tx_ID t' = tx_ID t" and "tx_ReferenceNumber t' = tx_ReferenceNumber t"
  shows "map tx_ID (replaced t' ts) = map tx_ID ts \<and> map tx_ReferenceNumber (replaced t' ts) = map tx_ReferenceNumber ts"
proof -
  have "x = t" if "x \<in> set ts" "tx_ID x = tx_ID t" for x
    using that assms(1,2) by (metis distinct_map inj_on_eq_iff)
  with assms(3,4) show ?thesis by (auto simp: replaced_def)
qed

lemma repo_Update_effect:
  assumes "repo_Update t db = (r, db')"
  shows "(r \<noteq> None \<and> pd_rows db' = pd_rows db) \<or> (r = None \<and> t \<in> set (pd_rows db') \<and>
           (list_ex (\<lambda>x. tx_ID x = tx_ID t) (pd_rows db) \<longrightarrow> pd_rows db' = replaced t (pd_rows db)))"
  using assms
  by (auto simp: repo_Update_def pay_exec_def Let_def save_tx_def insert_tx_def replaced_def list_ex_iff image_iff
      split: list.splits option.splits if_splits)

lemma settled_row_keys [simp]:
  "tx_ID (settled_row p st t) = tx_ID t" "tx_ReferenceNumber (settled_row p st t) = tx_ReferenceNumber t"
  "tx_Status (settled_row p st t) = st" "tx_CallbackToken (settled_row p st t) = tx_CallbackToken t"
  by (simp_all add: settled_row_def)

text \<open>What the transaction of a webhook does: it claims an unsettled row, or changes nothing.\<close>

definition claims :: "WebhookPayload \<Rightarrow> string \<Rightarrow> Transaction \<Rightarrow> pay_db \<Rightarrow> pay_db \<Rightarrow> bool" where
  "claims p st t db db' \<longleftrightarrow>
     tx_of db (wp_ReferenceNumber p) = Some t \<and> \<not> settled t \<and>
     (st = PaySuccess \<longrightarrow> wp_Amount p = tx_Amount t \<and> EqualFold (wp_Currency p) (tx_Currency t)) \<and>
     pd_rows db' = replaced (settled_row p st t) (pd_rows db)"

lemma settle_effect:
  assumes "settle_payment p st db = (r, db')" and "pay_ok db"
  shows "(\<exists>t. r = Inr (Some (settled_row p st t)) \<and> claims p st t db db') \<or>
         (pd_rows db' = pd_rows db \<and> (r = Inr None \<and> (\<exists>t. tx_of db (wp_ReferenceNumber p) = Some t \<and> settled t))) \<or> (\<exists>e. r = Inl e)"
proof -
  obtain rd db1 where rd: "GetByReferenceNumber (wp_ReferenceNumber p) db = (rd, db1)" by fastforce
  note row = GetByReferenceNumber_row[OF rd assms(2)]
  show ?thesis
  proof (cases "\<exists>t. rd = Inr (Some t) \<and> \<not> settled t \<and> \<not> (st = PaySuccess \<and> (wp_Amount p \<noteq> tx_Amount t \<or> \<not> EqualFold (wp_Currency p) (tx_Currency t)))")
    case False
    with assms(1) rd row show ?thesis by (auto simp: settle_payment_def split: sum.splits option.splits if_splits)
  next
    case True
    then obtain t where t: "rd = Inr (Some t)" "\<not> settled t"
      "st = PaySuccess \<longrightarrow> wp_Amount p = tx_Amount t \<and> EqualFold (wp_Currency p) (tx_Currency t)" by blast
    with row have tx: "tx_of db (wp_ReferenceNumber p) = Some t" by auto
    then have "list_ex (\<lambda>x. tx_ID x = tx_ID (settled_row p st t)) (pd_rows db1)"
      using row by (auto simp: list_ex_iff dest: tx_of_member)
    moreover obtain u db2 where u: "repo_Update (settled_row p st t) db1 = (u, db2)" by fastforce
    ultimately have "u \<noteq> None \<or> pd_rows db2 = replaced (settled_row p st t) (pd_rows db)"
      using repo_Update_effect[OF u] row by auto
    moreover have "u = None \<Longrightarrow> r = Inr (Some (settled_row p st t)) \<and> db' = db2" "u \<noteq> None \<Longrightarrow> \<exists>e. r = Inl e"
      using assms(1) rd t u by (auto simp: settle_payment_def)
    ultimately show ?thesis using t tx by (auto simp: claims_def)
  qed
qed

lemma settle_transaction:
  assumes "RunInTransaction (settle_payment p st) db = (r, db')" and "pay_ok db"
  shows "(\<exists>t. r = Inr (Some (settled_row p st t)) \<and> claims p st t db db') \<or>
         (pd_rows db' = pd_rows db \<and> ((r = Inr None \<and> (\<exists>t. tx_of db (wp_ReferenceNumber p) = Some t \<and> settled t)) \<or> (\<exists>e. r = Inl e)))"
proof -
  obtain r1 db1 where s: "settle_payment p st db = (r1, db1)" by fastforce
  obtain c db2 where c: "pay_exec (\<lambda>db. ((), db)) db1 = (c, db2)" by fastforce
  then have "pd_rows db2 = pd_rows db1" by (auto simp: pay_exec_def Let_def split: list.splits option.splits)
  with settle_effect[OF s assms(2)] assms(1) s c show ?thesis
    by (auto simp: RunInTransaction_def claims_def split: sum.splits)
qed

lemma claims_ok: "claims p st t db db' \<Longrightarrow> pay_ok db \<Longrightarrow> pay_ok db'"
  using replaced_keys[of t "pd_rows db" "settled_row p st t"] tx_of_member[of db "wp_ReferenceNumber p" t]
  by (simp add: claims_def pay_ok_def)

lemma claims_rows:
  assumes "claims p st t db db'" and "pay_ok db"
  shows "tx_of db' ref = (if ref = wp_ReferenceNumber p then Some (settled_row p st t) else tx_of db ref)"
proof -
  have t: "t \<in> set (pd_rows db)" "tx_ReferenceNumber t = wp_ReferenceNumber p" and rows: "pd_rows db' = replaced (settled_row p st t) (pd_rows db)"
    using assms(1) tx_of_member by (auto simp: claims_def)
  have same: "x = t" if "x \<in> set (pd_rows db)" "tx_ID x = tx_ID t" for x
    using that t(1) assms(2) by (metis distinct_map inj_on_eq_iff pay_ok_def)
  have ok: "pay_ok db'" using assms by (rule claims_ok)
  show ?thesis
  proof (cases "ref = wp_ReferenceNumber p")
    case True
    have "settled_row p st t \<in> set (pd_rows db')" using t(1) by (auto simp: rows replaced_def image_iff)
    with True t(2) show ?thesis using tx_of_Some[OF ok] by simp
  next
    case False
    have "x \<in> set (pd_rows db') \<longleftrightarrow> x \<in> set (pd_rows db)" if "tx_ReferenceNumber x = ref" for x
      using that False t same by (auto simp: rows replaced_def image_iff)
    then have "tx_of db' ref = Some x \<longleftrightarrow> tx_of db ref = Some x" for x
      using tx_of_Some[OF ok] tx_of_Some[OF assms(2)] by auto
    with False show ?thesis by (metis not_Some_eq)
  qed
qed

section \<open>Settlement is final\<close>

text \<open>Creations and webhooks in any order; the log keeps what each webhook settled.\<close>

inductive pay_run :: "pay_db \<Rightarrow> (string \<times> string) list \<Rightarrow> pay_db \<Rightarrow> bool" for db0 where
  start: "pay_run db0 [] db0"
| claimed: "pay_run db0 l db \<Longrightarrow> RunInTransaction (settle_payment p st) db = (Inr (Some t), db') \<Longrightarrow>
    pay_run db0 (l @ [(tx_ReferenceNumber t, st)]) db'"
| ignored: "pay_run db0 l db \<Longrightarrow> RunInTransaction (settle_payment p st) db = (r, db') \<Longrightarrow> (\<nexists>t. r = Inr (Some t)) \<Longrightarrow> pay_run db0 l db'"
| created: "pay_run db0 l db \<Longrightarrow> pay_exec (insert_tx t) db = (r, db') \<Longrightarrow> pay_run db0 l db'"

definition final_statuses :: "string \<Rightarrow> (string \<times> string) list \<Rightarrow> string list" where
  "final_statuses ref l = map snd (filter (\<lambda>(r, st). r = ref \<and> (st = PaySuccess \<or> st = PayFailed)) l)"

lemma insert_tx_rows:
  assumes "pay_exec (insert_tx t) db = (r, db')" and "pay_ok db"
  shows "pay_ok db' \<and> (tx_of db ref \<noteq> None \<longrightarrow> tx_of db' ref = tx_of db ref)"
proof -
  have rows: "pd_rows db' = pd_rows db \<or>
      (pd_rows db' = pd_rows db @ [t] \<and> \<not> list_ex (\<lambda>x. tx_ID x = tx_ID t \<or> tx_ReferenceNumber x = tx_ReferenceNumber t) (pd_rows db))"
    using assms(1) by (auto simp: pay_exec_def Let_def insert_tx_def split: list.splits option.splits if_splits)
  then have "pay_ok db'" using assms(2) by (auto simp: pay_ok_def list_ex_iff) fastforce+
  moreover have "find q (xs @ [x]) = find q xs" if "find q xs \<noteq> None" for q xs and x :: Transaction
    using that by (induction xs) auto
  ultimately show ?thesis using rows by (auto simp: tx_of_def)
qed

lemma pay_run_inv:
  assumes "pay_run db0 l db" and "pay_ok db0"
  shows "pay_ok db \<and> length (final_statuses ref l) \<le> 1 \<and>
         (final_statuses ref l \<noteq> [] \<longrightarrow> (\<exists>t. tx_of db ref = Some t \<and> [tx_Status t] = final_statuses ref l)) \<and>
         (\<forall>t. tx_of db0 ref = Some t \<and> settled t \<longrightarrow> tx_of db ref = Some t \<and> final_statuses ref l = [])"
  using assms
proof (induction rule: pay_run.induct)
  case start
  then show ?case by (simp add: final_statuses_def)
next
  case (claimed l db p st t db')
  then have ok: "pay_ok db" by blast
  from settle_transaction[OF claimed.hyps(2) ok] obtain t0
    where t: "t = settled_row p st t0" and c: "claims p st t0 db db'" by auto
  have open': "\<not> settled t0" "tx_of db (wp_ReferenceNumber p) = Some t0" "tx_ReferenceNumber t0 = wp_ReferenceNumber p"
    using c tx_of_member by (auto simp: claims_def)
  note rows = claims_rows[OF c ok] claims_ok[OF c ok]
  show ?case
  proof (cases "ref = wp_ReferenceNumber p")
    case True
    have none: "final_statuses ref l = []"
    proof (rule ccontr)
      assume "final_statuses ref l \<noteq> []"
      with claimed True open'(2) have "[tx_Status t0] = final_statuses ref l" by auto
      then have "tx_Status t0 \<in> set (final_statuses ref l)" by (metis list.set_intros(1))
      then have "settled t0" by (auto simp: final_statuses_def settled_def)
      with open' show False by simp
    qed
    with claimed True open' rows t show ?thesis by (auto simp: final_statuses_def)
  next
    case False
    with claimed open' rows t show ?thesis by (auto simp: final_statuses_def)
  qed
next
  case (ignored l db p st r db')
  then have ok: "pay_ok db" by blast
  from settle_transaction[OF ignored.hyps(2) ok] ignored.hyps(3) have "pd_rows db' = pd_rows db" by auto
  then have "tx_of db' = tx_of db" "pay_ok db'" using ok by (simp_all add: tx_of_def pay_ok_def fun_eq_iff)
  with ignored show ?case by auto
next
  case (created l db t r db')
  then have ok: "pay_ok db" by blast
  from insert_tx_rows[OF created.hyps(2) this] created show ?case by fastforce
qed


section \<open>Calls among other calls\<close>

definition pay_orderly :: "pworld \<Rightarrow> bool" where
  "pay_orderly w \<longleftrightarrow> pay_ok (pw_db w) \<and> (\<forall>f \<in> set (pw_others w). \<forall>db. pay_ok db \<longrightarrow> pay_ok (f db))"

lemma pay_orderly_meanwhile: "pay_orderly w \<Longrightarrow> pay_ok (pay_meanwhile w)"
  by (auto simp: pay_orderly_def pay_meanwhile_def split: list.splits)

lemma pay_stmtD: "pay_stmt run w = (r, w') \<Longrightarrow> run (pay_meanwhile w) = (r, pw_db w') \<and> pw_calls w' = pw_calls w"
  by (auto simp: pay_stmt_def split: prod.splits)

lemma pay_log_simps [simp]:
  "pw_db (pay_log c w) = pw_db w" "pw_others (pay_log c w) = pw_others w" "pw_calls (pay_log c w) = pw_calls w @ [c]"
  "pay_meanwhile (pay_log c w) = pay_meanwhile w"
  by (simp_all add: pay_log_def pay_meanwhile_def split: list.split)

fun advances :: "pcall \<Rightarrow> bool" where
  "advances (CAdvanced token facts e) \<longleftrightarrow> True"
| "advances _ \<longleftrightarrow> False"

lemma advance_task_frame:
  assumes "advance_task svc t resp w = (res, w')"
  shows "pw_db w' = pw_db w \<and> (pw_calls w' = pw_calls w \<or>
           (\<exists>err. settled t \<and> pw_calls w' = pw_calls w @ [CAdvanced (tx_CallbackToken t) (settlement_facts svc t) err]))"
  using assms
  by (auto simp: advance_task_def Let_def task_status_def settled_def split: option.splits if_splits)

text \<open>The part of a webhook after verification and parsing.\<close>

lemma apply_webhook_effect:
  assumes "apply_webhook svc p resp w = (res, w')" and "pay_orderly w"
  shows "(\<exists>st t. toDomainStatus (wp_Status p) = Inr st \<and> claims p st t (pay_meanwhile w) (pw_db w') \<and>
            (pw_calls w' = pw_calls w \<or> (\<exists>err. st \<noteq> PayPending \<and>
               pw_calls w' = pw_calls w @ [CAdvanced (tx_CallbackToken t) (settlement_facts svc (settled_row p st t)) err]))) \<or>
         ((pd_rows (pw_db w') = pd_rows (pay_meanwhile w) \<or> w' = w) \<and> pw_calls w' = pw_calls w)"
proof (cases "toDomainStatus (wp_Status p)")
  case (Inl e)
  with assms(1) show ?thesis by (simp add: apply_webhook_def)
next
  case (Inr st)
  obtain r w1 where st: "pay_stmt (RunInTransaction (settle_payment p st)) w = (r, w1)" by fastforce
  note s = pay_stmtD[OF st]
  from settle_transaction[OF conjunct1[OF s] pay_orderly_meanwhile[OF assms(2)]] show ?thesis
  proof (elim disjE exE conjE)
    fix t
    assume r: "r = Inr (Some (settled_row p st t))" and c: "claims p st t (pay_meanwhile w) (pw_db w1)"
    with assms(1) Inr st have "advance_task svc (settled_row p st t) resp w1 = (res, w')" by (simp add: apply_webhook_def)
    from advance_task_frame[OF this] c Inr s show ?thesis by (fastforce simp: settled_def status_names)
  qed (use assms(1) Inr st s in \<open>auto simp: apply_webhook_def\<close>)
qed

lemma ProcessWebhook_stages:
  assumes "ProcessWebhook svc gid body hdrs w = (res, w')"
  shows "(\<not> list_ex advances (drop (length (pw_calls w)) (pw_calls w')) \<and> pw_db w' = pw_db w) \<or>
         (\<exists>g p resp. registry_gateway (ps_registry svc) gid = Inr g \<and> gw_VerifyWebhook g body hdrs (pw_calls w) = None \<and>
            gw_ParseWebhook g body hdrs (payeeLookup svc gid (pay_meanwhile w)) (pw_calls w @ [CVerified gid None]) = Inr (Some p, resp) \<and>
            apply_webhook svc p resp (pay_log (CVerified gid None) w) = (res, w'))"
  using assms
  by (auto simp: ProcessWebhook_def verifyCaller_def Let_def split: sum.splits option.splits prod.splits)

text \<open>C22. Money counts as received only on the word of a verified gateway, and for the amount asked. A webhook changes the
  table only by claiming one unsettled row, after the gateway verified the caller, for the reference, status and payment data of the parsed
  notification; as SUCCESS only if amount and currency are those of the checkout. The task is told at most once, with the
  token stored for this reference and with a final status.\<close>

theorem webhook_settles_verified:
  assumes "ProcessWebhook svc gid body hdrs w = (res, w')" and "pay_orderly w"
  shows "(\<not> list_ex advances (drop (length (pw_calls w)) (pw_calls w')) \<and>
            (pw_db w' = pw_db w \<or> pd_rows (pw_db w') = pd_rows (pay_meanwhile w))) \<or>
         (\<exists>g p resp st t. registry_gateway (ps_registry svc) gid = Inr g \<and> gw_VerifyWebhook g body hdrs (pw_calls w) = None \<and>
            gw_ParseWebhook g body hdrs (payeeLookup svc gid (pay_meanwhile w)) (pw_calls w @ [CVerified gid None]) = Inr (Some p, resp) \<and>
            toDomainStatus (wp_Status p) = Inr st \<and> claims p st t (pay_meanwhile w) (pw_db w') \<and>
            (pw_calls w' = pw_calls w @ [CVerified gid None] \<or>
             (\<exists>err. st \<noteq> PayPending \<and> pw_calls w' = pw_calls w @
                [CVerified gid None, CAdvanced (tx_CallbackToken t) (settlement_facts svc (settled_row p st t)) err])))"
  using ProcessWebhook_stages[OF assms(1)]
proof (elim disjE exE conjE)
  fix g p resp
  assume g: "registry_gateway (ps_registry svc) gid = Inr g" "gw_VerifyWebhook g body hdrs (pw_calls w) = None"
    "gw_ParseWebhook g body hdrs (payeeLookup svc gid (pay_meanwhile w)) (pw_calls w @ [CVerified gid None]) = Inr (Some p, resp)"
    and a: "apply_webhook svc p resp (pay_log (CVerified gid None) w) = (res, w')"
  have "pay_orderly (pay_log (CVerified gid None) w)" using assms(2) by (simp add: pay_orderly_def)
  from apply_webhook_effect[OF a this] g show ?thesis by auto
qed auto


section \<open>Disclosure\<close>

text \<open>A reference is shown to its own gateway only. Whenever the details of a transaction are handed to a gateway for an answer, that gateway
  has just verified the caller, the transaction is one of its own and the mapping is its own mapping of the payee; and the transaction is
  called payable exactly when it is pending and not expired.\<close>

theorem reference_disclosed_to_owner:
  assumes "ValidateReference svc now gid body hdrs w = (res, w')" and "pay_orderly w"
    and "CAnswered gid' (Some vt) ok \<in> set (drop (length (pw_calls w)) (pw_calls w'))"
  shows "\<exists>g t mapping. registry_gateway (ps_registry svc) gid = Inr g \<and> gid' = gid \<and> gw_VerifyWebhook g body hdrs (pw_calls w) = None \<and>
           t \<in> set (pd_rows (pay_meanwhile w)) \<and> tx_GatewayID t = gid \<and> payee_mapping (ps_registry svc) gid (payee_of t) = Some mapping \<and>
           vt = validation_tx t mapping \<and> (ok \<longleftrightarrow> tx_Status t = PayPending \<and> now < tx_ExpiryDate t)"
proof -
  obtain g where g: "registry_gateway (ps_registry svc) gid = Inr g"
    using assms(1,3) by (auto simp: ValidateReference_def split: sum.splits)
  have v: "gw_VerifyWebhook g body hdrs (pw_calls w) = None"
    using assms(1,3) g by (auto simp: ValidateReference_def verifyCaller_def Let_def split: option.splits)
  let ?w1 = "pay_log (CVerified gid None) w"
  obtain ref where ref: "gw_ExtractReferenceNumber g body = Inr ref"
    using assms(1,3) g v by (auto simp: ValidateReference_def verifyCaller_def Let_def split: sum.splits)
  obtain rd w2 where rd: "pay_stmt (GetByReferenceNumber ref) ?w1 = (rd, w2)" by fastforce
  have "pw_calls w2 = pw_calls w @ [CVerified gid None]" using pay_stmtD[OF rd] by simp
  with assms(1,3) g v ref rd obtain t mapping where t: "rd = Inr (Some t)" "tx_GatewayID t = gid"
      "ResolvePayee (ps_registry svc) gid (payee_of t) = Inr mapping" "gid' = gid" "vt = validation_tx t mapping" "ok = payable now t"
    by (auto simp: ValidateReference_def verifyCaller_def Let_def answer_def split: sum.splits option.splits if_splits)
  have "GetByReferenceNumber ref (pay_meanwhile w) = (rd, pw_db w2)" using pay_stmtD[OF rd] by simp
  from GetByReferenceNumber_row[OF this pay_orderly_meanwhile[OF assms(2)]] t(1)
  have "t \<in> set (pd_rows (pay_meanwhile w))" by (auto dest!: tx_of_member[OF sym])
  with g v t show ?thesis by (auto simp: ResolvePayee_def payable_def split: option.splits)
qed

section \<open>Checkout\<close>

text \<open>The second write of a checkout stores the whole row again. When a checkout with a session ID has succeeded, its row is PENDING with the
  metadata of the request, whatever happened to it since it was created: a settlement that a webhook recorded in between is
  overwritten.\<close>

theorem checkout_writes_whole_row:
  assumes "CreateCheckoutSession svc now req w = (Inr resp, w')" and "rs_SessionID resp \<noteq> []"
  shows "\<exists>t \<in> set (pd_rows (pw_db w')). tx_ReferenceNumber t = rs_ReferenceNumber resp \<and> tx_SessionID t = rs_SessionID resp \<and>
           tx_Status t = PayPending \<and> tx_GatewayMetadata t = cr_Metadata req \<and> tx_PaymentMethod t = []"
proof -
  from assms(1) obtain g mapping ref w2 calls where
    o: "open_session g req mapping (pending_tx svc req ref calls) now w2 = (Inr resp, w')"
    by (auto simp: CreateCheckoutSession_def Let_def split: option.splits sum.splits prod.splits if_splits)
  let ?t = "pending_tx svc req ref calls"
  from o assms(2) obtain s w1 where s: "resp = checkout_response req ref s now" "sr_SessionID s \<noteq> []"
      and u: "pay_stmt (repo_Update (?t\<lparr>tx_SessionID := sr_SessionID s\<rparr>)) w1 = (None, w')"
    by (auto simp: open_session_def Let_def checkout_response_def pending_tx_def split: sum.splits option.splits if_splits prod.splits)
  from pay_stmtD[OF u] have "repo_Update (?t\<lparr>tx_SessionID := sr_SessionID s\<rparr>) (pay_meanwhile w1) = (None, pw_db w')" by blast
  from repo_Update_effect[OF this] have "?t\<lparr>tx_SessionID := sr_SessionID s\<rparr> \<in> set (pd_rows (pw_db w'))" by auto
  with s show ?thesis by (intro bexI[of _ "?t\<lparr>tx_SessionID := sr_SessionID s\<rparr>"]) (simp_all add: pending_tx_def checkout_response_def)
qed

lemma idle_stmt: "pw_others w = [] \<Longrightarrow> pay_stmt run w = (fst (run (pw_db w)), w\<lparr>pw_db := snd (run (pw_db w))\<rparr>)"
  by (cases w) (simp add: pay_stmt_def pay_meanwhile_def split: prod.splits)

lemma quiet_update:
  assumes "pd_rows db = ts @ [t]" and "pd_faults db = []" and "tx_ID t' = tx_ID t" and "\<forall>x \<in> set ts. tx_ID x \<noteq> tx_ID t"
  shows "repo_Update t' db = (None, db\<lparr>pd_faults := [], pd_rows := ts @ [t']\<rparr>)"
proof -
  have "map (\<lambda>x. if tx_ID x = tx_ID t then t' else x) ts = ts" using assms(4) by (intro map_idI) auto
  with assms(1-3) show ?thesis by (simp add: repo_Update_def pay_exec_def save_tx_def)
qed

text \<open>What a checkout leaves behind when nothing interferes: a refused request, an unmapped payee or a failing generator leave no row; otherwise there is
  exactly one new row, written before the gateway is called. It is PENDING with the session ID after success, FAILED when the gateway refused the
  session, and stays PENDING when the gateway gave no session at all.\<close>

theorem checkout_outcome:
  assumes "CreateCheckoutSession svc now req w = (res, w')" and "pw_others w = []" and "pd_faults (pw_db w) = []"
  shows "(\<exists>e. res = Inl e \<and> pd_rows (pw_db w') = pd_rows (pw_db w) \<and> (\<forall>g q r. CSession g q r \<notin> set (drop (length (pw_calls w)) (pw_calls w')))) \<or>
         (\<exists>t q r gen. tx_Status t = PayPending \<and> tx_ReferenceNumber t \<noteq> [] \<and> tx_Amount t = cr_Amount req \<and> tx_CallbackToken t = cr_CallbackToken req \<and>
            pw_calls w' = pw_calls w @ [gen, CSession (cr_GatewayID req) q r] \<and>
            pd_rows (pw_db w') = pd_rows (pw_db w) @
              [case r of Inl _ \<Rightarrow> t\<lparr>tx_Status := PayFailed\<rparr> | Inr None \<Rightarrow> t | Inr (Some s) \<Rightarrow> t\<lparr>tx_SessionID := sr_SessionID s\<rparr>] \<and>
            (case res of Inl _ \<Rightarrow> \<forall>s. r \<noteq> Inr (Some s) | Inr resp \<Rightarrow> rs_ReferenceNumber resp = tx_ReferenceNumber t))"
proof (cases "\<exists>e. res = Inl e \<and> (w' = w \<or> (\<exists>gen. w' = pay_log (CGenerated req gen) w))")
  case True
  then show ?thesis by auto
next
  case False
  with assms(1) obtain g mapping ref where ref: "ps_refGen svc req (pw_calls w) = Inr ref" "ref \<noteq> []"
    and run: "(case repo_Create (pending_tx svc req ref (pw_calls w @ [CGenerated req (Inr ref)])) (pay_log (CGenerated req (Inr ref)) w) of
        (Some e, w2) \<Rightarrow> (Inl (PWrap e), w2)
      | (None, w2) \<Rightarrow> open_session g req mapping (pending_tx svc req ref (pw_calls w @ [CGenerated req (Inr ref)])) now w2) = (res, w')"
    by (auto simp: CreateCheckoutSession_def Let_def split: option.splits sum.splits if_splits)
  let ?t = "pending_tx svc req ref (pw_calls w @ [CGenerated req (Inr ref)])" and ?w1 = "pay_log (CGenerated req (Inr ref)) w"
  have t: "tx_Status ?t = PayPending" "tx_ReferenceNumber ?t = ref" "tx_Amount ?t = cr_Amount req" "tx_CallbackToken ?t = cr_CallbackToken req" "tx_SessionID ?t = []"
    by (simp_all add: pending_tx_def)
  show ?thesis
  proof (cases "list_ex (\<lambda>x. tx_ID x = tx_ID ?t \<or> tx_ReferenceNumber x = tx_ReferenceNumber ?t) (pd_rows (pw_db w))")
    case True
    with assms(2,3) have "\<exists>e w2. repo_Create ?t ?w1 = (Some e, w2) \<and> pd_rows (pw_db w2) = pd_rows (pw_db w) \<and> pw_calls w2 = pw_calls ?w1"
      by (auto simp: repo_Create_def idle_stmt pay_exec_def insert_tx_def referenceHeldByAnother_def GetByReferenceNumber_def
          split: option.splits)
    with run show ?thesis by auto
  next
    case False
    let ?w2 = "?w1\<lparr>pw_db := (pw_db w)\<lparr>pd_faults := [], pd_rows := pd_rows (pw_db w) @ [?t]\<rparr>\<rparr>"
    have "repo_Create ?t ?w1 = (None, ?w2)"
      using False assms(2,3) by (simp add: repo_Create_def idle_stmt pay_exec_def insert_tx_def)
    with run have o: "open_session g req mapping ?t now ?w2 = (res, w')" by simp
    have fresh: "\<forall>x \<in> set (pd_rows (pw_db w)). tx_ID x \<noteq> tx_ID ?t" using False by (auto simp: list_ex_iff)
    let ?q = "session_request req mapping" and ?r = "gw_CreateSession g (session_request req mapping) (pw_calls ?w2)"
    have "pw_calls w' = pw_calls w @ [CGenerated req (Inr ref), CSession (cr_GatewayID req) ?q ?r] \<and>
        pd_rows (pw_db w') = pd_rows (pw_db w) @
          [case ?r of Inl _ \<Rightarrow> ?t\<lparr>tx_Status := PayFailed\<rparr> | Inr None \<Rightarrow> ?t | Inr (Some s) \<Rightarrow> ?t\<lparr>tx_SessionID := sr_SessionID s\<rparr>] \<and>
        (case res of Inl _ \<Rightarrow> \<forall>s. ?r \<noteq> Inr (Some s) | Inr resp \<Rightarrow> rs_ReferenceNumber resp = tx_ReferenceNumber ?t)"
      using o assms(2) fresh t(5)
      by (auto simp: open_session_def Let_def idle_stmt checkout_response_def
          quiet_update[of _ "pd_rows (pw_db w)" ?t] split: sum.splits option.splits if_splits)
    with t ref show ?thesis
      by (intro disjI2 exI[of _ ?t] exI[of _ ?q] exI[of _ ?r] exI[of _ "CGenerated req (Inr ref)"]) simp
  qed
qed

section \<open>Listing\<close>

lemma sorted_lex:
  fixes f :: "'a \<Rightarrow> 'b::linorder" and h :: "'a \<Rightarrow> 'c::linorder"
  shows "sorted (map f ys) \<Longrightarrow> \<forall>k. sorted (map h (filter (\<lambda>x. f x = k) ys)) \<Longrightarrow>
    sorted_wrt (\<lambda>a b. f a < f b \<or> f a = f b \<and> h a \<le> h b) ys"
proof (induction ys)
  case (Cons y ys)
  have "sorted (map h (filter (\<lambda>x. f x = k) ys))" for k using Cons.prems(2)[rule_format, of k] by (auto split: if_splits)
  with Cons have "sorted_wrt (\<lambda>a b. f a < f b \<or> f a = f b \<and> h a \<le> h b) ys" by simp
  moreover have "h y \<le> h x" if "x \<in> set ys" "f x = f y" for x
    using Cons.prems(2)[rule_format, of "f y"] that by auto
  ultimately show ?case using Cons.prems(1) by fastforce
qed simp

lemma update_entries: "x \<in> set (AList.update k v kvs) \<Longrightarrow> x = (k, v) \<or> x \<in> set kvs"
  by (induction kvs) (auto split: if_splits)

lemma add_methods_infos:
  "add_methods marshal fs ms reg = Inr reg' \<Longrightarrow> distinct (map fst (pr_infos reg)) \<Longrightarrow> \<forall>(k, i) \<in> set (pr_infos reg). gi_ID i = k \<Longrightarrow>
   distinct (map fst (pr_infos reg')) \<and> (\<forall>(k, i) \<in> set (pr_infos reg'). gi_ID i = k)"
proof (induction ms arbitrary: reg)
  case (Cons m ms)
  from Cons.prems(1) obtain reg1 where a: "add_method marshal fs m reg = Inr reg1" and r: "add_methods marshal fs ms reg1 = Inr reg'"
    by (auto split: sum.splits)
  from a have infos: "pr_infos reg1 = AList.update (gi_ID (mc_Info m)) (mc_Info m) (pr_infos reg)"
    by (auto simp: add_method_def Let_def split: sum.splits option.splits)
  have "\<forall>(k, i) \<in> set (pr_infos reg1). gi_ID i = k"
    unfolding infos using Cons.prems(3) update_entries by fastforce
  moreover have "distinct (map fst (pr_infos reg1))" unfolding infos using Cons.prems(2) by (rule distinct_update)
  ultimately show ?case using Cons.IH[OF r] by blast
qed simp

text \<open>The payment methods offered for a payee are exactly the active ones that can collect for it, by display order and then by
  ID, each once; the order in which Go ranges over the map of methods has no influence.\<close>

theorem ListInfo_stable:
  assumes "payment_NewRegistry marshal methods fs = Inr reg" and "mset infos = mset (pr_infos reg)"
  shows "ListInfo (reg\<lparr>pr_infos := infos\<rparr>) payee = ListInfo reg payee \<and>
         set (ListInfo reg payee) = {i. (gi_ID i, i) \<in> set (pr_infos reg) \<and> gi_IsActive i \<and> payee_mapping reg (gi_ID i) payee \<noteq> None} \<and>
         sorted_wrt (\<lambda>a b. gi_DisplayOrder a < gi_DisplayOrder b \<or> gi_DisplayOrder a = gi_DisplayOrder b \<and> gi_ID a \<le> gi_ID b) (ListInfo reg payee) \<and>
         distinct (map gi_ID (ListInfo reg payee))"
proof -
  have inv: "distinct (map fst (pr_infos reg))" "\<forall>(k, i) \<in> set (pr_infos reg). gi_ID i = k"
    using add_methods_infos[OF assms(1)[unfolded payment_NewRegistry_def]] by auto
  let ?keep = "\<lambda>i. gi_IsActive i \<and> payee_mapping reg (gi_ID i) payee \<noteq> None"
  let ?xs = "filter ?keep (map snd (pr_infos reg))"
  have "map gi_ID (map snd (pr_infos reg)) = map fst (pr_infos reg)" using inv(2) by auto
  then have ids: "distinct (map gi_ID (map snd (pr_infos reg)))" using inv(1) by (simp only:)
  then have xs: "distinct (map gi_ID ?xs)" by (simp add: distinct_map_filter)
  have same: "mset (filter ?keep (map snd infos)) = mset ?xs" using assms(2) by simp
  have "inj_on gi_ID (set ?xs)" using xs by (simp only: distinct_map)
  then have "inj_on gi_ID (set (filter ?keep (map snd infos)))" using mset_eq_setD[OF same] by (simp only:)
  with same have "sort_key gi_ID (filter ?keep (map snd infos)) = sort_key gi_ID ?xs"
    by (intro sort_key_inj_key_eq) simp_all
  moreover have "payee_mapping (reg\<lparr>pr_infos := infos\<rparr>) = payee_mapping reg" by (simp add: payee_mapping_def fun_eq_iff)
  ultimately have "ListInfo (reg\<lparr>pr_infos := infos\<rparr>) payee = ListInfo reg payee" by (simp add: ListInfo_def)
  moreover have "set (ListInfo reg payee) = {i. (gi_ID i, i) \<in> set (pr_infos reg) \<and> ?keep i}"
    using inv(2) by (force simp: ListInfo_def)
  moreover have "sorted_wrt (\<lambda>a b. gi_DisplayOrder a < gi_DisplayOrder b \<or> gi_DisplayOrder a = gi_DisplayOrder b \<and> gi_ID a \<le> gi_ID b) (ListInfo reg payee)"
    unfolding ListInfo_def by (rule sorted_lex) (auto simp: sort_key_stable sorted_filter)
  moreover have "distinct (map gi_ID (ListInfo reg payee))" using xs by (simp add: ListInfo_def distinct_map)
  ultimately show ?thesis by blast
qed

end
