(* ===== verification/Payment_Samples.thy ===== *)
theory Payment_Samples
  imports Payment_Props
begin

text \<open>
  Two gateways, one checkout and its notifications, and the witnesses of the properties of \<open>Payment_Props\<close>.
\<close>

section \<open>A registry with two gateways\<close>

text \<open>The body of a notification is its status; the secret is in the body of a validation request.\<close>

definition plain_gateway :: gateway where
  "plain_gateway =
     \<lparr>gw_ValidatePayeeMapping = (\<lambda>m. None),
      gw_CreateSession = (\<lambda>q calls. Inr (Some \<lparr>sr_SessionID = ''S1'', sr_Type = ''REDIRECT'', sr_CheckoutURL = ''u'', sr_Instructions = []\<rparr>)),
      gw_VerifyWebhook = (\<lambda>b h calls. None), gw_ExtractReferenceNumber = (\<lambda>b. Inr ''R1''),
      gw_HandleValidateReference = (\<lambda>vt ok b. Inr (Some (if ok then ''yes'' else ''no'', 200))),
      gw_ParseWebhook = (\<lambda>b h look calls. Inr (Some \<lparr>wp_ReferenceNumber = ''R1'', wp_GatewayTransactionID = ''g1'', wp_Status = b, wp_Amount = 100,
         wp_Currency = ''lkr'', wp_PaymentMethod = ''CC'', wp_Timestamp = ''t''\<rparr>, Some (''ok'', 200)))\<rparr>"

definition method_of :: "string \<Rightarrow> int \<Rightarrow> MethodConfig" where
  "method_of gid ord =
     \<lparr>mc_Info = \<lparr>gi_ID = gid, gi_IsActive = True, gi_DisplayName = gid, gi_Description = [], gi_LogoURL = [], gi_DisplayOrder = ord, gi_PrimaryColor = []\<rparr>,
      mc_Config = [], mc_Payees = [(''org'', \<lparr>op_Defaults = empty_map, op_Services = [(''permit'', empty_map)]\<rparr>)]\<rparr>"

definition sample_methods :: "MethodConfig list" where
  "sample_methods = [method_of ''bank'' 1, method_of ''card'' 1]"

definition sample_factories :: factories where
  "sample_factories = [(''bank'', Some (\<lambda>c. Inr plain_gateway)), (''card'', Some (\<lambda>c. Inr plain_gateway))]"

definition pay_registry :: paymentRegistry where
  "pay_registry = projr (payment_NewRegistry (\<lambda>m. Inr ''{}'') sample_methods sample_factories)"

lemmas registry_eval = payment_NewRegistry_def sample_methods_def sample_factories_def method_of_def add_method_def
  resolvePayees_def is_blank_def is_space_def plain_gateway_def

lemma pay_registry: "payment_NewRegistry (\<lambda>m. Inr ''{}'') sample_methods sample_factories = Inr pay_registry"
  by (simp add: pay_registry_def registry_eval)

theorem ListInfo_stable_witness:
  "map gi_ID (ListInfo (pay_registry\<lparr>pr_infos := rev (pr_infos pay_registry)\<rparr>) \<lparr>py_OrgID = ''org'', py_ServiceID = ''permit''\<rparr>) = [''bank'', ''card'']"
proof -
  have "ListInfo (pay_registry\<lparr>pr_infos := rev (pr_infos pay_registry)\<rparr>) p = ListInfo pay_registry p" for p
    using ListInfo_stable[OF pay_registry, of "rev (pr_infos pay_registry)" p] by simp
  moreover have "map gi_ID (ListInfo pay_registry \<lparr>py_OrgID = ''org'', py_ServiceID = ''permit''\<rparr>) = [''bank'', ''card'']" by code_simp
  ultimately show ?thesis by simp
qed

section \<open>A checkout\<close>

definition pay_service :: paymentService where
  "pay_service = \<lparr>ps_registry = pay_registry, ps_refGen = (\<lambda>q calls. Inr ''R1''), ps_taskCompleter = Some (\<lambda>tok facts calls. Some (PayErr ''engine down'')),
     ps_newID = (\<lambda>calls. ''id1''), ps_decimal = (\<lambda>a. ''100'')\<rparr>"

definition pay_request :: CreateCheckoutRequest where
  "pay_request = \<lparr>cr_GatewayID = ''bank'', cr_Payee = \<lparr>py_OrgID = ''org'', py_ServiceID = ''permit''\<rparr>, cr_Amount = 100, cr_Currency = ''LKR'',
     cr_SuccessRedirectURL = [], cr_CancelRedirectURL = [], cr_ExpiresAt = 1000, cr_Metadata = (\<lambda>_. None), cr_CallbackToken = ''tok''\<rparr>"

definition pay_empty :: pworld where
  "pay_empty = \<lparr>pw_db = \<lparr>pd_rows = [], pd_faults = []\<rparr>, pw_others = [], pw_calls = []\<rparr>"

definition pay_open :: pworld where
  "pay_open = snd (CreateCheckoutSession pay_service 0 pay_request pay_empty)"

text \<open>A notification that arrives while the gateway's answer to the checkout is still under way.\<close>

definition racing :: pworld where
  "racing = pay_empty\<lparr>pw_others := [\<lambda>db. db, \<lambda>db. pw_db (snd (ProcessWebhook pay_service ''bank'' ''SUCCESS'' [] (pay_empty\<lparr>pw_db := db\<rparr>)))]\<rparr>"

theorem checkout_writes_whole_row_witness:
  "\<exists>t \<in> set (pd_rows (pw_db (snd (CreateCheckoutSession pay_service 0 pay_request racing)))).
     tx_ReferenceNumber t = ''R1'' \<and> tx_Status t = PayPending"
proof -
  let ?run = "CreateCheckoutSession pay_service 0 pay_request racing"
  have "(case fst ?run of Inr resp \<Rightarrow> rs_SessionID resp = ''S1'' \<and> rs_ReferenceNumber resp = ''R1'' | Inl e \<Rightarrow> False)" by code_simp
  then obtain resp where "?run = (Inr resp, snd ?run)" "rs_SessionID resp \<noteq> []" "rs_ReferenceNumber resp = ''R1''"
    by (auto simp: prod_eq_iff split: sum.splits)
  with checkout_writes_whole_row[OF this(1,2)] show ?thesis by auto
qed

theorem checkout_outcome_witness:
  "map tx_Status (pd_rows (pw_db pay_open)) = [PayPending] \<and> length (pw_calls pay_open) = 2"
proof -
  let ?run = "CreateCheckoutSession pay_service 0 pay_request pay_empty"
  obtain res where "?run = (res, pay_open)" by (metis pay_open_def prod.collapse)
  note o = checkout_outcome[OF this]
  have "\<not> isl (fst ?run)" by code_simp
  with \<open>?run = (res, pay_open)\<close> obtain resp where "res = Inr resp" by (cases res) auto
  moreover have "length (pd_rows (pw_db pay_open)) = 1" "map tx_Status (pd_rows (pw_db pay_open)) = [PayPending]" by code_simp+
  ultimately show ?thesis using o by (auto simp: pay_empty_def)
qed

lemma pay_open_ok: "pay_orderly pay_open" "pw_others pay_open = []" "pd_faults (pw_db pay_open) = []"
proof -
  have "distinct (map tx_ID (pd_rows (pw_db pay_open)))" "distinct (map tx_ReferenceNumber (pd_rows (pw_db pay_open)))"
    and "pw_others pay_open = []" and "pd_faults (pw_db pay_open) = []" by code_simp+
  then show "pay_orderly pay_open" "pw_others pay_open = []" "pd_faults (pw_db pay_open) = []"
    by (simp_all add: pay_orderly_def pay_ok_def)
qed

section \<open>Notifications\<close>

definition pay_settled :: pworld where
  "pay_settled = snd (ProcessWebhook pay_service ''bank'' ''SUCCESS'' [] pay_open)"

text \<open>The task cannot be told, the gateway gets an error; the row is SUCCESS.\<close>

theorem webhook_settles_verified_witness:
  "\<exists>p st t facts err. claims p st t (pw_db pay_open) (pw_db pay_settled) \<and>
     pw_calls pay_settled = pw_calls pay_open @ [CVerified ''bank'' None, CAdvanced (tx_CallbackToken t) facts err]"
proof -
  let ?run = "ProcessWebhook pay_service ''bank'' ''SUCCESS'' [] pay_open"
  have run: "?run = (fst ?run, pay_settled)" by (simp add: pay_settled_def)
  have "list_ex advances (drop 2 (pw_calls pay_settled))" "length (pw_calls pay_open) = 2" by code_simp+
  with webhook_settles_verified[OF run pay_open_ok(1)] show ?thesis
    using pay_open_ok(2) by (auto simp: pay_meanwhile_def) metis
qed


text \<open>The notification of one gateway settles the transaction of another.\<close>

lemma foreign_gateway_settles:
  "map (\<lambda>t. (tx_GatewayID t, tx_Status t)) (pd_rows (pw_db (snd (ProcessWebhook pay_service ''card'' ''SUCCESS'' [] pay_open)))) =
   [(''bank'', ''SUCCESS'')]"
  by code_simp

theorem reference_disclosed_to_owner_witness:
  "\<exists>vt. CAnswered ''bank'' (Some vt) True \<in> set (pw_calls (snd (ValidateReference pay_service 5 ''bank'' [] [] pay_open))) \<and>
        (\<exists>t \<in> set (pd_rows (pw_db pay_open)). vt_ReferenceNumber vt = tx_ReferenceNumber t \<and> tx_GatewayID t = ''bank'')"
proof -
  let ?run = "ValidateReference pay_service 5 ''bank'' [] [] pay_open"
  have "(case drop 3 (pw_calls (snd ?run)) of [CAnswered a (Some vt) True] \<Rightarrow> a = ''bank'' | _ \<Rightarrow> False)"
    and n: "length (pw_calls pay_open) = 2" by code_simp+
  then obtain vt where last: "drop 3 (pw_calls (snd ?run)) = [CAnswered ''bank'' (Some vt) True]"
    by (auto split: list.splits pcall.splits option.splits bool.splits)
  then have "CAnswered ''bank'' (Some vt) True \<in> set (drop 3 (pw_calls (snd ?run)))" by simp
  moreover have "drop 3 (pw_calls (snd ?run)) = drop 1 (drop 2 (pw_calls (snd ?run)))" by (simp add: eval_nat_numeral)
  ultimately have in_new: "CAnswered ''bank'' (Some vt) True \<in> set (drop (length (pw_calls pay_open)) (pw_calls (snd ?run)))"
    unfolding n by (metis in_set_dropD)
  from reference_disclosed_to_owner[OF prod.collapse[symmetric] pay_open_ok(1) this]
  have "\<exists>t \<in> set (pd_rows (pw_db pay_open)). vt_ReferenceNumber vt = tx_ReferenceNumber t \<and> tx_GatewayID t = ''bank''"
    using pay_open_ok(2) by (auto simp: pay_meanwhile_def validation_tx_def)
  with in_new show ?thesis by (meson in_set_dropD)
qed

section \<open>Two notifications\<close>

definition success_note :: WebhookPayload where
  "success_note = \<lparr>wp_ReferenceNumber = ''R1'', wp_GatewayTransactionID = ''g1'', wp_Status = ''SUCCESS'', wp_Amount = 100,
     wp_Currency = ''lkr'', wp_PaymentMethod = ''CC'', wp_Timestamp = ''t''\<rparr>"

definition db_paid :: pay_db where
  "db_paid = snd (RunInTransaction (settle_payment success_note PaySuccess) (pw_db pay_open))"

definition db_later :: pay_db where
  "db_later = snd (RunInTransaction (settle_payment success_note PayFailed) db_paid)"


end
