(* ===== verification/Artifact_Registry.thy ===== *)
theory Artifact_Registry
  imports Task_Env "HOL-Library.AList"
begin

text \<open>
  Package \<open>artifact\<close>: manifests (\<open>manifest.go\<close>), the registry that resolves an artifact by id, kind and version (\<open>registry.go\<close>) and the
  order of versions (\<open>version.go\<close>). A loader maps a path to the bytes of a file or an error; JSON decoding and the parsers of artifact types
  are parameters. An artifact type is its kind together with its parser. Of an error that wraps two errors the first is kept.
\<close>

section \<open>Manifests\<close>

record ManifestRow =
  ro_ID :: string
  ro_Kind :: string
  ro_Version :: string
  ro_Path :: string

type_synonym ManifestConfig = "ManifestRow list"
type_synonym loader = "string \<Rightarrow> tferr + string"
type_synonym manifest_parser = "string \<Rightarrow> tferr + ManifestConfig"

definition ManifestFilename :: string where "ManifestFilename = ''manifest.json''"

definition ManifestPath :: "int \<Rightarrow> string" where
  "ManifestPath v = ''manifest_v'' @ int_text v @ ''.json''"

definition parseManifest :: "manifest_parser \<Rightarrow> string \<Rightarrow> tferr + ManifestConfig" where
  "parseManifest unmarshal data = (case unmarshal data of Inl e \<Rightarrow> Inl (Wrapped e) | Inr cfg \<Rightarrow> Inr cfg)"

definition LoadManifest :: "loader \<Rightarrow> manifest_parser \<Rightarrow> int \<Rightarrow> tferr + ManifestConfig" where
  "LoadManifest load unmarshal v =
     (case load (ManifestPath v) of Inl e \<Rightarrow> Inl (Wrapped e) | Inr data \<Rightarrow> parseManifest unmarshal data)"

section \<open>Registry\<close>

text \<open>Keys of the manifest: id and kind, and below them the versions, in the order Go ranges over them.\<close>

type_synonym idKind = "string \<times> string"
type_synonym Key = "string \<times> string \<times> string"

record aregistry =
  ar_manifest :: "(idKind \<times> (string \<times> string) list) list"

definition artifact_NewRegistry :: aregistry where
  "artifact_NewRegistry = \<lparr>ar_manifest = []\<rparr>"

definition versions_of :: "aregistry \<Rightarrow> idKind \<Rightarrow> (string \<times> string) list option" where
  "versions_of reg ik = map_of (ar_manifest reg) ik"

definition RegisterArtifact :: "string \<Rightarrow> string \<Rightarrow> string \<Rightarrow> string \<Rightarrow> aregistry \<Rightarrow> aregistry" where
  "RegisterArtifact i kind version path reg =
     (let versions = (case versions_of reg (i, kind) of Some vs \<Rightarrow> vs | None \<Rightarrow> [])
      in reg\<lparr>ar_manifest := AList.update (i, kind) (AList.update version path versions) (ar_manifest reg)\<rparr>)"

definition row_key :: "ManifestRow \<Rightarrow> Key" where
  "row_key r = (ro_ID r, ro_Kind r, ro_Version r)"

fun check_rows :: "ManifestRow list \<Rightarrow> Key list \<Rightarrow> tferr option" where
  "check_rows [] seen = None"
| "check_rows (r # rs) seen =
     (if ro_ID r = [] \<or> ro_Kind r = [] \<or> ro_Path r = [] then Some (PlainError ''id, kind, and path are all required'')
      else if row_key r \<in> set seen then Some (PlainError ''manifest rows list the same artifact'')
      else check_rows rs (row_key r # seen))"

definition register_rows :: "ManifestRow list \<Rightarrow> aregistry \<Rightarrow> aregistry" where
  "register_rows rs reg = fold (\<lambda>r. RegisterArtifact (ro_ID r) (ro_Kind r) (ro_Version r) (ro_Path r)) rs reg"

definition RegisterFromConfig :: "aregistry \<Rightarrow> ManifestConfig \<Rightarrow> tferr + aregistry" where
  "RegisterFromConfig reg cfg =
     (case check_rows cfg [] of Some e \<Rightarrow> Inl e | None \<Rightarrow> Inr (register_rows cfg reg))"

section \<open>Versions\<close>

definition strip_prefix :: "char \<Rightarrow> string \<Rightarrow> string" where
  "strip_prefix c s = (case s of x # xs \<Rightarrow> if x = c then xs else s | [] \<Rightarrow> s)"

definition version_number :: "string \<Rightarrow> int option" where
  "version_number v = Atoi (strip_prefix (CHR ''V'') (strip_prefix (CHR ''v'') v))"

definition defaultVersionLess :: "string \<Rightarrow> string \<Rightarrow> bool" where
  "defaultVersionLess a b =
     (case (version_number a, version_number b) of (Some x, Some y) \<Rightarrow> x < y | _ \<Rightarrow> a < b)"

section \<open>Lookup\<close>

text \<open>The loader of a registry may keep state (the file cache); \<open>load path st\<close> returns what it answers and its next state.\<close>

type_synonym 's sloader = "string \<Rightarrow> 's \<Rightarrow> (tferr + string) \<times> 's"
type_synonym 'a artifact_type = "string \<times> (string \<Rightarrow> tferr + 'a)"

definition parseAs :: "'a artifact_type \<Rightarrow> string \<Rightarrow> tferr + 'a" where
  "parseAs ty raw = (case snd ty raw of Inl e \<Rightarrow> Inl (Wrapped ErrInvalid) | Inr a \<Rightarrow> Inr a)"

definition loadAndParse :: "'s sloader \<Rightarrow> 'a artifact_type \<Rightarrow> string \<Rightarrow> 's \<Rightarrow> (tferr + 'a) \<times> 's" where
  "loadAndParse load ty path st =
     (case load path st of (Inl e, st') \<Rightarrow> (Inl (Wrapped e), st') | (Inr raw, st') \<Rightarrow> (parseAs ty raw, st'))"

definition artifact_Get :: "'s sloader \<Rightarrow> 'a artifact_type \<Rightarrow> aregistry \<Rightarrow> string \<Rightarrow> string \<Rightarrow> 's \<Rightarrow> (tferr + 'a) \<times> 's" where
  "artifact_Get load ty reg i version st =
     (case versions_of reg (i, fst ty) of
        None \<Rightarrow> (Inl (Wrapped ErrNotFound), st)
      | Some vs \<Rightarrow>
          (case map_of vs version of
             None \<Rightarrow> (Inl (Wrapped ErrNotFound), st)
           | Some path \<Rightarrow> loadAndParse load ty path st))"

fun best_version :: "string \<Rightarrow> (string \<times> string) list \<Rightarrow> string" where
  "best_version best [] = best"
| "best_version best ((v, path) # vs) = best_version (if defaultVersionLess best v then v else best) vs"

definition latest_path :: "(string \<times> string) list \<Rightarrow> string option" where
  "latest_path vs =
     (case map_of vs [] of
        Some path \<Rightarrow> Some path
      | None \<Rightarrow> (case vs of [] \<Rightarrow> None | (v, _) # rest \<Rightarrow> map_of vs (best_version v rest)))"

definition artifact_Latest :: "'s sloader \<Rightarrow> 'a artifact_type \<Rightarrow> aregistry \<Rightarrow> string \<Rightarrow> 's \<Rightarrow> (tferr + 'a) \<times> 's" where
  "artifact_Latest load ty reg i st =
     (case versions_of reg (i, fst ty) of
        None \<Rightarrow> (Inl (Wrapped ErrNotFound), st)
      | Some vs \<Rightarrow>
          (case latest_path vs of
             None \<Rightarrow> (Inl (Wrapped ErrNotFound), st)
           | Some path \<Rightarrow> loadAndParse load ty path st))"

section \<open>What a registry resolves\<close>

definition path_of :: "aregistry \<Rightarrow> Key \<Rightarrow> string option" where
  "path_of reg k = (case k of (i, kind, v) \<Rightarrow> (case versions_of reg (i, kind) of None \<Rightarrow> None | Some vs \<Rightarrow> map_of vs v))"

lemma path_of_register:
  "path_of (RegisterArtifact i kind v path reg) k = (if k = (i, kind, v) then Some path else path_of reg k)"
  by (cases k) (auto simp: path_of_def RegisterArtifact_def versions_of_def Let_def AList.update_conv' split: option.splits)

lemma path_of_register_rows:
  "path_of (register_rows rs reg) k = (case map_of (rev (map (\<lambda>r. (row_key r, ro_Path r)) rs)) k of Some p \<Rightarrow> Some p | None \<Rightarrow> path_of reg k)"
  unfolding register_rows_def
proof (induction rs arbitrary: reg)
  case (Cons r rs)
  show ?case by (simp add: Cons path_of_register row_key_def map_add_def split: option.split)
qed simp

lemma check_rows_distinct: "check_rows rs seen = None \<Longrightarrow> distinct (map row_key rs) \<and> set (map row_key rs) \<inter> set seen = {}"
  by (induction rs seen rule: check_rows.induct) (auto split: if_splits)

text \<open>A registry made from an accepted manifest resolves exactly its rows.\<close>

lemma RegisterFromConfig_paths:
  assumes "RegisterFromConfig artifact_NewRegistry cfg = Inr reg"
  shows "path_of reg k = map_of (map (\<lambda>r. (row_key r, ro_Path r)) cfg) k"
proof -
  have reg: "reg = register_rows cfg artifact_NewRegistry" and "check_rows cfg [] = None"
    using assms by (auto simp: RegisterFromConfig_def split: option.splits)
  then have "distinct (map fst (map (\<lambda>r. (row_key r, ro_Path r)) cfg))" using check_rows_distinct[of cfg "[]"] by (simp add: comp_def)
  then have "map_of (rev (map (\<lambda>r. (row_key r, ro_Path r)) cfg)) = map_of (map (\<lambda>r. (row_key r, ro_Path r)) cfg)"
    by (rule map_of_rev)
  then show ?thesis
    unfolding reg path_of_register_rows by (simp add: path_of_def artifact_NewRegistry_def versions_of_def split: option.split prod.split)
qed

lemma RegisterFromConfig_row:
  assumes "RegisterFromConfig artifact_NewRegistry cfg = Inr reg" "r \<in> set cfg"
  shows "map_of (map (\<lambda>r. (row_key r, ro_Path r)) cfg) (row_key r) = Some (ro_Path r)"
proof -
  have "check_rows cfg [] = None" using assms(1) by (auto simp: RegisterFromConfig_def split: option.splits)
  then have "distinct (map fst (map (\<lambda>r. (row_key r, ro_Path r)) cfg))" using check_rows_distinct[of cfg "[]"] by (simp add: comp_def)
  then show ?thesis using assms(2) by (intro map_of_is_SomeI) auto
qed

end
