(* ===== verification/Artifact_Cache.thy ===== *)
theory Artifact_Cache
  imports Artifact_Registry
begin

text \<open>
  The file cache of package \<open>artifact\<close> (\<open>cache.go\<close>): a least-recently-used cache of file contents in front of a loader.

  An element of the order list is a node with an identity of its own, so that the map of paths and the list are two structures
  that the code has to keep in step. \<open>Load\<close> holds the lock twice; what other callers do between the two critical sections is the argument
  \<open>others\<close>. Removing from an empty list, where the code would dereference a nil element, is \<open>None\<close>. Sizes are unbounded integers.
\<close>

section \<open>The cache\<close>

record element =
  el_ident :: nat
  el_path :: string
  el_raw :: string

record cachingLoader =
  cl_maxBytes :: int
  cl_size :: int
  cl_order :: "element list"
  cl_files :: "element smap"
  cl_fresh :: nat

definition DefaultFileCacheBytes :: int where "DefaultFileCacheBytes = 64 * 2 ^ 20"

definition newCachingLoader :: "int \<Rightarrow> cachingLoader" where
  "newCachingLoader maxBytes = \<lparr>cl_maxBytes = maxBytes, cl_size = 0, cl_order = [], cl_files = (\<lambda>_. None), cl_fresh = 0\<rparr>"

definition MoveToFront :: "element \<Rightarrow> element list \<Rightarrow> element list" where
  "MoveToFront el order = (if el \<in> set order then el # remove1 el order else order)"

definition cache_hit :: "string \<Rightarrow> cachingLoader \<Rightarrow> (string \<times> cachingLoader) option" where
  "cache_hit path c =
     (case cl_files c path of
        None \<Rightarrow> None
      | Some el \<Rightarrow> Some (el_raw el, c\<lparr>cl_order := MoveToFront el (cl_order c)\<rparr>))"

fun evict :: "int \<Rightarrow> int \<Rightarrow> int \<Rightarrow> element list \<Rightarrow> element smap \<Rightarrow> (int \<times> element list \<times> element smap) option" where
  "evict maxBytes n sz order files =
     (if sz + n \<le> maxBytes then Some (sz, order, files)
      else if order = [] then None
      else evict maxBytes n (sz - int (length (el_raw (last order)))) (butlast order) (files(el_path (last order) := None)))"

declare evict.simps [simp del]

definition cache_store :: "string \<Rightarrow> string \<Rightarrow> cachingLoader \<Rightarrow> cachingLoader option" where
  "cache_store path raw c =
     (if int (length raw) > cl_maxBytes c then Some c
      else if cl_files c path \<noteq> None then Some c
      else case evict (cl_maxBytes c) (int (length raw)) (cl_size c) (cl_order c) (cl_files c) of
             None \<Rightarrow> None
           | Some (sz, order, files) \<Rightarrow>
               (let el = \<lparr>el_ident = cl_fresh c, el_path = path, el_raw = raw\<rparr>
                in Some (c\<lparr>cl_size := sz + int (length raw), cl_order := el # order, cl_files := files(path \<mapsto> el),
                           cl_fresh := Suc (cl_fresh c)\<rparr>)))"

definition cache_Load :: "loader \<Rightarrow> (cachingLoader \<Rightarrow> cachingLoader) \<Rightarrow> string \<Rightarrow> cachingLoader \<Rightarrow> ((tferr + string) \<times> cachingLoader) option" where
  "cache_Load src others path c =
     (case cache_hit path c of
        Some (raw, c') \<Rightarrow> Some (Inr raw, c')
      | None \<Rightarrow>
          (case src path of
             Inl e \<Rightarrow> Some (Inl e, others c)
           | Inr raw \<Rightarrow> map_option (Pair (Inr raw)) (cache_store path raw (others c))))"

section \<open>Callers sharing one cache\<close>

text \<open>\<open>contents\<close> gives the file of each path: files do not change once they are published. A caller either finds a path or stores
  what it fetched.\<close>

inductive shared_cache :: "string smap \<Rightarrow> int \<Rightarrow> cachingLoader \<Rightarrow> bool" for contents maxBytes where
  new_cache: "0 \<le> maxBytes \<Longrightarrow> shared_cache contents maxBytes (newCachingLoader maxBytes)"
| hit_step: "shared_cache contents maxBytes c \<Longrightarrow> cache_hit path c = Some (raw, c') \<Longrightarrow> shared_cache contents maxBytes c'"
| store_step: "shared_cache contents maxBytes c \<Longrightarrow> contents path = Some raw \<Longrightarrow> cache_store path raw c = Some c'
    \<Longrightarrow> shared_cache contents maxBytes c'"

definition total_bytes :: "element list \<Rightarrow> int" where
  "total_bytes els = (\<Sum>el \<leftarrow> els. int (length (el_raw el)))"

definition files_match :: "element list \<Rightarrow> element smap \<Rightarrow> bool" where
  "files_match order files = (distinct (map el_path order) \<and> (\<forall>p el. files p = Some el \<longleftrightarrow> el \<in> set order \<and> el_path el = p))"

definition cache_ok :: "string smap \<Rightarrow> int \<Rightarrow> cachingLoader \<Rightarrow> bool" where
  "cache_ok contents maxBytes c =
     (cl_maxBytes c = maxBytes \<and> cl_size c = total_bytes (cl_order c) \<and> cl_size c \<le> maxBytes
      \<and> files_match (cl_order c) (cl_files c) \<and> (\<forall>el \<in> set (cl_order c). contents (el_path el) = Some (el_raw el)))"

lemma total_bytes_simps [simp]:
  "total_bytes [] = 0" "total_bytes (el # els) = int (length (el_raw el)) + total_bytes els"
  "total_bytes (els @ els') = total_bytes els + total_bytes els'"
  by (simp_all add: total_bytes_def)

lemma total_bytes_nonneg: "0 \<le> total_bytes els"
  by (induction els) simp_all

lemma total_bytes_butlast: "els \<noteq> [] \<Longrightarrow> total_bytes (butlast els) = total_bytes els - int (length (el_raw (last els)))"
  by (induction els rule: rev_induct) simp_all

lemma total_bytes_remove1: "el \<in> set els \<Longrightarrow> total_bytes (remove1 el els) = total_bytes els - int (length (el_raw el))"
  by (induction els) auto

lemma same_path: "e \<in> set els \<Longrightarrow> el_path e = p \<Longrightarrow> p \<in> el_path ` set els"
  by blast

lemma files_match_butlast:
  assumes "files_match order files" "order \<noteq> []"
  shows "files_match (butlast order) (files(el_path (last order) := None))"
proof -
  obtain els el where order: "order = els @ [el]" using assms(2) by (metis rev_exhaust)
  have "distinct (map el_path order)" using assms(1) by (simp add: files_match_def)
  then have "el_path e \<noteq> el_path el" if "e \<in> set els" for e
    using same_path[OF that] by (auto simp: order)
  then show ?thesis using assms(1) order by (auto simp: files_match_def)
qed

lemma files_match_move: "files_match order files \<Longrightarrow> files_match (MoveToFront el order) files"
  by (auto simp: files_match_def MoveToFront_def distinct_map inj_on_def set_remove1_eq distinct_remove1)

lemma files_match_push:
  assumes "files_match order files" "files (el_path el) = None"
  shows "files_match (el # order) (files(el_path el \<mapsto> el))"
proof -
  have "el_path e \<noteq> el_path el" if "e \<in> set order" for e using that assms by (metis files_match_def option.distinct(1))
  then have "el_path el \<notin> el_path ` set order" by (metis imageE)
  then show ?thesis using assms(1) by (auto simp: files_match_def) (metis imageI)
qed

text \<open>The eviction loop never runs on an empty list, and drops a shortest suffix of the order.\<close>

lemma evict_prefix:
  assumes "sz = total_bytes order" "files_match order files" "0 \<le> n" "n \<le> maxBytes"
  shows "\<exists>k files'. evict maxBytes n sz order files = Some (total_bytes (take k order), take k order, files')
      \<and> k \<le> length order \<and> total_bytes (take k order) + n \<le> maxBytes \<and> files_match (take k order) files'
      \<and> (\<forall>p. files p = None \<longrightarrow> files' p = None)
      \<and> (\<forall>j \<le> length order. k < j \<longrightarrow> maxBytes < total_bytes (take j order) + n)"
  using assms
proof (induction maxBytes n sz order files rule: evict.induct)
  case (1 maxBytes n sz order files)
  show ?case
  proof (cases "sz + n \<le> maxBytes")
    case True
    then show ?thesis using 1(2-) by (intro exI[of _ "length order"] exI[of _ files]) (simp add: evict.simps)
  next
    case False
    then have "order \<noteq> []" using 1(2,5) by auto
    let ?files = "files(el_path (last order) := None)"
    have "sz - int (length (el_raw (last order))) = total_bytes (butlast order)" "files_match (butlast order) ?files"
      using 1(2,3) \<open>order \<noteq> []\<close> by (simp_all add: total_bytes_butlast files_match_butlast del: fun_upd_apply)
    from 1(1)[OF False \<open>order \<noteq> []\<close> this 1(4,5)]
    obtain k files' where k: "evict maxBytes n (sz - int (length (el_raw (last order)))) (butlast order) ?files
          = Some (total_bytes (take k (butlast order)), take k (butlast order), files')"
        "k \<le> length (butlast order)" "total_bytes (take k (butlast order)) + n \<le> maxBytes" "files_match (take k (butlast order)) files'"
        "\<forall>p. ?files p = None \<longrightarrow> files' p = None"
        "\<forall>j \<le> length (butlast order). k < j \<longrightarrow> maxBytes < total_bytes (take j (butlast order)) + n"
      by blast
    have tk: "take j (butlast order) = take j order" if "j \<le> length (butlast order)" for j
      using that by (simp add: butlast_conv_take min.absorb1)
    have "maxBytes < total_bytes (take j order) + n" if "j \<le> length order" "k < j" for j
      using spec[OF k(6), of j] that tk[of j] False 1(2) by (cases "j = length order") auto
    then show ?thesis using k(1-5) False \<open>order \<noteq> []\<close> tk[OF k(2)]
      by (intro exI[of _ k] exI[of _ files']) (simp add: evict.simps[of maxBytes n sz])
  qed
qed

lemma cache_hit_ok:
  assumes "cache_ok contents maxBytes c" "cache_hit path c = Some (raw, c')"
  shows "cache_ok contents maxBytes c' \<and> contents path = Some raw"
proof -
  obtain el where el: "cl_files c path = Some el" "raw = el_raw el" "c' = c\<lparr>cl_order := MoveToFront el (cl_order c)\<rparr>"
    using assms(2) by (auto simp: cache_hit_def split: option.splits)
  then have "el \<in> set (cl_order c)" "el_path el = path" using assms(1) by (auto simp: cache_ok_def files_match_def)
  then show ?thesis using assms(1) el files_match_move[of "cl_order c" "cl_files c" el]
    by (auto simp: cache_ok_def MoveToFront_def total_bytes_remove1 dest: notin_set_remove1)
qed

lemma cache_store_keeps: 
  assumes "cache_ok contents maxBytes c" "contents path = Some raw"
  shows "\<exists>c'. cache_store path raw c = Some c' \<and> cache_ok contents maxBytes c'"
proof (cases "int (length raw) > cl_maxBytes c \<or> cl_files c path \<noteq> None")
  case True
  then show ?thesis using assms(1) by (auto simp: cache_store_def)
next
  case False
  have ok: "cl_maxBytes c = maxBytes" "cl_size c = total_bytes (cl_order c)" "files_match (cl_order c) (cl_files c)"
      "\<forall>el \<in> set (cl_order c). contents (el_path el) = Some (el_raw el)"
    using assms(1) by (simp_all add: cache_ok_def)
  obtain k files' where k: "evict (cl_maxBytes c) (int (length raw)) (cl_size c) (cl_order c) (cl_files c)
        = Some (total_bytes (take k (cl_order c)), take k (cl_order c), files')"
      "total_bytes (take k (cl_order c)) + int (length raw) \<le> cl_maxBytes c" "files_match (take k (cl_order c)) files'" "files' path = None"
    using evict_prefix[OF ok(2,3), of "int (length raw)" "cl_maxBytes c"] False by auto
  let ?el = "\<lparr>el_ident = cl_fresh c, el_path = path, el_raw = raw\<rparr>"
  have "files_match (?el # take k (cl_order c)) (files'(path \<mapsto> ?el))" using files_match_push[OF k(3), of ?el] k(4) by simp
  then show ?thesis using False k(1,2) ok assms(2)
    by (auto simp: cache_store_def cache_ok_def Let_def dest: in_set_takeD)
qed

lemma shared_cache_ok: "shared_cache contents maxBytes c \<Longrightarrow> cache_ok contents maxBytes c"
proof (induction rule: shared_cache.induct)
  case new_cache
  then show ?case by (simp add: cache_ok_def newCachingLoader_def files_match_def)
next
  case (hit_step c path raw c')
  then show ?case using cache_hit_ok by blast
next
  case (store_step c path raw c')
  then show ?case using cache_store_keeps by fastforce
qed

lemma cache_Load_result:
  assumes "shared_cache contents maxBytes c"
    and "\<And>c. shared_cache contents maxBytes c \<Longrightarrow> shared_cache contents maxBytes (others c)"
    and "\<And>raw. src path = Inr raw \<Longrightarrow> contents path = Some raw"
  shows "\<exists>r c'. cache_Load src others path c = Some (r, c') \<and> shared_cache contents maxBytes c'
      \<and> (case r of Inr raw \<Rightarrow> contents path = Some raw | Inl e \<Rightarrow> src path = Inl e)
      \<and> cl_size c' = total_bytes (cl_order c') \<and> cl_size c' \<le> maxBytes"
proof (cases "cache_hit path c")
  case (Some h)
  then obtain raw c' where h: "cache_hit path c = Some (raw, c')" by (cases h) auto
  moreover have "cache_ok contents maxBytes c' \<and> contents path = Some raw"
    using cache_hit_ok[OF shared_cache_ok[OF assms(1)] h] .
  ultimately show ?thesis using hit_step[OF assms(1) h] by (auto simp: cache_Load_def cache_ok_def)
next
  case None
  note others = assms(2)[OF assms(1)]
  show ?thesis
  proof (cases "src path")
    case (Inl e)
    then show ?thesis using None others shared_cache_ok[OF others] by (auto simp: cache_Load_def cache_ok_def)
  next
    case (Inr raw)
    obtain c' where c': "cache_store path raw (others c) = Some c'" "cache_ok contents maxBytes c'"
      using cache_store_keeps[OF shared_cache_ok[OF others] assms(3)[OF Inr]] by blast
    then show ?thesis using None Inr store_step[OF others assms(3)[OF Inr] c'(1)] assms(3)[OF Inr]
      by (auto simp: cache_Load_def cache_ok_def)
  qed
qed

text \<open>C24. Whatever other callers of a shared file cache do, a load never panics, and returns the content the source has under that path, unless the
  fetch itself fails, which is then the error returned; the cache stays within its limit, and the size it counts is the size of what it holds.\<close>

theorem cache_transparent:
  assumes "shared_cache contents maxBytes c"
    and "\<And>c. shared_cache contents maxBytes c \<Longrightarrow> shared_cache contents maxBytes (others c)"
    and "\<And>raw. src path = Inr raw \<Longrightarrow> contents path = Some raw"
  shows "\<exists>r c'. cache_Load src others path c = Some (r, c') \<and> shared_cache contents maxBytes c'
      \<and> (case r of Inr raw \<Rightarrow> contents path = Some raw | Inl e \<Rightarrow> src path = Inl e)
      \<and> cl_size c' = total_bytes (cl_order c') \<and> cl_size c' \<le> maxBytes"
  using assms by (rule cache_Load_result)

text \<open>Storing a file that fits puts it in front and drops the least recently used files only: what stays is the longest part of the order,
  from the most recently used on, that leaves room for the new file.\<close>

theorem store_evicts_oldest:
  assumes "shared_cache contents maxBytes c" "contents path = Some raw" "int (length raw) \<le> maxBytes" "cl_files c path = None"
  shows "\<exists>c' k. cache_store path raw c = Some c' \<and> k \<le> length (cl_order c)
      \<and> map el_path (cl_order c') = path # map el_path (take k (cl_order c))
      \<and> (\<forall>j \<le> length (cl_order c). k < j \<longrightarrow> maxBytes < total_bytes (take j (cl_order c)) + int (length raw))"
proof -
  have ok: "cl_maxBytes c = maxBytes" "cl_size c = total_bytes (cl_order c)" "files_match (cl_order c) (cl_files c)"
    using shared_cache_ok[OF assms(1)] by (simp_all add: cache_ok_def)
  show ?thesis using evict_prefix[OF ok(2,3), of "int (length raw)" maxBytes] assms(3,4) ok(1)
    by (fastforce simp: cache_store_def Let_def)
qed

end
