(* ===== verification/Artifact_Set.thy ===== *)
theory Artifact_Set
  imports Artifact_Cache
begin

text \<open>
  The manifest set of package \<open>artifact\<close> (\<open>set.go\<close>): every published manifest of a source as a registry of its own.

  A loader argument is what the source answers during that call, so it may differ from call to call; \<open>um\<close> decodes a manifest. A call
  that does not return (a source that never runs out of manifests) is \<open>None\<close>. Probes are serialised by their slot and only they write,
  so a call is one step on the set. Of the context of a probe the model keeps whether the caller gave up waiting for the
  slot and whether the context had ended after the fetch and when the caller looks at the error. Versions are unbounded integers, times are nanoseconds.
\<close>

section \<open>State\<close>

record explicitRow =
  xr_path :: string
  xr_manifest :: int
  xr_manifestFile :: string

record aset =
  as_views :: "(int \<times> aregistry) list"
  as_latest :: int
  as_current :: int
  as_lastEmptyProbe :: "int option"
  as_explicit :: "(Key \<times> explicitRow) list"
  as_files :: "cachingLoader option"

record setOptions =
  op_pin :: int
  op_fileCacheBytes :: int

record probe_ctx =
  px_gaveUp :: "tferr option"
  px_ended :: bool
  px_endedAfter :: bool
  px_checked :: int
  px_finished :: int

definition reprobeInterval :: int where "reprobeInterval = 10 * 10 ^ 9"

definition default_options :: setOptions where
  "default_options = \<lparr>op_pin = 0, op_fileCacheBytes = DefaultFileCacheBytes\<rparr>"

definition WithPinnedVersion :: "int \<Rightarrow> setOptions \<Rightarrow> setOptions" where
  "WithPinnedVersion v opts = opts\<lparr>op_pin := v\<rparr>"

definition WithFileCacheBytes :: "int \<Rightarrow> setOptions \<Rightarrow> setOptions" where
  "WithFileCacheBytes n opts = opts\<lparr>op_fileCacheBytes := n\<rparr>"

text \<open>The loader of the registries: the source itself, or the cache in front of it. The answer for a cache that panics is never used.\<close>

definition files_Load :: "loader \<Rightarrow> cachingLoader option sloader" where
  "files_Load src path files =
     (case files of
        None \<Rightarrow> (src path, None)
      | Some c \<Rightarrow>
          (case cache_Load src (\<lambda>c. c) path c of
             Some (r, c') \<Rightarrow> (r, Some c')
           | None \<Rightarrow> (Inl (PlainError ''nil element''), Some c)))"

section \<open>Loading\<close>

partial_function (option) fetch_from ::
  "loader \<Rightarrow> manifest_parser \<Rightarrow> int \<Rightarrow> int \<Rightarrow> ManifestConfig list \<Rightarrow> (ManifestConfig list \<times> tferr option) option" where
  "fetch_from load um v upTo cfgs =
     (if upTo = 0 \<or> v \<le> upTo then
        (case LoadManifest load um v of
           Inl e \<Rightarrow> if errors_Is e ErrNotFound then Some (cfgs, None) else Some (cfgs, Some e)
         | Inr cfg \<Rightarrow> fetch_from load um (v + 1) upTo (cfgs @ [cfg]))
      else Some (cfgs, None))"

declare fetch_from.simps [code]

definition fetchManifests :: "loader \<Rightarrow> manifest_parser \<Rightarrow> int \<Rightarrow> int \<Rightarrow> (ManifestConfig list \<times> tferr option) option" where
  "fetchManifests load um v upTo = fetch_from load um v upTo []"

definition loadUnversioned :: "loader \<Rightarrow> manifest_parser \<Rightarrow> tferr + ManifestConfig option" where
  "loadUnversioned load um =
     (case load ManifestFilename of
        Inl e \<Rightarrow> if errors_Is e ErrNotFound then Inr None else Inl (Wrapped e)
      | Inr data \<Rightarrow> (case parseManifest um data of Inl e \<Rightarrow> Inl e | Inr cfg \<Rightarrow> Inr (Some cfg)))"

fun check_explicit :: "(Key \<times> explicitRow) list \<Rightarrow> ManifestConfig \<Rightarrow> tferr option" where
  "check_explicit known [] = None"
| "check_explicit known (r # rows) =
     (if ro_Version r = [] then check_explicit known rows
      else case map_of known (row_key r) of
             Some prev \<Rightarrow>
               if xr_path prev \<noteq> ro_Path r then Some (PlainError ''an explicit version must keep its file'')
               else check_explicit known rows
           | None \<Rightarrow> check_explicit known rows)"

fun record_explicit :: "int \<Rightarrow> string \<Rightarrow> ManifestConfig \<Rightarrow> (Key \<times> explicitRow) list \<Rightarrow> (Key \<times> explicitRow) list" where
  "record_explicit v file [] known = known"
| "record_explicit v file (r # rows) known =
     record_explicit v file rows
       (if ro_Version r = [] \<or> map_of known (row_key r) \<noteq> None then known
        else known @ [(row_key r, \<lparr>xr_path = ro_Path r, xr_manifest = v, xr_manifestFile = file\<rparr>)])"

definition set_add :: "int \<Rightarrow> string \<Rightarrow> ManifestConfig \<Rightarrow> aset \<Rightarrow> tferr + aset" where
  "set_add v file cfg s =
     (case RegisterFromConfig artifact_NewRegistry cfg of
        Inl e \<Rightarrow> Inl (Wrapped e)
      | Inr reg \<Rightarrow>
          (case check_explicit (as_explicit s) cfg of
             Some e \<Rightarrow> Inl e
           | None \<Rightarrow> Inr (s\<lparr>as_explicit := record_explicit v file cfg (as_explicit s),
                            as_views := AList.update v reg (as_views s), as_latest := v\<rparr>)))"

text \<open>Adds manifests one after the other, up to the first that is refused; keeps those added before it.\<close>

fun add_all :: "(int \<Rightarrow> string) \<Rightarrow> int \<Rightarrow> ManifestConfig list \<Rightarrow> aset \<Rightarrow> tferr option \<times> aset" where
  "add_all file v [] s = (None, s)"
| "add_all file v (cfg # cfgs) s =
     (case set_add v (file v) cfg s of Inl e \<Rightarrow> (Some e, s) | Inr s' \<Rightarrow> add_all file (v + 1) cfgs s')"

definition finish_load :: "setOptions \<Rightarrow> bool \<Rightarrow> ManifestConfig list \<Rightarrow> tferr + aset" where
  "finish_load opts unversioned cfgs =
     (let files = (if \<not> unversioned \<and> op_fileCacheBytes opts > 0 then Some (newCachingLoader (op_fileCacheBytes opts)) else None);
          s0 = \<lparr>as_views = [], as_latest = 0, as_current = 0, as_lastEmptyProbe = None, as_explicit = [], as_files = files\<rparr>
      in case add_all (if unversioned then (\<lambda>_. ManifestFilename) else ManifestPath) 1 cfgs s0 of
           (Some e, _) \<Rightarrow> Inl e
         | (None, s) \<Rightarrow>
             if as_latest s = 0 then Inl (Wrapped ErrUnknownManifestVersion)
             else if op_pin opts > as_latest s then Inl (Wrapped ErrUnknownManifestVersion)
             else Inr (s\<lparr>as_current := as_latest s\<rparr>))"

definition LoadSet :: "loader option \<Rightarrow> manifest_parser \<Rightarrow> (setOptions \<Rightarrow> setOptions) list \<Rightarrow> (tferr + aset) option" where
  "LoadSet loader um opts =
     (case loader of
        None \<Rightarrow> Some (Inl (PlainError ''artifact: nil loader passed to LoadSet''))
      | Some load \<Rightarrow>
          (let opt = fold (\<lambda>f. f) opts default_options
           in if op_pin opt < 0 then Some (Inl (Wrapped ErrUnknownManifestVersion))
              else case fetchManifests load um 1 (op_pin opt) of
                     None \<Rightarrow> None
                   | Some (_, Some e) \<Rightarrow> Some (Inl e)
                   | Some (cfgs, None) \<Rightarrow>
                       if cfgs = [] \<and> op_pin opt \<le> 1 then
                         (case loadUnversioned load um of
                            Inl e \<Rightarrow> Some (Inl e)
                          | Inr None \<Rightarrow> Some (finish_load opt False [])
                          | Inr (Some cfg) \<Rightarrow> Some (finish_load opt True [cfg]))
                       else Some (finish_load opt False cfgs)))"

section \<open>Probing\<close>

definition probe_outcome :: "probe_ctx \<Rightarrow> int \<Rightarrow> int \<Rightarrow> tferr option \<Rightarrow> tferr option \<Rightarrow> aset \<Rightarrow> tferr option \<times> aset" where
  "probe_outcome px upTo latest fetchErr addErr s =
     (let newLatest = as_latest s;
          reached = (upTo \<noteq> 0 \<and> newLatest \<ge> upTo);
          s' = (if reached \<or> upTo = 0 \<and> newLatest > latest \<and> addErr = None \<and> fetchErr = None then s\<lparr>as_lastEmptyProbe := None\<rparr>
                else if fetchErr \<noteq> None \<and> px_ended px then s
                else s\<lparr>as_lastEmptyProbe := Some (px_finished px)\<rparr>)
      in (if reached then None else if addErr \<noteq> None then addErr else fetchErr, s'))"

definition backing_off :: "probe_ctx \<Rightarrow> aset \<Rightarrow> bool" where
  "backing_off px s = (case as_lastEmptyProbe s of None \<Rightarrow> False | Some t \<Rightarrow> px_checked px - t < reprobeInterval)"

definition set_probe :: "loader \<Rightarrow> manifest_parser \<Rightarrow> probe_ctx \<Rightarrow> int \<Rightarrow> aset \<Rightarrow> (tferr option \<times> aset) option" where
  "set_probe load um px upTo s =
     (case px_gaveUp px of
        Some e \<Rightarrow> Some (Some e, s)
      | None \<Rightarrow>
          let latest = as_latest s
          in if upTo \<noteq> 0 \<and> upTo \<le> latest then Some (None, s)
             else if backing_off px s then Some (None, s)
             else case fetchManifests load um (latest + 1) upTo of
                    None \<Rightarrow> None
                  | Some (cfgs, fetchErr) \<Rightarrow>
                      (case add_all ManifestPath (latest + 1) cfgs s of
                         (addErr, s') \<Rightarrow> Some (probe_outcome px upTo latest fetchErr addErr s')))"

section \<open>Lookups\<close>

definition set_Current :: "aset \<Rightarrow> int" where "set_Current s = as_current s"

definition set_Latest :: "aset \<Rightarrow> int" where "set_Latest s = as_latest s"

definition set_Versions :: "aset \<Rightarrow> int list" where "set_Versions s = sort (map fst (as_views s))"

definition view :: "aset \<Rightarrow> int \<Rightarrow> aregistry option" where "view s v = map_of (as_views s) v"

definition CurrentRegistry :: "aset \<Rightarrow> aregistry option" where "CurrentRegistry s = view s (as_current s)"

definition set_Registry :: "loader \<Rightarrow> manifest_parser \<Rightarrow> probe_ctx \<Rightarrow> int \<Rightarrow> aset \<Rightarrow> ((tferr + aregistry) \<times> aset) option" where
  "set_Registry load um px v s =
     (if v \<le> 0 then Some (Inl (Wrapped ErrUnknownManifestVersion), s)
      else case view s v of
             Some reg \<Rightarrow> Some (Inr reg, s)
           | None \<Rightarrow>
               (case set_probe load um px v s of
                  None \<Rightarrow> None
                | Some (Some e, s') \<Rightarrow> Some (Inl e, s')
                | Some (None, s') \<Rightarrow>
                    (case view s' v of
                       None \<Rightarrow> Some (Inl (Wrapped ErrUnknownManifestVersion), s')
                     | Some reg \<Rightarrow> Some (Inr reg, s'))))"

definition explicitRegistry :: "aset \<Rightarrow> Key \<Rightarrow> aregistry option" where
  "explicitRegistry s k = (case map_of (as_explicit s) k of None \<Rightarrow> None | Some x \<Rightarrow> view s (xr_manifest x))"

definition get_from :: "loader \<Rightarrow> 'a artifact_type \<Rightarrow> string \<Rightarrow> string \<Rightarrow> aregistry \<Rightarrow> aset \<Rightarrow> (tferr + 'a) \<times> aset" where
  "get_from load ty i version reg s =
     (case artifact_Get (files_Load load) ty reg i version (as_files s) of (r, files) \<Rightarrow> (r, s\<lparr>as_files := files\<rparr>))"

definition latest_from :: "loader \<Rightarrow> 'a artifact_type \<Rightarrow> string \<Rightarrow> aregistry \<Rightarrow> aset \<Rightarrow> (tferr + 'a) \<times> aset" where
  "latest_from load ty i reg s =
     (case artifact_Latest (files_Load load) ty reg i (as_files s) of (r, files) \<Rightarrow> (r, s\<lparr>as_files := files\<rparr>))"

definition GetExplicit ::
  "loader \<Rightarrow> manifest_parser \<Rightarrow> probe_ctx \<Rightarrow> 'a artifact_type \<Rightarrow> string \<Rightarrow> string \<Rightarrow> aset \<Rightarrow> ((tferr + 'a) \<times> aset) option" where
  "GetExplicit load um px ty i version s =
     (if version = [] then Some (Inl (Wrapped ErrNotFound), s)
      else case explicitRegistry s (i, fst ty, version) of
             Some reg \<Rightarrow> Some (get_from load ty i version reg s)
           | None \<Rightarrow>
               (case set_probe load um px 0 s of
                  None \<Rightarrow> None
                | Some (Some e, s') \<Rightarrow> Some (Inl (if px_endedAfter px then e else Wrapped ErrNotFound), s')
                | Some (None, s') \<Rightarrow>
                    (case explicitRegistry s' (i, fst ty, version) of
                       None \<Rightarrow> Some (Inl (Wrapped ErrNotFound), s')
                     | Some reg \<Rightarrow> Some (get_from load ty i version reg s'))))"

end
