(* ===== verification/Artifact_Props.thy ===== *)
theory Artifact_Props
  imports Artifact_Set
begin

text \<open>
  Properties of package \<open>artifact\<close>: what a registry resolves is a function of its manifest and of the published files (locale \<open>file_source\<close>,
  interpreted on the loader of a set), manifests are loaded in sequence and never change afterwards, an explicit version keeps its file,
  a pin is immune to later manifests, and probes back off.
\<close>

section \<open>Registries over a source of published files\<close>

definition serves :: "loader \<Rightarrow> string smap \<Rightarrow> bool" where
  "serves src contents = (\<forall>path raw. src path = Inr raw \<longrightarrow> contents path = Some raw)"

locale file_source =
  fixes load :: "loader \<Rightarrow> 's sloader"
    and ok :: "string smap \<Rightarrow> 's \<Rightarrow> bool"
  assumes load_ok: "ok contents st \<Longrightarrow> serves src contents \<Longrightarrow> load src path st = (r, st') \<Longrightarrow>
      ok contents st' \<and> (case r of Inr raw \<Rightarrow> contents path = Some raw | Inl e \<Rightarrow> src path = Inl e)"
begin

lemma loadAndParse_result:
  assumes "ok contents st" "serves src contents" "loadAndParse (load src) ty path st = (r, st')"
  shows "ok contents st' \<and> ((\<exists>raw. contents path = Some raw \<and> r = parseAs ty raw) \<or> (\<exists>e. src path = Inl e \<and> r = Inl (Wrapped e)))"
proof -
  obtain r0 st0 where l: "load src path st = (r0, st0)" by (cases "load src path st")
  show ?thesis using load_ok[OF assms(1,2) l] assms(3) l by (cases r0) (auto simp: loadAndParse_def)
qed

lemma Get_result:
  assumes "ok contents st" "serves src contents" "artifact_Get (load src) ty reg i v st = (r, st')"
  shows "ok contents st' \<and> (case path_of reg (i, fst ty, v) of
      None \<Rightarrow> r = Inl (Wrapped ErrNotFound)
    | Some path \<Rightarrow> (\<exists>raw. contents path = Some raw \<and> r = parseAs ty raw) \<or> (\<exists>e. src path = Inl e \<and> r = Inl (Wrapped e)))"
proof (cases "path_of reg (i, fst ty, v)")
  case None
  then show ?thesis using assms(1,3) by (auto simp: artifact_Get_def path_of_def split: option.splits)
next
  case (Some path)
  then show ?thesis using loadAndParse_result[OF assms(1,2), of ty path r st'] assms(3)
    by (auto simp: artifact_Get_def path_of_def split: option.splits)
qed

lemma Latest_result:
  assumes "ok contents st" "serves src contents" "artifact_Latest (load src) ty reg i st = (r, st')"
  shows "ok contents st' \<and> (case Option.bind (versions_of reg (i, fst ty)) latest_path of
      None \<Rightarrow> r = Inl (Wrapped ErrNotFound)
    | Some path \<Rightarrow> (\<exists>raw. contents path = Some raw \<and> r = parseAs ty raw) \<or> (\<exists>e. src path = Inl e \<and> r = Inl (Wrapped e)))"
proof (cases "Option.bind (versions_of reg (i, fst ty)) latest_path")
  case None
  then show ?thesis using assms(1,3) by (auto simp: artifact_Latest_def bind_eq_None_conv split: option.splits)
next
  case (Some path)
  then show ?thesis using loadAndParse_result[OF assms(1,2), of ty path r st'] assms(3)
    by (auto simp: artifact_Latest_def bind_eq_Some_conv split: option.splits)
qed

end

definition files_ok :: "string smap \<Rightarrow> cachingLoader option \<Rightarrow> bool" where
  "files_ok contents files = (case files of None \<Rightarrow> True | Some c \<Rightarrow> \<exists>maxBytes. shared_cache contents maxBytes c)"

lemma cache_Load_serves:
  assumes "shared_cache contents maxBytes c" "serves src contents"
  shows "\<exists>r c'. cache_Load src (\<lambda>c. c) path c = Some (r, c') \<and> shared_cache contents maxBytes c'
      \<and> (case r of Inr raw \<Rightarrow> contents path = Some raw | Inl e \<Rightarrow> src path = Inl e)"
  using cache_Load_result[OF assms(1), of "\<lambda>c. c" src path] assms(2) by (auto simp: serves_def)

interpretation set_files: file_source files_Load files_ok
proof
  fix contents src path and files files' :: "cachingLoader option" and r
  assume "files_ok contents files" "serves src contents" "files_Load src path files = (r, files')"
  then show "files_ok contents files' \<and> (case r of Inr raw \<Rightarrow> contents path = Some raw | Inl e \<Rightarrow> src path = Inl e)"
  proof (cases files)
    case None
    then show ?thesis using \<open>serves src contents\<close> \<open>files_Load src path files = (r, files')\<close>
      by (auto simp: files_Load_def files_ok_def serves_def split: sum.split)
  next
    case (Some c)
    then obtain maxBytes where "shared_cache contents maxBytes c" using \<open>files_ok contents files\<close> by (auto simp: files_ok_def)
    from cache_Load_serves[OF this \<open>serves src contents\<close>, of path] show ?thesis
      using \<open>files_Load src path files = (r, files')\<close> Some by (auto simp: files_Load_def files_ok_def) blast+
  qed
qed

section \<open>Loading manifests\<close>

text \<open>The loop stops with what it has read at the first manifest that fails, and after the limit.\<close>

lemma fetch_from_result:
  assumes "\<And>w. v \<le> w \<Longrightarrow> w < v + int n \<Longrightarrow> LoadManifest load um w = Inr (cfg w)" "upTo = 0 \<or> v + int n \<le> upTo + 1"
    and "upTo \<noteq> 0 \<and> v + int n = upTo + 1 \<and> err = None
        \<or> LoadManifest load um (v + int n) = Inl e \<and> (upTo = 0 \<or> v + int n \<le> upTo) \<and> err = (if errors_Is e ErrNotFound then None else Some e)"
  shows "fetch_from load um v upTo cfgs = Some (cfgs @ map cfg [v..v + int n - 1], err)"
  using assms
proof (induction n arbitrary: v cfgs)
  case 0
  then show ?case by (subst fetch_from.simps) auto
next
  case (Suc n)
  have "fetch_from load um (v + 1) upTo (cfgs @ [cfg v]) = Some ((cfgs @ [cfg v]) @ map cfg [v + 1..v + 1 + int n - 1], err)"
    using Suc.prems by (intro Suc.IH) (auto simp: algebra_simps)
  moreover have "[v..v + int (Suc n) - 1] = v # [v + 1..v + 1 + int n - 1]" by (simp add: upto_rec1)
  moreover have "LoadManifest load um v = Inr (cfg v)" "upTo = 0 \<or> v \<le> upTo" using Suc.prems(1)[of v] Suc.prems(2) by auto
  ultimately show ?case by (subst fetch_from.simps) auto
qed

text \<open>Whatever the source answers, a bounded loop returns.\<close>

lemma fetch_from_bounded: "upTo \<noteq> 0 \<Longrightarrow> \<exists>r. fetch_from load um v upTo cfgs = Some r"
proof (induction "nat (upTo + 1 - v)" arbitrary: v cfgs)
  case 0
  then show ?case by (subst fetch_from.simps) auto
next
  case (Suc n)
  then have "\<exists>r. fetch_from load um (v + 1) upTo cfgs' = Some r" for cfgs' using Suc.hyps(1)[of "v + 1" cfgs'] by simp
  then show ?case by (subst fetch_from.simps) (auto split: sum.split)
qed

text \<open>The loop reads nothing but the manifests from \<open>v\<close> to its limit.\<close>

lemma fetch_from_cong:
  assumes "upTo \<noteq> 0" "\<And>w. v \<le> w \<Longrightarrow> w \<le> upTo \<Longrightarrow> load (ManifestPath w) = load' (ManifestPath w)"
  shows "fetch_from load um v upTo cfgs = fetch_from load' um v upTo cfgs"
  using assms
proof (induction "nat (upTo + 1 - v)" arbitrary: v cfgs)
  case 0
  then show ?case by (subst (1 2) fetch_from.simps) auto
next
  case (Suc n)
  then have "fetch_from load um (v + 1) upTo cfgs' = fetch_from load' um (v + 1) upTo cfgs'" for cfgs'
    using Suc.hyps(1)[of "v + 1" cfgs'] by simp
  moreover have "LoadManifest load um v = LoadManifest load' um v" if "v \<le> upTo" using Suc.prems(2)[of v] that by (simp add: LoadManifest_def)
  ultimately show ?case using Suc.prems(1) by (subst (1 2) fetch_from.simps) (auto split: sum.split)
qed

lemma fetch_from_length:
  assumes "upTo \<noteq> 0" "v \<le> upTo + 1"
  shows "\<exists>more err. fetch_from load um v upTo cfgs = Some (cfgs @ more, err) \<and> v + int (length more) \<le> upTo + 1"
  using assms
proof (induction "nat (upTo + 1 - v)" arbitrary: v cfgs)
  case 0
  then show ?case by (subst fetch_from.simps) auto
next
  case (Suc n)
  show ?case
  proof (cases "LoadManifest load um v")
    case (Inl e)
    then show ?thesis using Suc.prems by (subst fetch_from.simps) auto
  next
    case (Inr cfg)
    have "v \<le> upTo" using Suc.hyps(2) by simp
    moreover have "n = nat (upTo + 1 - (v + 1))" using Suc.hyps(2) by simp
    ultimately obtain more err where "fetch_from load um (v + 1) upTo (cfgs @ [cfg]) = Some ((cfgs @ [cfg]) @ more, err)"
        "v + 1 + int (length more) \<le> upTo + 1"
      using Suc.hyps(1)[of "v + 1" "cfgs @ [cfg]"] Suc.prems(1) by auto
    then show ?thesis using Inr \<open>v \<le> upTo\<close> by (subst fetch_from.simps) (auto intro!: exI[of _ "cfg # more"])
  qed
qed

section \<open>The invariant of a set\<close>

text \<open>The versions are contiguous from 1. The explicit rows on record are those of the manifests: the path on record for an explicit version is the one every
  manifest that lists the version resolves, and the manifest on record lists it.\<close>

definition set_inv :: "aset \<Rightarrow> bool" where
  "set_inv s \<longleftrightarrow> 0 \<le> as_latest s \<and> map fst (as_views s) = [1..as_latest s]
     \<and> (\<forall>v reg i kind version p. view s v = Some reg \<longrightarrow> version \<noteq> [] \<longrightarrow> path_of reg (i, kind, version) = Some p
          \<longrightarrow> (\<exists>x. map_of (as_explicit s) (i, kind, version) = Some x \<and> xr_path x = p))
     \<and> (\<forall>k x. map_of (as_explicit s) k = Some x
          \<longrightarrow> (\<exists>reg. view s (xr_manifest x) = Some reg \<and> path_of reg k = Some (xr_path x)))"

text \<open>What a later state of a set keeps of an earlier one.\<close>

definition extends :: "aset \<Rightarrow> aset \<Rightarrow> bool" where
  "extends s s' \<longleftrightarrow> as_current s' = as_current s \<and> as_latest s \<le> as_latest s'
     \<and> (\<forall>v reg. view s v = Some reg \<longrightarrow> view s' v = Some reg)
     \<and> (\<forall>k x. map_of (as_explicit s) k = Some x \<longrightarrow> map_of (as_explicit s') k = Some x)"

lemma extends_refl [simp]: "extends s s"
  by (simp add: extends_def)

lemma extends_trans: "extends s t \<Longrightarrow> extends t u \<Longrightarrow> extends s u"
  by (auto simp: extends_def)

lemma record_explicit_keeps: "map_of known k = Some x \<Longrightarrow> map_of (record_explicit v fname cfg known) k = Some x"
  by (induction v fname cfg known rule: record_explicit.induct) (auto simp: map_add_def)

lemma record_explicit_new:
  assumes "map_of (record_explicit v fname cfg known) k = Some x" "map_of known k = None"
  shows "xr_manifest x = v \<and> (\<exists>r \<in> set cfg. row_key r = k \<and> xr_path x = ro_Path r)"
  using assms
proof (induction v fname cfg known rule: record_explicit.induct)
  case (2 v fname r rows known)
  let ?known = "if ro_Version r = [] \<or> map_of known (row_key r) \<noteq> None then known
        else known @ [(row_key r, \<lparr>xr_path = ro_Path r, xr_manifest = v, xr_manifestFile = fname\<rparr>)]"
  show ?case
  proof (cases "map_of ?known k")
    case None
    then show ?thesis using 2 by auto
  next
    case (Some y)
    then have "x = y" using record_explicit_keeps[of ?known k y v fname rows] 2(2) by simp
    then show ?thesis using Some 2(3) by (auto simp: map_add_def split: if_splits)
  qed
qed simp

lemma record_explicit_lists:
  "r \<in> set cfg \<Longrightarrow> ro_Version r \<noteq> [] \<Longrightarrow> \<exists>x. map_of (record_explicit v fname cfg known) (row_key r) = Some x"
proof (induction v fname cfg known rule: record_explicit.induct)
  case (2 v fname q rows known)
  show ?case
  proof (cases "r = q")
    case True
    then obtain x where "map_of (if ro_Version q = [] \<or> map_of known (row_key q) \<noteq> None then known
        else known @ [(row_key q, \<lparr>xr_path = ro_Path q, xr_manifest = v, xr_manifestFile = fname\<rparr>)]) (row_key r) = Some x"
      using 2(3) by (cases "map_of known (row_key q)") (auto simp: map_add_def)
    from record_explicit_keeps[OF this] show ?thesis by auto
  next
    case False
    then show ?thesis using 2 by auto
  qed
qed simp

lemma check_explicit_iff:
  "check_explicit known cfg = None \<longleftrightarrow>
     (\<forall>r \<in> set cfg. ro_Version r \<noteq> [] \<longrightarrow> (\<forall>x. map_of known (row_key r) = Some x \<longrightarrow> xr_path x = ro_Path r))"
  by (induction known cfg rule: check_explicit.induct) (auto split: option.split)

text \<open>Recording an accepted manifest leaves each of its explicit versions on record with the path its row has.\<close>

lemma record_explicit_path:
  assumes "RegisterFromConfig artifact_NewRegistry cfg = Inr reg" "check_explicit known cfg = None" "r \<in> set cfg" "ro_Version r \<noteq> []"
  shows "\<exists>x. map_of (record_explicit v fname cfg known) (row_key r) = Some x \<and> xr_path x = ro_Path r"
proof -
  obtain x where x: "map_of (record_explicit v fname cfg known) (row_key r) = Some x" using record_explicit_lists[OF assms(3,4)] by blast
  have "xr_path x = ro_Path r"
  proof (cases "map_of known (row_key r)")
    case None
    then obtain q where q: "q \<in> set cfg" "row_key q = row_key r" "xr_path x = ro_Path q" using record_explicit_new[OF x] by blast
    then show ?thesis using RegisterFromConfig_row[OF assms(1) q(1)] RegisterFromConfig_row[OF assms(1,3)] by simp
  next
    case (Some y)
    then show ?thesis using record_explicit_keeps[OF Some] x assms(2-4) by (auto simp: check_explicit_iff)
  qed
  then show ?thesis using x by blast
qed

lemma set_add_SomeD:
  assumes "set_add v fname cfg s = Inr s'"
  shows "\<exists>reg. RegisterFromConfig artifact_NewRegistry cfg = Inr reg \<and> check_explicit (as_explicit s) cfg = None
      \<and> s' = s\<lparr>as_explicit := record_explicit v fname cfg (as_explicit s), as_views := AList.update v reg (as_views s), as_latest := v\<rparr>"
  using assms unfolding set_add_def by (cases "RegisterFromConfig artifact_NewRegistry cfg"; cases "check_explicit (as_explicit s) cfg") simp_all

lemma set_add_keeps:
  assumes "set_inv s" "set_add (as_latest s + 1) fname cfg s = Inr s'"
  shows "set_inv s' \<and> extends s s' \<and> as_latest s' = as_latest s + 1 \<and> as_files s' = as_files s
      \<and> (\<exists>reg. view s' (as_latest s + 1) = Some reg \<and> (\<forall>k. path_of reg k = map_of (map (\<lambda>r. (row_key r, ro_Path r)) cfg) k))"
proof -
  let ?v = "as_latest s + 1"
  obtain reg where reg: "RegisterFromConfig artifact_NewRegistry cfg = Inr reg" and ck: "check_explicit (as_explicit s) cfg = None"
      and s': "s' = s\<lparr>as_explicit := record_explicit ?v fname cfg (as_explicit s), as_views := AList.update ?v reg (as_views s), as_latest := ?v\<rparr>"
    using set_add_SomeD[OF assms(2)] by blast
  have inv: "0 \<le> as_latest s" "map fst (as_views s) = [1..as_latest s]" using assms(1) by (simp_all add: set_inv_def)
  note paths = RegisterFromConfig_paths[OF reg]
  have view: "view s' w = (if w = ?v then Some reg else view s w)" for w by (simp add: s' view_def AList.update_conv')
  have "?v \<notin> set (map fst (as_views s))" unfolding inv(2) by simp
  then have new: "view s ?v = None" by (simp add: view_def map_of_eq_None_iff)
  then have ext: "extends s s'" unfolding extends_def view by (auto simp: s' record_explicit_keeps)
  have "map fst (as_views s') = [1..as_latest s']"
    using inv \<open>?v \<notin> set (map fst (as_views s))\<close> by (simp add: s' AList.update_keys upto_rec2)
  moreover have "\<exists>x. map_of (as_explicit s') (i, kind, version) = Some x \<and> xr_path x = p"
    if "view s' w = Some g" "version \<noteq> []" "path_of g (i, kind, version) = Some p" for w g i kind version p
  proof (cases "w = ?v")
    case True
    then have "path_of reg (i, kind, version) = Some p" using that(1,3) by (simp add: view)
    from map_of_SomeD[OF this[unfolded paths]] obtain r where r: "r \<in> set cfg" "row_key r = (i, kind, version)" "ro_Path r = p" by auto
    then show ?thesis using record_explicit_path[OF reg ck r(1), of ?v fname] that(2) by (auto simp: s' row_key_def)
  next
    case False
    then have "view s w = Some g" using that(1) by (simp add: view)
    then show ?thesis using assms(1) that(2,3) ext unfolding set_inv_def extends_def by meson
  qed
  moreover have "\<exists>g. view s' (xr_manifest x) = Some g \<and> path_of g k = Some (xr_path x)" if "map_of (as_explicit s') k = Some x" for k x
  proof (cases "map_of (as_explicit s) k")
    case None
    have "map_of (record_explicit ?v fname cfg (as_explicit s)) k = Some x" using that by (simp add: s')
    from record_explicit_new[OF this None] obtain q where "xr_manifest x = ?v" "q \<in> set cfg" "row_key q = k" "xr_path x = ro_Path q"
      by blast
    then show ?thesis using RegisterFromConfig_row[OF reg] paths by (auto simp: view)
  next
    case (Some y)
    then have "x = y" using record_explicit_keeps[OF Some] that by (simp add: s')
    then show ?thesis using assms(1) Some ext unfolding set_inv_def extends_def by meson
  qed
  ultimately have "set_inv s'" using inv unfolding set_inv_def by (auto simp: s')
  then show ?thesis using ext paths by (auto simp: view) (simp_all add: s')
qed

lemma add_all_keeps:
  "set_inv s \<Longrightarrow> add_all fname (as_latest s + 1) cfgs s = (err, s') \<Longrightarrow> set_inv s' \<and> extends s s' \<and> as_files s' = as_files s"
proof (induction fname "as_latest s + 1" cfgs s rule: add_all.induct)
  case (2 fname cfg cfgs s)
  show ?case
  proof (cases "set_add (as_latest s + 1) (fname (as_latest s + 1)) cfg s")
    case (Inl e)
    then show ?thesis using 2 by simp
  next
    case (Inr t)
    note t = set_add_keeps[OF 2(2) Inr]
    then have "set_inv s' \<and> extends t s' \<and> as_files s' = as_files t" using 2(1)[OF Inr] 2(3) Inr by simp
    then show ?thesis using t extends_trans by metis
  qed
qed simp

section \<open>Sets in use\<close>

lemma view_versions: "set_inv s \<Longrightarrow> (\<exists>reg. view s v = Some reg) \<longleftrightarrow> 1 \<le> v \<and> v \<le> as_latest s"
proof -
  assume "set_inv s"
  then have "v \<in> set (map fst (as_views s)) \<longleftrightarrow> 1 \<le> v \<and> v \<le> as_latest s" by (simp add: set_inv_def)
  moreover have "(\<exists>reg. view s v = Some reg) \<longleftrightarrow> v \<in> set (map fst (as_views s))"
    using map_of_eq_None_iff[of "as_views s" v] by (cases "view s v") (auto simp: view_def)
  ultimately show ?thesis by simp
qed

lemma set_inv_cong:
  "set_inv (s\<lparr>as_current := v\<rparr>) = set_inv s" "set_inv (s\<lparr>as_files := fs\<rparr>) = set_inv s" "set_inv (s\<lparr>as_lastEmptyProbe := l\<rparr>) = set_inv s"
  "extends s (t\<lparr>as_files := fs\<rparr>) = extends s t" "extends s (t\<lparr>as_lastEmptyProbe := l\<rparr>) = extends s t"
  by (simp_all add: set_inv_def extends_def view_def)

lemma finish_load_inv:
  assumes "finish_load opts unversioned cfgs = Inr s"
  shows "set_inv s \<and> as_current s = as_latest s \<and> op_pin opts \<le> as_latest s \<and> files_ok contents (as_files s)"
proof -
  let ?s0 = "\<lparr>as_views = [], as_latest = 0, as_current = 0, as_lastEmptyProbe = None, as_explicit = [],
      as_files = if \<not> unversioned \<and> op_fileCacheBytes opts > 0 then Some (newCachingLoader (op_fileCacheBytes opts)) else None\<rparr>"
  let ?name = "if unversioned then (\<lambda>_. ManifestFilename) else ManifestPath"
  obtain err t where t: "add_all ?name 1 cfgs ?s0 = (err, t)" by (cases "add_all ?name 1 cfgs ?s0")
  have "set_inv ?s0" by (simp add: set_inv_def view_def)
  then have "set_inv t \<and> as_files t = as_files ?s0" using add_all_keeps[of ?s0 ?name cfgs err t] t by simp
  moreover have "files_ok contents (as_files ?s0)" by (auto simp: files_ok_def intro!: new_cache exI[of _ "op_fileCacheBytes opts"])
  moreover have "s = t\<lparr>as_current := as_latest t\<rparr>" "op_pin opts \<le> as_latest t"
    using assms t by (auto simp: finish_load_def Let_def split: option.splits if_splits)
  ultimately show ?thesis by (simp add: set_inv_cong)
qed

lemma add_all_latest: "add_all fname v cfgs s = (err, s') \<Longrightarrow> as_latest s < v \<Longrightarrow> as_latest s' < v + int (length cfgs)"
proof (induction fname v cfgs s rule: add_all.induct)
  case (2 fname v cfg cfgs s)
  show ?case
  proof (cases "set_add v (fname v) cfg s")
    case (Inl e)
    then show ?thesis using 2(2,3) by simp
  next
    case (Inr t)
    then have "as_latest t < v + 1" using set_add_SomeD[OF Inr] by auto
    then show ?thesis using 2(1)[OF Inr] 2(2) Inr by simp
  qed
qed simp

lemma finish_load_latest:
  assumes "finish_load opts unversioned cfgs = Inr s"
  shows "as_latest s \<le> int (length cfgs)"
proof -
  obtain name s0 t where "add_all name 1 cfgs s0 = (None, t)" "as_latest s0 = 0" "as_latest s = as_latest t"
    using assms by (auto simp: finish_load_def Let_def split: option.splits if_splits prod.splits)
  then show ?thesis using add_all_latest[of name 1 cfgs s0 None t] by simp
qed

lemma LoadSet_finish:
  "LoadSet (Some load) um opts = Some (Inr s) \<Longrightarrow> \<exists>unversioned cfgs. finish_load (fold (\<lambda>f. f) opts default_options) unversioned cfgs = Inr s"
  by (auto simp: LoadSet_def Let_def split: if_splits option.splits sum.splits prod.splits)

lemma LoadSet_inv:
  "LoadSet (Some load) um opts = Some (Inr s) \<Longrightarrow> set_inv s \<and> as_current s = as_latest s
     \<and> op_pin (fold (\<lambda>f. f) opts default_options) \<le> as_latest s \<and> files_ok contents (as_files s)"
  using LoadSet_finish finish_load_inv by blast

lemma LoadSet_latest:
  assumes "LoadSet (Some load) um opts = Some (Inr s)"
  shows "1 \<le> as_latest s"
proof -
  obtain unversioned cfgs where f: "finish_load (fold (\<lambda>f. f) opts default_options) unversioned cfgs = Inr s" using LoadSet_finish[OF assms] by blast
  then have "as_latest s \<noteq> 0" by (auto simp: finish_load_def Let_def split: option.splits if_splits prod.splits)
  moreover have "0 \<le> as_latest s" using finish_load_inv[OF f] by (simp add: set_inv_def)
  ultimately show ?thesis by simp
qed

lemma set_probe_keeps:
  assumes "set_inv s" "set_probe load um px upTo s = Some (err, s')"
  shows "set_inv s' \<and> extends s s' \<and> as_files s' = as_files s"
proof (cases "s' = s")
  case True
  then show ?thesis using assms(1) by simp
next
  case False
  then obtain cfgs fetchErr where "fetchManifests load um (as_latest s + 1) upTo = Some (cfgs, fetchErr)"
      "case add_all ManifestPath (as_latest s + 1) cfgs s of (addErr, t) \<Rightarrow> (err, s') = probe_outcome px upTo (as_latest s) fetchErr addErr t"
    using assms(2) by (auto simp: set_probe_def Let_def split: option.splits if_splits prod.splits)
  moreover obtain addErr t where t: "add_all ManifestPath (as_latest s + 1) cfgs s = (addErr, t)" by (cases "add_all ManifestPath (as_latest s + 1) cfgs s")
  ultimately have "(err, s') = probe_outcome px upTo (as_latest s) fetchErr addErr t" by simp
  then have "s' = t \<or> (\<exists>l. s' = t\<lparr>as_lastEmptyProbe := l\<rparr>)" by (auto simp: probe_outcome_def Let_def)
  then show ?thesis using add_all_keeps[OF assms(1) t] by (auto simp: set_inv_cong)
qed

lemma set_Registry_keeps:
  assumes "set_inv s" "set_Registry load um px v s = Some (r, s')"
  shows "set_inv s' \<and> extends s s' \<and> as_files s' = as_files s"
proof (cases "s' = s")
  case True
  then show ?thesis using assms(1) by simp
next
  case False
  then obtain err where "set_probe load um px v s = Some (err, s')"
    using assms(2) by (auto simp: set_Registry_def split: if_splits option.splits prod.splits)
  then show ?thesis using set_probe_keeps[OF assms(1)] by blast
qed

lemma get_from_keeps:
  assumes "files_ok contents (as_files s)" "serves load contents" "get_from load ty i version reg s = (r, s')"
  shows "files_ok contents (as_files s') \<and> (\<exists>files. s' = s\<lparr>as_files := files\<rparr>)"
proof -
  obtain r' files where g: "artifact_Get (files_Load load) ty reg i version (as_files s) = (r', files)"
    by (cases "artifact_Get (files_Load load) ty reg i version (as_files s)")
  then show ?thesis using set_files.Get_result[OF assms(1,2) g] assms(3) by (auto simp: get_from_def)
qed

lemma latest_from_keeps:
  assumes "files_ok contents (as_files s)" "serves load contents" "latest_from load ty i reg s = (r, s')"
  shows "files_ok contents (as_files s') \<and> (\<exists>files. s' = s\<lparr>as_files := files\<rparr>)
    \<and> (case Option.bind (versions_of reg (i, fst ty)) latest_path of
      None \<Rightarrow> r = Inl (Wrapped ErrNotFound)
    | Some path \<Rightarrow> (\<exists>raw. contents path = Some raw \<and> r = parseAs ty raw) \<or> (\<exists>e. load path = Inl e \<and> r = Inl (Wrapped e)))"
proof -
  obtain r' files where g: "artifact_Latest (files_Load load) ty reg i (as_files s) = (r', files)"
    by (cases "artifact_Latest (files_Load load) ty reg i (as_files s)")
  then show ?thesis using set_files.Latest_result[OF assms(1,2) g] assms(3) by (auto simp: latest_from_def)
qed

lemma GetExplicit_keeps:
  assumes "set_inv s" "files_ok contents (as_files s)" "serves load contents" "GetExplicit load um px ty i version s = Some (r, s')"
  shows "set_inv s' \<and> extends s s' \<and> files_ok contents (as_files s')"
proof -
  have "s' = s \<or> (\<exists>err. set_probe load um px 0 s = Some (err, s'))
      \<or> (\<exists>reg. get_from load ty i version reg s = (r, s'))
      \<or> (\<exists>reg t err. set_probe load um px 0 s = Some (err, t) \<and> get_from load ty i version reg t = (r, s'))"
    using assms(4) by (auto simp: GetExplicit_def split: if_splits option.splits prod.splits)
  then show ?thesis
  proof (elim disjE exE conjE)
    fix reg t err
    assume "set_probe load um px 0 s = Some (err, t)" "get_from load ty i version reg t = (r, s')"
    then show ?thesis using set_probe_keeps[OF assms(1)] get_from_keeps[of contents t load] assms(2,3) by (metis set_inv_cong(2,4))
  next
    fix reg
    assume "get_from load ty i version reg s = (r, s')"
    then show ?thesis using get_from_keeps[of contents s load] assms(1-3) by (metis set_inv_cong(2,4) extends_refl)
  qed (use assms(1,2) set_probe_keeps[OF assms(1)] in auto)
qed

text \<open>A set in use: lookups of manifest versions and of explicit artifacts follow each other, each with its own answers of the source. \<open>contents\<close>
  gives the published files.\<close>

inductive set_run :: "string smap \<Rightarrow> manifest_parser \<Rightarrow> aset \<Rightarrow> aset \<Rightarrow> bool" for contents um s where
  run_start: "set_run contents um s s"
| run_Registry: "set_run contents um s t \<Longrightarrow> set_Registry load um px v t = Some (r, t') \<Longrightarrow> set_run contents um s t'"
| run_GetExplicit: "set_run contents um s t \<Longrightarrow> serves load contents \<Longrightarrow> GetExplicit load um px ((kind, parse) :: vars artifact_type) i version t = Some (r, t')
    \<Longrightarrow> set_run contents um s t'"
| run_Latest: "set_run contents um s t \<Longrightarrow> serves load contents \<Longrightarrow> latest_from load ((kind, parse) :: vars artifact_type) i reg t = (r, t')
    \<Longrightarrow> set_run contents um s t'"

lemma set_run_keeps:
  assumes "set_inv s" "files_ok contents (as_files s)" "set_run contents um s t"
  shows "set_inv t \<and> extends s t \<and> files_ok contents (as_files t)"
  using assms(3)
proof (induction rule: set_run.induct)
  case run_start
  then show ?case using assms(1,2) by simp
next
  case (run_Registry t load px v r t')
  then show ?case using set_Registry_keeps[of t load um px v r t'] extends_trans by metis
next
  case (run_GetExplicit t load px kind parse i version r t')
  then show ?case using GetExplicit_keeps[of t contents load um px "(kind, parse)" i version r t'] extends_trans by metis
next
  case (run_Latest t load kind parse i reg r t')
  then show ?case using latest_from_keeps[of contents t load "(kind, parse)" i reg r t'] by (metis set_inv_cong(2,4))
qed

text \<open>C25. A set that was loaded never loses or changes a manifest: whatever lookups follow and whatever the source answers to them, its current version
  stays what it was at load time, the loaded versions are 1 up to the latest without gaps, and every version that had a registry has the same registry.\<close>

theorem set_immutable:
  assumes "LoadSet (Some load) um opts = Some (Inr s)" "set_run contents um s t" "set_run contents um t u"
  shows "set_Current u = set_Latest s \<and> set_Versions u = [1..set_Latest u] \<and> set_Latest t \<le> set_Latest u
      \<and> (\<exists>reg. CurrentRegistry s = Some reg \<and> CurrentRegistry u = Some reg)
      \<and> (\<forall>v reg. view t v = Some reg \<longrightarrow> set_Registry load' um px v u = Some (Inr reg, u))"
proof -
  have s: "set_inv s" "as_current s = as_latest s" "files_ok contents (as_files s)" using LoadSet_inv[OF assms(1)] by auto
  have t: "set_inv t" "extends s t" "files_ok contents (as_files t)" using set_run_keeps[OF s(1,3) assms(2)] by auto
  have u: "set_inv u" "extends t u" using set_run_keeps[OF t(1,3) assms(3)] by auto
  have "1 \<le> as_latest s" using LoadSet_latest[OF assms(1)] .
  then obtain reg where "view s (as_current s) = Some reg" using view_versions[OF s(1)] s(2) by auto
  then have "\<exists>reg. CurrentRegistry s = Some reg \<and> CurrentRegistry u = Some reg"
    using t(2) u(2) by (auto simp: CurrentRegistry_def extends_def)
  moreover have "set_Registry load' um px v u = Some (Inr reg, u)" if "view t v = Some reg" for v reg
    using that u(2) view_versions[OF t(1), of v] by (auto simp: set_Registry_def extends_def)
  moreover have "set_Versions u = [1..set_Latest u]" using u(1) by (simp add: set_Versions_def set_inv_def set_Latest_def sorted_sort_id)
  ultimately show ?thesis using s(2) t(2) u(2) by (auto simp: set_Current_def set_Latest_def extends_def)
qed

text \<open>What a lookup of a listed artifact answers depends on the path only.\<close>

lemma get_from_path:
  "path_of reg (i, fst ty, version) = Some p \<Longrightarrow> path_of reg' (i, fst ty, version) = Some p
     \<Longrightarrow> get_from load ty i version reg s = get_from load ty i version reg' s"
  by (auto simp: get_from_def artifact_Get_def path_of_def split: option.splits)

text \<open>C26. An explicit version keeps its file: in a set in use, all loaded manifests that list an artifact with an explicit version give it the same path, so
  a lookup outside any flow answers at once, without a probe, exactly as a lookup in any of those manifests would.\<close>

theorem explicit_version_one_path:
  assumes "LoadSet (Some load) um opts = Some (Inr s)" "set_run contents um s t" "version \<noteq> []"
    and "view t v = Some reg" "path_of reg (i, fst ty, version) = Some p"
  shows "(\<forall>w reg' p'. view t w = Some reg' \<longrightarrow> path_of reg' (i, fst ty, version) = Some p' \<longrightarrow> p' = p)
      \<and> GetExplicit load' um' px ty i version t = Some (get_from load' ty i version reg t)"
proof -
  have s: "set_inv s" "files_ok contents (as_files s)" using LoadSet_inv[OF assms(1)] by auto
  then have t: "set_inv t" using set_run_keeps[OF _ _ assms(2)] by blast
  have known: "\<exists>x. map_of (as_explicit t) (i, fst ty, version) = Some x \<and> xr_path x = q"
    if "view t w = Some g" "path_of g (i, fst ty, version) = Some q" for w g q
    using t that assms(3) unfolding set_inv_def by blast
  obtain x where x: "map_of (as_explicit t) (i, fst ty, version) = Some x" "xr_path x = p" using known[OF assms(4,5)] by blast
  obtain g where g: "view t (xr_manifest x) = Some g" "path_of g (i, fst ty, version) = Some (xr_path x)"
    using t x(1) unfolding set_inv_def by blast
  have "GetExplicit load' um' px ty i version t = Some (get_from load' ty i version g t)"
    using x(1) g(1) assms(3) by (simp add: GetExplicit_def explicitRegistry_def)
  moreover have "get_from load' ty i version g t = get_from load' ty i version reg t"
    using get_from_path g(2) assms(5) x(2) by blast
  ultimately show ?thesis using known x by fastforce
qed

text \<open>A pin protects a rollback: with the versions up to the pin answered the same, loading returns, with the same result, whatever newer
  manifests the source has; and a set that loads has the pinned version as its current and latest one.\<close>

theorem pinned_load_ignores_newer:
  assumes "0 < pin" "load ManifestFilename = load' ManifestFilename"
    and "\<And>w. 1 \<le> w \<Longrightarrow> w \<le> pin \<Longrightarrow> load (ManifestPath w) = load' (ManifestPath w)"
  shows "\<exists>r. LoadSet (Some load) um [WithPinnedVersion pin] = Some r \<and> LoadSet (Some load') um [WithPinnedVersion pin] = Some r
      \<and> (\<forall>s. r = Inr s \<longrightarrow> set_Current s = pin \<and> set_Latest s = pin \<and> set_Versions s = [1..pin])"
proof -
  have same: "fetchManifests load um 1 pin = fetchManifests load' um 1 pin" "loadUnversioned load um = loadUnversioned load' um"
    using fetch_from_cong[of pin 1 load load'] assms by (simp_all add: fetchManifests_def loadUnversioned_def)
  obtain cfgs err where f: "fetchManifests load um 1 pin = Some (cfgs, err)" and len: "int (length cfgs) \<le> pin"
    using fetch_from_length[of pin 1 load um "[]"] assms(1) by (fastforce simp: fetchManifests_def)
  have "LoadSet (Some load) um [WithPinnedVersion pin] \<noteq> None"
    using f assms(1) by (auto simp: LoadSet_def Let_def WithPinnedVersion_def split: option.splits sum.splits)
  then obtain r where r: "LoadSet (Some load) um [WithPinnedVersion pin] = Some r" by blast
  have "LoadSet (Some load') um [WithPinnedVersion pin] = Some r"
    using r assms(1) f same by (cases err) (auto simp: LoadSet_def Let_def WithPinnedVersion_def)
  moreover have "set_Current s = pin \<and> set_Latest s = pin \<and> set_Versions s = [1..pin]" if "r = Inr s" for s
  proof -
    have s: "set_inv s" "as_current s = as_latest s" "pin \<le> as_latest s"
      using LoadSet_inv[OF r[unfolded that]] by (simp_all add: WithPinnedVersion_def)
    have "as_latest s \<le> pin"
      using r that f len assms(1)
      by (auto simp: LoadSet_def Let_def WithPinnedVersion_def split: if_splits option.splits sum.splits dest!: finish_load_latest)
    then show ?thesis using s by (simp add: set_Current_def set_Latest_def set_Versions_def set_inv_def sorted_sort_id)
  qed
  ultimately show ?thesis using r by blast
qed

text \<open>A lookup of an unpublished version starts a back-off: after it failed with an answer of the source, every lookup of a version above the latest
  within ten seconds of it is refused at once, and its answer and the set do not depend on the source any more.\<close>

theorem failed_lookup_backs_off:
  assumes "set_Registry load um px v s = Some (Inl e, s')" "set_inv s" "as_latest s < v" "0 \<le> as_latest s"
    and "px_gaveUp px = None" "\<not> px_ended px" "\<not> backing_off px s"
    and "px_gaveUp px' = None" "px_checked px' - px_finished px < reprobeInterval" "as_latest s' < w"
  shows "set_Registry load' um' px' w s' = Some (Inl (Wrapped ErrUnknownManifestVersion), s')"
proof -
  have none: "view s v = None" "0 < v" using view_versions[OF assms(2), of v] assms(3,4) by (cases "view s v"; auto)+
  obtain err where p: "set_probe load um px v s = Some (err, s')" and err: "err = None \<longrightarrow> view s' v = None"
    using assms(1) none by (auto simp: set_Registry_def split: option.splits prod.splits)
  have inv: "set_inv s'" using set_probe_keeps[OF assms(2) p] by blast
  obtain cfgs fetchErr where f: "fetchManifests load um (as_latest s + 1) v = Some (cfgs, fetchErr)"
    and o: "case add_all ManifestPath (as_latest s + 1) cfgs s of (addErr, t) \<Rightarrow> (err, s') = probe_outcome px v (as_latest s) fetchErr addErr t"
    using p assms(3-7) none(2) by (auto simp: set_probe_def Let_def split: option.splits if_splits prod.splits)
  obtain addErr t where t: "add_all ManifestPath (as_latest s + 1) cfgs s = (addErr, t)" by (cases "add_all ManifestPath (as_latest s + 1) cfgs s")
  have eq: "(err, s') = probe_outcome px v (as_latest s) fetchErr addErr t" using o t by simp
  have "\<not> v \<le> as_latest t"
  proof
    assume "v \<le> as_latest t"
    then have "err = None" "as_latest s' = as_latest t" using eq none(2) by (auto simp: probe_outcome_def Let_def)
    then show False using err view_versions[OF inv, of v] none(2) \<open>v \<le> as_latest t\<close> by auto
  qed
  then have "as_lastEmptyProbe s' = Some (px_finished px)" using eq assms(6) none(2) by (auto simp: probe_outcome_def Let_def)
  then have "backing_off px' s'" using assms(9) by (simp add: backing_off_def)
  moreover have "view s' w = None" "0 < w" using view_versions[OF inv, of w] assms(10) inv by (auto simp: set_inv_def)
  ultimately show ?thesis using assms(8,10) by (simp add: set_Registry_def set_probe_def Let_def)
qed

definition manifest_path :: "ManifestConfig \<Rightarrow> Key \<Rightarrow> string option" where
  "manifest_path cfg k = map_of (map (\<lambda>r. (row_key r, ro_Path r)) cfg) k"

lemma add_all_views:
  assumes "set_inv s" "add_all fname (as_latest s + 1) cfgs s = (None, s')"
  shows "as_latest s' = as_latest s + int (length cfgs)
      \<and> (\<forall>j < length cfgs. \<exists>reg. view s' (as_latest s + 1 + int j) = Some reg \<and> (\<forall>k. path_of reg k = manifest_path (cfgs ! j) k))"
  using assms
proof (induction fname "as_latest s + 1" cfgs s rule: add_all.induct)
  case (2 fname cfg cfgs s)
  obtain t where t: "set_add (as_latest s + 1) (fname (as_latest s + 1)) cfg s = Inr t"
    using 2(3) by (cases "set_add (as_latest s + 1) (fname (as_latest s + 1)) cfg s") auto
  note keeps = set_add_keeps[OF 2(2) t]
  then have rest: "add_all fname (as_latest t + 1) cfgs t = (None, s')" using 2(3) t by simp
  have IH: "as_latest s' = as_latest t + int (length cfgs)
      \<and> (\<forall>j < length cfgs. \<exists>reg. view s' (as_latest t + 1 + int j) = Some reg \<and> (\<forall>k. path_of reg k = manifest_path (cfgs ! j) k))"
    using 2(1)[OF t] keeps rest by simp
  have "extends t s'" using add_all_keeps[OF _ rest] keeps by blast
  then have first: "\<exists>reg. view s' (as_latest s + 1) = Some reg \<and> (\<forall>k. path_of reg k = manifest_path cfg k)"
    using keeps by (auto simp: extends_def manifest_path_def)
  have "\<exists>reg. view s' (as_latest s + 1 + int j) = Some reg \<and> (\<forall>k. path_of reg k = manifest_path ((cfg # cfgs) ! j) k)"
    if "j < length (cfg # cfgs)" for j
    using that first IH keeps by (cases j) (auto simp: algebra_simps)
  then show ?case using IH keeps by simp
qed simp

text \<open>Loading a set without a pin reads all published manifests: if manifests 1 to \<open>n\<close> can be read and the next one cannot, loading returns. It fails with the
  error of that next manifest unless the error says that it does not exist; and a set that loads has exactly the versions 1 to \<open>n\<close>, each resolving exactly
  the rows of its own manifest.\<close>

theorem LoadSet_reads_manifests:
  assumes "1 \<le> n" "\<And>w. 1 \<le> w \<Longrightarrow> w \<le> int n \<Longrightarrow> LoadManifest load um w = Inr (cfg w)" "LoadManifest load um (int n + 1) = Inl e"
  shows "\<exists>r. LoadSet (Some load) um [] = Some r \<and> (\<not> errors_Is e ErrNotFound \<longrightarrow> r = Inl e)
      \<and> (\<forall>s. r = Inr s \<longrightarrow> set_Versions s = [1..int n] \<and> set_Current s = int n
           \<and> (\<forall>v. 1 \<le> v \<longrightarrow> v \<le> int n \<longrightarrow> (\<exists>reg. view s v = Some reg \<and> (\<forall>k. path_of reg k = manifest_path (cfg v) k))))"
proof -
  let ?cfgs = "map cfg [1..int n]" and ?err = "if errors_Is e ErrNotFound then None else Some e"
  have "fetchManifests load um 1 0 = Some (?cfgs, ?err)"
    unfolding fetchManifests_def using fetch_from_result[where v = 1 and n = n and upTo = 0 and cfgs = "[]" and err = ?err] assms(2,3) by (simp add: add.commute)
  then have r: "LoadSet (Some load) um [] = Some (if errors_Is e ErrNotFound then finish_load default_options False ?cfgs else Inl e)"
    using assms(1) by (auto simp: LoadSet_def default_options_def Let_def)
  have "set_Versions s = [1..int n] \<and> set_Current s = int n \<and>
      (\<forall>v. 1 \<le> v \<longrightarrow> v \<le> int n \<longrightarrow> (\<exists>reg. view s v = Some reg \<and> (\<forall>k. path_of reg k = manifest_path (cfg v) k)))"
    if f: "finish_load default_options False ?cfgs = Inr s" for s
  proof -
    have inv: "set_inv s" "as_current s = as_latest s" using finish_load_inv[OF f] by simp_all
    obtain s0 t where a: "add_all ManifestPath 1 ?cfgs s0 = (None, t)" "as_latest s0 = 0" "as_views s0 = []" "as_explicit s0 = []"
        "s = t\<lparr>as_current := as_latest t\<rparr>"
      using f by (auto simp: finish_load_def Let_def split: option.splits if_splits prod.splits)
    then have "set_inv s0" by (simp add: set_inv_def view_def)
    from add_all_views[OF this, of ManifestPath ?cfgs t] a(1,2)
    have views: "as_latest t = int n" "\<And>j. j < n \<Longrightarrow> \<exists>reg. view t (1 + int j) = Some reg \<and> (\<forall>k. path_of reg k = manifest_path (cfg (1 + int j)) k)"
      by simp_all
    have "\<exists>reg. view s v = Some reg \<and> (\<forall>k. path_of reg k = manifest_path (cfg v) k)" if "1 \<le> v" "v \<le> int n" for v
      using views(2)[of "nat (v - 1)"] that a(5) by (simp add: view_def)
    then show ?thesis using inv views(1) a(5) by (simp add: set_Versions_def set_Current_def set_inv_def sorted_sort_id)
  qed
  then show ?thesis using r by auto
qed

section \<open>The latest version\<close>

lemma best_version_max:
  "None \<notin> version_number ` insert best (fst ` set vs) \<Longrightarrow> best_version best vs \<in> insert best (fst ` set vs)
     \<and> (\<forall>v \<in> insert best (fst ` set vs). the (version_number v) \<le> the (version_number (best_version best vs)))"
proof (induction best vs rule: best_version.induct)
  case (2 best v path vs)
  let ?best = "if defaultVersionLess best v then v else best"
  have "version_number best \<noteq> None" "version_number v \<noteq> None" using 2(2) by force+
  then have max: "the (version_number best) \<le> the (version_number ?best)" "the (version_number v) \<le> the (version_number ?best)"
    by (auto simp: defaultVersionLess_def)
  have "None \<notin> version_number ` insert ?best (fst ` set vs)" using 2(2) by auto
  from 2(1)[OF this] have IH: "best_version ?best vs \<in> insert ?best (fst ` set vs)"
      "\<And>w. w \<in> insert ?best (fst ` set vs) \<Longrightarrow> the (version_number w) \<le> the (version_number (best_version ?best vs))" by blast+
  have "the (version_number w) \<le> the (version_number (best_version ?best vs))" if "w \<in> insert best (insert v (fst ` set vs))" for w
  proof (cases "w \<in> fst ` set vs")
    case True
    then show ?thesis using IH(2)[of w] by blast
  next
    case False
    then have "the (version_number w) \<le> the (version_number ?best)" using that max by blast
    also have "\<dots> \<le> the (version_number (best_version ?best vs))" by (rule IH(2)) blast
    finally show ?thesis .
  qed
  then show ?case using IH(1) by (auto split: if_splits)
qed simp

text \<open>When all versions listed for an artifact are numbers, with or without a leading v, and no two stand for the same number, the latest artifact is the one
  of the highest number, in whatever order the versions are ranged over.\<close>

theorem latest_is_highest:
  assumes "versions_of reg (i, fst ty) = Some vs" "\<And>v p. (v, p) \<in> set vs \<Longrightarrow> version_number v \<noteq> None"
    and "inj_on version_number (fst ` set vs)" "distinct (map fst vs)" "(high, path) \<in> set vs"
    and "\<And>v p. (v, p) \<in> set vs \<Longrightarrow> the (version_number v) \<le> the (version_number high)"
  shows "artifact_Latest load ty reg i st = loadAndParse load ty path st"
proof -
  obtain v q rest where vs: "vs = (v, q) # rest" using assms(5) by (cases vs) auto
  have "version_number [] = None" by (simp add: version_number_def strip_prefix_def Atoi_def)
  then have none: "map_of vs [] = None" using assms(2)[OF map_of_SomeD] by (cases "map_of vs []") auto
  let ?best = "best_version v rest"
  have "None \<notin> version_number ` insert v (fst ` set rest)"
  proof
    assume "None \<in> version_number ` insert v (fst ` set rest)"
    then obtain w where w: "version_number w = None" "w \<in> insert v (fst ` set rest)" by (metis imageE)
    then have "w \<in> fst ` set vs" by (simp add: vs)
    then obtain p where "(w, p) \<in> set vs" by (metis imageE prod.collapse)
    then show False using assms(2) w(1) by blast
  qed
  from best_version_max[OF this] have best: "?best \<in> fst ` set vs" "the (version_number high) \<le> the (version_number ?best)"
    using assms(5) by (auto simp: vs)
  obtain q' where q': "(?best, q') \<in> set vs" using best(1) by force
  then have "the (version_number ?best) = the (version_number high)" using best(2) assms(6) by (simp add: order_antisym)
  then have "version_number ?best = version_number high" using assms(2)[OF q'] assms(2)[OF assms(5)] by (metis option.expand)
  moreover have "high \<in> fst ` set vs" using assms(5) by (metis fst_conv image_eqI)
  ultimately have "?best = high" using inj_onD[OF assms(3)] best(1) by blast
  moreover have "map_of vs high = Some path" using assms(4,5) by simp
  ultimately have "latest_path vs = Some path" using none by (simp add: latest_path_def vs del: map_of.simps)
  then show ?thesis using assms(1) by (simp add: artifact_Latest_def)
qed

end
