(* ===== verification/Artifact_Samples.thy ===== *)
theory Artifact_Samples
  imports Artifact_Props
begin

text \<open>
  A source with two manifests, a set loaded before the second one was published, and the witnesses of the properties of \<open>Artifact_Cache\<close> and
  \<open>Artifact_Props\<close>; and three versions on which the order of versions is a cycle.
\<close>

section \<open>A source\<close>

definition row_of :: "string \<Rightarrow> string \<Rightarrow> ManifestRow" where
  "row_of version path = \<lparr>ro_ID = ''welcome'', ro_Kind = ''email'', ro_Version = version, ro_Path = path\<rparr>"

definition sample_cfg :: "int \<Rightarrow> ManifestConfig" where
  "sample_cfg v = (if v = 1 then [row_of ''v1'' ''a1''] else [row_of ''v1'' ''a1'', row_of ''v2'' ''a2''])"

definition sample_um :: manifest_parser where
  "sample_um data = (if data = ''m1'' then Inr (sample_cfg 1) else if data = ''m2'' then Inr (sample_cfg 2) else Inl (PlainError ''syntax''))"

definition published_files :: "string smap" where
  "published_files = [''manifest_v1.json'' \<mapsto> ''m1'', ''manifest_v2.json'' \<mapsto> ''m2'', ''a1'' \<mapsto> ''hello'', ''a2'' \<mapsto> ''hi'']"

definition source :: "string list \<Rightarrow> loader" where
  "source hidden path = (if path \<in> set hidden then Inl ErrNotFound else case published_files path of None \<Rightarrow> Inl ErrNotFound | Some raw \<Rightarrow> Inr raw)"

abbreviation "old_source \<equiv> source [''manifest_v2.json'']"

definition email_type :: "vars artifact_type" where
  "email_type = (''email'', \<lambda>raw. Inr [''subject'' \<mapsto> VStr raw])"

definition waiting :: "int \<Rightarrow> probe_ctx" where
  "waiting now = \<lparr>px_gaveUp = None, px_ended = False, px_endedAfter = False, px_checked = now, px_finished = now\<rparr>"

lemma source_serves: "serves (source hidden) published_files"
  by (auto simp: serves_def source_def split: option.splits if_splits)

definition sample_set :: aset where
  "sample_set = projr (the (LoadSet (Some old_source) sample_um []))"

definition later_set :: aset where
  "later_set = snd (the (set_Registry (source []) sample_um (waiting 0) 2 sample_set))"

lemma sample_set_loads: "case LoadSet (Some old_source) sample_um [] of Some (Inr s) \<Rightarrow> True | _ \<Rightarrow> False"
  by code_simp

lemma sample_set: "LoadSet (Some old_source) sample_um [] = Some (Inr sample_set)"
  using sample_set_loads by (auto simp: sample_set_def split: option.splits sum.splits)

lemma later_set_loads: "case set_Registry (source []) sample_um (waiting 0) 2 sample_set of Some (Inr reg, s) \<Rightarrow> True | _ \<Rightarrow> False"
  by code_simp

lemma later_run: "set_run published_files sample_um sample_set later_set"
proof -
  obtain r t where "set_Registry (source []) sample_um (waiting 0) 2 sample_set = Some (r, t)"
    using later_set_loads by (auto split: option.splits)
  then show ?thesis using run_Registry[OF run_start] by (auto simp: later_set_def)
qed

section \<open>Witnesses\<close>

definition sample_cache :: cachingLoader where
  "sample_cache = the (cache_store ''a1'' ''hello'' (newCachingLoader 6))"

lemma sample_cache: "shared_cache published_files 6 sample_cache"
proof -
  have "shared_cache published_files 6 (newCachingLoader 6)" by (rule new_cache) simp
  moreover have "published_files ''a1'' = Some ''hello''" by code_simp
  moreover have "cache_store ''a1'' ''hello'' (newCachingLoader 6) = Some sample_cache"
    by (simp add: sample_cache_def cache_store_def newCachingLoader_def evict.simps Let_def)
  ultimately show ?thesis by (rule store_step)
qed

theorem cache_transparent_witness:
  "\<exists>r c'. cache_Load old_source (\<lambda>c. c) ''a2'' sample_cache = Some (r, c') \<and> shared_cache published_files 6 c'
     \<and> (case r of Inr raw \<Rightarrow> published_files ''a2'' = Some raw | Inl e \<Rightarrow> old_source ''a2'' = Inl e)
     \<and> cl_size c' = total_bytes (cl_order c') \<and> cl_size c' \<le> 6"
  using cache_transparent[OF sample_cache, of "\<lambda>c. c" old_source "''a2''"] source_serves[of "[''manifest_v2.json'']"] by (auto simp: serves_def)

theorem store_evicts_oldest_witness:
  "\<exists>c' k. cache_store ''a2'' ''hi'' sample_cache = Some c' \<and> k \<le> length (cl_order sample_cache)
      \<and> map el_path (cl_order c') = ''a2'' # map el_path (take k (cl_order sample_cache))
      \<and> (\<forall>j \<le> length (cl_order sample_cache). k < j \<longrightarrow> 6 < total_bytes (take j (cl_order sample_cache)) + 2)"
proof -
  have "published_files ''a2'' = Some ''hi''" by code_simp
  moreover have "cl_files sample_cache ''a2'' = None" by code_simp
  ultimately show ?thesis using store_evicts_oldest[OF sample_cache, of "''a2''" "''hi''"] by simp
qed

theorem set_immutable_witness:
  "set_Current later_set = set_Latest sample_set \<and> set_Versions later_set = [1..2]
     \<and> (\<exists>reg. view sample_set 1 = Some reg \<and> set_Registry (\<lambda>p. Inl ErrNotFound) sample_um (waiting 5) 1 later_set = Some (Inr reg, later_set))"
proof -
  have "(case view sample_set 1 of None \<Rightarrow> False | Some reg \<Rightarrow> True) \<and> set_Latest later_set = 2" by code_simp
  then show ?thesis using set_immutable[OF sample_set run_start later_run, of "\<lambda>p. Inl ErrNotFound" "waiting 5"]
    by (auto split: option.splits)
qed

theorem explicit_version_one_path_witness:
  "\<exists>reg. view later_set 2 = Some reg \<and> GetExplicit (source []) sample_um (waiting 5) email_type ''welcome'' ''v1'' later_set
     = Some (get_from (source []) email_type ''welcome'' ''v1'' reg later_set)"
proof -
  have "case view later_set 2 of None \<Rightarrow> False | Some reg \<Rightarrow> path_of reg (''welcome'', fst email_type, ''v1'') = Some ''a1''" by code_simp
  then obtain reg where reg: "view later_set 2 = Some reg" "path_of reg (''welcome'', fst email_type, ''v1'') = Some ''a1''"
    by (auto split: option.splits)
  show ?thesis using explicit_version_one_path[OF sample_set later_run _ reg] reg by auto
qed

theorem pinned_load_ignores_newer_witness:
  "\<exists>r. LoadSet (Some (source [])) sample_um [WithPinnedVersion 1] = Some r \<and> LoadSet (Some old_source) sample_um [WithPinnedVersion 1] = Some r
      \<and> (\<forall>s. r = Inr s \<longrightarrow> set_Current s = 1 \<and> set_Latest s = 1 \<and> set_Versions s = [1..1])"
proof (rule pinned_load_ignores_newer)
  have "source [] (ManifestPath 1) = Inr ''m1''" "old_source (ManifestPath 1) = Inr ''m1''" by code_simp+
  moreover have "w = 1" if "1 \<le> w" "w \<le> 1" for w :: int using that by simp
  ultimately show "source [] (ManifestPath w) = old_source (ManifestPath w)" if "1 \<le> w" "w \<le> 1" for w using that by metis
  show "source [] ManifestFilename = old_source ManifestFilename" by code_simp
qed simp

theorem failed_lookup_backs_off_witness:
  "set_Registry (source []) sample_um (waiting 9000000000) 2 (snd (the (set_Registry old_source sample_um (waiting 0) 2 sample_set)))
     = Some (Inl (Wrapped ErrUnknownManifestVersion), snd (the (set_Registry old_source sample_um (waiting 0) 2 sample_set)))"
proof -
  have "map_option (\<lambda>(r, s'). (isl r, as_latest s')) (set_Registry old_source sample_um (waiting 0) 2 sample_set) = Some (True, 1)" by code_simp
  then obtain e s' where r: "set_Registry old_source sample_um (waiting 0) 2 sample_set = Some (Inl e, s')" and l: "as_latest s' = 1"
    by (auto simp: isl_def)
  have inv: "set_inv sample_set" using LoadSet_inv[OF sample_set] by blast
  have "as_latest sample_set = 1" "\<not> backing_off (waiting 0) sample_set" by code_simp+
  then show ?thesis using failed_lookup_backs_off[OF r inv, of "waiting 9000000000" 2 "source []" sample_um] r l
    by (simp add: waiting_def reprobeInterval_def)
qed

theorem LoadSet_reads_manifests_witness:
  "\<exists>r. LoadSet (Some (source [])) sample_um [] = Some r \<and> (\<not> errors_Is (Wrapped ErrNotFound) ErrNotFound \<longrightarrow> r = Inl (Wrapped ErrNotFound))
      \<and> (\<forall>s. r = Inr s \<longrightarrow> set_Versions s = [1..int 2] \<and> set_Current s = int 2
           \<and> (\<forall>v. 1 \<le> v \<longrightarrow> v \<le> int 2 \<longrightarrow> (\<exists>reg. view s v = Some reg \<and> (\<forall>k. path_of reg k = manifest_path (sample_cfg v) k))))"
proof (rule LoadSet_reads_manifests)
  have read: "LoadManifest (source []) sample_um 1 = Inr (sample_cfg 1)" "LoadManifest (source []) sample_um 2 = Inr (sample_cfg 2)" by code_simp+
  show "LoadManifest (source []) sample_um w = Inr (sample_cfg w)" if "1 \<le> w" "w \<le> int 2" for w
  proof -
    have "w = 1 \<or> w = 2" using that by auto
    then show ?thesis using read by metis
  qed
  show "LoadManifest (source []) sample_um (int 2 + 1) = Inl (Wrapped ErrNotFound)" by code_simp
qed simp

section \<open>The order of versions\<close>

definition ranged :: "string list \<Rightarrow> aregistry" where
  "ranged vs = \<lparr>ar_manifest = [((''welcome'', ''email''), map (\<lambda>v. (v, v)) vs)]\<rparr>"

theorem latest_is_highest_witness:
  "artifact_Latest (\<lambda>p st. (Inr p, st)) email_type (ranged [''v2'', ''v10'', ''9'']) ''welcome'' () = loadAndParse (\<lambda>p st. (Inr p, st)) email_type ''v10'' ()"
proof (rule latest_is_highest)
  have n: "map version_number [''v2'', ''v10'', ''9''] = [Some 2, Some 10, Some 9]" by code_simp
  show "versions_of (ranged [''v2'', ''v10'', ''9'']) (''welcome'', fst email_type) = Some [(''v2'', ''v2''), (''v10'', ''v10''), (''9'', ''9'')]" by code_simp
  show "version_number v \<noteq> None" "the (version_number v) \<le> the (version_number ''v10'')"
    if "(v, p) \<in> set [(''v2'', ''v2''), (''v10'', ''v10''), (''9'', ''9'')]" for v p using that n by auto
  show "inj_on version_number (fst ` set [(''v2'', ''v2''), (''v10'', ''v10''), (''9'', ''9'')])" using n by (simp add: inj_on_def)
qed simp_all

text \<open>With a version that is not a number the order is a cycle, and the version found depends on the order of ranging over the versions.\<close>

lemma version_order_cycle:
  "defaultVersionLess ''v2'' ''v10'' \<and> defaultVersionLess ''v10'' ''v1x'' \<and> defaultVersionLess ''v1x'' ''v2''
     \<and> best_version ''v2'' [(''v10'', []), (''v1x'', [])] = ''v1x'' \<and> best_version ''v1x'' [(''v2'', []), (''v10'', [])] = ''v10''"
  by code_simp

end
