(* ===== verification/Storage_Keys.thy ===== *)
theory Storage_Keys
  imports Prelude
begin

text \<open>
  Package \<open>storage\<close>: storage keys (\<open>service.go\<close>) and the tokens of the local driver (\<open>drivers/token.go\<close>). The MAC is a parameter of the
  token functions; the UUID of a new key is an argument.
\<close>

section \<open>Keys\<close>

definition is_hex :: "char \<Rightarrow> bool" where
  "is_hex c \<longleftrightarrow> c \<in> set ''0123456789abcdefABCDEF''"

definition is_alnum :: "char \<Rightarrow> bool" where
  "is_alnum c \<longleftrightarrow> c \<in> set ''0123456789abcdefghijklmnopqrstuvwxyzABCDEFGHIJKLMNOPQRSTUVWXYZ''"

text \<open>The regular expression \<open>storageKeyRx\<close>: the text of a UUID, and what may follow it.\<close>

definition uuid_text :: "string \<Rightarrow> bool" where
  "uuid_text s \<longleftrightarrow> length s = 36 \<and> list_all (\<lambda>(i, c). if i \<in> {8, 13, 18, 23} then c = CHR ''-'' else is_hex c) (enumerate 0 s)"

definition key_suffix :: "string \<Rightarrow> bool" where
  "key_suffix s \<longleftrightarrow> (case s of [] \<Rightarrow> True | c # e \<Rightarrow> c = CHR ''.'' \<and> e \<noteq> [] \<and> list_all is_alnum e)"

definition validStorageKey :: "string \<Rightarrow> bool" where
  "validStorageKey key \<longleftrightarrow> length key \<ge> 36 \<and> uuid_text (take 36 key) \<and> key_suffix (drop 36 key)"

text \<open>\<open>filepath.Ext\<close>: scans back to the last dot, up to a slash.\<close>

fun ext_back :: "string \<Rightarrow> string \<Rightarrow> string" where
  "ext_back [] found = []"
| "ext_back (c # before) found =
     (if c = CHR ''/'' then [] else if c = CHR ''.'' then c # found else ext_back before (c # found))"

definition filepath_Ext :: "string \<Rightarrow> string" where
  "filepath_Ext path = ext_back (rev path) []"

definition newKey :: "string \<Rightarrow> string \<Rightarrow> string \<times> string" where
  "newKey uuid filename =
     (let key = uuid @ filepath_Ext filename in (uuid, if validStorageKey key then key else uuid))"

lemma uuid_chars: "uuid_text s \<Longrightarrow> c \<in> set s \<Longrightarrow> c = CHR ''-'' \<or> is_hex c"
  by (fastforce simp: uuid_text_def list_all_iff in_set_conv_nth enumerate_eq_zip split: if_splits)

lemma valid_key_chars:
  assumes "validStorageKey key" "c \<in> set key"
  shows "c = CHR ''-'' \<or> c = CHR ''.'' \<or> is_alnum c"
proof -
  have "c \<in> set (take 36 key) \<or> c \<in> set (drop 36 key)" using assms(2) by (metis Un_iff append_take_drop_id set_append)
  moreover have "is_alnum c" if "is_hex c" using that by (auto simp: is_hex_def is_alnum_def)
  ultimately show ?thesis
    using assms(1) uuid_chars[of "take 36 key" c] by (auto simp: validStorageKey_def key_suffix_def list_all_iff split: list.splits)
qed

lemma newKey_valid: "uuid_text uuid \<Longrightarrow> validStorageKey (snd (newKey uuid filename)) \<and> take 36 (snd (newKey uuid filename)) = uuid"
  by (auto simp: newKey_def Let_def validStorageKey_def key_suffix_def uuid_text_def)

section \<open>Tokens\<close>

type_synonym mac = "string \<Rightarrow> string \<Rightarrow> string"

definition opUpload :: string where "opUpload = ''put''"
definition opDownload :: string where "opDownload = ''get''"

definition sign :: "mac \<Rightarrow> string \<Rightarrow> string list \<Rightarrow> string" where
  "sign mac secret parts = mac secret (join_with [CHR 0x00] parts)"

definition token_verify :: "mac \<Rightarrow> string \<Rightarrow> string \<Rightarrow> string list \<Rightarrow> bool" where
  "token_verify mac token secret parts \<longleftrightarrow> token \<noteq> [] \<and> secret \<noteq> [] \<and> token = sign mac secret parts"

definition upload_parts :: "string \<Rightarrow> int \<Rightarrow> string \<Rightarrow> int \<Rightarrow> string list" where
  "upload_parts key expiresAt contentType maxSizeBytes = [opUpload, key, int_text expiresAt, contentType, int_text maxSizeBytes]"

definition download_parts :: "string \<Rightarrow> int \<Rightarrow> string \<Rightarrow> string list" where
  "download_parts key expiresAt disposition = [opDownload, key, int_text expiresAt, disposition]"

definition GenerateToken :: "mac \<Rightarrow> string \<Rightarrow> string \<Rightarrow> int \<Rightarrow> string \<Rightarrow> int \<Rightarrow> string" where
  "GenerateToken mac key secret expiresAt contentType maxSizeBytes = sign mac secret (upload_parts key expiresAt contentType maxSizeBytes)"

definition VerifyToken :: "mac \<Rightarrow> string \<Rightarrow> string \<Rightarrow> string \<Rightarrow> int \<Rightarrow> string \<Rightarrow> int \<Rightarrow> bool" where
  "VerifyToken mac key token secret expiresAt contentType maxSizeBytes =
     token_verify mac token secret (upload_parts key expiresAt contentType maxSizeBytes)"

definition GenerateDownloadToken :: "mac \<Rightarrow> string \<Rightarrow> string \<Rightarrow> int \<Rightarrow> string \<Rightarrow> string" where
  "GenerateDownloadToken mac key secret expiresAt disposition = sign mac secret (download_parts key expiresAt disposition)"

definition VerifyDownloadToken :: "mac \<Rightarrow> string \<Rightarrow> string \<Rightarrow> string \<Rightarrow> int \<Rightarrow> string \<Rightarrow> bool" where
  "VerifyDownloadToken mac key token secret expiresAt disposition =
     token_verify mac token secret (download_parts key expiresAt disposition)"

text \<open>Cutting at the first and at the last separator.\<close>

lemma sep_first_inj:
  fixes c :: char
  shows "c \<notin> set a \<Longrightarrow> c \<notin> set b \<Longrightarrow> a @ c # r = b @ c # s \<Longrightarrow> a = b \<and> r = s"
  by (auto simp: append_eq_append_conv2 append_eq_Cons_conv Cons_eq_append_conv)

lemma sep_last_inj:
  fixes c :: char
  assumes "c \<notin> set a" "c \<notin> set b" "r @ c # a = s @ c # b"
  shows "r = s \<and> a = b"
proof -
  have "rev a @ c # rev r = rev b @ c # rev s" using arg_cong[OF assms(3), of rev] by simp
  then show ?thesis using sep_first_inj[of c "rev a" "rev b"] assms(1,2) by auto
qed

lemma valid_key_no_nul: "validStorageKey key \<Longrightarrow> CHR 0x00 \<notin> set key"
  using valid_key_chars[of key "CHR 0x00"] by (auto simp: is_alnum_def)

text \<open>The signed text determines the operation and all constraints: everything around the content type is free of the separator.\<close>

lemma upload_text_inj:
  assumes "validStorageKey key" "validStorageKey key'"
    and "join_with [CHR 0x00] (upload_parts key e ct n) = join_with [CHR 0x00] (upload_parts key' e' ct' n')"
  shows "key = key' \<and> e = e' \<and> ct = ct' \<and> n = n'"
proof -
  have "key @ CHR 0x00 # int_text e @ CHR 0x00 # ct @ CHR 0x00 # int_text n = key' @ CHR 0x00 # int_text e' @ CHR 0x00 # ct' @ CHR 0x00 # int_text n'"
    using assms(3) by (simp add: upload_parts_def opUpload_def)
  from sep_first_inj[OF valid_key_no_nul[OF assms(1)] valid_key_no_nul[OF assms(2)] this]
  have key: "key = key'" and rest: "int_text e @ CHR 0x00 # ct @ CHR 0x00 # int_text n = int_text e' @ CHR 0x00 # ct' @ CHR 0x00 # int_text n'" by auto
  from sep_first_inj[OF int_text_no_nul int_text_no_nul rest]
  have e: "e = e'" and rest': "ct @ CHR 0x00 # int_text n = ct' @ CHR 0x00 # int_text n'" by (auto dest: int_text_inj)
  from sep_last_inj[OF int_text_no_nul int_text_no_nul rest'] show ?thesis using key e by (auto dest: int_text_inj)
qed

lemma download_text_inj:
  assumes "validStorageKey key" "validStorageKey key'"
    and "join_with [CHR 0x00] (download_parts key e d) = join_with [CHR 0x00] (download_parts key' e' d')"
  shows "key = key' \<and> e = e' \<and> d = d'"
proof -
  have "key @ CHR 0x00 # int_text e @ CHR 0x00 # d = key' @ CHR 0x00 # int_text e' @ CHR 0x00 # d'"
    using assms(3) by (simp add: download_parts_def opDownload_def)
  from sep_first_inj[OF valid_key_no_nul[OF assms(1)] valid_key_no_nul[OF assms(2)] this]
  have key: "key = key'" and rest: "int_text e @ CHR 0x00 # d = int_text e' @ CHR 0x00 # d'" by auto
  from sep_first_inj[OF int_text_no_nul int_text_no_nul rest] show ?thesis using key by (auto dest: int_text_inj)
qed

lemma upload_download_text: "join_with [CHR 0x00] (upload_parts key e ct n) \<noteq> join_with [CHR 0x00] (download_parts key' e' d)"
  by (simp add: upload_parts_def download_parts_def opUpload_def opDownload_def)

text \<open>C28. A token is good for what it was issued for only. Unless two of the texts concerned have the same MAC, a token issued for an upload is accepted for the same key,
  expiry, content type and size only and never for a download, and a token issued for a download is accepted for the same key, expiry and disposition only and never
  for an upload.\<close>

theorem token_binds_constraints:
  assumes "validStorageKey key" "validStorageKey key'"
    and "inj_on (mac secret) (join_with [CHR 0x00] ` {upload_parts key e ct n, upload_parts key' e' ct' n', download_parts key e d, download_parts key' e' d'})"
  shows "(VerifyToken mac key' (GenerateToken mac key secret e ct n) secret e' ct' n' \<longrightarrow> key' = key \<and> e' = e \<and> ct' = ct \<and> n' = n)
      \<and> (VerifyDownloadToken mac key' (GenerateDownloadToken mac key secret e d) secret e' d' \<longrightarrow> key' = key \<and> e' = e \<and> d' = d)
      \<and> \<not> VerifyDownloadToken mac key' (GenerateToken mac key secret e ct n) secret e' d'
      \<and> \<not> VerifyToken mac key' (GenerateDownloadToken mac key secret e d) secret e' ct' n'"
proof -
  let ?t = "join_with [CHR 0x00]"
  let ?P = "{upload_parts key e ct n, upload_parts key' e' ct' n', download_parts key e d, download_parts key' e' d'}"
  have same: "token_verify mac (sign mac secret p) secret q \<Longrightarrow> p \<in> ?P \<Longrightarrow> q \<in> ?P \<Longrightarrow> ?t p = ?t q" for p q
    by (rule inj_onD[OF assms(3)]) (simp_all only: token_verify_def sign_def imageI)
  show ?thesis
    unfolding VerifyToken_def VerifyDownloadToken_def GenerateToken_def GenerateDownloadToken_def
    using same[of "upload_parts key e ct n" "upload_parts key' e' ct' n'"] same[of "download_parts key e d" "download_parts key' e' d'"]
      same[of "upload_parts key e ct n" "download_parts key' e' d'"] same[of "download_parts key e d" "upload_parts key' e' ct' n'"]
      upload_text_inj[OF assms(1,2), of e ct n e' ct' n'] download_text_inj[OF assms(1,2), of e d e' d']
      upload_download_text[of key e ct n key' e' d'] upload_download_text[of key' e' ct' n' key e d]
    by (metis insertCI)
qed

end
