(* ===== verification/Storage_Local.thy ===== *)
theory Storage_Local
  imports Storage_Keys
begin

text \<open>
  The local file driver of package \<open>storage\<close> (\<open>drivers/local.go\<close>, \<open>drivers/download.go\<close>). The file system is a map from paths below the base
  directory to contents, together with the faults its coming operations meet: an operation may be refused, or end after a part of the
  bytes. A body is what can be read of it and the error reading ends with, if any. A URL is kept as its parts, so encoding is not
  modelled; the base directory is taken to resolve. Times are in seconds unless said otherwise.
\<close>

section \<open>Errors and results\<close>

datatype stoerr =
    ErrInvalidKey
  | ErrFileNotFound
  | ErrInvalidSize
  | ErrContentTypeNotAllowed
  | ErrInvalidPath
  | FileTooLargeError int
  | ExtensionMismatchError string string
  | MaxBytesError
  | StoErr string
  | SWrap stoerr

fun sto_root :: "stoerr \<Rightarrow> stoerr" where
  "sto_root (SWrap e) = sto_root e"
| "sto_root e = e"

definition sto_Is :: "stoerr \<Rightarrow> stoerr \<Rightarrow> bool" where
  "sto_Is e target \<longleftrightarrow> sto_root e = target"

record ObjectInfo =
  oi_ContentType :: string
  oi_Size :: int

type_synonym body = "string \<times> stoerr option"

definition DefaultMime :: string where "DefaultMime = ''application/octet-stream''"
definition DefaultPresignTTL :: int where "DefaultPresignTTL = 15 * 60 * 10 ^ 9"
definition DispositionInline :: string where "DispositionInline = ''inline''"
definition DispositionAttachment :: string where "DispositionAttachment = ''attachment''"

definition ValidDisposition :: "string \<Rightarrow> bool" where
  "ValidDisposition d \<longleftrightarrow> d = DispositionInline \<or> d = DispositionAttachment"

section \<open>The file system\<close>

datatype io_fault = Refused | Short nat

record lfs =
  lf_files :: "string smap"
  lf_faults :: "io_fault option list"

definition next_fault :: "lfs \<Rightarrow> io_fault option \<times> lfs" where
  "next_fault s = (case lf_faults s of [] \<Rightarrow> (None, s) | f # fs \<Rightarrow> (f, s\<lparr>lf_faults := fs\<rparr>))"

definition write_file :: "string \<Rightarrow> string \<Rightarrow> lfs \<Rightarrow> bool \<times> lfs" where
  "write_file path bytes s =
     (case next_fault s of
        (None, s') \<Rightarrow> (True, s'\<lparr>lf_files := (lf_files s')(path \<mapsto> bytes)\<rparr>)
      | (Some Refused, s') \<Rightarrow> (False, s')
      | (Some (Short n), s') \<Rightarrow> (False, s'\<lparr>lf_files := (lf_files s')(path \<mapsto> take n bytes)\<rparr>))"

definition remove_file :: "string \<Rightarrow> lfs \<Rightarrow> bool \<times> lfs" where
  "remove_file path s =
     (case next_fault s of
        (None, s') \<Rightarrow> (True, s'\<lparr>lf_files := (lf_files s')(path := None)\<rparr>)
      | (Some _, s') \<Rightarrow> (lf_files s' path = None, s'))"

definition make_dir :: "lfs \<Rightarrow> bool \<times> lfs" where
  "make_dir s = (case next_fault s of (f, s') \<Rightarrow> (f = None, s'))"

text \<open>Opening for reading: whether it was refused, and what the file holds.\<close>

definition read_file :: "string \<Rightarrow> lfs \<Rightarrow> (bool \<times> string option) \<times> lfs" where
  "read_file path s = (case next_fault s of (f, s') \<Rightarrow> ((f \<noteq> None, lf_files s' path), s'))"

section \<open>The driver\<close>

record LocalFSDriver =
  ld_PublicURL :: string
  ld_secretKey :: string
  ld_presignTTL :: int
  ld_routePrefix :: string

record content_url =
  cu_origin :: string
  cu_prefix :: string
  cu_key :: string
  cu_query :: "(string \<times> string) list"

definition DefaultLocalRoutePrefix :: string where "DefaultLocalRoutePrefix = ''/api/v1/storage''"

text \<open>A route that starts and does not end with a slash is clean when no segment is empty, a dot or two dots.\<close>

definition validateRoutePrefix :: "string \<Rightarrow> stoerr option" where
  "validateRoutePrefix route =
     (if \<not> has_prefix route ''/'' then Some (StoErr ''must start with /'')
      else if has_suffix route ''/'' then Some (StoErr ''must not end with /'')
      else if list_ex (\<lambda>c. c \<in> set ''{}?#'') route then Some (StoErr ''must not contain {, }, ? or #'')
      else if list_ex (\<lambda>c. c \<in> set [CHR 0x09, CHR 0x0A, CHR 0x0B, CHR 0x0C, CHR 0x0D, CHR 0x20]) route then Some (StoErr ''must not contain whitespace'')
      else if list_ex (\<lambda>seg. seg \<in> set [[], ''.'', ''..'']) (split_on (CHR ''/'') (tl route))
      then Some (StoErr ''must not contain empty, . or .. segments'')
      else None)"

definition NewLocalFSDriver :: "string \<Rightarrow> string \<Rightarrow> int \<Rightarrow> string option \<Rightarrow> lfs \<Rightarrow> (stoerr + LocalFSDriver) \<times> lfs" where
  "NewLocalFSDriver publicURL secretKey ttl route s =
     (let d = \<lparr>ld_PublicURL = publicURL, ld_secretKey = secretKey, ld_presignTTL = (if ttl = 0 then DefaultPresignTTL else ttl),
               ld_routePrefix = (case route of None \<Rightarrow> DefaultLocalRoutePrefix | Some p \<Rightarrow> p)\<rparr>
      in case validateRoutePrefix (ld_routePrefix d) of
           Some e \<Rightarrow> (Inl e, s)
         | None \<Rightarrow> (case make_dir s of (False, s') \<Rightarrow> (Inl (StoErr ''failed to create base directory''), s') | (True, s') \<Rightarrow> (Inr d, s')))"

definition getHashedPath :: "string \<Rightarrow> string" where
  "getHashedPath key =
     (if length key < 4 then key else take 2 key @ ''/'' @ take 2 (drop 2 key) @ ''/'' @ key)"

definition resolveAndValidate :: "string \<Rightarrow> stoerr + string" where
  "resolveAndValidate key =
     (if str_contains key ''..'' \<or> CHR ''/'' \<in> set key \<or> CHR 0x5C \<in> set key then Inl (SWrap ErrInvalidPath)
      else Inr (getHashedPath key))"

definition meta_path :: "string \<Rightarrow> string" where "meta_path path = path @ ''.meta''"

definition save_meta :: "string \<Rightarrow> string \<Rightarrow> lfs \<Rightarrow> stoerr option \<times> lfs" where
  "save_meta path contentType s =
     (case write_file (meta_path path) contentType s of
        (False, s') \<Rightarrow> (Some (StoErr ''failed to save metadata''), snd (remove_file path s'))
      | (True, s') \<Rightarrow> (None, s'))"

definition copy_body :: "string \<Rightarrow> body \<Rightarrow> string \<Rightarrow> lfs \<Rightarrow> stoerr option \<times> lfs" where
  "copy_body path b contentType s =
     (case write_file path (fst b) s of
        (ok, s') \<Rightarrow>
          if \<not> ok then (Some (StoErr ''failed to save file content''), snd (remove_file path s'))
          else (case snd b of
                  Some e \<Rightarrow> (Some (SWrap e), snd (remove_file path s'))
                | None \<Rightarrow> save_meta path contentType s'))"

definition local_Save :: "string \<Rightarrow> body \<Rightarrow> string \<Rightarrow> lfs \<Rightarrow> stoerr option \<times> lfs" where
  "local_Save key b contentType s =
     (case resolveAndValidate key of
        Inl e \<Rightarrow> (Some e, s)
      | Inr path \<Rightarrow>
          (case make_dir s of
             (False, s1) \<Rightarrow> (Some (StoErr ''failed to create hashed directory''), s1)
           | (True, s1) \<Rightarrow>
               (case next_fault s1 of
                  (Some _, s2) \<Rightarrow> (Some (StoErr ''failed to create file''), s2)
                | (None, s2) \<Rightarrow> copy_body path b contentType (s2\<lparr>lf_files := (lf_files s2)(path \<mapsto> [])\<rparr>))))"

definition storedContentType :: "string \<Rightarrow> lfs \<Rightarrow> string \<times> lfs" where
  "storedContentType path s =
     (case read_file (meta_path path) s of
        ((False, Some bytes), s') \<Rightarrow> (if bytes = [] then DefaultMime else bytes, s')
      | (_, s') \<Rightarrow> (DefaultMime, s'))"

definition local_Get :: "string \<Rightarrow> lfs \<Rightarrow> (stoerr + string \<times> string) \<times> lfs" where
  "local_Get key s =
     (case resolveAndValidate key of
        Inl e \<Rightarrow> (Inl e, s)
      | Inr path \<Rightarrow>
          (case read_file path s of
             ((False, Some bytes), s1) \<Rightarrow> (case storedContentType path s1 of (ct, s2) \<Rightarrow> (Inr (bytes, ct), s2))
           | (_, s1) \<Rightarrow> (Inl (StoErr ''failed to get file''), s1)))"

definition local_Stat :: "string \<Rightarrow> lfs \<Rightarrow> (stoerr + ObjectInfo) \<times> lfs" where
  "local_Stat key s =
     (case resolveAndValidate key of
        Inl e \<Rightarrow> (Inl e, s)
      | Inr path \<Rightarrow>
          (case read_file path s of
             ((True, _), s1) \<Rightarrow> (Inl (StoErr ''failed to stat file''), s1)
           | ((False, None), s1) \<Rightarrow> (Inl (SWrap ErrFileNotFound), s1)
           | ((False, Some bytes), s1) \<Rightarrow>
               (case storedContentType path s1 of
                  (ct, s2) \<Rightarrow> (Inr \<lparr>oi_ContentType = ct, oi_Size = int (length bytes)\<rparr>, s2))))"

definition local_Delete :: "string \<Rightarrow> lfs \<Rightarrow> stoerr option \<times> lfs" where
  "local_Delete key s =
     (case resolveAndValidate key of
        Inl e \<Rightarrow> (Some e, s)
      | Inr path \<Rightarrow>
          (case remove_file path (snd (remove_file (meta_path path) s)) of
             (False, s') \<Rightarrow> (Some (StoErr ''failed to delete file''), s')
           | (True, s') \<Rightarrow> (None, s')))"

text \<open>When a URL issued at \<open>now\<close> (nanoseconds) ends, as a Unix time.\<close>

definition expires_at :: "LocalFSDriver \<Rightarrow> int \<Rightarrow> int" where
  "expires_at d now = (now + ld_presignTTL d) div 10 ^ 9"

definition contentURL :: "LocalFSDriver \<Rightarrow> string \<Rightarrow> (string \<times> string) list \<Rightarrow> content_url" where
  "contentURL d key query =
     \<lparr>cu_origin = (if has_suffix (ld_PublicURL d) ''/'' then butlast (ld_PublicURL d) else ld_PublicURL d),
      cu_prefix = ld_routePrefix d, cu_key = key, cu_query = query\<rparr>"

definition local_GetDownloadURL :: "mac \<Rightarrow> LocalFSDriver \<Rightarrow> int \<Rightarrow> string \<Rightarrow> string \<Rightarrow> stoerr + content_url" where
  "local_GetDownloadURL mac d now key disposition =
     (if ld_PublicURL d = [] then Inl (StoErr ''public URL not configured for local storage'')
      else if \<not> ValidDisposition disposition then Inl (StoErr ''unknown disposition'')
      else Inr (contentURL d key
        [(''token'', GenerateDownloadToken mac key (ld_secretKey d) (expires_at d now) disposition),
         (''expiresAt'', int_text (expires_at d now)), (''disposition'', disposition)]))"

definition local_GetUploadURL :: "mac \<Rightarrow> LocalFSDriver \<Rightarrow> int \<Rightarrow> string \<Rightarrow> string \<Rightarrow> int \<Rightarrow> stoerr + content_url" where
  "local_GetUploadURL mac d now key contentType maxSizeBytes =
     (if ld_PublicURL d = [] then Inl (StoErr ''public URL not configured for local storage'')
      else Inr (contentURL d key
        [(''token'', GenerateToken mac key (ld_secretKey d) (expires_at d now) contentType maxSizeBytes),
         (''expiresAt'', int_text (expires_at d now)), (''contentType'', contentType), (''maxSizeBytes'', int_text maxSizeBytes)]))"

section \<open>Paths\<close>

lemma str_contains_infix: "str_contains s p \<Longrightarrow> \<exists>a b. s = a @ p @ b"
proof (induction s)
  case (Cons c s)
  show ?case
  proof (cases "has_prefix (c # s) p")
    case True
    then have "c # s = [] @ p @ drop (length p) (c # s)" by (metis append_Nil append_take_drop_id has_prefix_def)
    then show ?thesis by blast
  next
    case False
    then obtain a b where "s = a @ p @ b" using Cons by auto
    then show ?thesis by (metis append_Cons)
  qed
qed simp

text \<open>A valid key resolves to a path that starts and ends with it, so keys of different IDs never meet, sidecar files included.\<close>

lemma valid_key_dots:
  assumes "validStorageKey key"
  shows "\<not> str_contains key ''..''"
proof
  assume "str_contains key ''..''"
  then obtain a b where key: "key = a @ ''..'' @ b" using str_contains_infix by blast
  have "CHR ''.'' \<notin> set (take 36 key)"
    using assms uuid_chars[of "take 36 key" "CHR ''.''"] by (auto simp: validStorageKey_def is_hex_def)
  then have len: "36 \<le> length a" unfolding key by (cases "36 - length a") (auto simp: take_Cons')
  then have "drop 36 key = drop 36 a @ ''..'' @ b" by (simp add: key)
  then show False using assms by (cases "drop 36 a") (auto simp: validStorageKey_def key_suffix_def is_alnum_def)
qed

lemma valid_key_resolves:
  assumes "validStorageKey key"
  shows "resolveAndValidate key = Inr (getHashedPath key)"
proof -
  have "CHR ''/'' \<notin> set key" "CHR 0x5C \<notin> set key"
    using valid_key_chars[OF assms, of "CHR ''/''"] valid_key_chars[OF assms, of "CHR 0x5C"] by (auto simp: is_alnum_def)
  then show ?thesis using valid_key_dots[OF assms] by (simp add: resolveAndValidate_def)
qed

lemma hashed_path_id:
  assumes "validStorageKey key" "validStorageKey key'" "getHashedPath key @ x = getHashedPath key' @ y"
  shows "take 36 key = take 36 key'"
proof -
  have len: "36 \<le> length key" "36 \<le> length key'" using assms(1,2) by (simp_all add: validStorageKey_def)
  then have "drop 6 (getHashedPath key) = key" "drop 6 (getHashedPath key') = key'" "6 \<le> length (getHashedPath key)" "6 \<le> length (getHashedPath key')"
    by (simp_all add: getHashedPath_def)
  then have "key @ x = key' @ y" using arg_cong[OF assms(3), of "drop 6"] by simp
  then have "take 36 (key @ x) = take 36 (key' @ y)" by (simp only:)
  then show ?thesis using len by simp
qed

section \<open>What the driver holds\<close>

definition local_held :: "lfs \<Rightarrow> string \<Rightarrow> (string \<times> string) option" where
  "local_held s key =
     (case lf_files s (getHashedPath key) of
        None \<Rightarrow> None
      | Some bytes \<Rightarrow>
          Some (bytes, case lf_files s (meta_path (getHashedPath key)) of
                         None \<Rightarrow> DefaultMime
                       | Some ct \<Rightarrow> if ct = [] then DefaultMime else ct))"

text \<open>Operations on one path leave the other files alone.\<close>

lemma next_fault_files [simp]: "lf_files (snd (next_fault s)) = lf_files s"
  by (simp add: next_fault_def split: list.split)

lemma next_fault_eq: "next_fault s = (f, s') \<Longrightarrow> lf_files s' = lf_files s"
  using next_fault_files[of s] by simp

lemma write_file_effect:
  "write_file path bytes s = (ok, s') \<Longrightarrow> (q \<noteq> path \<longrightarrow> lf_files s' q = lf_files s q) \<and> (ok \<longrightarrow> lf_files s' path = Some bytes)"
  using next_fault_eq[of s] by (auto simp: write_file_def split: prod.splits option.splits io_fault.splits)

lemma remove_file_effect:
  "remove_file path s = (ok, s') \<Longrightarrow> (q \<noteq> path \<longrightarrow> lf_files s' q = lf_files s q) \<and> (ok \<longrightarrow> lf_files s' path = None)"
  using next_fault_eq[of s] by (auto simp: remove_file_def split: prod.splits option.splits)

lemma make_dir_effect: "make_dir s = (ok, s') \<Longrightarrow> lf_files s' = lf_files s"
  using next_fault_eq[of s] by (auto simp: make_dir_def split: prod.splits)

lemma save_meta_effect:
  assumes "save_meta path ct s = (r, s')"
  shows "(q \<noteq> path \<and> q \<noteq> meta_path path \<longrightarrow> lf_files s' q = lf_files s q)
      \<and> (r = None \<longrightarrow> lf_files s' path = lf_files s path \<and> lf_files s' (meta_path path) = Some ct)"
proof -
  obtain ok t where w: "write_file (meta_path path) ct s = (ok, t)" by (cases "write_file (meta_path path) ct s")
  obtain ok' u where r: "remove_file path t = (ok', u)" by (cases "remove_file path t")
  have "path \<noteq> meta_path path" by (simp add: meta_path_def)
  then show ?thesis using assms w r write_file_effect[OF w, of q] write_file_effect[OF w, of path] remove_file_effect[OF r, of q]
    by (auto simp: save_meta_def split: bool.splits)
qed

lemma copy_body_effect:
  assumes "copy_body path b ct s = (r, s')"
  shows "(q \<noteq> path \<and> q \<noteq> meta_path path \<longrightarrow> lf_files s' q = lf_files s q)
      \<and> (r = None \<longrightarrow> snd b = None \<and> lf_files s' path = Some (fst b) \<and> lf_files s' (meta_path path) = Some ct)"
proof -
  obtain ok t where w: "write_file path (fst b) s = (ok, t)" by (cases "write_file path (fst b) s")
  obtain ok' u where r: "remove_file path t = (ok', u)" by (cases "remove_file path t")
  show ?thesis using assms w r write_file_effect[OF w, of q] remove_file_effect[OF r, of q] save_meta_effect[of path ct t r s' q]
    by (auto simp: copy_body_def write_file_effect[OF w] split: option.splits if_splits)
qed

lemma local_Save_effect:
  assumes "validStorageKey key" "local_Save key b ct s = (r, s')"
  shows "(q \<noteq> getHashedPath key \<and> q \<noteq> meta_path (getHashedPath key) \<longrightarrow> lf_files s' q = lf_files s q)
      \<and> (r = None \<longrightarrow> snd b = None \<and> lf_files s' (getHashedPath key) = Some (fst b) \<and> lf_files s' (meta_path (getHashedPath key)) = Some ct)"
proof -
  obtain ok s1 where m: "make_dir s = (ok, s1)" by (cases "make_dir s")
  obtain f s2 where n: "next_fault s1 = (f, s2)" by (cases "next_fault s1")
  have files: "lf_files s2 = lf_files s" using make_dir_effect[OF m] next_fault_eq[OF n] by simp
  show ?thesis
  proof (cases "ok \<and> f = None")
    case True
    then have "copy_body (getHashedPath key) b ct (s2\<lparr>lf_files := (lf_files s2)(getHashedPath key \<mapsto> [])\<rparr>) = (r, s')"
      using assms(2) m n by (simp add: local_Save_def valid_key_resolves[OF assms(1)])
    from copy_body_effect[OF this, of q] show ?thesis using files by auto
  next
    case False
    then show ?thesis using assms(2) m n files make_dir_effect[OF m]
      by (auto simp: local_Save_def valid_key_resolves[OF assms(1)] split: bool.splits option.splits)
  qed
qed

lemma local_Delete_effect:
  assumes "validStorageKey key" "local_Delete key s = (r, s')"
  shows "(q \<noteq> getHashedPath key \<and> q \<noteq> meta_path (getHashedPath key) \<longrightarrow> lf_files s' q = lf_files s q)
      \<and> (r = None \<longrightarrow> lf_files s' (getHashedPath key) = None)"
proof -
  obtain ok t where m: "remove_file (meta_path (getHashedPath key)) s = (ok, t)" by (cases "remove_file (meta_path (getHashedPath key)) s")
  obtain ok' u where r: "remove_file (getHashedPath key) t = (ok', u)" by (cases "remove_file (getHashedPath key) t")
  show ?thesis using assms(2) m r remove_file_effect[OF m, of q] remove_file_effect[OF r, of q] remove_file_effect[OF r, of "getHashedPath key"]
    by (auto simp: local_Delete_def valid_key_resolves[OF assms(1)] split: bool.splits)
qed

lemma local_held_other:
  assumes "validStorageKey key" "validStorageKey key'" "take 36 key \<noteq> take 36 key'"
    and "\<And>q. q \<noteq> getHashedPath key \<and> q \<noteq> meta_path (getHashedPath key) \<Longrightarrow> lf_files s' q = lf_files s q"
  shows "local_held s' key' = local_held s key'"
proof -
  have ne: "getHashedPath key' @ y \<noteq> getHashedPath key @ x" for x y using hashed_path_id[OF assms(1,2), of x y] assms(3) by metis
  have "lf_files s' (getHashedPath key') = lf_files s (getHashedPath key')"
    using ne[of "[]" "[]"] ne[of "[]" "''.meta''"] by (intro assms(4)) (simp add: meta_path_def)
  moreover have "lf_files s' (meta_path (getHashedPath key')) = lf_files s (meta_path (getHashedPath key'))"
    using ne[of "''.meta''" "[]"] ne[of "''.meta''" "''.meta''"] by (intro assms(4)) (simp add: meta_path_def)
  ultimately show ?thesis by (simp add: local_held_def split: option.split)
qed

end
