(* ===== verification/Storage_Service.thy ===== *)
theory Storage_Service
  imports Storage_Local
begin

text \<open>
  The service of package \<open>storage\<close> (\<open>service.go\<close>, \<open>inline.go\<close>, \<open>extensions.go\<close>) over a driver, and the HTTP handlers (\<open>http_handler.go\<close>,
  \<open>local_content_handler.go\<close>). \<open>mime.ParseMediaType\<close> is a parameter: the media type, the parameters and whether it failed. A driver is a record of its methods
  on a state; \<open>local_driver\<close> is the one of \<open>Storage_Local\<close>. Lower case is that of ASCII; the extension an error reports is not
  shortened. A panic of an option or of \<open>NewService\<close> is \<open>None\<close>.
\<close>

section \<open>Drivers\<close>

record ('s, 'u) StorageDriver =
  sd_Save :: "string \<Rightarrow> body \<Rightarrow> string \<Rightarrow> 's \<Rightarrow> stoerr option \<times> 's"
  sd_Get :: "string \<Rightarrow> 's \<Rightarrow> (stoerr + string \<times> string) \<times> 's"
  sd_Delete :: "string \<Rightarrow> 's \<Rightarrow> stoerr option \<times> 's"
  sd_Stat :: "string \<Rightarrow> 's \<Rightarrow> (stoerr + ObjectInfo) \<times> 's"
  sd_GetDownloadURL :: "int \<Rightarrow> string \<Rightarrow> string \<Rightarrow> stoerr + 'u"
  sd_GetUploadURL :: "int \<Rightarrow> string \<Rightarrow> string \<Rightarrow> int \<Rightarrow> stoerr + 'u"
  sd_PresignTTL :: "int option"

definition local_driver :: "mac \<Rightarrow> LocalFSDriver \<Rightarrow> (lfs, content_url) StorageDriver" where
  "local_driver mac d =
     \<lparr>sd_Save = local_Save, sd_Get = local_Get, sd_Delete = local_Delete, sd_Stat = local_Stat,
      sd_GetDownloadURL = local_GetDownloadURL mac d, sd_GetUploadURL = local_GetUploadURL mac d, sd_PresignTTL = Some (ld_presignTTL d)\<rparr>"

section \<open>Media types\<close>

type_synonym mime_parser = "string \<Rightarrow> string \<times> (string \<times> string) list \<times> bool"

definition mediaType :: "mime_parser \<Rightarrow> string \<Rightarrow> string" where
  "mediaType parse contentType = fst (parse contentType)"

definition ValidMediaType :: "mime_parser \<Rightarrow> string \<Rightarrow> bool" where
  "ValidMediaType parse t =
     (case parse t of (mt, params, failed) \<Rightarrow>
        \<not> (failed \<or> params \<noteq> [] \<or> mt \<noteq> t \<or> \<not> CHR ''/'' \<in> set t \<or> CHR ''*'' \<in> set t))"

definition DefaultInlineTypes :: "string list" where
  "DefaultInlineTypes = [''application/pdf'', ''image/png'', ''image/jpeg'', ''image/gif'', ''image/webp'', ''text/plain'']"

type_synonym inlinePolicy = "string list"

definition newInlinePolicy :: "mime_parser \<Rightarrow> string list \<Rightarrow> inlinePolicy" where
  "newInlinePolicy parse types = filter (\<lambda>mt. mt \<noteq> []) (map (mediaType parse) types)"

definition defaultInline :: "mime_parser \<Rightarrow> inlinePolicy" where
  "defaultInline parse = newInlinePolicy parse DefaultInlineTypes"

definition disposition :: "mime_parser \<Rightarrow> inlinePolicy \<Rightarrow> string \<Rightarrow> string" where
  "disposition parse p contentType =
     (if mediaType parse contentType \<in> set p then DispositionInline else DispositionAttachment)"

definition notInert :: "mime_parser \<Rightarrow> inlinePolicy \<Rightarrow> string list \<Rightarrow> string list" where
  "notInert parse p candidates =
     sort (remdups (filter (\<lambda>c. mediaType parse c \<in> set p \<and> mediaType parse c \<notin> set (defaultInline parse)) candidates))"

definition CheckUploadTypes :: "mime_parser \<Rightarrow> string list \<Rightarrow> string list \<Rightarrow> stoerr option" where
  "CheckUploadTypes parse allowed inline =
     (if notInert parse (newInlinePolicy parse inline) allowed \<noteq> [] then Some (StoErr ''may be uploaded and also opens in the browser'') else None)"

section \<open>Extensions of file names\<close>

definition lower_char :: "char \<Rightarrow> char" where
  "lower_char c = (if of_char c \<ge> (65::nat) \<and> of_char c \<le> (90::nat) then char_of (of_char c + 32 :: nat) else c)"

definition valid_extension :: "string \<Rightarrow> bool" where
  "valid_extension ext =
     (case ext of [] \<Rightarrow> False | c # e \<Rightarrow> c = CHR ''.'' \<and> e \<noteq> [] \<and> list_all (\<lambda>c. c \<in> set ''abcdefghijklmnopqrstuvwxyz0123456789'') e)"

type_synonym extensionPolicy = "(string \<times> string list) list"

definition CheckUploadTypeExtensions :: "mime_parser \<Rightarrow> extensionPolicy \<Rightarrow> bool" where
  "CheckUploadTypeExtensions parse byType =
     list_all (\<lambda>(t, exts). ValidMediaType parse t \<and> exts \<noteq> [] \<and> list_all valid_extension exts) (sorted_entries byType)"

definition extension_match :: "mime_parser \<Rightarrow> extensionPolicy \<Rightarrow> string \<Rightarrow> string \<Rightarrow> stoerr + string" where
  "extension_match parse p filename contentType =
     (let mt = mediaType parse contentType; exts = (case map_of p mt of Some es \<Rightarrow> es | None \<Rightarrow> []); ext = filepath_Ext filename
      in if exts = [] then Inr filename
         else if ext = [] then Inr (filename @ hd exts)
         else if map lower_char ext \<in> set exts then Inr filename
         else Inl (ExtensionMismatchError ext mt))"

section \<open>The service\<close>

record storage_Service =
  ss_allowedUploadTypes :: "string list option"
  ss_maxUploadSize :: int
  ss_extensions :: extensionPolicy
  ss_inline :: "inlinePolicy option"

datatype ServiceOption =
    WithAllowedUploadTypes "string list"
  | WithMaxUploadSize int
  | WithUploadTypeExtensions extensionPolicy
  | WithInlineTypes "string list"

definition defaultMaxUploadSize :: int where "defaultMaxUploadSize = 32 * 2 ^ 20"

fun apply_service_option :: "mime_parser \<Rightarrow> ServiceOption \<Rightarrow> storage_Service \<Rightarrow> storage_Service option" where
  "apply_service_option parse (WithAllowedUploadTypes types) s = Some (s\<lparr>ss_allowedUploadTypes := Some types\<rparr>)"
| "apply_service_option parse (WithMaxUploadSize n) s = (if n \<le> 0 then None else Some (s\<lparr>ss_maxUploadSize := n\<rparr>))"
| "apply_service_option parse (WithUploadTypeExtensions byType) s =
     (if CheckUploadTypeExtensions parse byType then Some (s\<lparr>ss_extensions := byType\<rparr>) else None)"
| "apply_service_option parse (WithInlineTypes types) s =
     (if list_all (ValidMediaType parse) types then Some (s\<lparr>ss_inline := Some (newInlinePolicy parse types)\<rparr>) else None)"

definition checkUploadableInline :: "mime_parser \<Rightarrow> storage_Service \<Rightarrow> stoerr option" where
  "checkUploadableInline parse s =
     (case ss_inline s of
        None \<Rightarrow> None
      | Some p \<Rightarrow>
          if notInert parse p (case ss_allowedUploadTypes s of None \<Rightarrow> p | Some types \<Rightarrow> types) \<noteq> []
          then Some (StoErr ''may be uploaded and also opens in the browser'') else None)"

fun apply_service_options :: "mime_parser \<Rightarrow> ServiceOption list \<Rightarrow> storage_Service \<Rightarrow> storage_Service option" where
  "apply_service_options parse [] s = Some s"
| "apply_service_options parse (opt # opts) s = (case apply_service_option parse opt s of None \<Rightarrow> None | Some s' \<Rightarrow> apply_service_options parse opts s')"

definition storage_NewService :: "mime_parser \<Rightarrow> ServiceOption list \<Rightarrow> storage_Service option" where
  "storage_NewService parse opts =
     (case apply_service_options parse opts \<lparr>ss_allowedUploadTypes = None, ss_maxUploadSize = 0, ss_extensions = [], ss_inline = None\<rparr> of
        None \<Rightarrow> None
      | Some s \<Rightarrow> if checkUploadableInline parse s = None then Some s else None)"

definition inlineTypes :: "mime_parser \<Rightarrow> storage_Service \<Rightarrow> inlinePolicy" where
  "inlineTypes parse s = (case ss_inline s of None \<Rightarrow> defaultInline parse | Some p \<Rightarrow> p)"

definition uploadLimit :: "storage_Service \<Rightarrow> int" where
  "uploadLimit s = (if ss_maxUploadSize s = 0 then defaultMaxUploadSize else ss_maxUploadSize s)"

record 'u FileMetadata =
  fm_ID :: string
  fm_Name :: string
  fm_Key :: string
  fm_UploadURL :: "'u option"
  fm_Size :: int
  fm_MimeType :: string

definition storage_Upload ::
  "mime_parser \<Rightarrow> ('s, 'u) StorageDriver \<Rightarrow> storage_Service \<Rightarrow> string \<Rightarrow> int \<Rightarrow> string \<Rightarrow> int \<Rightarrow> string \<Rightarrow> stoerr + 'u FileMetadata" where
  "storage_Upload parse drv svc uuid now filename sz mime0 =
     (if sz \<le> 0 then Inl ErrInvalidSize
      else if sz > uploadLimit svc then Inl (FileTooLargeError (uploadLimit svc))
      else let mime = (if mime0 = [] then DefaultMime else mime0)
           in if (case ss_allowedUploadTypes svc of None \<Rightarrow> False | Some types \<Rightarrow> mime \<notin> set types) then Inl (SWrap ErrContentTypeNotAllowed)
              else case extension_match parse (ss_extensions svc) filename mime of
                     Inl e \<Rightarrow> Inl e
                   | Inr name \<Rightarrow>
                       (case newKey uuid name of
                          (i, key) \<Rightarrow>
                            (case sd_GetUploadURL drv now key mime sz of
                               Inl e \<Rightarrow> Inl (SWrap e)
                             | Inr url \<Rightarrow>
                                 Inr \<lparr>fm_ID = i, fm_Name = name, fm_Key = key, fm_UploadURL = Some url, fm_Size = sz, fm_MimeType = mime\<rparr>)))"

definition storage_Save ::
  "('s, 'u) StorageDriver \<Rightarrow> string \<Rightarrow> string \<Rightarrow> string \<Rightarrow> body \<Rightarrow> int \<Rightarrow> 's \<Rightarrow> (stoerr + 'u FileMetadata) \<times> 's" where
  "storage_Save drv uuid filename mime0 b sz st =
     (let mime = (if mime0 = [] then DefaultMime else mime0)
      in case newKey uuid filename of
           (i, key) \<Rightarrow>
             (case sd_Save drv key b mime st of
                (Some e, st') \<Rightarrow> (Inl (SWrap e), st')
              | (None, st') \<Rightarrow>
                  (Inr \<lparr>fm_ID = i, fm_Name = filename, fm_Key = key, fm_UploadURL = None, fm_Size = sz, fm_MimeType = mime\<rparr>, st')))"

definition checkKey :: "string \<Rightarrow> stoerr option" where
  "checkKey key = (if validStorageKey key then None else Some (SWrap ErrInvalidKey))"

definition storage_Download :: "('s, 'u) StorageDriver \<Rightarrow> string \<Rightarrow> 's \<Rightarrow> (stoerr + string \<times> string) \<times> 's" where
  "storage_Download drv key st = (case checkKey key of Some e \<Rightarrow> (Inl e, st) | None \<Rightarrow> sd_Get drv key st)"

record 'u Download =
  dl_URL :: 'u
  dl_ExpiresAt :: int
  dl_ContentType :: string
  dl_Disposition :: string
  dl_Size :: int

definition presignTTL :: "('s, 'u) StorageDriver \<Rightarrow> int" where
  "presignTTL drv = (case sd_PresignTTL drv of Some ttl \<Rightarrow> ttl | None \<Rightarrow> DefaultPresignTTL)"

text \<open>\<open>now\<close> is the time before the URL is signed, \<open>later\<close> the time at which the driver signs it.\<close>

definition DownloadURL ::
  "mime_parser \<Rightarrow> ('s, 'u) StorageDriver \<Rightarrow> storage_Service \<Rightarrow> int \<Rightarrow> int \<Rightarrow> string \<Rightarrow> 's \<Rightarrow> (stoerr + 'u Download) \<times> 's" where
  "DownloadURL parse drv svc now later key st =
     (case checkKey key of
        Some e \<Rightarrow> (Inl e, st)
      | None \<Rightarrow>
          (case sd_Stat drv key st of
             (Inl e, st') \<Rightarrow> (Inl e, st')
           | (Inr info, st') \<Rightarrow>
               (let d = disposition parse (inlineTypes parse svc) (oi_ContentType info)
                in case sd_GetDownloadURL drv later key d of
                     Inl e \<Rightarrow> (Inl e, st')
                   | Inr url \<Rightarrow>
                       (Inr \<lparr>dl_URL = url, dl_ExpiresAt = (now + presignTTL drv) div 10 ^ 9, dl_ContentType = oi_ContentType info,
                             dl_Disposition = d, dl_Size = oi_Size info\<rparr>, st'))))"

definition storage_Delete :: "('s, 'u) StorageDriver \<Rightarrow> string \<Rightarrow> 's \<Rightarrow> stoerr option \<times> 's" where
  "storage_Delete drv key st =
     (case checkKey key of
        Some e \<Rightarrow> (Some e, st)
      | None \<Rightarrow> (case sd_Delete drv key st of (r, st') \<Rightarrow> (map_option SWrap r, st')))"

section \<open>The content routes of the local driver\<close>

record content_request =
  rq_key :: string
  rq_query :: "(string \<times> string) list"
  rq_contentType :: string
  rq_body :: string

definition query_get :: "content_request \<Rightarrow> string \<Rightarrow> string" where
  "query_get rq name = (case map_of (rq_query rq) name of Some v \<Rightarrow> v | None \<Rightarrow> [])"

text \<open>What \<open>MaxBytesReader\<close> lets through of a body.\<close>

definition limited_body :: "int \<Rightarrow> string \<Rightarrow> body" where
  "limited_body limit b = (if int (length b) \<le> limit then (b, None) else (take (nat limit) b, Some MaxBytesError))"

definition content_upload :: "mac \<Rightarrow> LocalFSDriver \<Rightarrow> int \<Rightarrow> content_request \<Rightarrow> lfs \<Rightarrow> int \<times> lfs" where
  "content_upload mac d now rq s =
     (if rq_key rq = [] then (400, s)
      else if \<not> validStorageKey (rq_key rq) then (400, s)
      else if query_get rq ''token'' = [] \<or> query_get rq ''expiresAt'' = [] \<or> query_get rq ''contentType'' = [] \<or> query_get rq ''maxSizeBytes'' = [] then (401, s)
      else case Atoi (query_get rq ''expiresAt'') of
             None \<Rightarrow> (400, s)
           | Some expiresAt \<Rightarrow>
               (case Atoi (query_get rq ''maxSizeBytes'') of
                  None \<Rightarrow> (400, s)
                | Some maxSizeBytes \<Rightarrow>
                    if \<not> VerifyToken mac (rq_key rq) (query_get rq ''token'') (ld_secretKey d) expiresAt (query_get rq ''contentType'') maxSizeBytes
                    then (401, s)
                    else if now > expiresAt then (403, s)
                    else let contentType = (if rq_contentType rq = [] then DefaultMime else rq_contentType rq)
                         in if contentType \<noteq> query_get rq ''contentType'' then (415, s)
                            else case local_Save (rq_key rq) (limited_body maxSizeBytes (rq_body rq)) contentType s of
                                   (None, s') \<Rightarrow> (204, s')
                                 | (Some e, s') \<Rightarrow> (if sto_Is e MaxBytesError then 413 else 500, s')))"

record content_response =
  rp_status :: int
  rp_contentType :: string
  rp_disposition :: string
  rp_body :: string

abbreviation refuse :: "int \<Rightarrow> content_response" where
  "refuse code \<equiv> \<lparr>rp_status = code, rp_contentType = ''application/json'', rp_disposition = [], rp_body = []\<rparr>"

definition content_download :: "mac \<Rightarrow> LocalFSDriver \<Rightarrow> int \<Rightarrow> content_request \<Rightarrow> lfs \<Rightarrow> content_response \<times> lfs" where
  "content_download mac d now rq s =
     (if rq_key rq = [] then (refuse 400, s)
      else if \<not> validStorageKey (rq_key rq) then (refuse 400, s)
      else if query_get rq ''token'' = [] \<or> query_get rq ''expiresAt'' = [] \<or> query_get rq ''disposition'' = [] then (refuse 401, s)
      else case Atoi (query_get rq ''expiresAt'') of
             None \<Rightarrow> (refuse 400, s)
           | Some expiresAt \<Rightarrow>
               if \<not> VerifyDownloadToken mac (rq_key rq) (query_get rq ''token'') (ld_secretKey d) expiresAt (query_get rq ''disposition'')
               then (refuse 401, s)
               else if \<not> ValidDisposition (query_get rq ''disposition'') then (refuse 400, s)
               else if now > expiresAt then (refuse 403, s)
               else case local_Get (rq_key rq) s of
                      (Inl e, s') \<Rightarrow> (refuse 500, s')
                    | (Inr (bytes, ct), s') \<Rightarrow>
                        (\<lparr>rp_status = 200, rp_contentType = ct, rp_disposition = query_get rq ''disposition'', rp_body = bytes\<rparr>, s'))"

section \<open>The HTTP handlers\<close>

text \<open>The request body as decoded: file name, type and size, or None when it cannot be decoded.\<close>

definition http_Upload ::
  "mime_parser \<Rightarrow> ('s, 'u) StorageDriver \<Rightarrow> storage_Service \<Rightarrow> string \<Rightarrow> int \<Rightarrow> bool \<Rightarrow> (string \<times> string \<times> int) option
     \<Rightarrow> int \<times> 'u FileMetadata option" where
  "http_Upload parse drv svc uuid now authenticated req =
     (if \<not> authenticated then (401, None)
      else case req of
             None \<Rightarrow> (400, None)
           | Some (filename, mime, sz) \<Rightarrow>
               if filename = [] then (400, None)
               else if mime = [] then (400, None)
               else case storage_Upload parse drv svc uuid now filename sz mime of
                      Inr md \<Rightarrow> (200, Some md)
                    | Inl e \<Rightarrow>
                        (case sto_root e of
                           ErrInvalidSize \<Rightarrow> 400
                         | FileTooLargeError limit \<Rightarrow> 400
                         | ErrContentTypeNotAllowed \<Rightarrow> 415
                         | ExtensionMismatchError ext mt \<Rightarrow> 400
                         | _ \<Rightarrow> 500, None))"

definition http_Download ::
  "mime_parser \<Rightarrow> ('s, 'u) StorageDriver \<Rightarrow> storage_Service \<Rightarrow> int \<Rightarrow> int \<Rightarrow> string \<Rightarrow> 's \<Rightarrow> (int \<times> 'u Download option) \<times> 's" where
  "http_Download parse drv svc now later key st =
     (if key = [] then ((400, None), st)
      else case DownloadURL parse drv svc now later key st of
             (Inr d, st') \<Rightarrow> ((200, Some d), st')
           | (Inl e, st') \<Rightarrow> ((if sto_Is e ErrInvalidKey then 400 else if sto_Is e ErrFileNotFound then 404 else 500, None), st'))"

definition http_Delete :: "('s, 'u) StorageDriver \<Rightarrow> bool \<Rightarrow> string \<Rightarrow> 's \<Rightarrow> int \<times> 's" where
  "http_Delete drv authenticated key st =
     (if \<not> authenticated then (401, st)
      else if key = [] then (400, st)
      else case storage_Delete drv key st of
             (None, st') \<Rightarrow> (204, st')
           | (Some e, st') \<Rightarrow> (if sto_Is e ErrInvalidKey then 400 else 500, st'))"

end
