(* ===== verification/Storage_Props.thy ===== *)
theory Storage_Props
  imports Storage_Service
begin

text \<open>
  Properties of package \<open>storage\<close>. The locale \<open>storage_driver\<close> is what the service relies on in a driver, in terms of the files it holds; it is interpreted on the
  local driver, whose files and sidecar files of different IDs never meet.
\<close>

section \<open>The contract of a driver\<close>

definition apart_keys :: "string \<Rightarrow> string \<Rightarrow> bool" where
  "apart_keys key key' \<longleftrightarrow> validStorageKey key \<and> validStorageKey key' \<and> take 36 key \<noteq> take 36 key'"

datatype file_op =
    OpSave string string string body int
  | OpDelete string
  | OpDownload string
  | OpStat string

fun run_op :: "('s, 'u) StorageDriver \<Rightarrow> file_op \<Rightarrow> 's \<Rightarrow> 's" where
  "run_op drv (OpSave uuid filename mime b sz) st = snd (storage_Save drv uuid filename mime b sz st)"
| "run_op drv (OpDelete key) st = snd (storage_Delete drv key st)"
| "run_op drv (OpDownload key) st = snd (storage_Download drv key st)"
| "run_op drv (OpStat key) st = (if checkKey key = None then snd (sd_Stat drv key st) else st)"

text \<open>An operation that writes nothing under the ID of a key.\<close>

fun spares :: "string \<Rightarrow> file_op \<Rightarrow> bool" where
  "spares key (OpSave uuid filename mime b sz) \<longleftrightarrow> uuid_text uuid \<and> uuid \<noteq> take 36 key"
| "spares key (OpDelete key') \<longleftrightarrow> take 36 key' \<noteq> take 36 key"
| "spares key _ \<longleftrightarrow> True"

locale storage_driver =
  fixes drv :: "('s, 'u) StorageDriver"
    and held :: "'s \<Rightarrow> string \<Rightarrow> (string \<times> string) option"
    and healthy :: "'s \<Rightarrow> bool"
  assumes save_held: "validStorageKey key \<Longrightarrow> ct \<noteq> [] \<Longrightarrow> sd_Save drv key b ct st = (None, st') \<Longrightarrow> snd b = None \<and> held st' key = Some (fst b, ct)"
    and save_other: "apart_keys key key' \<Longrightarrow> sd_Save drv key b ct st = (r, st') \<Longrightarrow> held st' key' = held st key'"
    and delete_held: "validStorageKey key \<Longrightarrow> sd_Delete drv key st = (None, st') \<Longrightarrow> held st' key = None"
    and delete_other: "apart_keys key key' \<Longrightarrow> sd_Delete drv key st = (r, st') \<Longrightarrow> held st' key' = held st key'"
    and get_keeps: "held (snd (sd_Get drv key st)) = held st"
    and stat_keeps: "held (snd (sd_Stat drv key st)) = held st"
    and get_held: "validStorageKey key \<Longrightarrow> healthy st \<Longrightarrow> held st key = Some f \<Longrightarrow> fst (sd_Get drv key st) = Inr f"
    and stat_held: "validStorageKey key \<Longrightarrow> healthy st \<Longrightarrow> held st key = Some (bytes, ct)
      \<Longrightarrow> fst (sd_Stat drv key st) = Inr \<lparr>oi_ContentType = ct, oi_Size = int (length bytes)\<rparr>"
    and stat_missing: "validStorageKey key \<Longrightarrow> healthy st \<Longrightarrow> held st key = None \<Longrightarrow> fst (sd_Stat drv key st) = Inl (SWrap ErrFileNotFound)"
begin

lemma run_op_spares:
  assumes "validStorageKey key" "spares key op"
  shows "held (run_op drv op st) key = held st key"
proof (cases op)
  case (OpSave uuid filename mime b sz)
  obtain i key' where k: "newKey uuid filename = (i, key')" by (cases "newKey uuid filename")
  then have "apart_keys key' key" using newKey_valid[of uuid filename] assms OpSave by (auto simp: apart_keys_def)
  then have "held (snd (sd_Save drv key' b ct st)) key = held st key" for ct using save_other[of key' key b ct st] by (metis prod.collapse)
  then show ?thesis using OpSave k by (auto simp: storage_Save_def Let_def split: prod.splits option.splits) (metis snd_conv)+
next
  case (OpDelete key')
  have "held (snd (sd_Delete drv key' st)) key = held st key" if "validStorageKey key'"
    using delete_other[of key' key st] that assms OpDelete by (auto simp: apart_keys_def) (metis prod.collapse)
  then show ?thesis using OpDelete by (auto simp: storage_Delete_def checkKey_def split: prod.splits)
qed (auto simp: storage_Download_def checkKey_def get_keeps stat_keeps)

lemma run_ops_spare: "validStorageKey key \<Longrightarrow> list_all (spares key) ops \<Longrightarrow> held (fold (run_op drv) ops st) key = held st key"
  by (induction ops arbitrary: st) (simp_all add: run_op_spares)

lemma Save_held:
  assumes "uuid_text uuid" "storage_Save drv uuid filename mime b sz st = (Inr md, st')"
  shows "validStorageKey (fm_Key md) \<and> take 36 (fm_Key md) = uuid \<and> snd b = None \<and> held st' (fm_Key md) = Some (fst b, fm_MimeType md)"
proof -
  obtain i key where k: "newKey uuid filename = (i, key)" by (cases "newKey uuid filename")
  let ?mime = "if mime = [] then DefaultMime else mime"
  have s: "sd_Save drv key b ?mime st = (None, st')" "fm_Key md = key" "fm_MimeType md = ?mime"
    using assms(2) k by (auto simp: storage_Save_def Let_def split: prod.splits option.splits)
  have "?mime \<noteq> []" by (simp add: DefaultMime_def)
  then show ?thesis using save_held[OF _ _ s(1)] newKey_valid[OF assms(1), of filename] k s(2,3) by auto
qed

lemma saved_downloads:
  assumes "uuid_text uuid" "storage_Save drv uuid filename mime b sz st = (Inr md, st')"
    and "list_all (spares (fm_Key md)) ops" "healthy (fold (run_op drv) ops st')"
  shows "fst (storage_Download drv (fm_Key md) (fold (run_op drv) ops st')) = Inr (fst b, fm_MimeType md)"
  using Save_held[OF assms(1,2)] run_ops_spare[of "fm_Key md" ops st'] assms(3,4) get_held by (simp add: storage_Download_def checkKey_def)

lemma deleted_not_found:
  assumes "validStorageKey key" "storage_Delete drv key st = (None, st')" "list_all (spares key) ops" "healthy (fold (run_op drv) ops st')"
  shows "fst (DownloadURL parse drv svc now later key (fold (run_op drv) ops st')) = Inl (SWrap ErrFileNotFound)"
proof -
  have "held st' key = None" using assms(1,2) delete_held by (auto simp: storage_Delete_def checkKey_def split: prod.splits)
  then have "fst (sd_Stat drv key (fold (run_op drv) ops st')) = Inl (SWrap ErrFileNotFound)"
    using run_ops_spare[OF assms(1,3)] stat_missing[OF assms(1,4)] by simp
  then show ?thesis using assms(1) by (auto simp: DownloadURL_def checkKey_def split: prod.splits sum.splits)
qed

end

lemma next_fault_healthy: "lf_faults s = [] \<Longrightarrow> next_fault s = (None, s)"
  by (simp add: next_fault_def)

lemma read_file_keeps: "lf_files (snd (read_file path s)) = lf_files s"
  by (cases "next_fault s") (simp add: read_file_def next_fault_eq)

lemma storedContentType_keeps: "lf_files (snd (storedContentType path s)) = lf_files s"
  using read_file_keeps[of "meta_path path" s] by (auto simp: storedContentType_def split: prod.splits bool.splits option.splits)

lemma local_reads_keep: "local_held (snd (local_Get key s)) = local_held s" "local_held (snd (local_Stat key s)) = local_held s"
proof -
  have "lf_files (snd (local_Get key s)) = lf_files s"
    using read_file_keeps storedContentType_keeps by (auto simp: local_Get_def split: sum.splits prod.splits bool.splits option.splits) (metis snd_conv)+
  moreover have "lf_files (snd (local_Stat key s)) = lf_files s"
    using read_file_keeps storedContentType_keeps by (auto simp: local_Stat_def split: sum.splits prod.splits bool.splits option.splits) (metis snd_conv)+
  ultimately show "local_held (snd (local_Get key s)) = local_held s" "local_held (snd (local_Stat key s)) = local_held s"
    unfolding local_held_def by (simp_all only:)
qed

interpretation local: storage_driver "local_driver mac d" local_held "\<lambda>s. lf_faults s = []"
proof
  note drv = local_driver_def StorageDriver.simps
  fix key key' ct b st r st' bytes f
  show "snd b = None \<and> local_held st' key = Some (fst b, ct)"
    if "validStorageKey key" "ct \<noteq> []" "sd_Save (local_driver mac d) key b ct st = (None, st')"
    using local_Save_effect[OF that(1), of b ct st None st'] that(2,3) by (simp add: drv local_held_def)
  show "local_held st' key' = local_held st key'" if "apart_keys key key'" "sd_Save (local_driver mac d) key b ct st = (r, st')"
    using that local_held_other[of key key' st' st] local_Save_effect[of key b ct st r st'] by (simp add: drv apart_keys_def)
  show "local_held st' key = None" if "validStorageKey key" "sd_Delete (local_driver mac d) key st = (None, st')"
    using local_Delete_effect[OF that(1), of st None st'] that(2) by (simp add: drv local_held_def)
  show "local_held st' key' = local_held st key'" if "apart_keys key key'" "sd_Delete (local_driver mac d) key st = (r, st')"
    using that local_held_other[of key key' st' st] local_Delete_effect[of key st r st'] by (simp add: drv apart_keys_def)
  show "local_held (snd (sd_Get (local_driver mac d) key st)) = local_held st" "local_held (snd (sd_Stat (local_driver mac d) key st)) = local_held st"
    using local_reads_keep by (simp_all add: drv)
  show "fst (sd_Get (local_driver mac d) key st) = Inr f" if "validStorageKey key" "lf_faults st = []" "local_held st key = Some f"
    using that valid_key_resolves[OF that(1)]
    by (auto simp: drv local_Get_def local_held_def read_file_def storedContentType_def next_fault_healthy split: option.splits)
  show "fst (sd_Stat (local_driver mac d) key st) = Inr \<lparr>oi_ContentType = ct, oi_Size = int (length bytes)\<rparr>"
    if "validStorageKey key" "lf_faults st = []" "local_held st key = Some (bytes, ct)"
    using that valid_key_resolves[OF that(1)]
    by (auto simp: drv local_Stat_def local_held_def read_file_def storedContentType_def next_fault_healthy split: option.splits)
  show "fst (sd_Stat (local_driver mac d) key st) = Inl (SWrap ErrFileNotFound)" if "validStorageKey key" "lf_faults st = []" "local_held st key = None"
    using that valid_key_resolves[OF that(1)]
    by (auto simp: drv local_Stat_def local_held_def read_file_def next_fault_healthy split: option.splits)
qed

text \<open>C29. A file the service has saved can be downloaded, byte for byte and with its type, whatever is saved, deleted, downloaded or looked up under other IDs in
  between, also when some of those operations fail half way; and a deleted file is reported as not found.\<close>

theorem saved_file_downloads:
  assumes "uuid_text uuid" "storage_Save (local_driver mac d) uuid filename mime b sz st = (Inr md, st1)"
    and "list_all (spares (fm_Key md)) ops" "st2 = fold (run_op (local_driver mac d)) ops st1" "lf_faults st2 = []"
  shows "fst (storage_Download (local_driver mac d) (fm_Key md) st2) = Inr (fst b, fm_MimeType md)
      \<and> (storage_Delete (local_driver mac d) (fm_Key md) st2 = (None, st3) \<longrightarrow> lf_faults st3 = [] \<longrightarrow>
           fst (DownloadURL parse (local_driver mac d) svc now later (fm_Key md) st3) = Inl (SWrap ErrFileNotFound))"
  using local.saved_downloads[OF assms(1,2,3)] local.Save_held[OF assms(1,2)] assms(4,5)
    local.deleted_not_found[of "fm_Key md" mac d st2 st3 "[]" parse svc now later] by simp

section \<open>Uploads\<close>

lemma storage_Upload_Inr:
  assumes "storage_Upload parse drv svc uuid now filename sz mime0 = Inr md"
  shows "\<exists>url. 0 < sz \<and> sz \<le> uploadLimit svc \<and> fm_MimeType md \<noteq> [] \<and> fm_Size md = sz \<and> fm_UploadURL md = Some url
      \<and> (case ss_allowedUploadTypes svc of None \<Rightarrow> True | Some types \<Rightarrow> fm_MimeType md \<in> set types)
      \<and> extension_match parse (ss_extensions svc) filename (fm_MimeType md) = Inr (fm_Name md)
      \<and> newKey uuid (fm_Name md) = (fm_ID md, fm_Key md) \<and> sd_GetUploadURL drv now (fm_Key md) (fm_MimeType md) sz = Inr url"
  using assms by (auto simp: storage_Upload_def Let_def DefaultMime_def split: if_splits option.splits sum.splits prod.splits)

lemma valid_inline_type: "ValidMediaType parse t \<Longrightarrow> mediaType parse t = t"
  by (auto simp: ValidMediaType_def mediaType_def split: prod.splits)

lemma service_option_inline:
  assumes "apply_service_option parse opt s = Some s'" "\<forall>p. ss_inline s = Some p \<longrightarrow> (\<forall>t \<in> set p. mediaType parse t = t)"
  shows "\<forall>p. ss_inline s' = Some p \<longrightarrow> (\<forall>t \<in> set p. mediaType parse t = t)"
  using assms by (cases opt) (auto simp: newInlinePolicy_def list_all_iff valid_inline_type split: if_splits)

lemma service_options_inline:
  "apply_service_options parse opts s = Some s' \<Longrightarrow> \<forall>p. ss_inline s = Some p \<longrightarrow> (\<forall>t \<in> set p. mediaType parse t = t)
     \<Longrightarrow> \<forall>p. ss_inline s' = Some p \<longrightarrow> (\<forall>t \<in> set p. mediaType parse t = t)"
proof (induction parse opts s rule: apply_service_options.induct)
  case (2 parse opt opts s)
  then show ?case using service_option_inline[of parse opt s] by (auto split: option.splits)
qed simp

text \<open>A service that starts opens nothing in the browser that clients may upload, but the inert types.\<close>

lemma uploadable_inline_inert:
  assumes "storage_NewService parse opts = Some svc"
    and "case ss_allowedUploadTypes svc of None \<Rightarrow> True | Some types \<Rightarrow> mime \<in> set types"
    and "disposition parse (inlineTypes parse svc) mime = DispositionInline"
  shows "mediaType parse mime \<in> set (defaultInline parse)"
proof (cases "ss_inline svc")
  case None
  then show ?thesis using assms(3) by (auto simp: disposition_def inlineTypes_def DispositionInline_def DispositionAttachment_def split: if_splits)
next
  case (Some p)
  have check: "checkUploadableInline parse svc = None"
      and opts: "apply_service_options parse opts \<lparr>ss_allowedUploadTypes = None, ss_maxUploadSize = 0, ss_extensions = [], ss_inline = None\<rparr> = Some svc"
    using assms(1) by (auto simp: storage_NewService_def split: option.splits if_splits)
  have bare: "mediaType parse t = t" if "t \<in> set p" for t using service_options_inline[OF opts] Some that by simp
  have inl: "mediaType parse mime \<in> set p"
    using assms(3) Some by (auto simp: disposition_def inlineTypes_def DispositionInline_def DispositionAttachment_def split: if_splits)
  let ?cand = "case ss_allowedUploadTypes svc of None \<Rightarrow> p | Some types \<Rightarrow> types"
  have "notInert parse p ?cand = []" using check Some by (simp add: checkUploadableInline_def split: if_splits)
  then have none: "\<forall>c \<in> set ?cand. mediaType parse c \<in> set p \<longrightarrow> mediaType parse c \<in> set (defaultInline parse)"
    by (metis (no_types, lifting) filter_empty_conv notInert_def remdups_eq_nil_iff sort_key_simps(1) set_empty set_sort)
  show ?thesis
  proof (cases "ss_allowedUploadTypes svc")
    case no_list: None
    then show ?thesis using none inl bare[OF inl] by auto
  next
    case (Some types)
    then show ?thesis using none inl assms(2) by auto
  qed
qed

text \<open>What an accepted upload has written.\<close>

lemma content_upload_204:
  assumes "content_upload mac d now rq s = (204, s')"
  shows "\<exists>expiresAt n. validStorageKey (rq_key rq) \<and> Atoi (query_get rq ''expiresAt'') = Some expiresAt \<and> Atoi (query_get rq ''maxSizeBytes'') = Some n
      \<and> now \<le> expiresAt \<and> VerifyToken mac (rq_key rq) (query_get rq ''token'') (ld_secretKey d) expiresAt (query_get rq ''contentType'') n
      \<and> query_get rq ''contentType'' \<noteq> []
      \<and> local_Save (rq_key rq) (limited_body n (rq_body rq)) (query_get rq ''contentType'') s = (None, s')"
  using assms by (auto simp: content_upload_def Let_def not_less split: if_splits option.splits prod.splits)

text \<open>C27. What a client uploads opens in a browser only as an inert type. If a service that starts issued an upload URL and the content route accepts a
  request for it, then it came in time, the file keeps exactly the type and at most the size that were agreed, and a later download opens it in the browser only if its
  media type is one of the inert default types.\<close>

theorem uploaded_file_inert:
  assumes "storage_NewService parse opts = Some svc" "uuid_text uuid"
    and "storage_Upload parse (local_driver mac d) svc uuid now filename sz mime = Inr md" "fm_UploadURL md = Some url"
    and "content_upload mac d now' rq s = (204, s')" "rq_key rq = cu_key url" "rq_query rq = cu_query url"
    and "lf_faults s' = []" "DownloadURL parse (local_driver mac d) svc t t' (fm_Key md) s' = (Inr dl, s'')"
  shows "now' \<le> expires_at d now \<and> dl_ContentType dl = fm_MimeType md \<and> dl_Size dl = int (length (rq_body rq)) \<and> dl_Size dl \<le> fm_Size md \<and> fm_Size md \<le> uploadLimit svc
      \<and> (dl_Disposition dl = DispositionInline \<longrightarrow> mediaType parse (fm_MimeType md) \<in> set (defaultInline parse))"
proof -
  have up: "sz \<le> uploadLimit svc" "fm_Size md = sz" "newKey uuid (fm_Name md) = (fm_ID md, fm_Key md)"
      "case ss_allowedUploadTypes svc of None \<Rightarrow> True | Some types \<Rightarrow> fm_MimeType md \<in> set types"
      "local_GetUploadURL mac d now (fm_Key md) (fm_MimeType md) sz = Inr url"
    using storage_Upload_Inr[OF assms(3)] assms(4) by (auto simp: local_driver_def)
  have key: "validStorageKey (fm_Key md)" using newKey_valid[OF assms(2), of "fm_Name md"] up(3) by simp
  have q: "cu_key url = fm_Key md" "query_get rq ''contentType'' = fm_MimeType md" "query_get rq ''maxSizeBytes'' = int_text sz"
      "query_get rq ''expiresAt'' = int_text (expires_at d now)"
    using up(5) assms(7) by (auto simp: local_GetUploadURL_def contentURL_def query_get_def split: if_splits)
  obtain e n where w: "Atoi (query_get rq ''expiresAt'') = Some e" "Atoi (query_get rq ''maxSizeBytes'') = Some n" "now' \<le> e"
      "query_get rq ''contentType'' \<noteq> []" "local_Save (rq_key rq) (limited_body n (rq_body rq)) (query_get rq ''contentType'') s = (None, s')"
    using content_upload_204[OF assms(5)] by blast
  have e: "e = expires_at d now" "n = sz" using w(1,2) q(3,4) Atoi_int_text_SomeD by auto
  have "sd_Save (local_driver mac d) (fm_Key md) (limited_body sz (rq_body rq)) (fm_MimeType md) s = (None, s')"
    using w(5) e q(1,2) assms(6) by (simp add: local_driver_def)
  from local.save_held[OF key _ this] have held: "snd (limited_body sz (rq_body rq)) = None" "local_held s' (fm_Key md) = Some (fst (limited_body sz (rq_body rq)), fm_MimeType md)"
    using w(4) q(2) by auto
  have body: "fst (limited_body sz (rq_body rq)) = rq_body rq" "int (length (rq_body rq)) \<le> sz"
    using held(1) by (auto simp: limited_body_def split: if_splits)
  have "fst (sd_Stat (local_driver mac d) (fm_Key md) s') = Inr \<lparr>oi_ContentType = fm_MimeType md, oi_Size = int (length (rq_body rq))\<rparr>"
    using local.stat_held[OF key assms(8)] held(2) body(1) by simp
  then have dl: "dl_ContentType dl = fm_MimeType md" "dl_Size dl = int (length (rq_body rq))"
      "dl_Disposition dl = disposition parse (inlineTypes parse svc) (fm_MimeType md)"
    using assms(9) key by (auto simp: DownloadURL_def checkKey_def Let_def split: prod.splits sum.splits)
  show ?thesis using dl body(2) up(1,2,4) w(3) e(1) uploadable_inline_inert[OF assms(1) up(4)] by simp
qed

section \<open>File names\<close>

definition ext_char :: "char \<Rightarrow> bool" where
  "ext_char c \<longleftrightarrow> c \<in> set ''abcdefghijklmnopqrstuvwxyz0123456789''"

lemma ext_char_facts: "ext_char c \<Longrightarrow> is_alnum c \<and> lower_char c = c \<and> c \<noteq> CHR ''/'' \<and> c \<noteq> CHR ''.''"
proof -
  have "list_all (\<lambda>c. is_alnum c \<and> lower_char c = c \<and> c \<noteq> CHR ''/'' \<and> c \<noteq> CHR ''.'') ''abcdefghijklmnopqrstuvwxyz0123456789''" by code_simp
  then show "ext_char c \<Longrightarrow> is_alnum c \<and> lower_char c = c \<and> c \<noteq> CHR ''/'' \<and> c \<noteq> CHR ''.''" unfolding list_all_iff ext_char_def by blast
qed

lemma lower_ext_alnum:
  assumes "ext_char (lower_char c)"
  shows "is_alnum c"
proof (cases "(65::nat) \<le> of_char c \<and> of_char c \<le> (90::nat)")
  case True
  have "list_all (\<lambda>n. is_alnum (char_of n)) [65..<91]" by code_simp
  moreover have "(of_char c :: nat) \<in> set [65..<91]" using True by (simp only: set_upt) auto
  ultimately have "is_alnum (char_of (of_char c :: nat))" unfolding list_all_iff by blast
  then show ?thesis by simp
next
  case False
  then show ?thesis using assms ext_char_facts[of c] by (auto simp: lower_char_def)
qed

lemma valid_extension_iff: "valid_extension ext \<longleftrightarrow> (\<exists>e. ext = CHR ''.'' # e \<and> e \<noteq> [] \<and> list_all ext_char e)"
  unfolding valid_extension_def ext_char_def by (cases ext) auto

lemma ext_back_plain: "list_all (\<lambda>c. c \<noteq> CHR ''/'' \<and> c \<noteq> CHR ''.'') e \<Longrightarrow> ext_back (e @ CHR ''.'' # before) found = CHR ''.'' # rev e @ found"
  by (induction e arbitrary: found) auto

lemma filepath_Ext_valid: "valid_extension ext \<Longrightarrow> filepath_Ext (name @ ext) = ext \<and> map lower_char ext = ext"
proof -
  assume "valid_extension ext"
  then obtain e where e: "ext = CHR ''.'' # e" "list_all ext_char e" by (auto simp: valid_extension_iff)
  have "list_all (\<lambda>c. c \<noteq> CHR ''/'' \<and> c \<noteq> CHR ''.'') (rev e)" using e(2) ext_char_facts by (auto simp: list_all_iff)
  moreover have "lower_char (CHR ''.'') = CHR ''.''" by code_simp
  ultimately show ?thesis using e ext_back_plain[of "rev e" "rev name" "[]"] ext_char_facts by (auto simp: filepath_Ext_def list_all_iff intro: map_idI)
qed

lemma lower_extension_suffix:
  assumes "valid_extension (map lower_char ext)" "ext \<noteq> [] \<Longrightarrow> hd ext = CHR ''.''"
  shows "key_suffix ext"
proof (cases ext)
  case (Cons c e)
  then have "list_all ext_char (map lower_char e)" "e \<noteq> []" using assms(1) by (auto simp: valid_extension_iff)
  then show ?thesis using Cons assms(2) lower_ext_alnum by (auto simp: key_suffix_def list_all_iff)
qed (simp add: key_suffix_def)

lemma ext_back_dot: "ext_back s found \<noteq> [] \<Longrightarrow> hd (ext_back s found) = CHR ''.''"
  by (induction s found rule: ext_back.induct) (auto split: if_splits)

definition extensions_ok :: "extensionPolicy \<Rightarrow> bool" where
  "extensions_ok p \<longleftrightarrow> (\<forall>t exts. map_of p t = Some exts \<longrightarrow> exts \<noteq> [] \<and> list_all valid_extension exts)"

lemma checked_extensions_ok:
  assumes "CheckUploadTypeExtensions parse p"
  shows "extensions_ok p"
  unfolding extensions_ok_def
proof (intro allI impI)
  fix t exts
  assume "map_of p t = Some exts"
  then have "(t, exts) \<in> set (sorted_entries p)" by (simp add: set_sorted_entries)
  then show "exts \<noteq> [] \<and> list_all valid_extension exts" using assms by (fastforce simp: CheckUploadTypeExtensions_def list_all_iff)
qed

lemma service_options_extensions: "apply_service_options parse opts s = Some s' \<Longrightarrow> extensions_ok (ss_extensions s) \<Longrightarrow> extensions_ok (ss_extensions s')"
proof (induction parse opts s rule: apply_service_options.induct)
  case (2 parse opt opts s)
  then obtain t where t: "apply_service_option parse opt s = Some t" "apply_service_options parse opts t = Some s'" by (auto split: option.splits)
  have "extensions_ok (ss_extensions t)" using t(1) 2(3)
    by (cases opt) (auto simp: checked_extensions_ok split: if_splits)
  then show ?case using 2(1)[OF t(1,2)] by blast
qed simp

text \<open>When the service lists extensions for the type of an upload, the name of the file ends in one of them, its case aside, and the storage key is the ID followed by
  exactly that extension, so the file is also downloaded under it; in every case the key is one the download and delete routes accept.\<close>

theorem upload_key_and_name:
  assumes "storage_NewService parse opts = Some svc" "uuid_text uuid" "storage_Upload parse drv svc uuid now filename sz mime = Inr md"
  shows "checkKey (fm_Key md) = None \<and> take 36 (fm_Key md) = fm_ID md \<and> fm_ID md = uuid
      \<and> (\<forall>exts. map_of (ss_extensions svc) (mediaType parse (fm_MimeType md)) = Some exts \<longrightarrow>
           map lower_char (filepath_Ext (fm_Name md)) \<in> set exts \<and> fm_Key md = fm_ID md @ filepath_Ext (fm_Name md))"
proof -
  have m: "extension_match parse (ss_extensions svc) filename (fm_MimeType md) = Inr (fm_Name md)" and k: "newKey uuid (fm_Name md) = (fm_ID md, fm_Key md)"
    using storage_Upload_Inr[OF assms(3)] by auto
  have i: "fm_ID md = uuid" using k by (auto simp: newKey_def Let_def)
  have ok: "extensions_ok (ss_extensions svc)"
  proof (rule service_options_extensions)
    show "apply_service_options parse opts \<lparr>ss_allowedUploadTypes = None, ss_maxUploadSize = 0, ss_extensions = [], ss_inline = None\<rparr> = Some svc"
      using assms(1) by (auto simp: storage_NewService_def split: option.splits if_splits)
  qed (simp add: extensions_ok_def)
  have "map lower_char (filepath_Ext (fm_Name md)) \<in> set exts \<and> fm_Key md = fm_ID md @ filepath_Ext (fm_Name md)"
    if exts: "map_of (ss_extensions svc) (mediaType parse (fm_MimeType md)) = Some exts" for exts
  proof -
    have valid: "exts \<noteq> []" "list_all valid_extension exts" using ok exts by (auto simp: extensions_ok_def)
    have "valid_extension (hd exts)" using valid by (simp add: list_all_iff)
    then have lower: "map lower_char (filepath_Ext (fm_Name md)) \<in> set exts"
      using m exts valid(1) filepath_Ext_valid[of "hd exts" filename] by (auto simp: extension_match_def Let_def split: if_splits)
    then have "valid_extension (map lower_char (filepath_Ext (fm_Name md)))" using valid(2) by (simp add: list_all_iff)
    then have "key_suffix (filepath_Ext (fm_Name md))"
      by (rule lower_extension_suffix) (simp add: filepath_Ext_def ext_back_dot)
    then have "validStorageKey (uuid @ filepath_Ext (fm_Name md))" using assms(2) by (simp add: validStorageKey_def uuid_text_def)
    then show ?thesis using lower k i by (auto simp: newKey_def Let_def)
  qed
  then show ?thesis using newKey_valid[OF assms(2), of "fm_Name md"] k i by (simp add: checkKey_def)
qed

end
