(* ===== verification/Storage_Samples.thy ===== *)
theory Storage_Samples
  imports Storage_Props
begin

text \<open>
  A service over the local driver, a saved and an uploaded file, and the witnesses of the properties of \<open>Storage_Keys\<close> and \<open>Storage_Props\<close>.
\<close>

definition sample_mac :: mac where "sample_mac secret t = ''m'' @ t"

definition sample_mime :: mime_parser where
  "sample_mime t = (takeWhile (\<lambda>c. c \<noteq> CHR '';'') t, [], False)"

definition sample_local :: LocalFSDriver where
  "sample_local = \<lparr>ld_PublicURL = ''http://h/'', ld_secretKey = ''k'', ld_presignTTL = 60 * 10 ^ 9, ld_routePrefix = ''/f''\<rparr>"

abbreviation "sample_storage \<equiv> local_driver sample_mac sample_local"

definition sample_options :: "ServiceOption list" where
  "sample_options = [WithAllowedUploadTypes [''application/pdf'', ''text/csv''], WithUploadTypeExtensions [(''application/pdf'', [''.pdf''])], WithInlineTypes [''application/pdf'', ''text/html'']]"

definition sample_uuid_a :: string where "sample_uuid_a = ''00000000-0000-0000-0000-00000000000a''"
definition sample_uuid_b :: string where "sample_uuid_b = ''00000000-0000-0000-0000-00000000000b''"

definition no_files :: lfs where "no_files = \<lparr>lf_files = (\<lambda>_. None), lf_faults = []\<rparr>"

lemma sample_uuids: "uuid_text sample_uuid_a" "uuid_text sample_uuid_b" by code_simp+

definition sample_service :: storage_Service where
  "sample_service = the (storage_NewService sample_mime sample_options)"

lemma sample_service: "storage_NewService sample_mime sample_options = Some sample_service"
proof -
  have "case storage_NewService sample_mime sample_options of None \<Rightarrow> False | Some s \<Rightarrow> True" by code_simp
  then show ?thesis by (auto simp: sample_service_def split: option.splits)
qed

section \<open>Witnesses\<close>

theorem token_binds_constraints_witness:
  "\<not> VerifyDownloadToken sample_mac sample_uuid_b (GenerateToken sample_mac sample_uuid_a ''k'' 9 ''text/csv'' 5) ''k'' 9 ''inline''"
proof -
  have "validStorageKey sample_uuid_a" "validStorageKey sample_uuid_b" by code_simp+
  moreover have "inj_on (sample_mac ''k'') A" for A by (simp add: inj_on_def sample_mac_def)
  ultimately show ?thesis
    using token_binds_constraints[of sample_uuid_a sample_uuid_b sample_mac "''k''" 9 "''text/csv''" 5 9 "''text/csv''" 5 "''inline''" "''inline''"] by blast
qed

definition sample_saved :: "(stoerr + content_url FileMetadata) \<times> lfs" where
  "sample_saved = storage_Save sample_storage sample_uuid_a ''a.pdf'' ''application/pdf'' (''bytes'', None) 5 no_files"

lemma sample_saved: "isl (fst sample_saved) = False" "fm_Key (projr (fst sample_saved)) = sample_uuid_a @ ''.pdf''" by code_simp+

theorem saved_file_downloads_witness:
  "fst (storage_Download sample_storage (sample_uuid_a @ ''.pdf'')
     (fold (run_op sample_storage) [OpSave sample_uuid_b ''b'' '''' (''other'', Some MaxBytesError) 5, OpDelete (sample_uuid_b @ ''.x'')] (snd sample_saved)))
   = Inr (''bytes'', ''application/pdf'')"
proof -
  let ?md = "projr (fst sample_saved)"
  let ?ops = "[OpSave sample_uuid_b ''b'' '''' (''other'', Some MaxBytesError) 5, OpDelete (sample_uuid_b @ ''.x'')]"
  have s: "storage_Save sample_storage sample_uuid_a ''a.pdf'' ''application/pdf'' (''bytes'', None) 5 no_files = (Inr ?md, snd sample_saved)"
    using sample_saved(1) by (cases "sample_saved") (auto simp: sample_saved_def isl_def split: sum.splits)
  have f: "list_all (spares (fm_Key ?md)) ?ops" "lf_faults (fold (run_op sample_storage) ?ops (snd sample_saved)) = []"
      "fm_MimeType ?md = ''application/pdf''"
    by code_simp+
  show ?thesis
    using saved_file_downloads[OF sample_uuids(1) s f(1) HOL.refl f(2)] unfolding sample_saved(2) f(3) by (simp only: fst_conv)
qed

definition sample_upload :: "stoerr + content_url FileMetadata" where
  "sample_upload = storage_Upload sample_mime sample_storage sample_service sample_uuid_a (10 ^ 9) ''Report.PDF'' 8 ''application/pdf''"

lemma sample_upload: "sample_upload = Inr (projr sample_upload)" "fm_UploadURL (projr sample_upload) = Some (the (fm_UploadURL (projr sample_upload)))"
proof -
  have "\<not> isl sample_upload \<and> (case fm_UploadURL (projr sample_upload) of None \<Rightarrow> False | Some url \<Rightarrow> True)" by code_simp
  then show "sample_upload = Inr (projr sample_upload)" "fm_UploadURL (projr sample_upload) = Some (the (fm_UploadURL (projr sample_upload)))"
    by (cases sample_upload; auto split: option.splits)+
qed

theorem upload_key_and_name_witness: "fm_Key (projr sample_upload) = sample_uuid_a @ ''.PDF''"
proof -
  have e: "map_of (ss_extensions sample_service) (mediaType sample_mime (fm_MimeType (projr sample_upload))) = Some [''.pdf'']"
    "filepath_Ext (fm_Name (projr sample_upload)) = ''.PDF''" by code_simp+
  show ?thesis using upload_key_and_name[OF sample_service sample_uuids(1) sample_upload(1)[unfolded sample_upload_def]] e by (simp add: sample_upload_def)
qed

definition sample_put :: content_request where
  "sample_put = (let url = the (fm_UploadURL (projr sample_upload)) in \<lparr>rq_key = cu_key url, rq_query = cu_query url, rq_contentType = ''application/pdf'', rq_body = ''%PDF''\<rparr>)"

theorem uploaded_file_inert_witness:
  "case DownloadURL sample_mime sample_storage sample_service (2 * 10 ^ 9) (2 * 10 ^ 9) (fm_Key (projr sample_upload)) (snd (content_upload sample_mac sample_local 60 sample_put no_files)) of
     (Inr dl, _) \<Rightarrow> dl_Disposition dl = DispositionInline \<and> dl_Size dl = 4 \<and> mediaType sample_mime ''application/pdf'' \<in> set (defaultInline sample_mime)
   | _ \<Rightarrow> False"
proof -
  let ?s = "snd (content_upload sample_mac sample_local 60 sample_put no_files)"
  let ?dl = "DownloadURL sample_mime sample_storage sample_service (2 * 10 ^ 9) (2 * 10 ^ 9) (fm_Key (projr sample_upload)) ?s"
  have f: "fst (content_upload sample_mac sample_local 60 sample_put no_files) = 204" "lf_faults ?s = []" "fm_MimeType (projr sample_upload) = ''application/pdf''"
      "rq_body sample_put = ''%PDF''" by code_simp+
  have d: "case ?dl of (Inr dl, _) \<Rightarrow> dl_Disposition dl = DispositionInline | _ \<Rightarrow> False" by code_simp
  obtain dl s'' where dl: "?dl = (Inr dl, s'')" "dl_Disposition dl = DispositionInline" using d by (auto split: prod.splits sum.splits)
  have put: "content_upload sample_mac sample_local 60 sample_put no_files = (204, ?s)" using f(1) by (simp add: prod_eq_iff)
  have q: "rq_key sample_put = cu_key (the (fm_UploadURL (projr sample_upload)))" "rq_query sample_put = cu_query (the (fm_UploadURL (projr sample_upload)))"
    by (simp_all add: sample_put_def Let_def)
  show ?thesis
    using uploaded_file_inert[OF sample_service sample_uuids(1) sample_upload(1)[unfolded sample_upload_def] sample_upload(2)[unfolded sample_upload_def] put
        q[unfolded sample_upload_def] f(2)] dl f(3,4)
    by (fastforce simp: sample_upload_def)
qed

text \<open>A key with the extension \<open>meta\<close> is valid and names the sidecar file of the file without it: it can be looked up as a file of its own, and
  deleting it takes the type from the file.\<close>

lemma sidecar_has_a_key:
  "let st = snd (storage_Save sample_storage sample_uuid_a ''a'' ''text/html'' (''x'', None) 1 no_files)
   in fst (storage_Download sample_storage (sample_uuid_a @ ''.meta'') st) = Inr (''text/html'', DefaultMime)
     \<and> fst (storage_Delete sample_storage (sample_uuid_a @ ''.meta'') st) = None
     \<and> fst (storage_Download sample_storage sample_uuid_a (snd (storage_Delete sample_storage (sample_uuid_a @ ''.meta'') st))) = Inr (''x'', DefaultMime)"
  by code_simp

end
