(* ===== verification/Json_Pointer.thy ===== *)
theory Json_Pointer
  imports Maputil
begin

text \<open>
  Package \<open>json/jsonpointer\<close>: a pointer of RFC 6901 into nested maps. A document is a tree of values; \<open>Set\<close> returns whether it
  succeeded together with the document as it leaves it, also when it fails. The laws of \<open>path_store\<close> hold for documents addressed by pointers.
\<close>

section \<open>Pointers\<close>

fun invalid_escape :: "string \<Rightarrow> bool" where
  "invalid_escape [] = False"
| "invalid_escape (c # s) =
     (c = CHR ''~'' \<and> (case s of [] \<Rightarrow> True | d # _ \<Rightarrow> d \<noteq> CHR ''0'' \<and> d \<noteq> CHR ''1'') \<or> invalid_escape s)"

text \<open>The replacer for \<open>~1\<close> and \<open>~0\<close>: one scan from left to right.\<close>

fun unescaper :: "string \<Rightarrow> string" where
  "unescaper (c # d # s) =
     (if c = CHR ''~'' \<and> d = CHR ''1'' then CHR ''/'' # unescaper s
      else if c = CHR ''~'' \<and> d = CHR ''0'' then CHR ''~'' # unescaper s
      else c # unescaper (d # s))"
| "unescaper s = s"

fun parse_segments :: "string list \<Rightarrow> string + string list" where
  "parse_segments [] = Inr []"
| "parse_segments (s # raw) =
     (if invalid_escape s then Inl ''invalid escape sequence''
      else case parse_segments raw of Inl e \<Rightarrow> Inl e | Inr segments \<Rightarrow> Inr (unescaper s # segments))"

definition pointer_parse :: "string \<Rightarrow> string + string list" where
  "pointer_parse pointer =
     (case pointer of
        [] \<Rightarrow> Inr []
      | c # rest \<Rightarrow> if c \<noteq> CHR ''/'' then Inl ''does not start with /'' else parse_segments (split_on (CHR ''/'') rest))"

definition Segments :: "string \<Rightarrow> string + string list" where
  "Segments pointer =
     (case pointer_parse pointer of
        Inl e \<Rightarrow> Inl e
      | Inr segments \<Rightarrow> if segments = [] then Inl ''does not refer to a value'' else Inr segments)"

definition Valid :: "string \<Rightarrow> bool" where
  "Valid pointer = (case pointer_parse pointer of Inl e \<Rightarrow> False | Inr segments \<Rightarrow> segments \<noteq> [])"

section \<open>Documents\<close>

fun pointer_walk :: "jval \<Rightarrow> string list \<Rightarrow> jval option" where
  "pointer_walk v [] = Some v"
| "pointer_walk v (seg # segs) =
     (case as_map v of
        None \<Rightarrow> None
      | Some m \<Rightarrow> (case m seg of None \<Rightarrow> None | Some w \<Rightarrow> pointer_walk w segs))"

definition pointer_Get :: "vars \<Rightarrow> string \<Rightarrow> jval option" where
  "pointer_Get doc pointer =
     (case pointer_parse pointer of
        Inl e \<Rightarrow> None
      | Inr segments \<Rightarrow> if segments = [] then None else pointer_walk (VMap doc) segments)"

fun pointer_store :: "vars \<Rightarrow> string list \<Rightarrow> jval \<Rightarrow> bool \<times> vars" where
  "pointer_store m [] v = (False, m)"
| "pointer_store m [seg] v = (True, m(seg \<mapsto> v))"
| "pointer_store m (seg # s # segs) v =
     (case m seg of
        None \<Rightarrow> (case pointer_store empty_map (s # segs) v of (ok, child) \<Rightarrow> (ok, m(seg \<mapsto> VMap child)))
      | Some nxt \<Rightarrow>
          (case as_map nxt of
             None \<Rightarrow> (False, m)
           | Some sub \<Rightarrow> (case pointer_store sub (s # segs) v of (ok, child) \<Rightarrow> (ok, m(seg \<mapsto> VMap child)))))"

definition pointer_Set :: "vars \<Rightarrow> string \<Rightarrow> jval \<Rightarrow> bool \<times> vars" where
  "pointer_Set doc pointer v =
     (case pointer_parse pointer of
        Inl e \<Rightarrow> (False, doc)
      | Inr segments \<Rightarrow> if segments = [] then (False, doc) else pointer_store doc segments v)"

section \<open>Syntax\<close>

text \<open>How RFC 6901 writes a segment.\<close>

fun escape_segment :: "string \<Rightarrow> string" where
  "escape_segment [] = []"
| "escape_segment (c # s) =
     (if c = CHR ''~'' then ''~0'' else if c = CHR ''/'' then ''~1'' else [c]) @ escape_segment s"

definition pointer_of :: "string list \<Rightarrow> string" where
  "pointer_of segments = concat (map (\<lambda>s. CHR ''/'' # escape_segment s) segments)"

lemma escape_segment_no_slash: "CHR ''/'' \<notin> set (escape_segment s)"
  by (induction s) auto

lemma escape_segment_valid: "\<not> invalid_escape (escape_segment s)"
proof (induction s)
  case (Cons c s)
  then show ?case by (cases "escape_segment s") auto
qed simp

lemma unescaper_plain: "c \<noteq> CHR ''~'' \<Longrightarrow> unescaper (c # s) = c # unescaper s"
  by (cases s) auto

lemma unescaper_escape: "unescaper (escape_segment s) = s"
  by (induction s) (auto simp: unescaper_plain)

lemma escape_unescaper: "\<not> invalid_escape s \<Longrightarrow> CHR ''/'' \<notin> set s \<Longrightarrow> escape_segment (unescaper s) = s"
  by (induction s rule: unescaper.induct) (auto split: if_splits)

lemma pointer_of_join: "segs \<noteq> [] \<Longrightarrow> pointer_of segs = CHR ''/'' # join_with ''/'' (map escape_segment segs)"
proof (induction segs)
  case (Cons s segs)
  then show ?case by (cases segs) (auto simp: pointer_of_def)
qed simp

lemma parse_segments_escaped: "parse_segments (map escape_segment segs) = Inr segs"
  by (induction segs) (simp_all add: escape_segment_valid unescaper_escape)

lemma parse_segments_Inr:
  "parse_segments raw = Inr segs \<Longrightarrow> \<forall>s \<in> set raw. CHR ''/'' \<notin> set s \<Longrightarrow> map escape_segment segs = raw"
  by (induction raw arbitrary: segs) (auto simp: escape_unescaper split: if_splits sum.splits)

lemma pointer_parse_of: "pointer_parse (pointer_of segs) = Inr segs"
proof (cases "segs = []")
  case False
  then have "split_on (CHR ''/'') (join_with ''/'' (map escape_segment segs)) = map escape_segment segs"
    by (intro split_join) (auto simp: escape_segment_no_slash)
  then show ?thesis using False by (simp add: pointer_of_join pointer_parse_def parse_segments_escaped)
qed (simp add: pointer_of_def pointer_parse_def)

lemma pointer_parse_Inr: "pointer_parse p = Inr segs \<Longrightarrow> p = pointer_of segs"
proof (cases p)
  case (Cons c rest)
  assume "pointer_parse p = Inr segs"
  then have c: "c = CHR ''/''" and "parse_segments (split_on (CHR ''/'') rest) = Inr segs"
    using Cons by (auto simp: pointer_parse_def split: if_splits)
  then have "map escape_segment segs = split_on (CHR ''/'') rest" using parse_segments_Inr split_on_pieces by blast
  moreover then have "segs \<noteq> []" by (metis list.simps(8) split_on_nonempty)
  ultimately show ?thesis using Cons c by (simp add: pointer_of_join join_split)
qed (simp add: pointer_parse_def pointer_of_def)

text \<open>Pointers and lists of segments correspond one to one: \<open>Segments\<close> reads back exactly the segments a pointer was written from, and accepts nothing that is
  not the pointer of a list of segments.\<close>

theorem pointer_round_trip:
  "Segments p = Inr segs \<longleftrightarrow> segs \<noteq> [] \<and> p = pointer_of segs" (is "?l \<longleftrightarrow> ?r")
proof
  assume ?l
  then show ?r using pointer_parse_Inr by (auto simp: Segments_def split: sum.splits if_splits)
next
  assume ?r
  then show ?l by (simp add: Segments_def pointer_parse_of)
qed

section \<open>Documents under pointers\<close>

lemma pointer_store_same: "fst (pointer_store m segs v) \<Longrightarrow> pointer_walk (VMap (snd (pointer_store m segs v))) segs = Some v"
  by (induction m segs v rule: pointer_store.induct) (auto split: option.splits prod.splits)

lemma pointer_store_fresh: "segs \<noteq> [] \<Longrightarrow> fst (pointer_store empty_map segs v)"
proof (induction segs)
  case (Cons s segs)
  then show ?case by (cases segs) (auto simp: empty_map_def split: prod.split)
qed simp

text \<open>A write that fails leaves the document as it was: objects are only ever created below a missing key, and there nothing can be in the way.\<close>

lemma pointer_store_failed: "\<not> fst (pointer_store m segs v) \<Longrightarrow> snd (pointer_store m segs v) = m"
proof (induction m segs v rule: pointer_store.induct)
  case (3 m seg s segs v)
  then show ?case using pointer_store_fresh[of "s # segs" v] by (auto split: option.splits prod.splits)
qed simp_all

definition apart_pointers :: "string \<Rightarrow> string \<Rightarrow> bool" where
  "apart_pointers p q =
     (case (pointer_parse p, pointer_parse q) of
        (Inr ps, Inr qs) \<Rightarrow> \<not> prefix ps qs \<and> \<not> prefix qs ps
      | _ \<Rightarrow> False)"

lemma pointer_store_other:
  "\<not> prefix ps qs \<Longrightarrow> \<not> prefix qs ps \<Longrightarrow> pointer_walk (VMap (snd (pointer_store m ps v))) qs = pointer_walk (VMap m) qs"
proof (induction m ps v arbitrary: qs rule: pointer_store.induct)
  case (2 m seg v)
  then show ?case by (cases qs) auto
next
  case (3 m seg s segs v)
  obtain q qs' where qs: "qs = q # qs'" using 3(4) by (cases qs) auto
  show ?case
  proof (cases "q = seg")
    case True
    then have ap: "\<not> prefix (s # segs) qs'" "\<not> prefix qs' (s # segs)" using 3(3,4) qs by auto
    then obtain r rs where r: "qs' = r # rs" by (cases qs') auto
    show ?thesis
    proof (cases "m seg")
      case None
      then show ?thesis using 3(1)[OF None ap] True qs r by (auto simp: empty_map_def split: prod.split)
    next
      case (Some nxt)
      then show ?thesis using 3(2)[OF Some _ ap] True qs by (cases nxt) (auto split: prod.split)
    qed
  next
    case False
    then show ?thesis using qs by (auto split: option.splits prod.split)
  qed
qed simp

text \<open>A write succeeds unless a value that is not an object is in the way.\<close>

lemma pointer_store_ok:
  "segs \<noteq> [] \<Longrightarrow> fst (pointer_store m segs v) \<longleftrightarrow>
     (\<forall>n w. 0 < n \<and> n < length segs \<and> pointer_walk (VMap m) (take n segs) = Some w \<longrightarrow> as_map w \<noteq> None)"
proof (induction m segs v rule: pointer_store.induct)
  case (3 m seg s segs v)
  show ?case
  proof (cases "m seg")
    case None
    then show ?thesis using pointer_store_fresh[of "s # segs" v] by (auto simp: take_Cons' split: prod.split)
  next
    case (Some nxt)
    show ?thesis
    proof (cases "as_map nxt")
      case no_map: None
      then show ?thesis using Some by (auto intro!: exI[of _ 1])
    next
      case (Some sub)
      note IH = 3(2)[OF \<open>m seg = Some nxt\<close> Some]
      have "(\<forall>n w. 0 < n \<and> n < length (seg # s # segs) \<and> pointer_walk (VMap m) (take n (seg # s # segs)) = Some w \<longrightarrow> as_map w \<noteq> None)
          \<longleftrightarrow> (\<forall>n w. 0 < n \<and> n < length (s # segs) \<and> pointer_walk (VMap sub) (take n (s # segs)) = Some w \<longrightarrow> as_map w \<noteq> None)"
        (is "?l \<longleftrightarrow> ?r")
      proof
        assume ?l
        then show ?r using \<open>m seg = Some nxt\<close> Some by (intro allI impI) (drule spec[of _ "Suc n" for n], auto)
      next
        assume r: ?r
        show ?l
        proof (intro allI impI)
          fix n w
          assume n: "0 < n \<and> n < length (seg # s # segs) \<and> pointer_walk (VMap m) (take n (seg # s # segs)) = Some w"
          then obtain k where "n = Suc k" by (cases n) auto
          then show "as_map w \<noteq> None" using n spec[OF spec[OF r, of k], of w] \<open>m seg = Some nxt\<close> Some by (cases k) auto
        qed
      qed
      then show ?thesis using IH \<open>m seg = Some nxt\<close> Some by (auto split: prod.split)
    qed
  qed
qed auto

lemma pointer_store_keeps_ok:
  "\<not> prefix ps qs \<Longrightarrow> \<not> prefix qs ps \<Longrightarrow> fst (pointer_store m qs w) \<Longrightarrow> fst (pointer_store (snd (pointer_store m ps v)) qs w)"
proof (induction m ps v arbitrary: qs rule: pointer_store.induct)
  case (2 m seg v)
  then obtain q qs' where "qs = q # qs'" "q \<noteq> seg" by (cases qs) auto
  then show ?case using 2 by (cases qs') (auto split: option.splits prod.splits)
next
  case (3 m seg s segs v)
  obtain q qs' where qs: "qs = q # qs'" using 3(4) by (cases qs) auto
  show ?case
  proof (cases "q = seg")
    case True
    then have ap: "\<not> prefix (s # segs) qs'" "\<not> prefix qs' (s # segs)" using 3(3,4) qs by auto
    then obtain r rs where r: "qs' = r # rs" by (cases qs') auto
    show ?thesis
    proof (cases "m seg")
      case None
      then show ?thesis using 3(1)[OF None ap] pointer_store_fresh[of qs' w] True qs r by (auto split: prod.splits)
    next
      case (Some nxt)
      then show ?thesis using 3(2)[OF Some _ ap] 3(5) True qs r by (cases nxt) (auto split: prod.splits)
    qed
  next
    case False
    then show ?thesis using 3(5) qs by (cases qs') (auto split: option.splits prod.splits)
  qed
qed simp

text \<open>Documents are a path store whose writes replace.\<close>

interpretation pointers: path_store pointer_Get "\<lambda>doc p v. snd (pointer_Set doc p v)" "\<lambda>v old. v" "\<lambda>doc p. fst (pointer_Set doc p VNull)" apart_pointers
proof
  have ok: "fst (pointer_Set doc p v) = fst (pointer_Set doc p VNull)" for doc p v
    using pointer_store_ok by (auto simp: pointer_Set_def split: sum.split)
  show "pointer_Get (snd (pointer_Set m p v)) p = Some v" if "fst (pointer_Set m p VNull)" for m p v
    using that pointer_store_same ok[of m p v] by (auto simp: pointer_Set_def pointer_Get_def split: sum.splits if_splits)
  show "pointer_Get (snd (pointer_Set m p v)) q = pointer_Get m q" if "fst (pointer_Set m p VNull)" "apart_pointers p q" for m p q v
    using that(2) pointer_store_other by (auto simp: apart_pointers_def pointer_Set_def pointer_Get_def split: sum.splits)
  show "fst (pointer_Set (snd (pointer_Set m p v)) q VNull)"
    if "fst (pointer_Set m p VNull)" "fst (pointer_Set m q VNull)" "apart_pointers p q" for m p q v
    using that(2,3) pointer_store_keeps_ok by (auto simp: apart_pointers_def pointer_Set_def split: sum.splits if_splits)
qed (auto simp: apart_pointers_def split: sum.splits)

lemma pointer_Set_ok:
  "fst (pointer_Set doc p v) \<longleftrightarrow> (\<exists>segs. segs \<noteq> [] \<and> p = pointer_of segs
     \<and> (\<forall>n w. 0 < n \<and> n < length segs \<and> pointer_walk (VMap doc) (take n segs) = Some w \<longrightarrow> as_map w \<noteq> None))" (is "?l \<longleftrightarrow> ?r")
proof
  assume ?l
  then obtain segs where segs: "pointer_parse p = Inr segs" "segs \<noteq> []" "fst (pointer_store doc segs v)"
    by (auto simp: pointer_Set_def split: sum.splits if_splits)
  show ?r using pointer_parse_Inr[OF segs(1)] segs(2) segs(3)[unfolded pointer_store_ok[OF segs(2)]] by blast
next
  assume ?r
  then obtain segs where segs: "segs \<noteq> []" "p = pointer_of segs"
      "\<forall>n w. 0 < n \<and> n < length segs \<and> pointer_walk (VMap doc) (take n segs) = Some w \<longrightarrow> as_map w \<noteq> None" by blast
  then have "fst (pointer_store doc segs v)" unfolding pointer_store_ok[OF segs(1)] by blast
  then show ?l using segs(1,2) by (simp add: pointer_Set_def pointer_parse_of)
qed

text \<open>C30. Writing a value at a pointer succeeds exactly when the pointer is well formed and nothing but objects lies on its way. Then the value is read back there, and
  no pointer that parts from it reads anything else than before; a write that fails changes nothing.\<close>

theorem pointer_Set_result:
  assumes "pointer_Set doc p v = (ok, doc')"
  shows "(ok \<longleftrightarrow> (\<exists>segs. segs \<noteq> [] \<and> p = pointer_of segs
            \<and> (\<forall>n w. 0 < n \<and> n < length segs \<and> pointer_walk (VMap doc) (take n segs) = Some w \<longrightarrow> as_map w \<noteq> None)))
      \<and> (ok \<longrightarrow> pointer_Get doc' p = Some v \<and> (\<forall>q. apart_pointers p q \<longrightarrow> pointer_Get doc' q = pointer_Get doc q))
      \<and> (\<not> ok \<longrightarrow> doc' = doc)"
proof -
  have ok: "fst (pointer_Set doc p VNull) \<longleftrightarrow> ok" using assms pointer_Set_ok[of doc p v] pointer_Set_ok[of doc p VNull] by simp
  have "doc' = doc" if "\<not> ok"
    using assms that pointer_store_failed by (auto simp: pointer_Set_def split: sum.splits if_splits) (metis fst_conv snd_conv)
  then show ?thesis
    using pointer_Set_ok[of doc p v] assms ok pointers.get_set_same[of doc p v] pointers.get_set_other[of doc p _ v] by auto
qed

text \<open>Several writes at pointers that part from each other are all read back.\<close>

lemma pointer_writes_read:
  assumes "\<forall>(p, v) \<in> set ws. fst (pointer_Set doc p VNull)" "sorted_wrt (\<lambda>(p, v) (p', v'). apart_pointers p p') ws" "(q, u) \<in> set ws"
  shows "pointer_Get (fold (\<lambda>(p, v) doc. snd (pointer_Set doc p v)) ws doc) q = Some u"
  using pointers.write_all_read[OF assms] by (simp add: pointers.write_all_def)

definition sample_doc :: vars where
  "sample_doc = [''a'' \<mapsto> VMap [''b'' \<mapsto> VInt 1]]"

theorem pointer_Set_result_witness:
  "fst (pointer_Set sample_doc ''/a/m~1n'' (VInt 2)) \<and> pointer_Get (snd (pointer_Set sample_doc ''/a/m~1n'' (VInt 2))) ''/a/m~1n'' = Some (VInt 2)
     \<and> pointer_Get (snd (pointer_Set sample_doc ''/a/m~1n'' (VInt 2))) ''/a/b'' = pointer_Get sample_doc ''/a/b''"
proof -
  have "fst (pointer_Set sample_doc ''/a/m~1n'' (VInt 2))" "apart_pointers ''/a/m~1n'' ''/a/b''" by code_simp+
  then show ?thesis using pointer_Set_result[of sample_doc "''/a/m~1n''" "VInt 2" True "snd (pointer_Set sample_doc ''/a/m~1n'' (VInt 2))"]
    by (simp add: prod_eq_iff)
qed

end
