(* ===== verification/Authn_Claims.thy ===== *)
theory Authn_Claims
  imports Json_Value Go_Text Base64url "HOL-Library.Multiset"
begin

text \<open>
  Package \<open>authn\<close>, the claims of a token: the fixed schema and the roles claim (\<open>fixed_schema.go\<close>), the
  declarations of extra claims (\<open>ClaimSpec\<close> of \<open>options.go\<close>) and their extraction from a decoded payload
  (\<open>extra_claims.go\<close>). A map from names to a flag (\<open>declared\<close>) is an association list in which the newest entry of a
  name counts; a slice that may be nil is an option. Decoding JSON text is a parameter of \<open>decodeJWTPayload\<close>.
\<close>

datatype autherr =
    AuthErr string
  | AuthErrOf string string
  | ReservedClaims string "string list" string
  | AuthWrap string autherr

section \<open>Fixed schema\<close>

definition defaultRolesClaim :: string where
  "defaultRolesClaim = ''roles''"

definition fixedSchemaClaims :: "string list" where
  "fixedSchemaClaims =
     [''client_id'', ''grant_type'', ''scope'', defaultRolesClaim,
      ''iss'', ''sub'', ''aud'', ''exp'', ''nbf'', ''iat'', ''jti'']"

definition foldClaimName :: "string \<Rightarrow> string" where
  "foldClaimName name = ToLower (TrimSpace name)"

definition reserved_name :: "string \<Rightarrow> string \<Rightarrow> bool" where
  "reserved_name rolesClaim name \<longleftrightarrow>
     foldClaimName name \<in> set fixedSchemaClaims \<or> foldClaimName name = foldClaimName rolesClaim"

definition validateClaimNames :: "string \<Rightarrow> string list \<Rightarrow> string \<Rightarrow> autherr option" where
  "validateClaimNames what names rolesClaim =
     (let ts = map TrimSpace names; reserved = filter (\<lambda>t. t \<noteq> [] \<and> reserved_name rolesClaim t) ts
      in if [] \<in> set ts then Some (AuthErrOf what ''contains an empty claim name'')
         else if reserved \<noteq> [] then Some (ReservedClaims what (remdups_adj (sort reserved)) rolesClaim)
         else None)"

definition validateRolesClaimName :: "string \<Rightarrow> autherr option" where
  "validateRolesClaimName name =
     (let t = TrimSpace name; folded = foldClaimName t
      in if t = [] then Some (AuthErr ''roles claim name is empty'')
         else if folded \<noteq> defaultRolesClaim \<and> folded \<in> set fixedSchemaClaims then Some (AuthErrOf t ''part of the fixed schema'')
         else None)"

fun parseRolesClaim :: "string \<Rightarrow> jval \<Rightarrow> autherr + string list option" where
  "parseRolesClaim name VNull = Inr None"
| "parseRolesClaim name (VList vs) =
     (case those (map as_str vs) of
        None \<Rightarrow> Inl (AuthErrOf name ''must be an array of strings'')
      | Some roles \<Rightarrow> Inr (Some (map TrimSpace roles)))"
| "parseRolesClaim name _ = Inl (AuthErrOf name ''must be an array of strings'')"

section \<open>Declarations\<close>

record ClaimSpec =
  cs_Optional :: "string list"
  cs_Required :: "string list"

definition no_claims :: ClaimSpec where
  "no_claims = \<lparr>cs_Optional = [], cs_Required = []\<rparr>"

definition isZero :: "ClaimSpec \<Rightarrow> bool" where
  "isZero s \<longleftrightarrow> cs_Optional s = [] \<and> cs_Required s = []"

definition spec_merge :: "ClaimSpec \<Rightarrow> ClaimSpec \<Rightarrow> ClaimSpec" where
  "spec_merge s other =
     s\<lparr>cs_Optional := cs_Optional s @ cs_Optional other, cs_Required := cs_Required s @ cs_Required other\<rparr>"

definition declare_names :: "bool \<Rightarrow> string list \<Rightarrow> (string \<times> bool) list \<Rightarrow> (string \<times> bool) list" where
  "declare_names required names declared = fold (\<lambda>name ds. (TrimSpace name, required) # ds) names declared"

definition spec_resolve :: "ClaimSpec \<Rightarrow> (string \<times> bool) list" where
  "spec_resolve s =
     (if isZero s then [] else declare_names True (cs_Required s) (declare_names False (cs_Optional s) []))"

section \<open>Extra claims\<close>

type_synonym ExtraClaims = vars

definition extra_String :: "ExtraClaims \<Rightarrow> string \<Rightarrow> string" where
  "extra_String c name = (case c name of Some (VStr s) \<Rightarrow> s | _ \<Rightarrow> [])"

definition extra_Strings :: "ExtraClaims \<Rightarrow> string \<Rightarrow> string list option" where
  "extra_Strings c name =
     (case c name of Some (VStr s) \<Rightarrow> Some (Fields s) | Some (VList vs) \<Rightarrow> those (map as_str vs) | _ \<Rightarrow> None)"

definition decodeJWTPayload :: "(byte list \<Rightarrow> autherr + vars) \<Rightarrow> string \<Rightarrow> autherr + vars" where
  "decodeJWTPayload unmarshal tokenString =
     (let parts = split_on (CHR ''.'') tokenString
      in if length parts \<noteq> 3 then Inl (AuthErr ''malformed jwt: expected 3 segments'')
         else case b64_DecodeString (parts ! 1) of
           None \<Rightarrow> Inl (AuthErr ''failed to decode jwt payload segment'')
         | Some payload \<Rightarrow>
             (case unmarshal payload of
                Inl e \<Rightarrow> Inl (AuthWrap ''failed to unmarshal jwt payload'' e)
              | Inr claims \<Rightarrow> Inr claims))"

fun claimAbsent :: "jval \<Rightarrow> bool" where
  "claimAbsent VNull = True"
| "claimAbsent (VStr s) = (TrimSpace s = [])"
| "claimAbsent _ = False"

fun normalizeClaimValue :: "jval \<Rightarrow> jval" where
  "normalizeClaimValue (VStr s) = VStr (TrimSpace s)"
| "normalizeClaimValue (VList vs) =
     (case those (map as_str vs) of None \<Rightarrow> VList vs | Some ss \<Rightarrow> VList (map (\<lambda>s. VStr (TrimSpace s)) ss))"
| "normalizeClaimValue v = v"

fun requiredClaimValue :: "jval \<Rightarrow> jval option" where
  "requiredClaimValue (VStr s) = (let t = TrimSpace s in if t \<noteq> [] then Some (VStr t) else None)"
| "requiredClaimValue (VList vs) =
     (if vs = [] then None
      else case those (map as_str vs) of
        None \<Rightarrow> None
      | Some ss \<Rightarrow> if list_all (\<lambda>s. TrimSpace s \<noteq> []) ss then Some (VList (map (\<lambda>s. VStr (TrimSpace s)) ss)) else None)"
| "requiredClaimValue _ = None"

fun extract_names :: "vars \<Rightarrow> (string \<times> bool) list \<Rightarrow> ExtraClaims \<Rightarrow> autherr + ExtraClaims" where
  "extract_names payload [] extra = Inr extra"
| "extract_names payload ((name, required) # names) extra =
     (if (case payload name of None \<Rightarrow> True | Some v \<Rightarrow> claimAbsent v)
      then (if required then Inl (AuthErrOf name ''missing or empty required claim'') else extract_names payload names extra)
      else let v = the (payload name)
        in if required
           then case requiredClaimValue v of
               None \<Rightarrow> Inl (AuthErrOf name ''must be a non-empty string or a non-empty array of non-empty strings'')
             | Some w \<Rightarrow> extract_names payload names (extra(name \<mapsto> w))
           else extract_names payload names (extra(name \<mapsto> normalizeClaimValue v)))"

definition extractDeclared :: "vars \<Rightarrow> (string \<times> bool) list \<Rightarrow> autherr + ExtraClaims" where
  "extractDeclared payload declared =
     (if declared = [] then Inr empty_map else extract_names payload (sorted_entries declared) empty_map)"

section \<open>What a declaration asks for\<close>

text \<open>A required claim must be usable: present, with a non-blank text or a non-empty array of non-blank texts.\<close>

definition usable :: "vars \<Rightarrow> string \<Rightarrow> bool" where
  "usable payload name \<longleftrightarrow>
     (case payload name of
        Some (VStr s) \<Rightarrow> \<not> is_blank s
      | Some (VList vs) \<Rightarrow> vs \<noteq> [] \<and> (\<forall>v \<in> set vs. \<exists>s. v = VStr s \<and> \<not> is_blank s)
      | _ \<Rightarrow> False)"

text \<open>What extraction makes of a declared name.\<close>

definition claim_value :: "vars \<Rightarrow> string \<Rightarrow> jval option" where
  "claim_value payload name =
     (case payload name of None \<Rightarrow> None | Some v \<Rightarrow> if claimAbsent v then None else Some (normalizeClaimValue v))"

definition error_claim :: "autherr \<Rightarrow> string option" where
  "error_claim e = (case e of AuthErrOf name _ \<Rightarrow> Some name | _ \<Rightarrow> None)"

lemma those_as_str: "those (map as_str vs) = Some ss \<longleftrightarrow> vs = map VStr ss"
proof (induction vs arbitrary: ss)
  case (Cons v vs)
  then show ?case by (cases v; cases ss) (auto split: option.splits)
qed auto

lemma those_as_str_map [simp]: "those (map (as_str \<circ> VStr) ss) = Some ss"
  using those_as_str[of "map VStr ss" ss] by simp

lemma required_normalized: "requiredClaimValue v = Some w \<Longrightarrow> w = normalizeClaimValue v \<and> \<not> claimAbsent v"
  by (cases v) (auto simp: Let_def split: if_splits option.splits)

lemma required_usable: "payload name = Some v \<Longrightarrow> requiredClaimValue v \<noteq> None \<longleftrightarrow> usable payload name"
proof (cases v)
  case (VList vs)
  assume p: "payload name = Some v"
  show ?thesis
  proof (cases "those (map as_str vs)")
    case None
    then have "\<not> (\<forall>x \<in> set vs. \<exists>s. x = VStr s)"
      using those_as_str by (metis ex_map_conv option.distinct(1))
    with None p VList show ?thesis by (auto simp: usable_def)
  next
    case (Some ss)
    then have "vs = map VStr ss" by (simp add: those_as_str)
    with p VList show ?thesis
      by (auto simp: usable_def list_all_iff TrimSpace_Nil_iff)
  qed
qed (auto simp: usable_def Let_def TrimSpace_Nil_iff)

lemma usable_present: "usable payload name \<Longrightarrow> \<exists>v. payload name = Some v \<and> \<not> claimAbsent v"
  by (auto simp: usable_def TrimSpace_Nil_iff split: option.splits jval.splits)

lemma extract_names_ok:
  assumes "required \<longrightarrow> usable payload name"
  shows "extract_names payload ((name, required) # names) extra =
     extract_names payload names (case claim_value payload name of None \<Rightarrow> extra | Some w \<Rightarrow> extra(name \<mapsto> w))"
proof (cases "payload name")
  case (Some v)
  show ?thesis
    using required_usable[of payload name v, OF Some] required_normalized[of v] usable_present[of payload name] Some assms
    by (cases "requiredClaimValue v") (auto simp: claim_value_def Let_def)
qed (use assms in \<open>auto simp: claim_value_def usable_def\<close>)

lemma extract_names_bad:
  assumes "\<not> usable payload name"
  shows "\<exists>e. extract_names payload ((name, True) # names) extra = Inl e \<and> error_claim e = Some name"
proof (cases "payload name")
  case (Some v)
  with assms required_usable[of payload name v] show ?thesis
    by (cases "claimAbsent v") (auto simp: error_claim_def Let_def)
qed (simp add: error_claim_def)

lemma extract_names_all:
  assumes "\<forall>(n, r) \<in> set names. r \<longrightarrow> usable payload n"
  shows "\<exists>x. extract_names payload names extra = Inr x \<and>
     (\<forall>n. x n = (if n \<in> fst ` set names \<and> claim_value payload n \<noteq> None then claim_value payload n else extra n))"
  using assms
proof (induction names arbitrary: extra)
  case (Cons d names)
  obtain n r where d: "d = (n, r)" by (cases d)
  then have "r \<longrightarrow> usable payload n" using Cons.prems by auto
  note step = extract_names_ok[OF this]
  let ?e = "case claim_value payload n of None \<Rightarrow> extra | Some w \<Rightarrow> extra(n \<mapsto> w)"
  have "\<forall>(m, r) \<in> set names. r \<longrightarrow> usable payload m" using Cons.prems by auto
  from Cons.IH[OF this, of ?e] obtain x where
    x: "extract_names payload names ?e = Inr x"
       "\<And>m. x m = (if m \<in> fst ` set names \<and> claim_value payload m \<noteq> None then claim_value payload m else ?e m)"
    by blast
  have "x m = (if m \<in> fst ` set (d # names) \<and> claim_value payload m \<noteq> None then claim_value payload m else extra m)" for m
    unfolding x(2)[of m] d by (cases "claim_value payload n") auto
  moreover have "extract_names payload (d # names) extra = Inr x" unfolding d step by (rule x(1))
  ultimately show ?case by blast
qed simp

lemma extract_names_first_bad:
  assumes "\<forall>(m, r) \<in> set good. r \<longrightarrow> usable payload m" and "\<not> usable payload n"
  shows "\<exists>e. extract_names payload (good @ (n, True) # rest) extra = Inl e \<and> error_claim e = Some n"
  using assms
proof (induction good arbitrary: extra)
  case (Cons d good)
  obtain m r where d: "d = (m, r)" by (cases d)
  then have "r \<longrightarrow> usable payload m" using Cons.prems by auto
  from extract_names_ok[OF this] show ?case using Cons.IH Cons.prems by (simp add: d)
qed (use extract_names_bad in simp)

text \<open>The first name in sorted order whose required claim is unusable, if there is one.\<close>

lemma first_unusable:
  fixes names :: "(string \<times> bool) list"
  assumes "\<not> (\<forall>(n, r) \<in> set names. r \<longrightarrow> usable payload n)"
  shows "\<exists>good n rest. names = good @ (n, True) # rest \<and> \<not> usable payload n \<and> (\<forall>(m, r) \<in> set good. r \<longrightarrow> usable payload m)"
proof -
  have "\<exists>x \<in> set names. snd x \<and> \<not> usable payload (fst x)" using assms by fastforce
  from split_list_first_prop[OF this] show ?thesis by force
qed

lemma sorted_entries_before:
  assumes "sorted_entries kvs = good @ (n, v) # rest" and "map_of kvs m = Some w" and "m < n"
  shows "(m, w) \<in> set good"
proof -
  have "(m, w) \<in> set (good @ (n, v) # rest)" using assms by (metis set_sorted_entries)
  moreover have "sorted (map fst (good @ (n, v) # rest))"
    unfolding assms(1)[symmetric] by (simp add: sorted_entries_def comp_def)
  ultimately show ?thesis using assms(3) by (auto simp: sorted_append)
qed

text \<open>Extraction succeeds exactly when every required claim is usable, with the declared names and no others; otherwise it
  fails on the first required name, in sorted order, whose claim is not usable.\<close>

lemma extractDeclared_exact:
  "case extractDeclared payload declared of
     Inr extra \<Rightarrow>
       (\<forall>n. map_of declared n = Some True \<longrightarrow> usable payload n) \<and>
       (\<forall>n. extra n = (if map_of declared n = None then None else claim_value payload n))
   | Inl e \<Rightarrow>
       (\<exists>n. error_claim e = Some n \<and> map_of declared n = Some True \<and> \<not> usable payload n \<and>
            (\<forall>m. m < n \<longrightarrow> map_of declared m = Some True \<longrightarrow> usable payload m))"
proof (cases "\<forall>(n, r) \<in> set (sorted_entries declared). r \<longrightarrow> usable payload n")
  case True
  then have ok: "\<forall>n. map_of declared n = Some True \<longrightarrow> usable payload n"
    using set_sorted_entries[of _ _ declared] by fastforce
  have "n \<in> fst ` set (sorted_entries declared) \<longleftrightarrow> map_of declared n \<noteq> None" for n
    by (simp add: sorted_entries_def image_image map_of_eq_None_iff)
  with ok extract_names_all[OF True, of empty_map] show ?thesis
    by (cases "declared = []") (auto simp: extractDeclared_def empty_map_def)
next
  case False
  from first_unusable[OF this] obtain good n rest where
    n: "sorted_entries declared = good @ (n, True) # rest" "\<not> usable payload n" "\<forall>(m, r) \<in> set good. r \<longrightarrow> usable payload m"
    by blast
  moreover have "map_of declared n = Some True"
    using n(1) by (metis in_set_conv_decomp set_sorted_entries)
  moreover have "\<forall>m. m < n \<longrightarrow> map_of declared m = Some True \<longrightarrow> usable payload m"
    using sorted_entries_before[OF n(1)] n(3) by fastforce
  moreover have "declared \<noteq> []" using n(1) by (auto simp: sorted_entries_def)
  ultimately show ?thesis
    using extract_names_first_bad[OF n(3,2), of rest empty_map] by (auto simp: extractDeclared_def)
qed

section \<open>Declarations and roles\<close>

lemma map_of_declare_names:
  "map_of (declare_names r names ds) n = (if n \<in> TrimSpace ` set names then Some r else map_of ds n)"
  unfolding declare_names_def by (induction names arbitrary: ds) auto

lemma spec_resolve_map:
  "map_of (spec_resolve s) n =
     (if n \<in> TrimSpace ` set (cs_Required s) then Some True
      else if n \<in> TrimSpace ` set (cs_Optional s) then Some False else None)"
  by (auto simp: spec_resolve_def isZero_def map_of_declare_names)

lemma spec_resolve_Nil: "spec_resolve s = [] \<longleftrightarrow> isZero s"
proof -
  have "length (declare_names r names ds) = length names + length ds" for r names ds
    unfolding declare_names_def by (induction names arbitrary: ds) auto
  from this[of True "cs_Required s" "declare_names False (cs_Optional s) []"] this[of False "cs_Optional s" "[]"]
  show ?thesis by (auto simp: spec_resolve_def isZero_def)
qed

lemma validateClaimNames_None:
  "validateClaimNames what names rolesClaim = None \<longleftrightarrow>
     (\<forall>n \<in> set names. \<not> is_blank n \<and> \<not> reserved_name rolesClaim n)"
proof -
  have "reserved_name rolesClaim (TrimSpace n) = reserved_name rolesClaim n" for n
    by (simp add: reserved_name_def foldClaimName_def)
  then show ?thesis
    by (auto simp: validateClaimNames_def Let_def TrimSpace_Nil_iff filter_empty_conv image_iff) (metis TrimSpace_Nil_iff)+
qed

lemma validateClaimNames_mset:
  assumes "mset names = mset names'"
  shows "validateClaimNames what names rolesClaim = validateClaimNames what names' rolesClaim"
proof -
  have "mset (filter P (map TrimSpace names)) = mset (filter P (map TrimSpace names'))" for P
    using assms by (simp add: mset_filter)
  then have "sort (filter P (map TrimSpace names)) = sort (filter P (map TrimSpace names'))" for P
    by (metis properties_for_sort mset_sort sorted_sort)
  moreover have "set names = set names'" using assms by (metis set_mset_mset)
  moreover have "filter P (map TrimSpace names) = [] \<longleftrightarrow> filter P (map TrimSpace names') = []" for P
    using \<open>set names = set names'\<close> by (auto simp: filter_empty_conv)
  ultimately show ?thesis by (simp add: validateClaimNames_def Let_def)
qed

lemma parseRolesClaim_Inr:
  "parseRolesClaim name v = Inr roles \<longleftrightarrow>
     (v = VNull \<and> roles = None \<or> (\<exists>ss. v = VList (map VStr ss) \<and> roles = Some (map TrimSpace ss)))"
proof (cases v)
  case (VList vs)
  then show ?thesis
    by (cases "those (map as_str vs)") (auto simp: those_as_str inj_map_eq_map inj_def)
qed auto

end
