(* ===== verification/Authn_Token.thy ===== *)
theory Authn_Token
  imports Authn_Claims
begin

text \<open>
  Package \<open>authn\<close>, the token extractor: its construction from options or configuration (\<open>options.go\<close>,
  \<open>config.go\<close>, \<open>manager.go\<close>), the cached key set of the identity provider and its keys (\<open>token_parser.go\<close>,
  \<open>utils.go\<close>), and the extraction of a principal from a header.

  The environment \<open>auth_env\<close> gives, for each reading of the clock, the time read, what the key-set endpoint would
  answer then, and what other requests do to the cache before the next lock is taken. Durations and times are
  nanoseconds. Package \<open>golang-jwt\<close> is a parameter: \<open>jwt_parser\<close>, which receives the parser options and the key
  function. Decoding JSON and parsing of URLs are parameters.
\<close>

section \<open>Extractor and options\<close>

record TokenExtractor =
  te_jwksURL :: string
  te_expIssuer :: string
  te_expAudience :: string
  te_httpClient :: bool
  te_userClaims :: ClaimSpec
  te_clientClaims :: ClaimSpec
  te_userExtraClaims :: "(string \<times> bool) list"
  te_clientExtraClaims :: "(string \<times> bool) list"
  te_rolesClaim :: string
  te_jwksCacheTTL :: int

datatype Option = WithUserClaims ClaimSpec | WithClientClaims ClaimSpec | WithRolesClaim string

fun apply_authn_option :: "Option \<Rightarrow> TokenExtractor \<Rightarrow> TokenExtractor" where
  "apply_authn_option (WithUserClaims spec) te = te\<lparr>te_userClaims := spec_merge (te_userClaims te) spec\<rparr>"
| "apply_authn_option (WithClientClaims spec) te = te\<lparr>te_clientClaims := spec_merge (te_clientClaims te) spec\<rparr>"
| "apply_authn_option (WithRolesClaim name) te = te\<lparr>te_rolesClaim := name\<rparr>"

definition seconds :: "int \<Rightarrow> int" where
  "seconds n = n * 1000000000"

definition defaultJWKSCacheTTL :: int where
  "defaultJWKSCacheTTL = 5 * seconds 60"

text \<open>The declarations \<open>validateConfig\<close> judges, in its order, with the names it gives them in errors.\<close>

definition first_failure :: "autherr option list \<Rightarrow> autherr option" where
  "first_failure es = (case filter (\<lambda>e. e \<noteq> None) es of [] \<Rightarrow> None | e # _ \<Rightarrow> e)"

definition validateConfig :: "TokenExtractor \<Rightarrow> autherr + TokenExtractor" where
  "validateConfig te =
     (if te_jwksURL te = [] then Inl (AuthErr ''jwks url is not configured'')
      else if te_expIssuer te = [] then Inl (AuthErr ''issuer is not configured'')
      else if te_expAudience te = [] then Inl (AuthErr ''audience is not configured'')
      else if \<not> te_httpClient te then Inl (AuthErr ''http client is not configured'')
      else case validateRolesClaimName (te_rolesClaim te) of
        Some e \<Rightarrow> Inl e
      | None \<Rightarrow>
          (let roles = TrimSpace (te_rolesClaim te)
           in case first_failure
                [validateClaimNames ''WithUserClaims optional'' (cs_Optional (te_userClaims te)) roles,
                 validateClaimNames ''WithUserClaims required'' (cs_Required (te_userClaims te)) roles,
                 validateClaimNames ''WithClientClaims optional'' (cs_Optional (te_clientClaims te)) roles,
                 validateClaimNames ''WithClientClaims required'' (cs_Required (te_clientClaims te)) roles] of
              Some e \<Rightarrow> Inl e
            | None \<Rightarrow>
                Inr (te\<lparr>te_rolesClaim := roles,
                        te_userExtraClaims := spec_resolve (te_userClaims te),
                        te_clientExtraClaims := spec_resolve (te_clientClaims te)\<rparr>)))"

definition bare_extractor :: "string \<Rightarrow> string \<Rightarrow> string \<Rightarrow> bool \<Rightarrow> TokenExtractor" where
  "bare_extractor jwksURL issuer audience httpClient =
     \<lparr>te_jwksURL = TrimSpace jwksURL, te_expIssuer = TrimSpace issuer, te_expAudience = TrimSpace audience,
      te_httpClient = httpClient, te_userClaims = no_claims, te_clientClaims = no_claims, te_userExtraClaims = [],
      te_clientExtraClaims = [], te_rolesClaim = defaultRolesClaim, te_jwksCacheTTL = defaultJWKSCacheTTL\<rparr>"

definition newExtractor :: "string \<Rightarrow> string \<Rightarrow> string \<Rightarrow> bool \<Rightarrow> Option list \<Rightarrow> autherr + TokenExtractor" where
  "newExtractor jwksURL issuer audience httpClient opts =
     validateConfig (fold apply_authn_option opts (bare_extractor jwksURL issuer audience httpClient))"

definition NewTokenExtractor :: "string \<Rightarrow> string \<Rightarrow> string \<Rightarrow> Option list \<Rightarrow> autherr + TokenExtractor" where
  "NewTokenExtractor jwksURL issuer audience opts = newExtractor jwksURL issuer audience True opts"

definition NewTokenExtractorWithClient :: "string \<Rightarrow> string \<Rightarrow> string \<Rightarrow> bool \<Rightarrow> Option list \<Rightarrow> autherr + TokenExtractor" where
  "NewTokenExtractorWithClient jwksURL issuer audience httpClient opts =
     (if \<not> httpClient then NewTokenExtractor jwksURL issuer audience opts
      else newExtractor jwksURL issuer audience httpClient opts)"

section \<open>Configuration\<close>

record AuthnConfig =
  ac_JWKSURL :: string
  ac_Issuer :: string
  ac_Audience :: string
  ac_InsecureSkipTLSVerify :: bool
  ac_UserClaims :: ClaimSpec
  ac_ClientClaims :: ClaimSpec
  ac_RolesClaim :: string

text \<open>\<open>validation.HTTPURL\<close>; \<open>parseURI\<close> is \<open>url.ParseRequestURI\<close>, giving scheme and host.\<close>

definition HTTPURL :: "(string \<Rightarrow> (string \<times> string) option) \<Rightarrow> string \<Rightarrow> string \<Rightarrow> autherr option" where
  "HTTPURL parseURI name v =
     (case parseURI (TrimSpace v) of
        None \<Rightarrow> Some (AuthErrOf name ''must be a valid absolute URL'')
      | Some (scheme, host) \<Rightarrow>
          if scheme = [] \<or> host = [] then Some (AuthErrOf name ''must be a valid absolute URL'')
          else if scheme \<noteq> ''http'' \<and> scheme \<noteq> ''https'' then Some (AuthErrOf name ''must use http or https'')
          else None)"

definition config_rolesClaim :: "AuthnConfig \<Rightarrow> string" where
  "config_rolesClaim c = (if ac_RolesClaim c = [] then defaultRolesClaim else ac_RolesClaim c)"

definition config_Validate :: "(string \<Rightarrow> (string \<times> string) option) \<Rightarrow> AuthnConfig \<Rightarrow> autherr option" where
  "config_Validate parseURI c =
     (if ac_JWKSURL c = [] then Some (AuthErr ''jwksURL is required'')
      else case HTTPURL parseURI ''jwksURL'' (ac_JWKSURL c) of
        Some e \<Rightarrow> Some e
      | None \<Rightarrow>
          if ac_Issuer c = [] then Some (AuthErr ''issuer is required'')
          else case HTTPURL parseURI ''issuer'' (ac_Issuer c) of
            Some e \<Rightarrow> Some e
          | None \<Rightarrow>
              if ac_Audience c = [] then Some (AuthErr ''audience is required'')
              else first_failure
                [validateRolesClaimName (config_rolesClaim c),
                 validateClaimNames ''UserClaims.Optional'' (cs_Optional (ac_UserClaims c)) (config_rolesClaim c),
                 validateClaimNames ''UserClaims.Required'' (cs_Required (ac_UserClaims c)) (config_rolesClaim c),
                 validateClaimNames ''ClientClaims.Optional'' (cs_Optional (ac_ClientClaims c)) (config_rolesClaim c),
                 validateClaimNames ''ClientClaims.Required'' (cs_Required (ac_ClientClaims c)) (config_rolesClaim c)])"

definition buildClaimOptions :: "AuthnConfig \<Rightarrow> Option list" where
  "buildClaimOptions c =
     (if isZero (ac_UserClaims c) then [] else [WithUserClaims (ac_UserClaims c)]) @
     (if isZero (ac_ClientClaims c) then [] else [WithClientClaims (ac_ClientClaims c)]) @
     (if ac_RolesClaim c \<noteq> [] then [WithRolesClaim (ac_RolesClaim c)] else [])"

section \<open>Keys\<close>

record jwk =
  jk_Kid :: string
  jk_Kty :: string
  jk_Alg :: string
  jk_Use :: string
  jk_N :: string
  jk_E :: string

record PublicKey =
  pk_N :: nat
  pk_E :: int

text \<open>\<open>big.Int.SetBytes\<close>, and \<open>big.Int.Int64\<close>: the low 64 bits, read as a signed integer.\<close>

definition SetBytes :: "byte list \<Rightarrow> nat" where
  "SetBytes bs = foldl (\<lambda>n b. n * 256 + unat b) 0 bs"

definition Int64 :: "nat \<Rightarrow> int" where
  "Int64 n = sint (word_of_nat n :: 64 word)"

definition parseRSAPublicKey :: "jwk \<Rightarrow> autherr + PublicKey" where
  "parseRSAPublicKey key =
     (if jk_Kty key \<noteq> ''RSA'' then Inl (AuthErrOf (jk_Kty key) ''unsupported jwk key type'')
      else case b64_DecodeString (jk_N key) of
        None \<Rightarrow> Inl (AuthErr ''failed to decode jwk modulus'')
      | Some modulusBytes \<Rightarrow>
          (case b64_DecodeString (jk_E key) of
             None \<Rightarrow> Inl (AuthErr ''failed to decode jwk exponent'')
           | Some exponentBytes \<Rightarrow>
               if modulusBytes = [] \<or> exponentBytes = [] then Inl (AuthErr ''invalid jwk key data'')
               else let exponentInt = Int64 (SetBytes exponentBytes)
                 in if exponentInt \<le> 0 then Inl (AuthErr ''invalid jwk exponent'')
                    else Inr \<lparr>pk_N = SetBytes modulusBytes, pk_E = exponentInt\<rparr>))"

section \<open>The cached key set\<close>

record jwks_cache =
  cachedJWKS :: "jwk list option"
  lastJWKSFetch :: int

datatype jwks_reply = No_Request | No_Response | Response int "jwk list option"

record auth_env =
  env_now :: "nat \<Rightarrow> int"
  env_reply :: "nat \<Rightarrow> jwks_reply"
  env_others :: "nat \<Rightarrow> jwks_cache \<Rightarrow> jwks_cache"

record auth_world =
  aw_cache :: jwks_cache
  aw_tick :: nat
  aw_fetches :: "nat list"

definition fetchJWKS :: "jwks_reply \<Rightarrow> autherr + jwk list" where
  "fetchJWKS reply =
     (case reply of
        No_Request \<Rightarrow> Inl (AuthErr ''failed to build jwks request'')
      | No_Response \<Rightarrow> Inl (AuthErr ''failed to fetch jwks'')
      | Response status body \<Rightarrow>
          if status \<noteq> 200 then Inl (AuthErr ''jwks endpoint returned status'')
          else (case body of
              None \<Rightarrow> Inl (AuthErr ''failed to decode jwks response'')
            | Some keys \<Rightarrow> if keys = [] then Inl (AuthErr ''jwks response has no keys'') else Inr keys))"

definition cacheValid :: "int \<Rightarrow> int \<Rightarrow> jwks_cache \<Rightarrow> bool" where
  "cacheValid ttl now c \<longleftrightarrow> cachedJWKS c \<noteq> None \<and> ttl > 0 \<and> now - lastJWKSFetch c < ttl"

text \<open>Reading the clock, then taking a lock: other requests may have changed the cache by then.\<close>

definition read_and_lock :: "auth_env \<Rightarrow> auth_world \<Rightarrow> auth_world" where
  "read_and_lock env w = w\<lparr>aw_cache := env_others env (aw_tick w) (aw_cache w), aw_tick := Suc (aw_tick w)\<rparr>"

definition getJWKS_locked :: "auth_env \<Rightarrow> TokenExtractor \<Rightarrow> bool \<Rightarrow> int \<Rightarrow> auth_world \<Rightarrow> (autherr + jwk list) \<times> auth_world" where
  "getJWKS_locked env te forceRefresh lastFetchSnapshot w =
     (let now = env_now env (aw_tick w); w' = read_and_lock env w; c = aw_cache w'
      in if \<not> forceRefresh \<and> cacheValid (te_jwksCacheTTL te) now c then (Inr (the (cachedJWKS c)), w')
         else if forceRefresh \<and> cachedJWKS c \<noteq> None \<and> lastJWKSFetch c > lastFetchSnapshot then (Inr (the (cachedJWKS c)), w')
         else let w'' = w'\<lparr>aw_fetches := aw_fetches w' @ [aw_tick w]\<rparr>
           in case fetchJWKS (env_reply env (aw_tick w)) of
                Inl e \<Rightarrow> (Inl e, w'')
              | Inr keys \<Rightarrow> (Inr keys, w''\<lparr>aw_cache := \<lparr>cachedJWKS = Some keys, lastJWKSFetch = now\<rparr>\<rparr>))"

definition getJWKS :: "auth_env \<Rightarrow> TokenExtractor \<Rightarrow> bool \<Rightarrow> auth_world \<Rightarrow> (autherr + jwk list) \<times> auth_world" where
  "getJWKS env te forceRefresh w =
     (let now = env_now env (aw_tick w); w' = read_and_lock env w; c = aw_cache w'
      in if \<not> forceRefresh \<and> cacheValid (te_jwksCacheTTL te) now c then (Inr (the (cachedJWKS c)), w')
         else getJWKS_locked env te forceRefresh (lastJWKSFetch c) w')"

section \<open>The key function\<close>

record jwt_token =
  jt_Alg :: string
  jt_SigningMethodRSA :: bool
  jt_Header :: vars

definition key_of_kid :: "string \<Rightarrow> jwk list \<Rightarrow> (autherr + PublicKey) option" where
  "key_of_kid kid keys = map_option parseRSAPublicKey (find (\<lambda>key. jk_Kid key = kid) keys)"

definition keyFunc :: "auth_env \<Rightarrow> TokenExtractor \<Rightarrow> jwt_token \<Rightarrow> auth_world \<Rightarrow> (autherr + PublicKey) \<times> auth_world" where
  "keyFunc env te token w =
     (if \<not> jt_SigningMethodRSA token then (Inl (AuthErrOf (jt_Alg token) ''unexpected signing method''), w)
      else case jt_Header token ''kid'' of
        None \<Rightarrow> (Inl (AuthErr ''token header missing kid''), w)
      | Some v \<Rightarrow>
          (case as_str v of
             None \<Rightarrow> (Inl (AuthErr ''token header has invalid kid''), w)
           | Some kid \<Rightarrow>
               if TrimSpace kid = [] then (Inl (AuthErr ''token header has invalid kid''), w)
               else case getJWKS env te False w of
                 (Inl e, w1) \<Rightarrow> (Inl e, w1)
               | (Inr keySet, w1) \<Rightarrow>
                   (case key_of_kid kid keySet of
                      Some r \<Rightarrow> (r, w1)
                    | None \<Rightarrow>
                        (case getJWKS env te True w1 of
                           (Inl e, w2) \<Rightarrow> (Inl e, w2)
                         | (Inr keySet', w2) \<Rightarrow>
                             (case key_of_kid kid keySet' of
                                Some r \<Rightarrow> (r, w2)
                              | None \<Rightarrow> (Inl (AuthErrOf kid ''no jwk found for kid''), w2))))))"

section \<open>Principals\<close>

record tokenClaims =
  rc_Issuer :: string
  rc_Subject :: string
  rc_Audience :: "string list"
  rc_ExpiresAt :: "int option"
  tc_ClientID :: string
  tc_GrantType :: string
  tc_Roles :: jval
  tc_Scopes :: "string list option"

text \<open>\<open>spaceDelimitedScope.UnmarshalJSON\<close> on a decoded value: \<open>encoding/json\<close> reads null into a string, or into an
  element of a \<open>[]string\<close>, as the empty string.\<close>

fun scope_element :: "jval \<Rightarrow> string option" where
  "scope_element VNull = Some []"
| "scope_element v = as_str v"

fun scope_UnmarshalJSON :: "jval \<Rightarrow> autherr + string list" where
  "scope_UnmarshalJSON VNull = Inr (Fields [])"
| "scope_UnmarshalJSON (VStr s) = Inr (Fields s)"
| "scope_UnmarshalJSON (VList vs) =
     (case those (map scope_element vs) of
        None \<Rightarrow> Inl (AuthErr ''scope claim must be a string or array of strings'')
      | Some arr \<Rightarrow> Inr arr)"
| "scope_UnmarshalJSON _ = Inl (AuthErr ''scope claim must be a string or array of strings'')"

definition AuthorizationCodeGrant :: string where "AuthorizationCodeGrant = ''authorization_code''"
definition ClientCredentialsGrant :: string where "ClientCredentialsGrant = ''client_credentials''"

definition UserPrincipalType :: string where "UserPrincipalType = ''user''"
definition ClientPrincipalType :: string where "ClientPrincipalType = ''client''"

record UserPrincipal =
  up_Subject :: string
  up_Roles :: "string list option"
  up_Scopes :: "string list option"
  up_ExtraClaims :: ExtraClaims

record ClientPrincipal =
  cp_ClientID :: string
  cp_Roles :: "string list option"
  cp_Scopes :: "string list option"
  cp_ExtraClaims :: ExtraClaims

record Principal =
  pr_Type :: string
  pr_UserPrincipal :: "UserPrincipal option"
  pr_ClientPrincipal :: "ClientPrincipal option"

definition resolveClaims ::
  "(byte list \<Rightarrow> autherr + vars) \<Rightarrow> TokenExtractor \<Rightarrow> string \<Rightarrow> tokenClaims \<Rightarrow> (string \<times> bool) list \<Rightarrow>
   autherr + ExtraClaims \<times> string list option" where
  "resolveClaims unmarshal te tokenString claims declared =
     (let custom = te_rolesClaim te \<noteq> [] \<and> te_rolesClaim te \<noteq> defaultRolesClaim
      in if declared = [] \<and> \<not> custom
         then (case parseRolesClaim defaultRolesClaim (tc_Roles claims) of
             Inl e \<Rightarrow> Inl e
           | Inr roles \<Rightarrow> Inr (empty_map, roles))
         else case decodeJWTPayload unmarshal tokenString of
           Inl e \<Rightarrow> Inl (AuthWrap ''failed to decode token payload for claim extraction'' e)
         | Inr payload \<Rightarrow>
             (let rolesName = (if custom then te_rolesClaim te else defaultRolesClaim);
                  rolesRaw = (if custom then case payload (te_rolesClaim te) of None \<Rightarrow> VNull | Some v \<Rightarrow> v else tc_Roles claims)
              in case parseRolesClaim rolesName rolesRaw of
                   Inl e \<Rightarrow> Inl e
                 | Inr roles \<Rightarrow>
                     (case extractDeclared payload declared of
                        Inl e \<Rightarrow> Inl e
                      | Inr extra \<Rightarrow> Inr (extra, roles))))"

definition userPrincipalFromClaims :: "tokenClaims \<Rightarrow> ExtraClaims \<Rightarrow> string list option \<Rightarrow> autherr + UserPrincipal" where
  "userPrincipalFromClaims claims extra roles =
     (if rc_Subject claims = [] then Inl (AuthErr ''jwt missing sub claim for user principal'')
      else Inr \<lparr>up_Subject = rc_Subject claims, up_Roles = roles, up_Scopes = tc_Scopes claims, up_ExtraClaims = extra\<rparr>)"

definition clientPrincipalFromClaims :: "tokenClaims \<Rightarrow> ExtraClaims \<Rightarrow> string list option \<Rightarrow> autherr + ClientPrincipal" where
  "clientPrincipalFromClaims claims extra roles =
     (if tc_ClientID claims = [] then Inl (AuthErr ''jwt missing client_id claim for client principal'')
      else Inr \<lparr>cp_ClientID = tc_ClientID claims, cp_Roles = roles, cp_Scopes = tc_Scopes claims, cp_ExtraClaims = extra\<rparr>)"

record parser_options =
  po_ValidMethods :: "string list"
  po_Issuer :: string
  po_Audience :: string
  po_Leeway :: int

type_synonym jwt_parser =
  "string \<Rightarrow> parser_options \<Rightarrow> (jwt_token \<Rightarrow> auth_world \<Rightarrow> (autherr + PublicKey) \<times> auth_world) \<Rightarrow> auth_world \<Rightarrow>
   (autherr + tokenClaims \<times> bool) \<times> auth_world"

definition te_parser_options :: "TokenExtractor \<Rightarrow> parser_options" where
  "te_parser_options te =
     \<lparr>po_ValidMethods = [''RS256'', ''RS384'', ''RS512''], po_Issuer = te_expIssuer te,
      po_Audience = te_expAudience te, po_Leeway = seconds 30\<rparr>"

text \<open>\<open>ExtractPrincipalFromHeader\<close> after the token has been parsed.\<close>

definition principal_of_claims ::
  "(byte list \<Rightarrow> autherr + vars) \<Rightarrow> TokenExtractor \<Rightarrow> string \<Rightarrow> tokenClaims \<Rightarrow> autherr + Principal" where
  "principal_of_claims unmarshal te tokenString claims =
     (if rc_ExpiresAt claims = None then Inl (AuthErr ''jwt missing exp claim'')
      else if tc_ClientID claims = [] then Inl (AuthErr ''jwt missing client_id claim'')
      else if tc_GrantType claims = AuthorizationCodeGrant
      then (case resolveClaims unmarshal te tokenString claims (te_userExtraClaims te) of
          Inl e \<Rightarrow> Inl e
        | Inr (extra, roles) \<Rightarrow>
            (case userPrincipalFromClaims claims extra roles of
               Inl e \<Rightarrow> Inl e
             | Inr u \<Rightarrow> Inr \<lparr>pr_Type = UserPrincipalType, pr_UserPrincipal = Some u, pr_ClientPrincipal = None\<rparr>))
      else if tc_GrantType claims = ClientCredentialsGrant
      then (case resolveClaims unmarshal te tokenString claims (te_clientExtraClaims te) of
          Inl e \<Rightarrow> Inl e
        | Inr (extra, roles) \<Rightarrow>
            (case clientPrincipalFromClaims claims extra roles of
               Inl e \<Rightarrow> Inl e
             | Inr c \<Rightarrow> Inr \<lparr>pr_Type = ClientPrincipalType, pr_UserPrincipal = None, pr_ClientPrincipal = Some c\<rparr>))
      else Inl (AuthErrOf (tc_GrantType claims) ''unsupported grant type''))"

definition bearer_token :: "string \<Rightarrow> autherr + string" where
  "bearer_token authHeader =
     (if authHeader = [] then Inl (AuthErr ''authorization header is empty'')
      else let parts = Fields (TrimSpace authHeader)
        in if length parts \<noteq> 2 \<or> \<not> EqualFold (parts ! 0) ''Bearer''
           then Inl (AuthErr ''invalid authorization header format'')
           else let tokenString = TrimSpace (parts ! 1)
             in if tokenString = [] then Inl (AuthErr ''authorization token is empty'') else Inr tokenString)"

definition ExtractPrincipalFromHeader ::
  "jwt_parser \<Rightarrow> (byte list \<Rightarrow> autherr + vars) \<Rightarrow> auth_env \<Rightarrow> TokenExtractor \<Rightarrow> string \<Rightarrow> auth_world \<Rightarrow>
   (autherr + Principal) \<times> auth_world" where
  "ExtractPrincipalFromHeader ParseWithClaims unmarshal env te authHeader w =
     (case bearer_token authHeader of
        Inl e \<Rightarrow> (Inl e, w)
      | Inr tokenString \<Rightarrow>
          (case ParseWithClaims tokenString (te_parser_options te) (keyFunc env te) w of
             (Inl e, w') \<Rightarrow> (Inl (AuthWrap ''invalid jwt token'' e), w')
           | (Inr (claims, valid), w') \<Rightarrow>
               if \<not> valid then (Inl (AuthErr ''invalid jwt token''), w')
               else (principal_of_claims unmarshal te tokenString claims, w')))"

end
