(* ===== verification/Authn_Middleware.thy ===== *)
theory Authn_Middleware
  imports Authn_Token
begin

text \<open>
  Package \<open>authn\<close>, the request side: the authentication context and its accessors (\<open>context.go\<close>,
  \<open>buildAuthContext\<close> of \<open>utils.go\<close>), the middleware (\<open>middleware.go\<close>) and the manager that assembles them
  (\<open>manager.go\<close>). A handler is a function from the request and the state of the service to a response. The user
  profile service, where there is one, is a function of the principals it has been asked about before and of the one
  it is asked about now.
\<close>

section \<open>Authentication context\<close>

record UserContext =
  uc_ID :: string
  uc_IDPUserID :: string
  uc_Roles :: "string list option"
  uc_Scopes :: "string list option"
  uc_ExtraClaims :: ExtraClaims

record ClientContext =
  cc_ClientID :: string
  cc_Roles :: "string list option"
  cc_Scopes :: "string list option"
  cc_ExtraClaims :: ExtraClaims

record AuthContext =
  ax_User :: "UserContext option"
  ax_Client :: "ClientContext option"

definition no_principal :: AuthContext where
  "no_principal = \<lparr>ax_User = None, ax_Client = None\<rparr>"

text \<open>The accessors take \<open>None\<close> for a nil receiver.\<close>

definition by_principal :: "'a \<Rightarrow> (UserContext \<Rightarrow> 'a) \<Rightarrow> (ClientContext \<Rightarrow> 'a) \<Rightarrow> AuthContext option \<Rightarrow> 'a" where
  "by_principal none user client a =
     (case a of
        None \<Rightarrow> none
      | Some c \<Rightarrow> (case ax_User c of Some u \<Rightarrow> user u | None \<Rightarrow> (case ax_Client c of Some m \<Rightarrow> client m | None \<Rightarrow> none)))"

definition ctx_Type :: "AuthContext option \<Rightarrow> string" where
  "ctx_Type = by_principal [] (\<lambda>_. UserPrincipalType) (\<lambda>_. ClientPrincipalType)"

definition ctx_Subject :: "AuthContext option \<Rightarrow> string" where
  "ctx_Subject = by_principal [] (\<lambda>u. if uc_ID u \<noteq> [] then uc_ID u else uc_IDPUserID u) cc_ClientID"

definition ctx_Roles :: "AuthContext option \<Rightarrow> string list option" where
  "ctx_Roles = by_principal None uc_Roles cc_Roles"

definition ctx_Scopes :: "AuthContext option \<Rightarrow> string list option" where
  "ctx_Scopes = by_principal None uc_Scopes cc_Scopes"

definition ctx_ExtraClaims :: "AuthContext option \<Rightarrow> ExtraClaims" where
  "ctx_ExtraClaims = by_principal empty_map uc_ExtraClaims cc_ExtraClaims"

definition buildAuthContext :: "Principal option \<Rightarrow> AuthContext" where
  "buildAuthContext prin =
     (case prin of
        None \<Rightarrow> no_principal
      | Some p \<Rightarrow>
          if pr_Type p = UserPrincipalType
          then (case pr_UserPrincipal p of
              None \<Rightarrow> no_principal
            | Some u \<Rightarrow>
                \<lparr>ax_User = Some \<lparr>uc_ID = [], uc_IDPUserID = up_Subject u, uc_Roles = up_Roles u,
                   uc_Scopes = up_Scopes u, uc_ExtraClaims = up_ExtraClaims u\<rparr>, ax_Client = None\<rparr>)
          else if pr_Type p = ClientPrincipalType
          then (case pr_ClientPrincipal p of
              None \<Rightarrow> no_principal
            | Some c \<Rightarrow>
                \<lparr>ax_User = None, ax_Client = Some \<lparr>cc_ClientID = cp_ClientID c, cc_Roles = cp_Roles c,
                   cc_Scopes = cp_Scopes c, cc_ExtraClaims = cp_ExtraClaims c\<rparr>\<rparr>)
          else no_principal)"

section \<open>Middleware\<close>

record http_request =
  rq_Authorization :: string
  rq_AuthContext :: "AuthContext option"

record http_response =
  rs_status :: int
  rs_error :: string
  rs_message :: string

record http_world = auth_world +
  hw_profiles :: "UserPrincipal list"

type_synonym http_handler = "http_request \<Rightarrow> http_world \<Rightarrow> http_response \<times> http_world"
type_synonym profile_service = "(UserPrincipal list \<Rightarrow> UserPrincipal \<Rightarrow> autherr + string) option"

definition reply_error :: "int \<Rightarrow> string \<Rightarrow> string \<Rightarrow> http_response" where
  "reply_error status err msg = \<lparr>rs_status = status, rs_error = err, rs_message = msg\<rparr>"

definition invalid_token :: http_response where
  "invalid_token = reply_error 401 ''unauthorized'' ''invalid authentication token''"

definition GetAuthContext :: "http_request \<Rightarrow> AuthContext option" where
  "GetAuthContext r = rq_AuthContext r"

definition set_user_ID :: "string \<Rightarrow> AuthContext \<Rightarrow> AuthContext" where
  "set_user_ID userID a = a\<lparr>ax_User := map_option (\<lambda>u. u\<lparr>uc_ID := userID\<rparr>) (ax_User a)\<rparr>"

definition resolve_profile ::
  "profile_service \<Rightarrow> Principal \<Rightarrow> AuthContext \<Rightarrow> http_world \<Rightarrow> AuthContext \<times> http_world" where
  "resolve_profile svc prin authCtx w =
     (case (pr_UserPrincipal prin, svc) of
        (Some user, Some GetOrCreateUser) \<Rightarrow>
          (let w' = w\<lparr>hw_profiles := hw_profiles w @ [user]\<rparr>
           in case GetOrCreateUser (hw_profiles w) user of
                Inl e \<Rightarrow> (authCtx, w')
              | Inr userID \<Rightarrow> (if userID \<noteq> [] then set_user_ID userID authCtx else authCtx, w'))
      | _ \<Rightarrow> (authCtx, w))"

type_synonym extractor = "string \<Rightarrow> auth_world \<Rightarrow> (autherr + Principal option) \<times> auth_world"

text \<open>The extractor of the middleware, \<open>None\<close> when it is nil: \<open>ExtractPrincipalFromHeader\<close> of a token extractor,
  whose principal is never nil.\<close>

definition header_extractor ::
  "jwt_parser \<Rightarrow> (byte list \<Rightarrow> autherr + vars) \<Rightarrow> auth_env \<Rightarrow> TokenExtractor \<Rightarrow> extractor" where
  "header_extractor ParseWithClaims unmarshal env te authHeader w =
     (case ExtractPrincipalFromHeader ParseWithClaims unmarshal env te authHeader w of
        (Inl e, w') \<Rightarrow> (Inl e, w')
      | (Inr p, w') \<Rightarrow> (Inr (Some p), w'))"

definition with_auth :: "auth_world \<Rightarrow> http_world \<Rightarrow> http_world" where
  "with_auth a w = auth_world.extend a (http_world.fields (hw_profiles w))"

definition Middleware :: "profile_service \<Rightarrow> extractor option \<Rightarrow> http_handler \<Rightarrow> http_handler" where
  "Middleware svc tokenExtractor next_handler r w =
     (if rq_Authorization r = [] then next_handler r w
      else case tokenExtractor of
        None \<Rightarrow> (reply_error 500 ''internal_server_error'' ''authentication subsystem not initialized'', w)
      | Some extract \<Rightarrow>
          (case extract (rq_Authorization r) (auth_world.truncate w) of
             (Inl e, a) \<Rightarrow> (invalid_token, with_auth a w)
           | (Inr None, a) \<Rightarrow> (invalid_token, with_auth a w)
           | (Inr (Some prin), a) \<Rightarrow>
               (let w1 = with_auth a w
                in if pr_UserPrincipal prin = None \<and> pr_ClientPrincipal prin = None then (invalid_token, w1)
                   else case resolve_profile svc prin (buildAuthContext (Some prin)) w1 of
                     (authCtx, w2) \<Rightarrow> next_handler (r\<lparr>rq_AuthContext := Some authCtx\<rparr>) w2)))"

definition RequireAuth :: "profile_service \<Rightarrow> extractor option \<Rightarrow> http_handler \<Rightarrow> http_handler" where
  "RequireAuth svc tokenExtractor next_handler =
     Middleware svc tokenExtractor
       (\<lambda>r w. if GetAuthContext r = None then (reply_error 401 ''unauthorized'' ''authentication required'', w)
              else next_handler r w)"

section \<open>Manager\<close>

record authn_Manager =
  am_userProfileService :: profile_service
  am_tokenExtractor :: "TokenExtractor option"

definition authn_NewManager :: "profile_service \<Rightarrow> AuthnConfig \<Rightarrow> autherr + authn_Manager" where
  "authn_NewManager svc cfg =
     (case NewTokenExtractorWithClient (ac_JWKSURL cfg) (ac_Issuer cfg) (ac_Audience cfg) True (buildClaimOptions cfg) of
        Inl e \<Rightarrow> Inl (AuthWrap ''failed to initialize token extractor'' e)
      | Inr te \<Rightarrow> Inr \<lparr>am_userProfileService = svc, am_tokenExtractor = Some te\<rparr>)"

definition authn_Health :: "authn_Manager \<Rightarrow> autherr option" where
  "authn_Health m = (if am_tokenExtractor m = None then Some (AuthErr ''token extractor not initialized'') else None)"

definition RequireAuthMiddleware ::
  "jwt_parser \<Rightarrow> (byte list \<Rightarrow> autherr + vars) \<Rightarrow> auth_env \<Rightarrow> authn_Manager \<Rightarrow> http_handler \<Rightarrow> http_handler" where
  "RequireAuthMiddleware ParseWithClaims unmarshal env m =
     RequireAuth (am_userProfileService m) (map_option (header_extractor ParseWithClaims unmarshal env) (am_tokenExtractor m))"

definition OptionalAuthMiddleware ::
  "jwt_parser \<Rightarrow> (byte list \<Rightarrow> autherr + vars) \<Rightarrow> auth_env \<Rightarrow> authn_Manager \<Rightarrow> http_handler \<Rightarrow> http_handler" where
  "OptionalAuthMiddleware ParseWithClaims unmarshal env m =
     Middleware (am_userProfileService m) (map_option (header_extractor ParseWithClaims unmarshal env) (am_tokenExtractor m))"

end
