(* ===== verification/Authz.thy ===== *)
theory Authz
  imports Authn_Middleware
begin

text \<open>
  Package \<open>authz\<close>: the principal interface, the scope checks (\<open>principal.go\<close>) and the scope gates
  (\<open>authorizer.go\<close>). A gate is \<open>None\<close> when its construction panics. A principal is what its three methods return. The
  locale \<open>principal_source\<close> is the contract of \<open>Extractor\<close>: no principal for an unauthenticated request; it is
  interpreted on the extractor the package's documentation gives for the contexts of package \<open>authn\<close>.
\<close>

record authz_Principal =
  ap_Subject :: string
  ap_Roles :: "string list option"
  ap_Scopes :: "string list option"

type_synonym Extractor = "http_request \<Rightarrow> authz_Principal option \<times> bool"

record Authorizer =
  az_extract :: "Extractor option"

definition granted :: "string list option \<Rightarrow> string list" where
  "granted ss = (case ss of None \<Rightarrow> [] | Some xs \<Rightarrow> xs)"

definition HasScope :: "authz_Principal option \<Rightarrow> string \<Rightarrow> bool" where
  "HasScope p scope =
     (case p of None \<Rightarrow> False | Some q \<Rightarrow> if scope = [] then False else scope \<in> set (granted (ap_Scopes q)))"

definition HasAnyScope :: "authz_Principal option \<Rightarrow> string list \<Rightarrow> bool" where
  "HasAnyScope p scopes = list_ex (HasScope p) scopes"

definition HasAllScopes :: "authz_Principal option \<Rightarrow> string list \<Rightarrow> bool" where
  "HasAllScopes p scopes = list_all (HasScope p) scopes"

definition authz_New :: "Extractor option \<Rightarrow> autherr + Authorizer" where
  "authz_New extract =
     (if extract = None then Inl (AuthErr ''authz: New requires a non-nil Extractor'') else Inr \<lparr>az_extract = extract\<rparr>)"

definition authz_Principal_of :: "Authorizer option \<Rightarrow> http_request \<Rightarrow> authz_Principal option \<times> bool" where
  "authz_Principal_of a r =
     (case Option.bind a az_extract of
        None \<Rightarrow> (None, False)
      | Some extract \<Rightarrow> (case extract r of (p, ok) \<Rightarrow> if \<not> ok \<or> p = None then (None, False) else (p, True)))"

definition authz_require :: "Authorizer option \<Rightarrow> (authz_Principal option \<Rightarrow> bool) \<Rightarrow> (http_handler \<Rightarrow> http_handler) option" where
  "authz_require a allow =
     (case Option.bind a az_extract of
        None \<Rightarrow> None
      | Some extract \<Rightarrow>
          Some (\<lambda>next_handler r w.
            case extract r of (p, ok) \<Rightarrow>
              if \<not> ok \<or> p = None then (reply_error 401 ''unauthorized'' ''authentication required'', w)
              else if \<not> allow p then (reply_error 403 ''forbidden'' ''insufficient scope'', w)
              else next_handler r w))"

definition RequireScope :: "Authorizer option \<Rightarrow> string \<Rightarrow> (http_handler \<Rightarrow> http_handler) option" where
  "RequireScope a scope = (if scope = [] then None else authz_require a (\<lambda>p. HasScope p scope))"

definition RequireAnyScope :: "Authorizer option \<Rightarrow> string list \<Rightarrow> (http_handler \<Rightarrow> http_handler) option" where
  "RequireAnyScope a scopes =
     (if scopes = [] \<or> [] \<in> set scopes then None else authz_require a (\<lambda>p. HasAnyScope p scopes))"

definition RequireAllScopes :: "Authorizer option \<Rightarrow> string list \<Rightarrow> (http_handler \<Rightarrow> http_handler) option" where
  "RequireAllScopes a scopes =
     (if scopes = [] \<or> [] \<in> set scopes then None else authz_require a (\<lambda>p. HasAllScopes p scopes))"

text \<open>The extractor for contexts of package \<open>authn\<close>.\<close>

definition context_extractor :: Extractor where
  "context_extractor r =
     (let ac = GetAuthContext r
      in if ac = None \<or> ctx_Type ac = [] then (None, False)
         else (Some \<lparr>ap_Subject = ctx_Subject ac, ap_Roles = ctx_Roles ac, ap_Scopes = ctx_Scopes ac\<rparr>, True))"

section \<open>Gates\<close>

lemma HasScope_Some: "HasScope (Some q) s \<longleftrightarrow> s \<noteq> [] \<and> s \<in> set (granted (ap_Scopes q))"
  by (simp add: HasScope_def)

definition gate_refusals :: "http_world \<Rightarrow> (http_response \<times> http_world) set" where
  "gate_refusals w =
     {(reply_error 401 ''unauthorized'' ''authentication required'', w), (reply_error 403 ''forbidden'' ''insufficient scope'', w)}"

lemma authz_require_gate:
  assumes "authz_require (Some \<lparr>az_extract = Some f\<rparr>) allow = Some gate"
  shows "gate h r w =
     (case f r of (p, ok) \<Rightarrow>
        if \<not> ok \<or> p = None then (reply_error 401 ''unauthorized'' ''authentication required'', w)
        else if \<not> allow p then (reply_error 403 ''forbidden'' ''insufficient scope'', w)
        else h r w)"
  using assms by (auto simp: authz_require_def)

locale principal_source =
  fixes get_principal :: Extractor
    and authenticated :: "http_request \<Rightarrow> bool"
  assumes unauthenticated: "\<not> authenticated r \<Longrightarrow> get_principal r = (None, False)"
begin

text \<open>A gate built on the extractor lets a request through, unchanged, only when it is authenticated by a principal
  the check allows.\<close>

lemma gate_cases:
  assumes "authz_require (Some \<lparr>az_extract = Some get_principal\<rparr>) allow = Some gate"
  shows "gate h r w \<in> gate_refusals w \<or>
     gate h r w = h r w \<and> authenticated r \<and> (\<exists>q. get_principal r = (Some q, True) \<and> allow (Some q))"
proof (cases "get_principal r")
  case (Pair p ok)
  with unauthenticated[of r] show ?thesis
    by (cases p; cases ok; cases "allow p"; cases "authenticated r")
       (auto simp: authz_require_gate[OF assms] gate_refusals_def)
qed

lemma scope_gate:
  assumes "RequireScope (Some \<lparr>az_extract = Some get_principal\<rparr>) scope = Some gate"
  shows "gate h r w \<in> gate_refusals w \<or>
     gate h r w = h r w \<and> authenticated r \<and> (\<exists>q. get_principal r = (Some q, True) \<and> scope \<in> set (granted (ap_Scopes q)))"
proof -
  have "authz_require (Some \<lparr>az_extract = Some get_principal\<rparr>) (\<lambda>p. HasScope p scope) = Some gate"
    using assms by (auto simp: RequireScope_def split: if_splits)
  from gate_cases[OF this, of h r w] show ?thesis by (auto simp: HasScope_Some)
qed

lemma unauthenticated_refused:
  assumes "authz_require (Some \<lparr>az_extract = Some get_principal\<rparr>) allow = Some gate" and "\<not> authenticated r"
  shows "gate h r w = (reply_error 401 ''unauthorized'' ''authentication required'', w)"
  using assms(2) unauthenticated[of r] by (simp add: authz_require_gate[OF assms(1)])

end

interpretation ctx: principal_source context_extractor "\<lambda>r. ctx_Type (GetAuthContext r) \<noteq> []"
  by unfold_locales (simp add: context_extractor_def Let_def)

end
