(* ===== verification/Authn_Props.thy ===== *)
theory Authn_Props
  imports Authz
begin

text \<open>
  Properties of authentication and authorization: the keys a token is verified with, what a principal carries, and who
  gets through a gate. What is relied on of \<open>golang-jwt\<close> is \<open>jwt_library\<close>: a token is valid only when its signature
  verifies under the key the key function returned for it, with an accepted method, the expected issuer and audience,
  and before its expiry; the key function is called at most once.
\<close>

section \<open>The key-set cache\<close>

text \<open>The key-set endpoint answered with these keys when the clock read this time.\<close>

definition issued :: "auth_env \<Rightarrow> jwk list \<Rightarrow> int \<Rightarrow> bool" where
  "issued env ks t \<longleftrightarrow> (\<exists>n. env_reply env n = Response 200 (Some ks) \<and> ks \<noteq> [] \<and> env_now env n = t)"

definition jwks_ok :: "auth_env \<Rightarrow> jwks_cache \<Rightarrow> bool" where
  "jwks_ok env c \<longleftrightarrow> (\<forall>ks. cachedJWKS c = Some ks \<longrightarrow> issued env ks (lastJWKSFetch c))"

text \<open>What other requests may do to the cache while this one waits: they run the same code, so they keep the
  invariant (\<open>getJWKS_keeps\<close>) and never set the time of the last fetch back.\<close>

definition others_ok :: "auth_env \<Rightarrow> bool" where
  "others_ok env \<longleftrightarrow>
     (\<forall>n c. (jwks_ok env c \<longrightarrow> jwks_ok env (env_others env n c)) \<and> lastJWKSFetch c \<le> lastJWKSFetch (env_others env n c))"

lemma fetchJWKS_issued: "fetchJWKS (env_reply env n) = Inr ks \<Longrightarrow> issued env ks (env_now env n)"
  by (auto simp: fetchJWKS_def issued_def split: jwks_reply.splits if_splits option.splits)

lemma read_and_lock_simps [simp]:
  "aw_tick (read_and_lock env w) = Suc (aw_tick w)" "aw_fetches (read_and_lock env w) = aw_fetches w"
  "aw_cache (read_and_lock env w) = env_others env (aw_tick w) (aw_cache w)"
  by (simp_all add: read_and_lock_def)

text \<open>The outcomes of \<open>getJWKS_locked\<close> and \<open>getJWKS\<close>: the cached set as it is, a set fetched now, or a failed fetch.\<close>

lemma getJWKS_locked_cases:
  assumes "getJWKS_locked env te force snap w = (res, w')"
  obtains
    (cached) ks where "res = Inr ks" "cachedJWKS (aw_cache w') = Some ks" "w' = read_and_lock env w"
      "\<not> force \<longrightarrow> env_now env (aw_tick w) - lastJWKSFetch (aw_cache w') < te_jwksCacheTTL te"
      "force \<longrightarrow> snap < lastJWKSFetch (aw_cache w')"
  | (fetched) ks where "res = Inr ks" "fetchJWKS (env_reply env (aw_tick w)) = Inr ks" "aw_tick w' = Suc (aw_tick w)"
      "aw_cache w' = \<lparr>cachedJWKS = Some ks, lastJWKSFetch = env_now env (aw_tick w)\<rparr>"
      "aw_fetches w' = aw_fetches w @ [aw_tick w]"
  | (failed) e where "res = Inl e" "aw_tick w' = Suc (aw_tick w)"
      "aw_cache w' = env_others env (aw_tick w) (aw_cache w)" "aw_fetches w' = aw_fetches w @ [aw_tick w]"
proof -
  let ?c = "env_others env (aw_tick w) (aw_cache w)"
  let ?reuse = "\<not> force \<and> cacheValid (te_jwksCacheTTL te) (env_now env (aw_tick w)) ?c \<or>
                force \<and> cachedJWKS ?c \<noteq> None \<and> lastJWKSFetch ?c > snap"
  let ?w = "(read_and_lock env w)\<lparr>aw_fetches := aw_fetches w @ [aw_tick w]\<rparr>"
  show thesis
  proof (cases ?reuse)
    case True
    then obtain ks where "cachedJWKS ?c = Some ks" by (auto simp: cacheValid_def)
    moreover have "res = Inr (the (cachedJWKS ?c))" "w' = read_and_lock env w"
      using assms True by (auto simp: getJWKS_locked_def Let_def)
    ultimately show thesis using True by (intro cached[of ks]) (auto simp: cacheValid_def)
  next
    case False
    then have "(res, w') = (case fetchJWKS (env_reply env (aw_tick w)) of Inl e \<Rightarrow> (Inl e, ?w)
        | Inr keys \<Rightarrow> (Inr keys, ?w\<lparr>aw_cache := \<lparr>cachedJWKS = Some keys, lastJWKSFetch = env_now env (aw_tick w)\<rparr>\<rparr>))"
      unfolding assms[symmetric] by (auto simp: getJWKS_locked_def Let_def)
    then show thesis
      by (cases "fetchJWKS (env_reply env (aw_tick w))") (auto intro: fetched failed)
  qed
qed

lemma getJWKS_cases:
  assumes "getJWKS env te force w = (res, w')"
  obtains
    (cached) ks where "res = Inr ks" "\<not> force" "cachedJWKS (aw_cache w') = Some ks" "w' = read_and_lock env w"
      "env_now env (aw_tick w) - lastJWKSFetch (aw_cache w') < te_jwksCacheTTL te"
  | (locked) "getJWKS_locked env te force (lastJWKSFetch (aw_cache (read_and_lock env w))) (read_and_lock env w) = (res, w')"
      "\<not> force \<longrightarrow> \<not> cacheValid (te_jwksCacheTTL te) (env_now env (aw_tick w)) (aw_cache (read_and_lock env w))"
  using assms by (auto simp: getJWKS_def Let_def cacheValid_def split: if_splits)

lemma getJWKS_locked_keeps:
  assumes "getJWKS_locked env te force snap w = (res, w')" and "jwks_ok env (aw_cache w)" and "others_ok env"
  shows "jwks_ok env (aw_cache w') \<and> aw_tick w' = Suc (aw_tick w) \<and> length (aw_fetches w') \<le> length (aw_fetches w) + 1 \<and>
         (\<forall>ks. res = Inr ks \<longrightarrow> cachedJWKS (aw_cache w') = Some ks)"
  using assms(1)
proof (cases rule: getJWKS_locked_cases)
  case (fetched ks)
  then show ?thesis by (simp add: jwks_ok_def fetchJWKS_issued)
qed (use assms(2,3) in \<open>auto simp: others_ok_def\<close>)

text \<open>Whatever a request does to the cache keeps its invariant, costs at most one fetch, and leaves the returned set
  cached.\<close>

lemma getJWKS_keeps:
  assumes "getJWKS env te force w = (res, w')" and "jwks_ok env (aw_cache w)" and "others_ok env"
  shows "jwks_ok env (aw_cache w') \<and> aw_tick w < aw_tick w' \<and> length (aw_fetches w') \<le> length (aw_fetches w) + 1 \<and>
         (\<forall>ks. res = Inr ks \<longrightarrow> cachedJWKS (aw_cache w') = Some ks)"
  using assms(1)
proof (cases rule: getJWKS_cases)
  case locked
  have "jwks_ok env (aw_cache (read_and_lock env w))" using assms(2,3) by (simp add: others_ok_def)
  from getJWKS_locked_keeps[OF locked(1) this assms(3)] show ?thesis by simp
qed (use assms(2,3) in \<open>auto simp: others_ok_def\<close>)

text \<open>The key set is younger than its lifetime at a reading of the clock during the call.\<close>

definition young :: "auth_env \<Rightarrow> TokenExtractor \<Rightarrow> nat \<Rightarrow> auth_world \<Rightarrow> bool" where
  "young env te from w \<longleftrightarrow>
     (\<exists>n. from \<le> n \<and> n < aw_tick w \<and> env_now env n - lastJWKSFetch (aw_cache w) < te_jwksCacheTTL te)"

lemma getJWKS_young:
  assumes "getJWKS env te False w = (Inr ks, w')" and "te_jwksCacheTTL te > 0"
  shows "young env te (aw_tick w) w'"
  using assms(1)
proof (cases rule: getJWKS_cases)
  case locked
  from locked(1) show ?thesis
  proof (cases rule: getJWKS_locked_cases)
    case (cached ks)
    then show ?thesis by (intro young_def[THEN iffD2] exI[of _ "Suc (aw_tick w)"]) simp
  next
    case (fetched ks)
    then show ?thesis using assms(2) by (intro young_def[THEN iffD2] exI[of _ "Suc (aw_tick w)"]) simp
  qed simp
qed (auto simp: young_def)

lemma young_later:
  assumes "young env te from w" and "aw_tick w \<le> aw_tick w'" and "lastJWKSFetch (aw_cache w) \<le> lastJWKSFetch (aw_cache w')"
  shows "young env te from w'"
proof -
  obtain n where "from \<le> n" "n < aw_tick w" "env_now env n - lastJWKSFetch (aw_cache w) < te_jwksCacheTTL te"
    using assms(1) by (auto simp: young_def)
  with assms(2,3) show ?thesis by (intro young_def[THEN iffD2] exI[of _ n]) linarith
qed

lemma getJWKS_forced_young:
  assumes "getJWKS env te True w = (Inr ks, w')" and "te_jwksCacheTTL te > 0" and "others_ok env"
    and "young env te from w" and "from \<le> aw_tick w"
  shows "young env te from w'"
  using assms(1)
proof (cases rule: getJWKS_cases)
  case locked
  have last: "lastJWKSFetch c \<le> lastJWKSFetch (env_others env n c)" for n c using assms(3) by (simp add: others_ok_def)
  from locked(1) show ?thesis
  proof (cases rule: getJWKS_locked_cases)
    case (cached ks)
    then show ?thesis using last[of "aw_cache w" "aw_tick w"] by (intro young_later[OF assms(4)]) simp_all
  next
    case (fetched ks)
    then show ?thesis using assms(2,5) by (intro young_def[THEN iffD2] exI[of _ "Suc (aw_tick w)"]) simp
  qed simp
qed simp

section \<open>Keys for tokens\<close>

text \<open>The runs of the key function: refused before the cache is consulted, one look, or a look and a forced one.\<close>

lemma keyFunc_cases:
  assumes "keyFunc env te tok w = (res, w')"
  obtains
    (refused) e where "res = Inl e" "w' = w"
  | (once) kid r1 where "jt_SigningMethodRSA tok" "jt_Header tok ''kid'' = Some (VStr kid)" "\<not> is_blank kid"
      "getJWKS env te False w = (r1, w')"
      "(\<exists>e. r1 = Inl e \<and> res = Inl e) \<or> (\<exists>ks. r1 = Inr ks \<and> key_of_kid kid ks = Some res)"
  | (twice) kid ks w1 r2 where "jt_SigningMethodRSA tok" "jt_Header tok ''kid'' = Some (VStr kid)" "\<not> is_blank kid"
      "getJWKS env te False w = (Inr ks, w1)" "key_of_kid kid ks = None" "getJWKS env te True w1 = (r2, w')"
      "(\<exists>e. res = Inl e) \<or> (\<exists>ks'. r2 = Inr ks' \<and> key_of_kid kid ks' = Some res)"
proof (cases "jt_SigningMethodRSA tok \<and> (\<exists>kid. jt_Header tok ''kid'' = Some (VStr kid) \<and> \<not> is_blank kid)")
  case False
  then have "w' = w \<and> isl res"
    using assms by (auto simp: keyFunc_def TrimSpace_Nil_iff split: if_splits option.splits)
  then show ?thesis using refused by (cases res) auto
next
  case True
  then obtain kid where k: "jt_SigningMethodRSA tok" "jt_Header tok ''kid'' = Some (VStr kid)" "\<not> is_blank kid" by blast
  obtain r1 w1 where g: "getJWKS env te False w = (r1, w1)" by (cases "getJWKS env te False w")
  have kid: "TrimSpace kid \<noteq> []" using k by (simp add: TrimSpace_Nil_iff)
  note run = assms[unfolded keyFunc_def, simplified k g, simplified]
  show ?thesis
  proof (cases r1)
    case (Inl e)
    with run g kid show ?thesis by (intro once[OF k]) auto
  next
    case (Inr ks)
    show ?thesis
    proof (cases "key_of_kid kid ks")
      case (Some r)
      with run g kid Inr show ?thesis by (intro once[OF k]) auto
    next
      case None
      obtain r2 w2 where h: "getJWKS env te True w1 = (r2, w2)" by (cases "getJWKS env te True w1")
      have "w' = w2" "(\<exists>e. res = Inl e) \<or> (\<exists>ks'. r2 = Inr ks' \<and> key_of_kid kid ks' = Some res)"
        using run g h kid Inr None by (auto split: sum.splits option.splits)
      with g h Inr None show ?thesis by (intro twice[OF k]) auto
    qed
  qed
qed

lemma key_of_kid_Inr:
  "key_of_kid kid ks = Some (Inr k) \<longleftrightarrow> (\<exists>j. find (\<lambda>key. jk_Kid key = kid) ks = Some j \<and> parseRSAPublicKey j = Inr k)"
  by (auto simp: key_of_kid_def)

text \<open>The key was published for the token: it is the first key of that identifier in a set the endpoint answered
  with, which is the set now cached.\<close>

definition published :: "auth_env \<Rightarrow> jwks_cache \<Rightarrow> jwt_token \<Rightarrow> PublicKey \<Rightarrow> bool" where
  "published env c tok k \<longleftrightarrow>
     (\<exists>kid ks j. jt_Header tok ''kid'' = Some (VStr kid) \<and> \<not> is_blank kid \<and> cachedJWKS c = Some ks \<and>
        issued env ks (lastJWKSFetch c) \<and> find (\<lambda>key. jk_Kid key = kid) ks = Some j \<and> parseRSAPublicKey j = Inr k)"

lemma publishedI:
  assumes "jt_Header tok ''kid'' = Some (VStr kid)" and "\<not> is_blank kid" and "key_of_kid kid ks = Some (Inr k)"
    and "cachedJWKS c = Some ks" and "jwks_ok env c"
  shows "published env c tok k"
  using assms unfolding published_def key_of_kid_Inr jwks_ok_def by blast

lemma keyFunc_keeps:
  assumes "keyFunc env te tok w = (res, w')" and "jwks_ok env (aw_cache w)" and "others_ok env"
  shows "jwks_ok env (aw_cache w') \<and> length (aw_fetches w') \<le> length (aw_fetches w) + 2"
  using assms(1)
proof (cases rule: keyFunc_cases)
  case (once kid r1)
  from getJWKS_keeps[OF once(4) assms(2,3)] show ?thesis by simp
next
  case (twice kid ks w1 r2)
  from getJWKS_keeps[OF twice(4) assms(2,3)] have "jwks_ok env (aw_cache w1)" "length (aw_fetches w1) \<le> length (aw_fetches w) + 1"
    by auto
  with getJWKS_keeps[OF twice(6) this(1) assms(3)] show ?thesis by simp
qed (use assms(2) in simp)

lemma keyFunc_published_key:
  assumes "keyFunc env te tok w = (Inr k, w')"
    and "jwks_ok env (aw_cache w)" and "others_ok env" and "te_jwksCacheTTL te > 0"
  shows "jt_SigningMethodRSA tok \<and> published env (aw_cache w') tok k \<and> young env te (aw_tick w) w' \<and> jwks_ok env (aw_cache w') \<and>
         length (aw_fetches w') \<le> length (aw_fetches w) + 2"
proof -
  note keeps = keyFunc_keeps[OF assms(1-3)]
  from assms(1) have "jt_SigningMethodRSA tok \<and> published env (aw_cache w') tok k \<and> young env te (aw_tick w) w'"
  proof (cases rule: keyFunc_cases)
    case (once kid r1)
    then obtain ks where ks: "r1 = Inr ks" "key_of_kid kid ks = Some (Inr k)" by auto
    with once getJWKS_keeps[OF once(4) assms(2,3)] getJWKS_young[OF _ assms(4), of env w ks w'] show ?thesis
      by (auto intro: publishedI)
  next
    case (twice kid ks w1 r2)
    then obtain ks' where ks': "r2 = Inr ks'" "key_of_kid kid ks' = Some (Inr k)" by auto
    note k1 = getJWKS_keeps[OF twice(4) assms(2,3)]
    note k2 = getJWKS_keeps[OF twice(6) _ assms(3)]
    have "young env te (aw_tick w) w'"
      using k1 twice(6) ks'(1) by (intro getJWKS_forced_young[OF _ assms(4,3) getJWKS_young[OF twice(4) assms(4)]]) auto
    with twice k1 k2 ks' show ?thesis by (auto intro: publishedI)
  qed simp
  with keeps show ?thesis by simp
qed

text \<open>A key that is in a valid cache costs no fetch; a token without an RSA method or a key identifier costs none and
  leaves everything as it is.\<close>

lemma keyFunc_no_fetch:
  assumes "cacheValid (te_jwksCacheTTL te) (env_now env (aw_tick w)) (env_others env (aw_tick w) (aw_cache w))"
    and "jt_SigningMethodRSA tok" and "jt_Header tok ''kid'' = Some (VStr kid)" and "\<not> is_blank kid"
    and "key_of_kid kid (the (cachedJWKS (env_others env (aw_tick w) (aw_cache w)))) = Some r"
  shows "keyFunc env te tok w = (r, read_and_lock env w)"
  using assms by (simp add: keyFunc_def getJWKS_def Let_def TrimSpace_Nil_iff)

lemma keyFunc_refused:
  assumes "\<not> jt_SigningMethodRSA tok \<or> \<not> (\<exists>kid. jt_Header tok ''kid'' = Some (VStr kid) \<and> \<not> is_blank kid)"
  shows "\<exists>e. keyFunc env te tok w = (Inl e, w)"
  using assms by (auto simp: keyFunc_def TrimSpace_Nil_iff split: option.splits)

section \<open>Parsing tokens\<close>

definition jwt_library :: "(auth_world \<Rightarrow> int) \<Rightarrow> (string \<Rightarrow> string \<Rightarrow> PublicKey \<Rightarrow> tokenClaims \<Rightarrow> bool) \<Rightarrow> jwt_parser \<Rightarrow> bool" where
  "jwt_library now verifies parse \<longleftrightarrow>
     (\<forall>token opts kf w.
        (case parse token opts kf w of
           (Inl e, w') \<Rightarrow> w' = w \<or> (\<exists>tok. w' = snd (kf tok w))
         | (Inr (claims, valid), w') \<Rightarrow>
             (\<exists>tok k. kf tok w = (Inr k, w') \<and>
                (valid \<longrightarrow> jt_Alg tok \<in> set (po_ValidMethods opts) \<and> verifies token (jt_Alg tok) k claims \<and>
                   rc_Issuer claims = po_Issuer opts \<and> po_Audience opts \<in> set (rc_Audience claims) \<and>
                   (\<forall>e. rc_ExpiresAt claims = Some e \<longrightarrow> now w' < e + po_Leeway opts)))))"

text \<open>A token was accepted: it is signed under a published key of the provider, for this service, and has not
  expired.\<close>

definition token_accepted ::
  "(auth_world \<Rightarrow> int) \<Rightarrow> (string \<Rightarrow> string \<Rightarrow> PublicKey \<Rightarrow> tokenClaims \<Rightarrow> bool) \<Rightarrow> auth_env \<Rightarrow> TokenExtractor \<Rightarrow> auth_world \<Rightarrow>
   string \<Rightarrow> tokenClaims \<Rightarrow> bool" where
  "token_accepted now verifies env te w token claims \<longleftrightarrow>
     (\<exists>tok k. jt_SigningMethodRSA tok \<and> jt_Alg tok \<in> {''RS256'', ''RS384'', ''RS512''} \<and> published env (aw_cache w) tok k \<and>
        verifies token (jt_Alg tok) k claims) \<and>
     rc_Issuer claims = te_expIssuer te \<and> te_expAudience te \<in> set (rc_Audience claims) \<and>
     (\<exists>e. rc_ExpiresAt claims = Some e \<and> now w < e + seconds 30)"

lemma jwt_libraryD:
  assumes "jwt_library now verifies parse" and "parse token opts kf w = (Inr (claims, True), w')"
  shows "\<exists>tok k. kf tok w = (Inr k, w') \<and> jt_Alg tok \<in> set (po_ValidMethods opts) \<and> verifies token (jt_Alg tok) k claims \<and>
     rc_Issuer claims = po_Issuer opts \<and> po_Audience opts \<in> set (rc_Audience claims) \<and>
     (\<forall>e. rc_ExpiresAt claims = Some e \<longrightarrow> now w' < e + po_Leeway opts)"
  using assms(1)[unfolded jwt_library_def, THEN spec[of _ token], THEN spec[of _ opts], THEN spec[of _ kf], THEN spec[of _ w]]
  by (simp add: assms(2))

lemma jwt_library_run:
  assumes "jwt_library now verifies parse"
  shows "snd (parse token opts kf w) = w \<or> (\<exists>tok. snd (parse token opts kf w) = snd (kf tok w))"
proof (cases "parse token opts kf w")
  case (Pair r w')
  note lib = assms[unfolded jwt_library_def, THEN spec[of _ token], THEN spec[of _ opts], THEN spec[of _ kf], THEN spec[of _ w]]
  show ?thesis
  proof (cases r)
    case (Inr cv)
    with lib Pair obtain tok k where "kf tok w = (Inr k, w')" by (auto split: prod.splits)
    then show ?thesis using Pair by (metis snd_conv)
  qed (use lib Pair in auto)
qed

lemma Extract_parsed:
  assumes "ExtractPrincipalFromHeader parse unmarshal env te header w = (Inr p, w')"
  obtains token claims where "bearer_token header = Inr token"
    "parse token (te_parser_options te) (keyFunc env te) w = (Inr (claims, True), w')"
    "principal_of_claims unmarshal te token claims = Inr p"
  using assms by (auto simp: ExtractPrincipalFromHeader_def split: sum.splits prod.splits if_splits)

lemma principal_of_claims_expiry: "principal_of_claims unmarshal te token claims = Inr p \<Longrightarrow> rc_ExpiresAt claims \<noteq> None"
  by (auto simp: principal_of_claims_def split: if_splits)

lemma extracted_principal_accepted:
  assumes "jwt_library now verifies parse" and "jwks_ok env (aw_cache w)" and "others_ok env" and "te_jwksCacheTTL te > 0"
    and "ExtractPrincipalFromHeader parse unmarshal env te header w = (Inr p, w')"
  shows "jwks_ok env (aw_cache w') \<and>
     (\<exists>token claims. bearer_token header = Inr token \<and> token_accepted now verifies env te w' token claims \<and>
        principal_of_claims unmarshal te token claims = Inr p)"
proof -
  obtain token claims where t: "bearer_token header = Inr token"
    "parse token (te_parser_options te) (keyFunc env te) w = (Inr (claims, True), w')"
    "principal_of_claims unmarshal te token claims = Inr p"
    by (rule Extract_parsed[OF assms(5)])
  obtain tok k where k: "keyFunc env te tok w = (Inr k, w')"
    "jt_Alg tok \<in> {''RS256'', ''RS384'', ''RS512''}" "verifies token (jt_Alg tok) k claims" "rc_Issuer claims = te_expIssuer te"
    "te_expAudience te \<in> set (rc_Audience claims)" "\<forall>e. rc_ExpiresAt claims = Some e \<longrightarrow> now w' < e + seconds 30"
    using jwt_libraryD[OF assms(1) t(2)] by (auto simp: te_parser_options_def)
  from keyFunc_published_key[OF k(1) assms(2-4)] have kf: "jt_SigningMethodRSA tok" "published env (aw_cache w') tok k" "jwks_ok env (aw_cache w')"
    by auto
  obtain e where "rc_ExpiresAt claims = Some e" using principal_of_claims_expiry[OF t(3)] by blast
  with k kf have "token_accepted now verifies env te w' token claims" unfolding token_accepted_def by blast
  with t(1,3) kf(3) show ?thesis by blast
qed

lemma Extract_keeps:
  assumes "jwt_library now verifies parse" and "jwks_ok env (aw_cache w)" and "others_ok env"
    and "ExtractPrincipalFromHeader parse unmarshal env te header w = (res, w')"
  shows "jwks_ok env (aw_cache w')"
proof (cases "bearer_token header")
  case (Inr token)
  obtain res' where "parse token (te_parser_options te) (keyFunc env te) w = (res', w')"
    using assms(4) Inr by (auto simp: ExtractPrincipalFromHeader_def split: sum.splits prod.splits if_splits)
  with jwt_library_run[OF assms(1), of token "te_parser_options te" "keyFunc env te" w]
  have "w' = w \<or> (\<exists>tok r. keyFunc env te tok w = (r, w'))" by (metis prod.collapse snd_conv)
  then show ?thesis using keyFunc_keeps assms(2,3) by blast
qed (use assms(2,4) in \<open>simp add: ExtractPrincipalFromHeader_def\<close>)

section \<open>Requests\<close>

lemma apply_options_keep [simp]:
  "te_jwksURL (fold apply_authn_option opts te) = te_jwksURL te" "te_expIssuer (fold apply_authn_option opts te) = te_expIssuer te"
  "te_expAudience (fold apply_authn_option opts te) = te_expAudience te" "te_httpClient (fold apply_authn_option opts te) = te_httpClient te"
  "te_jwksCacheTTL (fold apply_authn_option opts te) = te_jwksCacheTTL te"
proof -
  have "te_jwksURL (apply_authn_option op te) = te_jwksURL te \<and> te_expIssuer (apply_authn_option op te) = te_expIssuer te \<and>
        te_expAudience (apply_authn_option op te) = te_expAudience te \<and> te_httpClient (apply_authn_option op te) = te_httpClient te \<and>
        te_jwksCacheTTL (apply_authn_option op te) = te_jwksCacheTTL te" for op te by (cases op) auto
  then show "te_jwksURL (fold apply_authn_option opts te) = te_jwksURL te" "te_expIssuer (fold apply_authn_option opts te) = te_expIssuer te"
    "te_expAudience (fold apply_authn_option opts te) = te_expAudience te" "te_httpClient (fold apply_authn_option opts te) = te_httpClient te"
    "te_jwksCacheTTL (fold apply_authn_option opts te) = te_jwksCacheTTL te"
    by (induction opts arbitrary: te) simp_all
qed

lemma validateConfig_Inr:
  assumes "validateConfig te = Inr te'"
  shows "te' = te\<lparr>te_rolesClaim := TrimSpace (te_rolesClaim te), te_userExtraClaims := spec_resolve (te_userClaims te),
                  te_clientExtraClaims := spec_resolve (te_clientClaims te)\<rparr>"
  using assms by (auto simp: validateConfig_def Let_def split: if_splits option.splits)

lemma newExtractor_Inr:
  assumes "newExtractor url iss aud client opts = Inr te"
  shows "te_expIssuer te = TrimSpace iss \<and> te_expAudience te = TrimSpace aud \<and> te_jwksCacheTTL te = defaultJWKSCacheTTL"
  using validateConfig_Inr[OF assms[unfolded newExtractor_def]] by (simp add: bare_extractor_def)

lemma defaultJWKSCacheTTL_pos: "defaultJWKSCacheTTL > 0"
  by (simp add: defaultJWKSCacheTTL_def seconds_def)

lemma authn_NewManager_Inr:
  assumes "authn_NewManager svc cfg = Inr m"
  obtains te where "m = \<lparr>am_userProfileService = svc, am_tokenExtractor = Some te\<rparr>" "te_expIssuer te = TrimSpace (ac_Issuer cfg)"
    "te_expAudience te = TrimSpace (ac_Audience cfg)" "te_jwksCacheTTL te > 0"
  using assms newExtractor_Inr defaultJWKSCacheTTL_pos
  by (auto simp: authn_NewManager_def NewTokenExtractorWithClient_def split: sum.splits)

text \<open>The scopes of the principal, of the context built from it, and of the principal the gate sees are the scopes of
  the token.\<close>

lemma principal_of_claims_Inr:
  assumes "principal_of_claims unmarshal te token claims = Inr p"
  obtains
    (user) u where "p = \<lparr>pr_Type = UserPrincipalType, pr_UserPrincipal = Some u, pr_ClientPrincipal = None\<rparr>"
      "tc_GrantType claims = AuthorizationCodeGrant"
      "resolveClaims unmarshal te token claims (te_userExtraClaims te) = Inr (up_ExtraClaims u, up_Roles u)"
      "up_Scopes u = tc_Scopes claims" "up_Subject u = rc_Subject claims" "rc_Subject claims \<noteq> []"
  | (client) c where "p = \<lparr>pr_Type = ClientPrincipalType, pr_UserPrincipal = None, pr_ClientPrincipal = Some c\<rparr>"
      "tc_GrantType claims = ClientCredentialsGrant"
      "resolveClaims unmarshal te token claims (te_clientExtraClaims te) = Inr (cp_ExtraClaims c, cp_Roles c)"
      "cp_Scopes c = tc_Scopes claims" "cp_ClientID c = tc_ClientID claims" "tc_ClientID claims \<noteq> []"
proof (cases "tc_GrantType claims = AuthorizationCodeGrant")
  case True
  with assms obtain extra roles where "resolveClaims unmarshal te token claims (te_userExtraClaims te) = Inr (extra, roles)"
    "rc_Subject claims \<noteq> []"
    "p = \<lparr>pr_Type = UserPrincipalType, pr_UserPrincipal = Some \<lparr>up_Subject = rc_Subject claims, up_Roles = roles,
            up_Scopes = tc_Scopes claims, up_ExtraClaims = extra\<rparr>, pr_ClientPrincipal = None\<rparr>"
    by (auto simp: principal_of_claims_def userPrincipalFromClaims_def split: if_splits sum.splits prod.splits)
  with True user[of "\<lparr>up_Subject = rc_Subject claims, up_Roles = roles, up_Scopes = tc_Scopes claims, up_ExtraClaims = extra\<rparr>"]
  show ?thesis by simp
next
  case False
  with assms obtain extra roles where "resolveClaims unmarshal te token claims (te_clientExtraClaims te) = Inr (extra, roles)"
    "tc_GrantType claims = ClientCredentialsGrant" "tc_ClientID claims \<noteq> []"
    "p = \<lparr>pr_Type = ClientPrincipalType, pr_UserPrincipal = None, pr_ClientPrincipal = Some \<lparr>cp_ClientID = tc_ClientID claims,
            cp_Roles = roles, cp_Scopes = tc_Scopes claims, cp_ExtraClaims = extra\<rparr>\<rparr>"
    by (auto simp: principal_of_claims_def clientPrincipalFromClaims_def split: if_splits sum.splits prod.splits)
  with client[of "\<lparr>cp_ClientID = tc_ClientID claims, cp_Roles = roles, cp_Scopes = tc_Scopes claims, cp_ExtraClaims = extra\<rparr>"]
  show ?thesis by simp
qed

lemma principal_types: "ClientPrincipalType \<noteq> UserPrincipalType" "UserPrincipalType \<noteq> []" "ClientPrincipalType \<noteq> []"
  by (simp_all add: UserPrincipalType_def ClientPrincipalType_def)

lemma context_of_principal:
  assumes "principal_of_claims unmarshal te token claims = Inr p"
    and "resolve_profile svc p (buildAuthContext (Some p)) w = (c, w')"
  shows "ctx_Scopes (Some c) = tc_Scopes claims \<and> ctx_Type (Some c) = pr_Type p \<and> auth_world.truncate w' = auth_world.truncate w"
  using assms(1)
proof (cases rule: principal_of_claims_Inr)
  case (user u)
  with assms(2) show ?thesis
    by (auto simp: resolve_profile_def buildAuthContext_def set_user_ID_def ctx_Scopes_def ctx_Type_def by_principal_def Let_def
        auth_world.defs split: option.splits sum.splits if_splits)
next
  case (client c)
  with assms(2) show ?thesis
    by (auto simp: resolve_profile_def buildAuthContext_def ctx_Scopes_def ctx_Type_def by_principal_def principal_types
        split: option.splits)
qed

lemma truncate_with_auth [simp]: "auth_world.truncate (with_auth a w) = a"
  by (simp add: with_auth_def auth_world.defs http_world.defs)

lemma truncate_cache: "aw_cache (auth_world.truncate w) = aw_cache w"
  by (simp add: auth_world.defs)

text \<open>A request with a token, in the middleware of an initialized extractor: refused as unauthenticated, or passed on
  with the context of an extracted principal.\<close>

lemma Middleware_token:
  assumes "rq_Authorization r \<noteq> []"
  obtains
    (refused) e w' where "ExtractPrincipalFromHeader parse unmarshal env te (rq_Authorization r) (auth_world.truncate w) = (Inl e, auth_world.truncate w')"
      "Middleware svc (Some (header_extractor parse unmarshal env te)) h r w = (invalid_token, w')"
  | (passed) p c w1 w' where
      "ExtractPrincipalFromHeader parse unmarshal env te (rq_Authorization r) (auth_world.truncate w) = (Inr p, auth_world.truncate w1)"
      "resolve_profile svc p (buildAuthContext (Some p)) w1 = (c, w')"
      "Middleware svc (Some (header_extractor parse unmarshal env te)) h r w = h (r\<lparr>rq_AuthContext := Some c\<rparr>) w'"
proof (cases "ExtractPrincipalFromHeader parse unmarshal env te (rq_Authorization r) (auth_world.truncate w)")
  case (Pair res a)
  let ?w = "with_auth a w"
  show ?thesis
  proof (cases res)
    case (Inl e)
    with Pair assms show ?thesis by (intro refused[of e ?w]) (simp_all add: Middleware_def header_extractor_def)
  next
    case (Inr p)
    from Pair Inr have "ExtractPrincipalFromHeader parse unmarshal env te (rq_Authorization r) (auth_world.truncate w) = (Inr p, a)" by simp
    then obtain token claims where "principal_of_claims unmarshal te token claims = Inr p" by (rule Extract_parsed)
    then have some: "\<not> (pr_UserPrincipal p = None \<and> pr_ClientPrincipal p = None)" by (cases rule: principal_of_claims_Inr) auto
    obtain c w' where c: "resolve_profile svc p (buildAuthContext (Some p)) ?w = (c, w')"
      by (cases "resolve_profile svc p (buildAuthContext (Some p)) ?w")
    with Pair Inr assms some show ?thesis
      by (intro passed[of p ?w c w']) (auto simp: Middleware_def header_extractor_def Let_def)
  qed
qed

lemma context_gate:
  assumes "RequireScope (Some \<lparr>az_extract = Some context_extractor\<rparr>) scope = Some gate"
  shows "gate h (r\<lparr>rq_AuthContext := Some c\<rparr>) w \<in> gate_refusals w \<or>
     gate h (r\<lparr>rq_AuthContext := Some c\<rparr>) w = h (r\<lparr>rq_AuthContext := Some c\<rparr>) w \<and> scope \<in> set (granted (ctx_Scopes (Some c)))"
  using ctx.scope_gate[OF assms, of h "r\<lparr>rq_AuthContext := Some c\<rparr>" w]
  by (auto simp: context_extractor_def GetAuthContext_def Let_def split: if_splits)

text \<open>C31. A request through the authentication middleware of a manager and a scope gate reaches the handler only with a
  bearer token that is signed under a key the identity provider published, for the configured issuer and audience, not
  expired, and whose granted scopes contain the scope of the gate; the context the handler sees carries those scopes.
  Every other request is answered 401 or 403. Either way the cached key set remains one the provider issued.\<close>

theorem gated_request_authorized:
  assumes "jwt_library now verifies parse" and "jwks_ok env (aw_cache w)" and "others_ok env"
    and "authn_NewManager svc cfg = Inr m" and "authz_New (Some context_extractor) = Inr az"
    and "RequireScope (Some az) scope = Some gate" and "rq_AuthContext r = None"
  shows "(\<exists>resp w'. RequireAuthMiddleware parse unmarshal env m (gate h) r w = (resp, w') \<and> rs_status resp \<in> {401, 403} \<and>
            jwks_ok env (aw_cache w')) \<or>
         (\<exists>te token claims c w'. am_tokenExtractor m = Some te \<and> te_expIssuer te = TrimSpace (ac_Issuer cfg) \<and>
            te_expAudience te = TrimSpace (ac_Audience cfg) \<and> bearer_token (rq_Authorization r) = Inr token \<and>
            token_accepted now verifies env te (auth_world.truncate w') token claims \<and> scope \<in> set (granted (tc_Scopes claims)) \<and>
            ctx_Scopes (Some c) = tc_Scopes claims \<and> jwks_ok env (aw_cache w') \<and>
            RequireAuthMiddleware parse unmarshal env m (gate h) r w = h (r\<lparr>rq_AuthContext := Some c\<rparr>) w')"
proof -
  obtain te where te: "m = \<lparr>am_userProfileService = svc, am_tokenExtractor = Some te\<rparr>" "te_expIssuer te = TrimSpace (ac_Issuer cfg)"
    "te_expAudience te = TrimSpace (ac_Audience cfg)" "te_jwksCacheTTL te > 0"
    by (rule authn_NewManager_Inr[OF assms(4)])
  have az: "az = \<lparr>az_extract = Some context_extractor\<rparr>" using assms(5) by (simp add: authz_New_def)
  let ?next = "\<lambda>r w. if GetAuthContext r = None then (reply_error 401 ''unauthorized'' ''authentication required'', w) else gate h r w"
  have run: "RequireAuthMiddleware parse unmarshal env m (gate h) r w = Middleware svc (Some (header_extractor parse unmarshal env te)) ?next r w"
    by (simp add: RequireAuthMiddleware_def RequireAuth_def te(1))
  have ok: "jwks_ok env (aw_cache (auth_world.truncate w))" using assms(2) by (simp add: truncate_cache)
  show ?thesis
  proof (cases "rq_Authorization r = []")
    case True
    then have "RequireAuthMiddleware parse unmarshal env m (gate h) r w = (reply_error 401 ''unauthorized'' ''authentication required'', w)"
      using assms(7) unfolding run by (simp add: Middleware_def GetAuthContext_def)
    with assms(2) show ?thesis by (simp add: reply_error_def)
  next
    case False
    then show ?thesis
    proof (cases rule: Middleware_token[of r parse unmarshal env te w svc ?next])
      case (refused e w')
      from Extract_keeps[OF assms(1) ok assms(3) refused(1)] have "jwks_ok env (aw_cache w')" by (simp add: truncate_cache)
      with refused(2) show ?thesis by (simp add: run invalid_token_def reply_error_def)
    next
      case (passed p c w1 w')
      from extracted_principal_accepted[OF assms(1) ok assms(3) te(4) passed(1)] obtain token claims where
        t: "bearer_token (rq_Authorization r) = Inr token" "token_accepted now verifies env te (auth_world.truncate w1) token claims"
          "principal_of_claims unmarshal te token claims = Inr p" "jwks_ok env (aw_cache w1)" by (auto simp: truncate_cache)
      from context_of_principal[OF t(3) passed(2)] have c: "ctx_Scopes (Some c) = tc_Scopes claims"
        "auth_world.truncate w' = auth_world.truncate w1" by auto
      then have ok': "jwks_ok env (aw_cache w')" using t(4) by (metis truncate_cache)
      have nx: "RequireAuthMiddleware parse unmarshal env m (gate h) r w = gate h (r\<lparr>rq_AuthContext := Some c\<rparr>) w'"
        unfolding run passed(3) by (simp add: GetAuthContext_def)
      from context_gate[OF assms(6)[unfolded az], of h c r w'] show ?thesis
      proof
        assume "gate h (r\<lparr>rq_AuthContext := Some c\<rparr>) w' \<in> gate_refusals w'"
        with ok' nx show ?thesis by (auto simp: gate_refusals_def reply_error_def)
      qed (use te t(1,2) c ok' nx in \<open>metis authn_Manager.select_convs(2)\<close>)
    qed
  qed
qed

end
