(* ===== verification/Authn_Config_Props.thy ===== *)
theory Authn_Config_Props
  imports Authn_Props
begin

text \<open>
  Properties of how an extractor is configured: the order of options, what a principal carries of the claims declared,
  the roles claim, the validation of configurations, and the use of the key-set endpoint.
\<close>

section \<open>Options\<close>

fun user_spec :: "Option \<Rightarrow> ClaimSpec" where
  "user_spec (WithUserClaims s) = s"
| "user_spec _ = no_claims"

fun client_spec :: "Option \<Rightarrow> ClaimSpec" where
  "client_spec (WithClientClaims s) = s"
| "client_spec _ = no_claims"

fun roles_option :: "Option \<Rightarrow> string option" where
  "roles_option (WithRolesClaim name) = Some name"
| "roles_option _ = None"

text \<open>The roles claim the options leave: the last one given.\<close>

definition roles_name :: "Option list \<Rightarrow> string \<Rightarrow> string" where
  "roles_name opts name = fold (\<lambda>op n. case roles_option op of None \<Rightarrow> n | Some m \<Rightarrow> m) opts name"

lemma apply_options:
  "cs_Optional (te_userClaims (fold apply_authn_option opts te)) = cs_Optional (te_userClaims te) @ concat (map (cs_Optional \<circ> user_spec) opts)"
  "cs_Required (te_userClaims (fold apply_authn_option opts te)) = cs_Required (te_userClaims te) @ concat (map (cs_Required \<circ> user_spec) opts)"
  "cs_Optional (te_clientClaims (fold apply_authn_option opts te)) = cs_Optional (te_clientClaims te) @ concat (map (cs_Optional \<circ> client_spec) opts)"
  "cs_Required (te_clientClaims (fold apply_authn_option opts te)) = cs_Required (te_clientClaims te) @ concat (map (cs_Required \<circ> client_spec) opts)"
  "te_rolesClaim (fold apply_authn_option opts te) = roles_name opts (te_rolesClaim te)"
proof -
  have step: "cs_Optional (te_userClaims (apply_authn_option op te)) = cs_Optional (te_userClaims te) @ cs_Optional (user_spec op)"
    "cs_Required (te_userClaims (apply_authn_option op te)) = cs_Required (te_userClaims te) @ cs_Required (user_spec op)"
    "cs_Optional (te_clientClaims (apply_authn_option op te)) = cs_Optional (te_clientClaims te) @ cs_Optional (client_spec op)"
    "cs_Required (te_clientClaims (apply_authn_option op te)) = cs_Required (te_clientClaims te) @ cs_Required (client_spec op)"
    "te_rolesClaim (apply_authn_option op te) = (case roles_option op of None \<Rightarrow> te_rolesClaim te | Some m \<Rightarrow> m)" for op te
    by (cases op; simp add: spec_merge_def no_claims_def)+
  show "cs_Optional (te_userClaims (fold apply_authn_option opts te)) = cs_Optional (te_userClaims te) @ concat (map (cs_Optional \<circ> user_spec) opts)"
    "cs_Required (te_userClaims (fold apply_authn_option opts te)) = cs_Required (te_userClaims te) @ concat (map (cs_Required \<circ> user_spec) opts)"
    "cs_Optional (te_clientClaims (fold apply_authn_option opts te)) = cs_Optional (te_clientClaims te) @ concat (map (cs_Optional \<circ> client_spec) opts)"
    "cs_Required (te_clientClaims (fold apply_authn_option opts te)) = cs_Required (te_clientClaims te) @ concat (map (cs_Required \<circ> client_spec) opts)"
    "te_rolesClaim (fold apply_authn_option opts te) = roles_name opts (te_rolesClaim te)"
    by (induction opts arbitrary: te) (simp_all add: step roles_name_def)
qed

lemma roles_name_filter: "roles_name opts name = roles_name (filter (\<lambda>op. roles_option op \<noteq> None) opts) name"
  unfolding roles_name_def by (induction opts arbitrary: name) auto

lemma mset_concat_map: "mset xs = mset ys \<Longrightarrow> mset (concat (map f xs)) = mset (concat (map f ys))"
proof -
  have "mset (concat (map f zs)) = (\<Sum>z\<in>#mset zs. mset (f z))" for zs by (induction zs) auto
  then show "mset xs = mset ys \<Longrightarrow> mset (concat (map f xs)) = mset (concat (map f ys))" by simp
qed

text \<open>Two extractors declare the same: the same names, each as often, in any order.\<close>

definition same_declarations :: "TokenExtractor \<Rightarrow> TokenExtractor \<Rightarrow> bool" where
  "same_declarations te te' \<longleftrightarrow>
     mset (cs_Optional (te_userClaims te)) = mset (cs_Optional (te_userClaims te')) \<and>
     mset (cs_Required (te_userClaims te)) = mset (cs_Required (te_userClaims te')) \<and>
     mset (cs_Optional (te_clientClaims te)) = mset (cs_Optional (te_clientClaims te')) \<and>
     mset (cs_Required (te_clientClaims te)) = mset (cs_Required (te_clientClaims te')) \<and>
     te_rolesClaim te = te_rolesClaim te' \<and> te_jwksURL te = te_jwksURL te' \<and> te_expIssuer te = te_expIssuer te' \<and>
     te_expAudience te = te_expAudience te' \<and> te_httpClient te = te_httpClient te' \<and> te_jwksCacheTTL te = te_jwksCacheTTL te'"

lemma same_declarations_permuted:
  assumes "mset opts = mset opts'" and "filter (\<lambda>op. roles_option op \<noteq> None) opts = filter (\<lambda>op. roles_option op \<noteq> None) opts'"
  shows "same_declarations (fold apply_authn_option opts te) (fold apply_authn_option opts' te)"
proof -
  have "roles_name opts name = roles_name opts' name" for name
    using roles_name_filter[of opts name] roles_name_filter[of opts' name] assms(2) by simp
  then show ?thesis by (auto simp: same_declarations_def apply_options intro: mset_concat_map[OF assms(1)])
qed

lemma validateConfig_same:
  assumes "same_declarations te te'"
  shows "map_sum id (\<lambda>_. ()) (validateConfig te) = map_sum id (\<lambda>_. ()) (validateConfig te')"
proof -
  have "validateClaimNames what (cs_Optional (te_userClaims te)) r = validateClaimNames what (cs_Optional (te_userClaims te')) r"
    "validateClaimNames what (cs_Required (te_userClaims te)) r = validateClaimNames what (cs_Required (te_userClaims te')) r"
    "validateClaimNames what (cs_Optional (te_clientClaims te)) r = validateClaimNames what (cs_Optional (te_clientClaims te')) r"
    "validateClaimNames what (cs_Required (te_clientClaims te)) r = validateClaimNames what (cs_Required (te_clientClaims te')) r"
    for what r using assms by (auto simp: same_declarations_def intro: validateClaimNames_mset)
  moreover have "te_rolesClaim te = te_rolesClaim te'" "te_jwksURL te = te_jwksURL te'" "te_expIssuer te = te_expIssuer te'"
    "te_expAudience te = te_expAudience te'" "te_httpClient te = te_httpClient te'"
    using assms by (simp_all add: same_declarations_def)
  ultimately show ?thesis
    by (simp only: validateConfig_def Let_def) (simp split: option.split)
qed

lemma spec_resolve_cong:
  assumes "mset (cs_Optional s) = mset (cs_Optional s')" and "mset (cs_Required s) = mset (cs_Required s')"
  shows "(spec_resolve s = [] \<longleftrightarrow> spec_resolve s' = []) \<and> map_of (spec_resolve s) = map_of (spec_resolve s')"
proof -
  have "set (cs_Optional s) = set (cs_Optional s')" "set (cs_Required s) = set (cs_Required s')"
    using assms by (metis set_mset_mset)+
  moreover from this have "isZero s = isZero s'" unfolding isZero_def by (metis set_empty)
  ultimately show ?thesis by (simp add: fun_eq_iff spec_resolve_map spec_resolve_Nil)
qed

lemma resolveClaims_cong:
  assumes "te_rolesClaim te = te_rolesClaim te'" and "ds = [] \<longleftrightarrow> ds' = []" and "map_of ds = map_of ds'"
  shows "resolveClaims unmarshal te token claims ds = resolveClaims unmarshal te' token claims ds'"
proof -
  have ex: "extractDeclared payload ds = extractDeclared payload ds'" for payload
    using sorted_entries_cong[OF assms(3)] assms(2) by (simp add: extractDeclared_def)
  show ?thesis unfolding resolveClaims_def assms(1,2) ex ..
qed

lemma keyFunc_cong: "te_jwksCacheTTL te = te_jwksCacheTTL te' \<Longrightarrow> keyFunc env te = keyFunc env te'"
proof -
  assume ttl: "te_jwksCacheTTL te = te_jwksCacheTTL te'"
  have "getJWKS_locked env te = getJWKS_locked env te'" by (intro ext) (simp only: getJWKS_locked_def ttl)
  then have "getJWKS env te = getJWKS env te'" by (intro ext) (simp only: getJWKS_def ttl)
  then show ?thesis by (intro ext) (simp only: keyFunc_def)
qed

lemma extraction_same:
  assumes "same_declarations te te'" and "validateConfig te = Inr v" and "validateConfig te' = Inr v'"
  shows "ExtractPrincipalFromHeader parse unmarshal env v = ExtractPrincipalFromHeader parse unmarshal env v'"
proof -
  note v = validateConfig_Inr[OF assms(2)] validateConfig_Inr[OF assms(3)]
  have "te_rolesClaim v = te_rolesClaim v'" "te_jwksCacheTTL v = te_jwksCacheTTL v'" "te_parser_options v = te_parser_options v'"
    using assms(1) by (simp_all add: v same_declarations_def te_parser_options_def)
  moreover have "te_userExtraClaims v = [] \<longleftrightarrow> te_userExtraClaims v' = []" "map_of (te_userExtraClaims v) = map_of (te_userExtraClaims v')"
    "te_clientExtraClaims v = [] \<longleftrightarrow> te_clientExtraClaims v' = []" "map_of (te_clientExtraClaims v) = map_of (te_clientExtraClaims v')"
    using assms(1) spec_resolve_cong[of "te_userClaims te" "te_userClaims te'"] spec_resolve_cong[of "te_clientClaims te" "te_clientClaims te'"]
    by (simp_all add: v same_declarations_def)
  ultimately have c: "resolveClaims unmarshal v token claims (te_userExtraClaims v) = resolveClaims unmarshal v' token claims (te_userExtraClaims v')"
    "resolveClaims unmarshal v token claims (te_clientExtraClaims v) = resolveClaims unmarshal v' token claims (te_clientExtraClaims v')"
    "keyFunc env v = keyFunc env v'" "te_parser_options v = te_parser_options v'" for token claims
    by (blast intro: resolveClaims_cong keyFunc_cong)+
  then have "principal_of_claims unmarshal v = principal_of_claims unmarshal v'"
    by (intro ext) (simp only: principal_of_claims_def)
  then show ?thesis by (intro ext) (simp only: ExtractPrincipalFromHeader_def c)
qed

text \<open>The order of options does not matter: with the same options in another order (the roles-claim options, of
  which the last counts, in their own order) construction fails with the same error, or succeeds and the two
  extractors treat every header in every state alike.\<close>

theorem option_order_irrelevant:
  assumes "mset opts = mset opts'"
    and "filter (\<lambda>op. roles_option op \<noteq> None) opts = filter (\<lambda>op. roles_option op \<noteq> None) opts'"
  shows "case newExtractor url iss aud client opts of
           Inl e \<Rightarrow> newExtractor url iss aud client opts' = Inl e
         | Inr te \<Rightarrow> (\<exists>te'. newExtractor url iss aud client opts' = Inr te' \<and>
             ExtractPrincipalFromHeader parse unmarshal env te = ExtractPrincipalFromHeader parse unmarshal env te')"
proof -
  note same = same_declarations_permuted[OF assms, of "bare_extractor url iss aud client"]
  show ?thesis
    using validateConfig_same[OF same] extraction_same[OF same]
    by (cases "newExtractor url iss aud client opts"; cases "newExtractor url iss aud client opts'") (simp_all add: newExtractor_def)
qed

section \<open>What a principal carries\<close>

text \<open>The raw value of a claim: absent reads as null.\<close>

definition raw_claim :: "vars \<Rightarrow> string \<Rightarrow> jval" where
  "raw_claim payload name = (case payload name of None \<Rightarrow> VNull | Some v \<Rightarrow> v)"

lemma resolveClaims_exact:
  assumes "resolveClaims unmarshal te token claims declared = Inr (extra, roles)"
    and "decodeJWTPayload unmarshal token = Inr payload" and "tc_Roles claims = raw_claim payload defaultRolesClaim"
    and "te_rolesClaim te \<noteq> []"
  shows "parseRolesClaim (te_rolesClaim te) (raw_claim payload (te_rolesClaim te)) = Inr roles \<and> extractDeclared payload declared = Inr extra"
  using assms
  by (auto simp: resolveClaims_def Let_def raw_claim_def extractDeclared_def split: if_splits sum.splits)

lemma newExtractor_claims:
  assumes "newExtractor url iss aud client opts = Inr te"
  shows "te_rolesClaim te = TrimSpace (roles_name opts defaultRolesClaim) \<and> te_rolesClaim te \<noteq> [] \<and>
     (\<forall>n. map_of (te_userExtraClaims te) n \<noteq> None \<longrightarrow> \<not> reserved_name (te_rolesClaim te) n) \<and>
     (\<forall>n. map_of (te_clientExtraClaims te) n \<noteq> None \<longrightarrow> \<not> reserved_name (te_rolesClaim te) n)"
proof -
  let ?te = "fold apply_authn_option opts (bare_extractor url iss aud client)"
  note v = validateConfig_Inr[OF assms[unfolded newExtractor_def]]
  have valid: "validateRolesClaimName (te_rolesClaim ?te) = None"
    "\<forall>n \<in> set (cs_Optional (te_userClaims ?te)) \<union> set (cs_Required (te_userClaims ?te)) \<union> set (cs_Optional (te_clientClaims ?te)) \<union>
       set (cs_Required (te_clientClaims ?te)). \<not> reserved_name (TrimSpace (te_rolesClaim ?te)) n"
    using assms[unfolded newExtractor_def validateConfig_def]
    by (auto simp: Let_def first_failure_def validateClaimNames_None split: if_splits option.splits list.splits)
  have "reserved_name r (TrimSpace n) = reserved_name r n" for r n by (simp add: reserved_name_def foldClaimName_def)
  with valid(2) have "\<not> reserved_name (te_rolesClaim te) n"
    if "map_of (te_userExtraClaims te) n \<noteq> None \<or> map_of (te_clientExtraClaims te) n \<noteq> None" for n
    using that by (auto simp: v spec_resolve_map split: if_splits)
  moreover have "te_rolesClaim te = TrimSpace (roles_name opts defaultRolesClaim)"
    by (simp add: v apply_options bare_extractor_def)
  moreover have "te_rolesClaim te \<noteq> []"
    using valid(1) by (auto simp: v validateRolesClaimName_def Let_def split: if_splits)
  ultimately show ?thesis by blast
qed

text \<open>The names the options declare for a kind of principal, and those they require.\<close>

definition required_names :: "(Option \<Rightarrow> ClaimSpec) \<Rightarrow> Option list \<Rightarrow> string set" where
  "required_names spec opts = (\<Union>op \<in> set opts. TrimSpace ` set (cs_Required (spec op)))"

definition declared_names :: "(Option \<Rightarrow> ClaimSpec) \<Rightarrow> Option list \<Rightarrow> string set" where
  "declared_names spec opts = required_names spec opts \<union> (\<Union>op \<in> set opts. TrimSpace ` set (cs_Optional (spec op)))"

lemma newExtractor_declared:
  assumes "newExtractor url iss aud client opts = Inr te"
  shows "map_of (te_userExtraClaims te) n =
           (if n \<in> required_names user_spec opts then Some True else if n \<in> declared_names user_spec opts then Some False else None)"
    and "map_of (te_clientExtraClaims te) n =
           (if n \<in> required_names client_spec opts then Some True else if n \<in> declared_names client_spec opts then Some False else None)"
  unfolding validateConfig_Inr[OF assms[unfolded newExtractor_def]]
  by (simp_all add: spec_resolve_map apply_options bare_extractor_def no_claims_def declared_names_def required_names_def image_UN)

lemma declared_exact:
  assumes "extractDeclared payload declared = Inr extra"
    and "\<And>n. map_of declared n = (if n \<in> required_names spec opts then Some True else if n \<in> declared_names spec opts then Some False else None)"
  shows "(\<forall>n. extra n = (if n \<in> declared_names spec opts then claim_value payload n else None)) \<and>
         (\<forall>n \<in> required_names spec opts. usable payload n)"
proof -
  have "(\<forall>n. map_of declared n = Some True \<longrightarrow> usable payload n) \<and>
        (\<forall>n. extra n = (if map_of declared n = None then None else claim_value payload n))"
    using extractDeclared_exact[where payload = payload and declared = declared] by (simp add: assms(1))
  moreover have "n \<in> required_names spec opts \<Longrightarrow> n \<in> declared_names spec opts" for n by (simp add: declared_names_def)
  ultimately show ?thesis by (auto simp: assms(2))
qed

text \<open>What the context of a principal holds, by the kind of principal.\<close>

lemma context_claims:
  assumes "newExtractor url iss aud client opts = Inr te" and "principal_of_claims unmarshal te token claims = Inr p"
    and "decodeJWTPayload unmarshal token = Inr payload" and "tc_Roles claims = raw_claim payload defaultRolesClaim"
    and "c = Some (buildAuthContext (Some p))" and "spec = (if ctx_Type c = UserPrincipalType then user_spec else client_spec)"
  obtains declared where
    "\<And>n. map_of declared n = (if n \<in> required_names spec opts then Some True else if n \<in> declared_names spec opts then Some False else None)"
    "extractDeclared payload declared = Inr (ctx_ExtraClaims c)"
    "parseRolesClaim (te_rolesClaim te) (raw_claim payload (te_rolesClaim te)) = Inr (ctx_Roles c)"
    "\<And>n. map_of declared n \<noteq> None \<Longrightarrow> \<not> reserved_name (te_rolesClaim te) n"
proof -
  have ne: "te_rolesClaim te \<noteq> []"
    and users: "\<And>n. map_of (te_userExtraClaims te) n \<noteq> None \<Longrightarrow> \<not> reserved_name (te_rolesClaim te) n"
    and clients: "\<And>n. map_of (te_clientExtraClaims te) n \<noteq> None \<Longrightarrow> \<not> reserved_name (te_rolesClaim te) n"
    using newExtractor_claims[OF assms(1)] by blast+
  note defs = buildAuthContext_def ctx_Type_def ctx_Roles_def ctx_ExtraClaims_def by_principal_def principal_types
  from assms(2) show thesis
  proof (cases rule: principal_of_claims_Inr)
    case (user x)
    have spec: "spec = user_spec" using user(1) by (simp add: defs assms(5,6))
    from resolveClaims_exact[OF user(3) assms(3,4) ne] show thesis
      by (intro that[of "te_userExtraClaims te", OF newExtractor_declared(1)[OF assms(1), folded spec] _ _ users])
         (simp_all add: defs user(1) assms(5))
  next
    case (client x)
    have spec: "spec = client_spec" using client(1) by (simp add: defs assms(5,6))
    from resolveClaims_exact[OF client(3) assms(3,4) ne] show thesis
      by (intro that[of "te_clientExtraClaims te", OF newExtractor_declared(2)[OF assms(1), folded spec] _ _ clients])
         (simp_all add: defs client(1) assms(5))
  qed
qed


section \<open>The roles claim\<close>

text \<open>A configured roles claim that tokens do not carry is accepted and goes unnoticed: whatever roles a token has
  under another name, also under the default name, its principal gets none, and no error is reported. This holds for
  the spelling \<open>Roles\<close> of the default name too.\<close>

theorem mistyped_roles_claim_silent:
  assumes "validateRolesClaimName name = None" and "TrimSpace name \<noteq> defaultRolesClaim"
    and "TrimSpace url \<noteq> []" and "TrimSpace iss \<noteq> []" and "TrimSpace aud \<noteq> []"
    and "decodeJWTPayload unmarshal token = Inr payload" and "payload (TrimSpace name) = None"
  shows "\<exists>te. newExtractor url iss aud True [WithRolesClaim name] = Inr te \<and>
           resolveClaims unmarshal te token claims (te_userExtraClaims te) = Inr (empty_map, None) \<and>
           resolveClaims unmarshal te token claims (te_clientExtraClaims te) = Inr (empty_map, None) \<and>
           validateRolesClaimName ''Roles'' = None"
proof -
  let ?te = "(bare_extractor url iss aud True)\<lparr>te_rolesClaim := TrimSpace name\<rparr>"
  have nil: "spec_resolve no_claims = []" by (simp add: spec_resolve_Nil isZero_def no_claims_def)
  have "validateClaimNames what [] r = None" for what r by (simp add: validateClaimNames_None)
  with assms(1-5) have te: "newExtractor url iss aud True [WithRolesClaim name] = Inr ?te"
    by (simp add: newExtractor_def validateConfig_def bare_extractor_def no_claims_def first_failure_def Let_def nil[unfolded no_claims_def])
  have "TrimSpace name \<noteq> []" using assms(1) by (auto simp: validateRolesClaimName_def Let_def split: if_splits)
  with assms have "resolveClaims unmarshal ?te token claims [] = Inr (empty_map, None)"
    by (simp add: resolveClaims_def Let_def extractDeclared_def)
  moreover have "validateRolesClaimName ''Roles'' = None" by code_simp
  ultimately show ?thesis using te by (auto simp: bare_extractor_def)
qed

section \<open>Configurations\<close>

lemma options_of_config:
  "roles_name (buildClaimOptions c) defaultRolesClaim = config_rolesClaim c"
  "concat (map (cs_Optional \<circ> user_spec) (buildClaimOptions c)) = cs_Optional (ac_UserClaims c)"
  "concat (map (cs_Required \<circ> user_spec) (buildClaimOptions c)) = cs_Required (ac_UserClaims c)"
  "concat (map (cs_Optional \<circ> client_spec) (buildClaimOptions c)) = cs_Optional (ac_ClientClaims c)"
  "concat (map (cs_Required \<circ> client_spec) (buildClaimOptions c)) = cs_Required (ac_ClientClaims c)"
  by (auto simp: buildClaimOptions_def config_rolesClaim_def roles_name_def isZero_def no_claims_def)

lemma first_failure_None: "first_failure es = None \<longleftrightarrow> (\<forall>e \<in> set es. e = None)"
proof (induction es)
  case (Cons e es)
  then show ?case by (cases e) (simp_all add: first_failure_def)
qed (simp add: first_failure_def)

lemma HTTPURL_nonblank: "HTTPURL parseURI name v = None \<Longrightarrow> parseURI [] = None \<Longrightarrow> TrimSpace v \<noteq> []"
  by (auto simp: HTTPURL_def split: option.splits)

lemma reserved_name_Trim: "reserved_name (TrimSpace r) n = reserved_name r n"
  by (simp add: reserved_name_def foldClaimName_def)

lemma bare_extractor_simps:
  "te_jwksURL (bare_extractor url iss aud client) = TrimSpace url" "te_expIssuer (bare_extractor url iss aud client) = TrimSpace iss"
  "te_expAudience (bare_extractor url iss aud client) = TrimSpace aud" "te_httpClient (bare_extractor url iss aud client) = client"
  by (simp_all add: bare_extractor_def)

text \<open>Configuration, validation and construction agree: a configuration that \<open>Validate\<close> accepts, with an audience
  that is not blank, always builds a manager, which is healthy and whose extractor reads roles from the configured
  claim and declares exactly the configured names.\<close>

theorem validated_config_builds:
  assumes "config_Validate parseURI cfg = None" and "parseURI [] = None" and "\<not> is_blank (ac_Audience cfg)"
  shows "\<exists>te. authn_NewManager svc cfg = Inr \<lparr>am_userProfileService = svc, am_tokenExtractor = Some te\<rparr> \<and>
           authn_Health \<lparr>am_userProfileService = svc, am_tokenExtractor = Some te\<rparr> = None \<and>
           te_rolesClaim te = TrimSpace (config_rolesClaim cfg) \<and>
           map_of (te_userExtraClaims te) = map_of (spec_resolve (ac_UserClaims cfg)) \<and>
           map_of (te_clientExtraClaims te) = map_of (spec_resolve (ac_ClientClaims cfg))"
proof -
  let ?te = "fold apply_authn_option (buildClaimOptions cfg) (bare_extractor (ac_JWKSURL cfg) (ac_Issuer cfg) (ac_Audience cfg) True)"
  have claims: "te_rolesClaim ?te = config_rolesClaim cfg"
    "cs_Optional (te_userClaims ?te) = cs_Optional (ac_UserClaims cfg)" "cs_Required (te_userClaims ?te) = cs_Required (ac_UserClaims cfg)"
    "cs_Optional (te_clientClaims ?te) = cs_Optional (ac_ClientClaims cfg)" "cs_Required (te_clientClaims ?te) = cs_Required (ac_ClientClaims cfg)"
    using apply_options[of "buildClaimOptions cfg"] options_of_config[of cfg] by (simp_all add: bare_extractor_def no_claims_def)
  have urls: "HTTPURL parseURI ''jwksURL'' (ac_JWKSURL cfg) = None" "HTTPURL parseURI ''issuer'' (ac_Issuer cfg) = None"
    and valid: "validateRolesClaimName (config_rolesClaim cfg) = None"
      "\<forall>ns \<in> {cs_Optional (ac_UserClaims cfg), cs_Required (ac_UserClaims cfg), cs_Optional (ac_ClientClaims cfg), cs_Required (ac_ClientClaims cfg)}.
         \<forall>n \<in> set ns. \<not> is_blank n \<and> \<not> reserved_name (config_rolesClaim cfg) n"
    using assms(1) by (auto simp: config_Validate_def first_failure_None validateClaimNames_None split: if_splits option.splits)
  moreover have "TrimSpace (ac_JWKSURL cfg) \<noteq> []" "TrimSpace (ac_Issuer cfg) \<noteq> []" "TrimSpace (ac_Audience cfg) \<noteq> []"
    using HTTPURL_nonblank[OF urls(1) assms(2)] HTTPURL_nonblank[OF urls(2) assms(2)] assms(3) by (simp_all add: TrimSpace_Nil_iff)
  ultimately have ok: "validateConfig ?te = Inr (?te\<lparr>te_rolesClaim := TrimSpace (te_rolesClaim ?te),
      te_userExtraClaims := spec_resolve (te_userClaims ?te), te_clientExtraClaims := spec_resolve (te_clientClaims ?te)\<rparr>)"
    by (auto simp: validateConfig_def Let_def claims bare_extractor_simps first_failure_None validateClaimNames_None reserved_name_Trim split: option.splits)
  moreover have "map_of (spec_resolve (te_userClaims ?te)) = map_of (spec_resolve (ac_UserClaims cfg))"
    "map_of (spec_resolve (te_clientClaims ?te)) = map_of (spec_resolve (ac_ClientClaims cfg))"
    by (simp_all add: fun_eq_iff spec_resolve_map claims)
  ultimately show ?thesis
    by (simp add: authn_NewManager_def NewTokenExtractorWithClient_def newExtractor_def authn_Health_def claims)
qed

section \<open>The key-set endpoint\<close>

text \<open>C32. A key is used only if the provider published it under the identifier of the token, in a set younger than its
  lifetime at some moment of the call; whatever other requests do to the cache meanwhile, one token costs at most two
  fetches of the set, none when its key is in the valid cache, and none when it has no RSA method or no identifier.\<close>

theorem published_keys_only:
  assumes "jwks_ok env (aw_cache w)" and "others_ok env" and "te_jwksCacheTTL te > 0" and "keyFunc env te tok w = (res, w')"
  shows "(\<forall>k. res = Inr k \<longrightarrow> jt_SigningMethodRSA tok \<and> published env (aw_cache w') tok k \<and> young env te (aw_tick w) w') \<and>
         jwks_ok env (aw_cache w') \<and> length (aw_fetches w') \<le> length (aw_fetches w) + 2 \<and>
         (\<forall>kid r. jt_SigningMethodRSA tok \<and> jt_Header tok ''kid'' = Some (VStr kid) \<and> \<not> is_blank kid \<and>
            cacheValid (te_jwksCacheTTL te) (env_now env (aw_tick w)) (env_others env (aw_tick w) (aw_cache w)) \<and>
            key_of_kid kid (the (cachedJWKS (env_others env (aw_tick w) (aw_cache w)))) = Some r \<longrightarrow>
            res = r \<and> aw_fetches w' = aw_fetches w) \<and>
         (\<not> jt_SigningMethodRSA tok \<or> \<not> (\<exists>kid. jt_Header tok ''kid'' = Some (VStr kid) \<and> \<not> is_blank kid) \<longrightarrow> w' = w \<and> isl res)"
proof (intro conjI)
  show "\<forall>k. res = Inr k \<longrightarrow> jt_SigningMethodRSA tok \<and> published env (aw_cache w') tok k \<and> young env te (aw_tick w) w'"
    using keyFunc_published_key assms by blast
  show "jwks_ok env (aw_cache w')" "length (aw_fetches w') \<le> length (aw_fetches w) + 2"
    using keyFunc_keeps[OF assms(4,1,2)] by auto
  show "\<forall>kid r. jt_SigningMethodRSA tok \<and> jt_Header tok ''kid'' = Some (VStr kid) \<and> \<not> is_blank kid \<and>
            cacheValid (te_jwksCacheTTL te) (env_now env (aw_tick w)) (env_others env (aw_tick w) (aw_cache w)) \<and>
            key_of_kid kid (the (cachedJWKS (env_others env (aw_tick w) (aw_cache w)))) = Some r \<longrightarrow>
            res = r \<and> aw_fetches w' = aw_fetches w"
  proof (intro allI impI)
    fix kid r assume a: "jt_SigningMethodRSA tok \<and> jt_Header tok ''kid'' = Some (VStr kid) \<and> \<not> is_blank kid \<and>
      cacheValid (te_jwksCacheTTL te) (env_now env (aw_tick w)) (env_others env (aw_tick w) (aw_cache w)) \<and>
      key_of_kid kid (the (cachedJWKS (env_others env (aw_tick w) (aw_cache w)))) = Some r"
    from keyFunc_no_fetch[of te env w tok kid r] a assms(4) show "res = r \<and> aw_fetches w' = aw_fetches w" by auto
  qed
  show "\<not> jt_SigningMethodRSA tok \<or> \<not> (\<exists>kid. jt_Header tok ''kid'' = Some (VStr kid) \<and> \<not> is_blank kid) \<longrightarrow> w' = w \<and> isl res"
    using keyFunc_refused[of tok env te w] assms(4) by auto
qed

end
