(* ===== verification/Authn_Samples.thy ===== *)
theory Authn_Samples
  imports Authn_Config_Props
begin

text \<open>
  A service with one identity provider and one key, a token with two scopes, and the properties of authentication and
  authorization applied to them.
\<close>

section \<open>The provider and the token\<close>

definition idp_key :: jwk where
  "idp_key = \<lparr>jk_Kid = ''k1'', jk_Kty = ''RSA'', jk_Alg = ''RS256'', jk_Use = ''sig'', jk_N = ''Bw'', jk_E = ''Aw''\<rparr>"

definition idp_env :: auth_env where
  "idp_env = \<lparr>env_now = (\<lambda>n. seconds (int n)), env_reply = (\<lambda>_. Response 200 (Some [idp_key])), env_others = (\<lambda>_ c. c)\<rparr>"

definition start :: http_world where
  "start = \<lparr>aw_cache = \<lparr>cachedJWKS = None, lastJWKSFetch = 0\<rparr>, aw_tick = 0, aw_fetches = [], hw_profiles = []\<rparr>"

definition demo_token :: string where "demo_token = ''e30.e30.c2ln''"

definition demo_payload :: vars where
  "demo_payload = [''roles'' \<mapsto> VList [VStr '' Trader ''], ''email'' \<mapsto> VStr '' a@b.lk ''] (''dept'' \<mapsto> VStr ''x'')"

definition demo_claims :: tokenClaims where
  "demo_claims = \<lparr>rc_Issuer = ''https://idp'', rc_Subject = ''u1'', rc_Audience = [''app''], rc_ExpiresAt = Some (seconds 3600),
     tc_ClientID = ''web'', tc_GrantType = ''authorization_code'', tc_Roles = VList [VStr '' Trader ''],
     tc_Scopes = Some [''tasks:read'', ''tasks:write'']\<rparr>"

definition demo_unmarshal :: "byte list \<Rightarrow> autherr + vars" where "demo_unmarshal _ = Inr demo_payload"

definition demo_jwt :: jwt_token where
  "demo_jwt = \<lparr>jt_Alg = ''RS256'', jt_SigningMethodRSA = True, jt_Header = [''kid'' \<mapsto> VStr ''k1'']\<rparr>"

definition demo_clock :: "auth_world \<Rightarrow> int" where "demo_clock w = seconds (int (aw_tick w))"

definition demo_verifies :: "string \<Rightarrow> string \<Rightarrow> PublicKey \<Rightarrow> tokenClaims \<Rightarrow> bool" where
  "demo_verifies token alg k claims \<longleftrightarrow> token = demo_token \<and> alg = ''RS256'' \<and> pk_E k = 3 \<and> claims = demo_claims"

text \<open>A parser that knows one signed token.\<close>

definition demo_parse :: jwt_parser where
  "demo_parse token opts kf w =
     (case kf demo_jwt w of
        (Inl e, w') \<Rightarrow> (Inl e, w')
      | (Inr k, w') \<Rightarrow>
          if token = demo_token \<and> pk_E k = 3 \<and> ''RS256'' \<in> set (po_ValidMethods opts) \<and> po_Issuer opts = ''https://idp'' \<and>
             po_Audience opts = ''app'' \<and> demo_clock w' < seconds 3600 + po_Leeway opts
          then (Inr (demo_claims, True), w') else (Inl (AuthErr ''signature is invalid''), w'))"

lemma demo_library: "jwt_library demo_clock demo_verifies demo_parse"
  unfolding jwt_library_def
proof (intro allI)
  fix token opts kf w
  show "case demo_parse token opts kf w of
           (Inl e, w') \<Rightarrow> w' = w \<or> (\<exists>tok. w' = snd (kf tok w))
         | (Inr (claims, valid), w') \<Rightarrow>
             (\<exists>tok k. kf tok w = (Inr k, w') \<and>
                (valid \<longrightarrow> jt_Alg tok \<in> set (po_ValidMethods opts) \<and> demo_verifies token (jt_Alg tok) k claims \<and>
                   rc_Issuer claims = po_Issuer opts \<and> po_Audience opts \<in> set (rc_Audience claims) \<and>
                   (\<forall>e. rc_ExpiresAt claims = Some e \<longrightarrow> demo_clock w' < e + po_Leeway opts)))"
  proof (cases "kf demo_jwt w")
    case (Pair r w')
    have alg: "jt_Alg demo_jwt = ''RS256''" by (simp add: demo_jwt_def)
    have ran: "\<exists>tok. w' = snd (kf tok w)" using Pair by (intro exI[of _ demo_jwt]) simp
    show ?thesis
    proof (cases r)
      case (Inr k)
      with Pair have "kf demo_jwt w = (Inr k, w')" by simp
      with Pair Inr ran alg show ?thesis
        by (auto simp: demo_parse_def demo_verifies_def demo_claims_def intro!: exI[of _ demo_jwt])
    qed (use Pair ran in \<open>auto simp: demo_parse_def\<close>)
  qed
qed

lemma demo_others: "others_ok idp_env"
  by (simp add: others_ok_def idp_env_def)

lemma demo_start: "jwks_ok idp_env (aw_cache start)"
  by (simp add: jwks_ok_def start_def)

definition demo_config :: AuthnConfig where
  "demo_config = \<lparr>ac_JWKSURL = ''https://idp/jwks'', ac_Issuer = '' https://idp'', ac_Audience = ''app'', ac_InsecureSkipTLSVerify = False,
     ac_UserClaims = \<lparr>cs_Optional = [''phone''], cs_Required = [''email'']\<rparr>, ac_ClientClaims = no_claims, ac_RolesClaim = []\<rparr>"

definition demo_options :: "Option list" where
  "demo_options = [WithUserClaims \<lparr>cs_Optional = [''phone''], cs_Required = [''email'']\<rparr>]"

definition demo_extractor :: TokenExtractor where
  "demo_extractor = projr (newExtractor ''https://idp/jwks'' '' https://idp'' ''app'' True demo_options)"

definition demo_manager :: authn_Manager where
  "demo_manager = \<lparr>am_userProfileService = None, am_tokenExtractor = Some demo_extractor\<rparr>"

definition demo_gate :: "http_handler \<Rightarrow> http_handler" where
  "demo_gate = the (RequireScope (Some \<lparr>az_extract = Some context_extractor\<rparr>) ''tasks:read'')"

definition ok_handler :: http_handler where
  "ok_handler r w = (\<lparr>rs_status = 200, rs_error = [], rs_message = []\<rparr>, w)"

definition demo_request :: http_request where
  "demo_request = \<lparr>rq_Authorization = ''bearer '' @ demo_token, rq_AuthContext = None\<rparr>"

lemma demo_extractor_eq: "newExtractor ''https://idp/jwks'' '' https://idp'' ''app'' True demo_options = Inr demo_extractor"
proof -
  have "\<not> isl (newExtractor ''https://idp/jwks'' '' https://idp'' ''app'' True demo_options)" by code_simp
  then show ?thesis by (simp add: demo_extractor_def)
qed

lemma demo_manager_eq: "authn_NewManager None demo_config = Inr demo_manager"
  using demo_extractor_eq
  by (simp add: authn_NewManager_def demo_config_def demo_manager_def demo_options_def NewTokenExtractorWithClient_def
      buildClaimOptions_def isZero_def no_claims_def)

lemma demo_reached: "rs_status (fst (RequireAuthMiddleware demo_parse demo_unmarshal idp_env demo_manager (demo_gate ok_handler) demo_request start)) = 200"
  by code_simp

section \<open>Witnesses\<close>

theorem gated_request_authorized_witness:
  "rs_status (fst (RequireAuthMiddleware demo_parse demo_unmarshal idp_env demo_manager (demo_gate ok_handler) demo_request start)) = 200 \<and>
   (\<exists>token claims w'. bearer_token (rq_Authorization demo_request) = Inr token \<and>
      token_accepted demo_clock demo_verifies idp_env demo_extractor w' token claims \<and> ''tasks:read'' \<in> set (granted (tc_Scopes claims)))"
proof -
  have gate: "RequireScope (Some \<lparr>az_extract = Some context_extractor\<rparr>) ''tasks:read'' = Some demo_gate"
    by (simp add: demo_gate_def RequireScope_def authz_require_def)
  have "authz_New (Some context_extractor) = Inr \<lparr>az_extract = Some context_extractor\<rparr>" by (simp add: authz_New_def)
  moreover have "rq_AuthContext demo_request = None" by (simp add: demo_request_def)
  ultimately show ?thesis
    using gated_request_authorized[OF demo_library demo_start demo_others demo_manager_eq _ gate,
        where r = demo_request and h = ok_handler and unmarshal = demo_unmarshal] demo_reached
    by (fastforce simp: demo_manager_def)
qed

definition other_options :: "Option list" where
  "other_options = [WithUserClaims \<lparr>cs_Optional = [''phone''], cs_Required = [''email'']\<rparr>, WithRolesClaim ''groups'',
     WithUserClaims \<lparr>cs_Optional = [''email'', ''ouId''], cs_Required = []\<rparr>]"

theorem option_order_irrelevant_witness:
  "\<exists>te te'. newExtractor ''u'' ''i'' ''a'' True other_options = Inr te \<and> newExtractor ''u'' ''i'' ''a'' True (rev other_options) = Inr te' \<and>
     te_userClaims te \<noteq> te_userClaims te' \<and>
     ExtractPrincipalFromHeader demo_parse demo_unmarshal idp_env te = ExtractPrincipalFromHeader demo_parse demo_unmarshal idp_env te'"
proof -
  have "\<not> isl (newExtractor ''u'' ''i'' ''a'' True other_options)" by code_simp
  then obtain te where te: "newExtractor ''u'' ''i'' ''a'' True other_options = Inr te" by (cases "newExtractor ''u'' ''i'' ''a'' True other_options") auto
  have "mset other_options = mset (rev other_options)" by simp
  moreover have "filter (\<lambda>op. roles_option op \<noteq> None) other_options = filter (\<lambda>op. roles_option op \<noteq> None) (rev other_options)"
    by (simp add: other_options_def)
  ultimately obtain te' where te': "newExtractor ''u'' ''i'' ''a'' True (rev other_options) = Inr te'"
    "ExtractPrincipalFromHeader demo_parse demo_unmarshal idp_env te = ExtractPrincipalFromHeader demo_parse demo_unmarshal idp_env te'"
    using option_order_irrelevant[of other_options "rev other_options" "''u''" "''i''" "''a''" True demo_parse demo_unmarshal idp_env] te by auto
  have "cs_Optional (te_userClaims (projr (newExtractor ''u'' ''i'' ''a'' True other_options))) \<noteq>
        cs_Optional (te_userClaims (projr (newExtractor ''u'' ''i'' ''a'' True (rev other_options))))" by code_simp
  with te te' show ?thesis by auto
qed

lemma demo_payload_eq: "decodeJWTPayload demo_unmarshal demo_token = Inr demo_payload"
proof -
  have "\<not> isl (decodeJWTPayload demo_unmarshal demo_token)" by code_simp
  then show ?thesis by (auto simp: decodeJWTPayload_def demo_unmarshal_def Let_def split: if_splits option.splits)
qed

definition demo_principal :: Principal where
  "demo_principal = projr (principal_of_claims demo_unmarshal demo_extractor demo_token demo_claims)"

lemma demo_principal_eq: "principal_of_claims demo_unmarshal demo_extractor demo_token demo_claims = Inr demo_principal"
proof -
  have "\<not> isl (principal_of_claims demo_unmarshal demo_extractor demo_token demo_claims)" by code_simp
  then show ?thesis by (simp add: demo_principal_def)
qed


theorem mistyped_roles_claim_silent_witness:
  "\<exists>te. newExtractor ''u'' ''i'' ''a'' True [WithRolesClaim ''Roles''] = Inr te \<and>
     resolveClaims demo_unmarshal te demo_token demo_claims [] = Inr (empty_map, None) \<and> tc_Roles demo_claims \<noteq> VNull"
proof -
  have t: "TrimSpace ''Roles'' = ''Roles''" "TrimSpace ''u'' \<noteq> []" "TrimSpace ''i'' \<noteq> []" "TrimSpace ''a'' \<noteq> []" by code_simp+
  have v: "validateRolesClaimName ''Roles'' = None" by code_simp
  obtain te where te: "newExtractor ''u'' ''i'' ''a'' True [WithRolesClaim ''Roles''] = Inr te"
    "resolveClaims demo_unmarshal te demo_token demo_claims (te_userExtraClaims te) = Inr (empty_map, None)"
    using mistyped_roles_claim_silent[OF v _ t(2-4) demo_payload_eq, of demo_claims]
    by (auto simp: t(1) defaultRolesClaim_def demo_payload_def)
  have "te_userExtraClaims (projr (newExtractor ''u'' ''i'' ''a'' True [WithRolesClaim ''Roles''])) = []" by code_simp
  with te show ?thesis by (auto simp: demo_claims_def)
qed

definition demo_parseURI :: "string \<Rightarrow> (string \<times> string) option" where
  "demo_parseURI s = (if has_prefix s ''https://'' then Some (''https'', drop 8 s) else None)"

theorem validated_config_builds_witness:
  "\<exists>te. authn_NewManager None demo_config = Inr \<lparr>am_userProfileService = None, am_tokenExtractor = Some te\<rparr> \<and> te_rolesClaim te = ''roles''"
proof -
  have "config_Validate demo_parseURI demo_config = None" "demo_parseURI [] = None" "\<not> is_blank (ac_Audience demo_config)"
    "TrimSpace (config_rolesClaim demo_config) = ''roles''"
    by code_simp+
  then show ?thesis using validated_config_builds[of demo_parseURI demo_config None] by auto
qed

theorem published_keys_only_witness:
  "\<exists>k w'. keyFunc idp_env demo_extractor demo_jwt (auth_world.truncate start) = (Inr k, w') \<and> published idp_env (aw_cache w') demo_jwt k \<and>
     length (aw_fetches w') = 1"
proof -
  obtain res w' where run: "keyFunc idp_env demo_extractor demo_jwt (auth_world.truncate start) = (res, w')"
    by (cases "keyFunc idp_env demo_extractor demo_jwt (auth_world.truncate start)")
  have "\<not> isl (fst (keyFunc idp_env demo_extractor demo_jwt (auth_world.truncate start)))"
    "length (aw_fetches (snd (keyFunc idp_env demo_extractor demo_jwt (auth_world.truncate start)))) = 1"
    "te_jwksCacheTTL demo_extractor > 0" by code_simp+
  moreover have "jwks_ok idp_env (aw_cache (auth_world.truncate start))" using demo_start by (simp add: truncate_cache)
  ultimately show ?thesis
    using published_keys_only[OF _ demo_others _ run] run by (cases res) auto
qed

end
