(* ===== verification/Remote_Auth.thy ===== *)
theory Remote_Auth
  imports Json_Value Go_Text Base64url
begin

text \<open>
  Package \<open>remote/auth\<close>: the strategies that authenticate outbound requests (\<open>apikey.go\<close>, \<open>bearer.go\<close>,
  \<open>oauth2.go\<close>) and their configuration (\<open>build.go\<close>). An OAuth2 authenticator caches its token; it is referred to by an
  address, and the store \<open>rw_oauth\<close> holds the token and expiry at each address. The environment \<open>remote_env\<close> answers
  each step of the outside world: the clock, the token endpoints and the services. Header names are canonical in lower
  case. What is sent is logged. Times are nanoseconds; durations are 64-bit and wrap.
\<close>

datatype rerr =
    RemErr string
  | RemErrOf string string
  | RWrap string rerr
  | ErrRequestFailed
  | ErrTimeout
  | ErrServiceUnavailable
  | ErrUnauthorized
  | ErrBadRequest
  | ErrNotFound
  | RemoteError int string rerr
  | Panic string

section \<open>Headers and form encoding\<close>

definition token_char :: "char \<Rightarrow> bool" where
  "token_char c \<longleftrightarrow> c \<in> set ''ABCDEFGHIJKLMNOPQRSTUVWXYZabcdefghijklmnopqrstuvwxyz0123456789!#$%&*+-.^_`|~'' \<or> c = CHR 0x27"

text \<open>\<open>http.Header.Set\<close>: names of token characters are canonicalized, others are kept.\<close>

definition canonical_name :: "string \<Rightarrow> string" where
  "canonical_name k = (if list_all token_char k then ToLower k else k)"

type_synonym http_header = "string \<Rightarrow> string option"

definition header_Set :: "string \<Rightarrow> string \<Rightarrow> http_header \<Rightarrow> http_header" where
  "header_Set k v h = h(canonical_name k \<mapsto> v)"

definition upper_hex :: "nat \<Rightarrow> char" where
  "upper_hex n = ''0123456789ABCDEF'' ! n"

definition byte_of :: "char \<Rightarrow> nat" where
  "byte_of c = of_char c"

definition escape_char :: "char \<Rightarrow> string" where
  "escape_char c =
     (if c \<in> set ''ABCDEFGHIJKLMNOPQRSTUVWXYZabcdefghijklmnopqrstuvwxyz0123456789-_.~'' then [c]
      else if c = CHR '' '' then ''+''
      else [CHR ''%'', upper_hex (byte_of c div 16), upper_hex (byte_of c mod 16)])"

definition QueryEscape :: "string \<Rightarrow> string" where
  "QueryEscape s = concat (map escape_char s)"

type_synonym url_values = "(string \<times> string list) list"

text \<open>\<open>url.Values.Encode\<close>: the pairs, sorted by key.\<close>

definition values_Encode :: "url_values \<Rightarrow> string" where
  "values_Encode vs =
     join_with ''&'' (concat (map (\<lambda>(k, xs). map (\<lambda>x. QueryEscape k @ ''='' @ QueryEscape x) xs) (sorted_entries vs)))"

text \<open>\<open>base64.StdEncoding\<close>, as \<open>SetBasicAuth\<close> uses it.\<close>

definition b64_std_char :: "nat \<Rightarrow> char" where
  "b64_std_char n = (if n = 62 then CHR ''+'' else if n = 63 then CHR ''/'' else b64_char n)"

definition b64_std :: "string \<Rightarrow> string" where
  "b64_std s =
     (let bs = map (\<lambda>c. to_byte (byte_of c)) s; cs = map b64_std_char (sextets bs)
      in cs @ replicate ((4 - length cs mod 4) mod 4) (CHR ''=''))"

section \<open>Outbound requests and the outside world\<close>

record out_request =
  or_Method :: string
  or_URL :: string
  or_Body :: "string option"
  or_Headers :: http_header

record http_reply =
  hr_StatusCode :: int
  hr_Status :: string
  hr_Body :: string

record token_response =
  tr_AccessToken :: string
  tr_ExpiresIn :: int

text \<open>A reply of a token endpoint: no response, or a status with the token response and the error response its body
  decodes to.\<close>

datatype token_reply =
    Token_Failed string
  | Token_Reply int "token_response option" "(string \<times> string) option"

record remote_env =
  re_now :: "nat \<Rightarrow> int"
  re_token :: "nat \<Rightarrow> out_request \<Rightarrow> token_reply"
  re_do :: "nat \<Rightarrow> out_request \<Rightarrow> string + http_reply"
  re_ctx :: "nat \<Rightarrow> rerr option"
  re_parse :: "string \<Rightarrow> (string \<times> string) option"
  re_request :: "string \<Rightarrow> string \<Rightarrow> bool"

record oauth_state =
  os_accessToken :: string
  os_expiry :: int

datatype sent = Sent_Token out_request | Sent_Service out_request

record rworld =
  rw_oauth :: "nat \<Rightarrow> oauth_state"
  rw_fresh :: nat
  rw_tick :: nat
  rw_sent :: "sent list"
  rw_waits :: "int list"

definition tick :: "rworld \<Rightarrow> rworld" where
  "tick w = w\<lparr>rw_tick := Suc (rw_tick w)\<rparr>"

definition log_sent :: "sent \<Rightarrow> rworld \<Rightarrow> rworld" where
  "log_sent s w = w\<lparr>rw_sent := rw_sent w @ [s]\<rparr>"

section \<open>OAuth2 client credentials\<close>

definition reservedEndpointParams :: "string list" where
  "reservedEndpointParams = [''grant_type'', ''scope'', ''client_id'', ''client_secret'']"

definition endpointParams_validate :: "url_values \<Rightarrow> rerr option" where
  "endpointParams_validate p =
     map_option (\<lambda>key. RemErrOf key ''it is set by the client-credentials flow'')
       (find (\<lambda>key. map_of p key \<noteq> None) reservedEndpointParams)"

text \<open>A value of \<open>EndpointParams\<close> is a string or an array of strings. The JSON decoder first tries a string, which null
  would pass, then an array; the YAML decoder switches on the decoded type.\<close>

fun json_elements :: "jval list \<Rightarrow> rerr + string list" where
  "json_elements [] = Inr []"
| "json_elements (v # vs) =
     (if is_nil v then Inl (RemErr ''must be a string or an array of strings, not null'')
      else case as_str v of
        None \<Rightarrow> Inl (RemErr ''must be a string or an array of strings'')
      | Some s \<Rightarrow> (case json_elements vs of Inl e \<Rightarrow> Inl e | Inr ss \<Rightarrow> Inr (s # ss)))"

definition decodeEndpointParamValue :: "jval \<Rightarrow> rerr + string list" where
  "decodeEndpointParamValue v =
     (if is_nil v then Inl (RemErr ''must be a string or an array of strings, not null'')
      else case as_str v of
        Some single \<Rightarrow> Inr [single]
      | None \<Rightarrow>
          (case as_list v of
             None \<Rightarrow> Inl (RemErr ''must be a string or an array of strings'')
           | Some elements \<Rightarrow> json_elements elements))"

fun yaml_elements :: "jval list \<Rightarrow> rerr + string list" where
  "yaml_elements [] = Inr []"
| "yaml_elements (v # vs) =
     (case v of
        VNull \<Rightarrow> Inl (RemErr ''must be a string or an array of strings, not null'')
      | VStr s \<Rightarrow> (case yaml_elements vs of Inl e \<Rightarrow> Inl e | Inr ss \<Rightarrow> Inr (s # ss))
      | _ \<Rightarrow> Inl (RemErr ''must be a string or an array of strings''))"

definition endpointParamValues :: "jval \<Rightarrow> rerr + string list" where
  "endpointParamValues v =
     (case v of
        VNull \<Rightarrow> Inl (RemErr ''must be a string or an array of strings, not null'')
      | VStr s \<Rightarrow> Inr [s]
      | VList vs \<Rightarrow> yaml_elements vs
      | _ \<Rightarrow> Inl (RemErr ''must be a string or an array of strings''))"

text \<open>The loop of the two unmarshallers over the entries of the decoded map.\<close>

fun param_entries :: "(jval \<Rightarrow> rerr + string list) \<Rightarrow> (string \<times> jval) list \<Rightarrow> rerr + url_values" where
  "param_entries f [] = Inr []"
| "param_entries f ((key, v) # raw) =
     (case f v of
        Inl e \<Rightarrow> Inl (RWrap key e)
      | Inr ss \<Rightarrow> (case param_entries f raw of Inl e \<Rightarrow> Inl e | Inr out \<Rightarrow> Inr ((key, ss) # out)))"

definition params_UnmarshalJSON :: "(string \<times> jval) list \<Rightarrow> rerr + url_values" where
  "params_UnmarshalJSON raw = param_entries decodeEndpointParamValue raw"

definition params_UnmarshalYAML :: "(string \<times> jval) list \<Rightarrow> rerr + url_values" where
  "params_UnmarshalYAML raw = param_entries endpointParamValues raw"

text \<open>Both formats accept the same settings.\<close>

lemma json_yaml_elements: "json_elements vs = yaml_elements vs"
proof (induction vs)
  case (Cons v vs)
  then show ?case by (cases v) auto
qed simp

lemma params_json_yaml: "params_UnmarshalJSON raw = params_UnmarshalYAML raw"
proof -
  have "decodeEndpointParamValue v = endpointParamValues v" for v
    by (cases v) (auto simp: decodeEndpointParamValue_def endpointParamValues_def json_yaml_elements)
  then have "decodeEndpointParamValue = endpointParamValues" by (rule ext)
  then show ?thesis by (simp add: params_UnmarshalJSON_def params_UnmarshalYAML_def)
qed

record OAuth2 =
  oa_tokenURL :: string
  oa_clientID :: string
  oa_clientSecret :: string
  oa_scopes :: "string list"
  oa_endpointParams :: url_values
  oa_insecureSkipTLSVerify :: bool

definition NewOAuth2 :: "string \<Rightarrow> string \<Rightarrow> string \<Rightarrow> string list \<Rightarrow> url_values \<Rightarrow> OAuth2" where
  "NewOAuth2 tokenURL clientID clientSecret scopes params =
     \<lparr>oa_tokenURL = tokenURL, oa_clientID = clientID, oa_clientSecret = clientSecret, oa_scopes = scopes,
      oa_endpointParams = params, oa_insecureSkipTLSVerify = False\<rparr>"

definition SetInsecureSkipTLSVerify :: "bool \<Rightarrow> OAuth2 \<Rightarrow> OAuth2" where
  "SetInsecureSkipTLSVerify skip a = a\<lparr>oa_insecureSkipTLSVerify := skip\<rparr>"

text \<open>The body of the token request: the grant, the scopes when there are any, and then the endpoint parameters.\<close>

definition token_form :: "OAuth2 \<Rightarrow> url_values" where
  "token_form a =
     oa_endpointParams a @
     (if oa_scopes a \<noteq> [] then [(''scope'', [join_with '' '' (oa_scopes a)])] else []) @
     [(''grant_type'', [''client_credentials''])]"

definition token_request :: "OAuth2 \<Rightarrow> out_request" where
  "token_request a =
     \<lparr>or_Method = ''POST'', or_URL = oa_tokenURL a, or_Body = Some (values_Encode (token_form a)),
      or_Headers =
        header_Set ''Authorization'' (''Basic '' @ b64_std (QueryEscape (oa_clientID a) @ '':'' @ QueryEscape (oa_clientSecret a)))
          (header_Set ''Content-Type'' ''application/x-www-form-urlencoded'' (\<lambda>_. None))\<rparr>"

definition oauthErrorDetail :: "(string \<times> string) option \<Rightarrow> string" where
  "oauthErrorDetail body =
     (case body of
        None \<Rightarrow> []
      | Some (err, description) \<Rightarrow>
          if err = [] then [] else if description = [] then '': '' @ err else '': '' @ err @ '': '' @ description)"

text \<open>\<open>time.Duration(n) * time.Second\<close>.\<close>

definition duration_seconds :: "int \<Rightarrow> int" where
  "duration_seconds n = sint (word_of_int (n * 1000000000) :: 64 word)"

definition minute :: int where "minute = 60 * 1000000000"

definition refreshToken :: "remote_env \<Rightarrow> OAuth2 \<Rightarrow> rworld \<Rightarrow> (rerr + string \<times> int) \<times> rworld" where
  "refreshToken env a w =
     (case endpointParams_validate (oa_endpointParams a) of
        Some e \<Rightarrow> (Inl e, w)
      | None \<Rightarrow>
          if \<not> re_request env ''POST'' (oa_tokenURL a) then (Inl (RemErr ''failed to create token request''), w)
          else let w1 = log_sent (Sent_Token (token_request a)) (tick w)
            in case re_token env (rw_tick w) (token_request a) of
                 Token_Failed e \<Rightarrow> (Inl (RemErrOf e ''token request failed''), w1)
               | Token_Reply status body err \<Rightarrow>
                   if status \<noteq> 200 then (Inl (RemErrOf (oauthErrorDetail err) ''token request returned status''), w1)
                   else (case body of
                       None \<Rightarrow> (Inl (RemErr ''failed to decode token response''), w1)
                     | Some r \<Rightarrow>
                         if tr_AccessToken r = [] then (Inl (RemErr ''token response contained no access token''), w1)
                         else (Inr (tr_AccessToken r, re_now env (rw_tick w1) + duration_seconds (tr_ExpiresIn r)), tick w1)))"

definition getToken :: "remote_env \<Rightarrow> OAuth2 \<Rightarrow> nat \<Rightarrow> rworld \<Rightarrow> (rerr + string) \<times> rworld" where
  "getToken env a addr w =
     (let s = rw_oauth w addr
      in if os_accessToken s \<noteq> [] \<and> re_now env (rw_tick w) + minute < os_expiry s then (Inr (os_accessToken s), tick w)
         else case refreshToken env a (tick w) of
           (Inl e, w1) \<Rightarrow> (Inl e, w1)
         | (Inr (token, expiry), w1) \<Rightarrow>
             (Inr token, w1\<lparr>rw_oauth := (rw_oauth w1)(addr := \<lparr>os_accessToken = token, os_expiry = expiry\<rparr>)\<rparr>))"

section \<open>Authenticators\<close>

datatype Authenticator = APIKey string string | Bearer string | OAuth2_at OAuth2 nat

definition apikey_Apply :: "string \<Rightarrow> string \<Rightarrow> out_request \<Rightarrow> out_request" where
  "apikey_Apply key v req = req\<lparr>or_Headers := header_Set key v (or_Headers req)\<rparr>"

definition bearer_Apply :: "string \<Rightarrow> out_request \<Rightarrow> out_request" where
  "bearer_Apply token req = req\<lparr>or_Headers := header_Set ''Authorization'' (''Bearer '' @ token) (or_Headers req)\<rparr>"

definition oauth2_Apply :: "remote_env \<Rightarrow> OAuth2 \<Rightarrow> nat \<Rightarrow> out_request \<Rightarrow> rworld \<Rightarrow> (rerr + out_request) \<times> rworld" where
  "oauth2_Apply env a addr req w =
     (case getToken env a addr w of
        (Inl e, w') \<Rightarrow> (Inl (RWrap ''remote/auth: oauth2 failed'' e), w')
      | (Inr token, w') \<Rightarrow> (Inr (req\<lparr>or_Headers := header_Set ''Authorization'' (''Bearer '' @ token) (or_Headers req)\<rparr>), w'))"

text \<open>The method of the interface \<open>Authenticator\<close>.\<close>

definition auth_Apply :: "remote_env \<Rightarrow> Authenticator \<Rightarrow> out_request \<Rightarrow> rworld \<Rightarrow> (rerr + out_request) \<times> rworld" where
  "auth_Apply env a req w =
     (case a of
        APIKey key v \<Rightarrow> (Inr (apikey_Apply key v req), w)
      | Bearer token \<Rightarrow> (Inr (bearer_Apply token req), w)
      | OAuth2_at o2 addr \<Rightarrow> oauth2_Apply env o2 addr req w)"

lemmas auth_Apply_defs = auth_Apply_def apikey_Apply_def bearer_Apply_def oauth2_Apply_def

record OAuth2Config =
  oc_TokenURL :: string
  oc_ClientID :: string
  oc_ClientSecret :: string
  oc_Scopes :: "string list"
  oc_InsecureSkipTLSVerify :: bool
  oc_EndpointParams :: url_values

record auth_Config =
  ag_Type :: string
  ag_APIKey :: "(string \<times> string) option"
  ag_Bearer :: "string option"
  ag_OAuth2 :: "OAuth2Config option"

datatype strategy = S_APIKey string string | S_Bearer string | S_OAuth2 OAuth2Config

definition count_set :: "bool list \<Rightarrow> nat" where
  "count_set bs = length (filter id bs)"

definition config_strategy :: "auth_Config \<Rightarrow> rerr + strategy" where
  "config_strategy c =
     (let set_blocks = count_set [ag_APIKey c \<noteq> None, ag_Bearer c \<noteq> None, ag_OAuth2 c \<noteq> None];
          missing = Inl (RemErrOf (ag_Type c) ''missing settings for auth type'')
      in if ag_Type c = ''apiKey'' \<or> ag_Type c = ''bearer'' \<or> ag_Type c = ''oauth2''
         then let s = (if ag_Type c = ''apiKey'' then map_option (\<lambda>(k, v). S_APIKey k v) (ag_APIKey c)
                       else if ag_Type c = ''bearer'' then map_option S_Bearer (ag_Bearer c)
                       else map_option S_OAuth2 (ag_OAuth2 c))
           in case s of
                None \<Rightarrow> missing
              | Some strategy \<Rightarrow>
                  if set_blocks > 1 then Inl (RemErrOf (ag_Type c) ''must set only its own settings'') else Inr strategy
         else if ag_Type c = [] then Inl (RemErr ''missing auth type'')
         else Inl (RemErrOf (ag_Type c) ''unsupported auth type''))"

text \<open>\<open>build\<close> of the settings: an OAuth2 authenticator starts without a token, at a fresh address.\<close>

definition OAuth2Config_build :: "OAuth2Config \<Rightarrow> rworld \<Rightarrow> (rerr + Authenticator) \<times> rworld" where
  "OAuth2Config_build c w =
     (case endpointParams_validate (oc_EndpointParams c) of
        Some e \<Rightarrow> (Inl (RWrap ''oauth2'' e), w)
      | None \<Rightarrow>
          (Inr (OAuth2_at (SetInsecureSkipTLSVerify (oc_InsecureSkipTLSVerify c)
              (NewOAuth2 (oc_TokenURL c) (oc_ClientID c) (oc_ClientSecret c) (oc_Scopes c) (oc_EndpointParams c))) (rw_fresh w)),
           w\<lparr>rw_fresh := Suc (rw_fresh w), rw_oauth := (rw_oauth w)(rw_fresh w := \<lparr>os_accessToken = [], os_expiry = 0\<rparr>)\<rparr>))"

definition strategy_build :: "strategy \<Rightarrow> rworld \<Rightarrow> (rerr + Authenticator) \<times> rworld" where
  "strategy_build s w =
     (case s of
        S_APIKey k v \<Rightarrow> (Inr (APIKey k v), w)
      | S_Bearer t \<Rightarrow> (Inr (Bearer t), w)
      | S_OAuth2 c \<Rightarrow> OAuth2Config_build c w)"

lemmas strategy_build_defs = strategy_build_def OAuth2Config_build_def

definition auth_Build :: "auth_Config \<Rightarrow> rworld \<Rightarrow> (rerr + Authenticator) \<times> rworld" where
  "auth_Build c w = (case config_strategy c of Inl e \<Rightarrow> (Inl e, w) | Inr s \<Rightarrow> strategy_build s w)"

end
