(* ===== verification/Remote_Client.thy ===== *)
theory Remote_Client
  imports Remote_Auth
begin

text \<open>
  Package \<open>remote\<close>: request bodies (\<open>body.go\<close>, \<open>multipart.go\<close>), the client with its retries (\<open>client.go\<close>,
  \<open>options.go\<close>, \<open>errors.go\<close>) and the registry of services (\<open>manager.go\<close>). A call that dereferences a nil response, or
  builds a client without a base URL, panics: \<open>Panic\<close>. The pair of a nil response and a nil error is \<open>Inr None\<close>.
\<close>

section \<open>Multipart bodies\<close>

definition crlf :: string where "crlf = [CHR 0x0D, CHR 0x0A]"

definition quote_char :: "char \<Rightarrow> string" where
  "quote_char c =
     (if c = CHR 0x5C then [CHR 0x5C, CHR 0x5C]
      else if c = CHR 0x22 then [CHR 0x5C, CHR 0x22]
      else if c = CHR 0x0D then ''%0D''
      else if c = CHR 0x0A then ''%0A''
      else [c])"

definition quoteEscaper :: "string \<Rightarrow> string" where
  "quoteEscaper s = concat (map quote_char s)"

definition hasControlChars :: "string \<Rightarrow> bool" where
  "hasControlChars v = list_ex (\<lambda>c. byte_of c < 32 \<or> c = CHR 0x7F) v"

record Part =
  pt_Name :: string
  pt_FileName :: string
  pt_ContentType :: string
  pt_Content :: string

definition JSONPart :: "('v \<Rightarrow> rerr + string) \<Rightarrow> string \<Rightarrow> 'v \<Rightarrow> rerr + Part" where
  "JSONPart marshal name v =
     (case marshal v of
        Inl e \<Rightarrow> Inl (RWrap name e)
      | Inr data \<Rightarrow> Inr \<lparr>pt_Name = name, pt_FileName = [], pt_ContentType = ''application/json; charset=UTF-8'', pt_Content = data\<rparr>)"

definition dquote :: string where "dquote = [CHR 0x22]"

definition part_disposition :: "Part \<Rightarrow> string" where
  "part_disposition p =
     (if pt_FileName p \<noteq> []
      then ''form-data; name='' @ dquote @ quoteEscaper (pt_Name p) @ dquote @ ''; filename='' @ dquote @ quoteEscaper (pt_FileName p) @ dquote
      else ''form-data; name='' @ dquote @ quoteEscaper (pt_Name p) @ dquote)"

text \<open>The header lines of a part, in the order \<open>CreatePart\<close> writes them, and the part itself.\<close>

definition part_headers :: "Part \<Rightarrow> string list" where
  "part_headers p =
     (''Content-Disposition: '' @ part_disposition p) #
     (if pt_ContentType p \<noteq> [] then [''Content-Type: '' @ pt_ContentType p] else [])"

definition write_part :: "string \<Rightarrow> bool \<Rightarrow> Part \<Rightarrow> string" where
  "write_part boundary first p =
     (if first then [] else crlf) @ ''--'' @ boundary @ crlf @ concat (map (\<lambda>l. l @ crlf) (part_headers p)) @ crlf @ pt_Content p"

fun write_parts :: "string \<Rightarrow> bool \<Rightarrow> Part list \<Rightarrow> rerr + string" where
  "write_parts boundary first [] = Inr (crlf @ ''--'' @ boundary @ ''--'' @ crlf)"
| "write_parts boundary first (p # ps) =
     (if pt_Name p = [] then Inl (RemErr ''multipart part has no name'')
      else if hasControlChars (pt_ContentType p) then Inl (RemErrOf (pt_Name p) ''content type containing a control character'')
      else case write_parts boundary False ps of Inl e \<Rightarrow> Inl e | Inr rest \<Rightarrow> Inr (write_part boundary first p @ rest))"

definition buildMultipartBody :: "string \<Rightarrow> Part list \<Rightarrow> rerr + string \<times> string" where
  "buildMultipartBody boundary parts =
     (case write_parts boundary True parts of
        Inl e \<Rightarrow> Inl e
      | Inr body \<Rightarrow> Inr (body, ''multipart/form-data; boundary='' @ boundary))"

section \<open>Bodies\<close>

text \<open>The boundary of a multipart body is drawn when it is encoded; a JSON body carries the outcome of marshalling.\<close>

datatype Body = JSONBody "rerr + string" | RawBody string string | FormBody url_values | MultipartBody string "Part list"

definition JSONBody_Encode :: "rerr + string \<Rightarrow> rerr + string option \<times> string" where
  "JSONBody_Encode m =
     (case m of Inl e \<Rightarrow> Inl (RWrap ''failed to marshal JSON body'' e) | Inr data \<Rightarrow> Inr (Some data, ''application/json''))"

definition RawBody_Encode :: "string \<Rightarrow> string \<Rightarrow> rerr + string option \<times> string" where
  "RawBody_Encode data ct = (if data = [] then Inr (None, []) else Inr (Some data, ct))"

definition FormBody_Encode :: "url_values \<Rightarrow> rerr + string option \<times> string" where
  "FormBody_Encode vs = Inr (Some (values_Encode vs), ''application/x-www-form-urlencoded'')"

definition MultipartBody_Encode :: "string \<Rightarrow> Part list \<Rightarrow> rerr + string option \<times> string" where
  "MultipartBody_Encode boundary parts =
     (if parts = [] then Inl (RemErr ''multipart body requires at least one part'')
      else case buildMultipartBody boundary parts of Inl e \<Rightarrow> Inl e | Inr (data, ct) \<Rightarrow> Inr (Some data, ct))"

definition body_Encode :: "Body \<Rightarrow> rerr + string option \<times> string" where
  "body_Encode b =
     (case b of
        JSONBody m \<Rightarrow> JSONBody_Encode m
      | RawBody data ct \<Rightarrow> RawBody_Encode data ct
      | FormBody vs \<Rightarrow> FormBody_Encode vs
      | MultipartBody boundary parts \<Rightarrow> MultipartBody_Encode boundary parts)"

section \<open>Client\<close>

record RetryConfig =
  rt_MaxRetries :: int
  rt_InitialBackoff :: int
  rt_MaxBackoff :: int
  rt_RetryableStatus :: "int list"

definition DefaultRetryConfig :: RetryConfig where
  "DefaultRetryConfig = \<lparr>rt_MaxRetries = 3, rt_InitialBackoff = 500 * 1000000, rt_MaxBackoff = 10 * 1000000000,
     rt_RetryableStatus = [429, 500, 502, 503, 504]\<rparr>"

record remote_Request =
  rq_Method :: string
  rq_Path :: string
  rq_Query :: url_values
  rq_Body :: "Body option"
  rq_Headers :: "(string \<times> string) list"
  rq_Retry :: "RetryConfig option"

text \<open>The certificate for mutual TLS: fixed, or a pair of files read on each handshake.\<close>

datatype client_certificate = Fixed_Certificate string | Certificate_Files string string

record Client =
  cl_baseURL :: string
  cl_timeout :: int
  cl_authenticator :: "Authenticator option"
  cl_certificate :: "client_certificate option"
  cl_headers :: "(string \<times> string) list"

datatype client_option = WithTimeout int | WithAuthenticator Authenticator | WithClientCertificate string |
  WithClientCertificateFiles string string

fun apply_client_option :: "client_option \<Rightarrow> Client \<Rightarrow> Client" where
  "apply_client_option (WithTimeout t) c = c\<lparr>cl_timeout := t\<rparr>"
| "apply_client_option (WithAuthenticator a) c = c\<lparr>cl_authenticator := Some a\<rparr>"
| "apply_client_option (WithClientCertificateFiles cert key) c = c\<lparr>cl_certificate := Some (Certificate_Files cert key)\<rparr>"
| "apply_client_option (WithClientCertificate cert) c = c\<lparr>cl_certificate := Some (Fixed_Certificate cert)\<rparr>"

definition trim_suffix :: "char \<Rightarrow> string \<Rightarrow> string" where
  "trim_suffix ch s = (if s \<noteq> [] \<and> last s = ch then butlast s else s)"

definition trim_prefix :: "char \<Rightarrow> string \<Rightarrow> string" where
  "trim_prefix ch s = (case s of c # r \<Rightarrow> if c = ch then r else s | [] \<Rightarrow> [])"

definition NewClient :: "string \<Rightarrow> client_option list \<Rightarrow> rerr + Client" where
  "NewClient baseURL opts =
     (if baseURL = [] then Inl (Panic ''remote: base URL is required'')
      else Inr (fold apply_client_option opts
        \<lparr>cl_baseURL = trim_suffix (CHR ''/'') baseURL, cl_timeout = 30 * 1000000000, cl_authenticator = None,
         cl_certificate = None, cl_headers = []\<rparr>))"

definition mapNetworkError :: "string \<Rightarrow> rerr" where
  "mapNetworkError err =
     (if str_contains err ''timeout'' \<or> str_contains err ''deadline exceeded'' then ErrTimeout else RWrap err ErrRequestFailed)"

definition is_absolute :: "string \<Rightarrow> bool" where
  "is_absolute path \<longleftrightarrow> has_prefix path ''http://'' \<or> has_prefix path ''https://''"

definition final_url :: "(string \<Rightarrow> (string \<times> string) option) \<Rightarrow> Client \<Rightarrow> string \<Rightarrow> rerr + string" where
  "final_url parse c path =
     (if is_absolute path
      then if cl_baseURL c \<noteq> []
        then (case parse (cl_baseURL c) of
                None \<Rightarrow> Inl (RemErr ''remote: invalid base URL'')
              | Some (bscheme, bhost) \<Rightarrow>
                  (case parse path of
                     None \<Rightarrow> Inl (RemErr ''remote: invalid absolute URL'')
                   | Some (pscheme, phost) \<Rightarrow>
                       if bscheme \<noteq> pscheme \<or> bhost \<noteq> phost
                       then Inl (RemErrOf phost ''remote: absolute URL host does not match configured service host'')
                       else Inr path))
        else Inr path
      else Inr (trim_suffix (CHR ''/'') (cl_baseURL c) @ ''/'' @ trim_prefix (CHR ''/'') path))"

definition set_headers :: "(string \<times> string) list \<Rightarrow> http_header \<Rightarrow> http_header" where
  "set_headers kvs h = fold (\<lambda>(k, v). header_Set k v) kvs h"

definition executeOnce ::
  "remote_env \<Rightarrow> Client \<Rightarrow> string \<Rightarrow> string \<Rightarrow> string option \<Rightarrow> (string \<times> string) list \<Rightarrow> rworld \<Rightarrow> (rerr + http_reply) \<times> rworld" where
  "executeOnce env c method path body extraHeaders w =
     (case final_url (re_parse env) c path of
        Inl e \<Rightarrow> (Inl e, w)
      | Inr url \<Rightarrow>
          if \<not> re_request env method url then (Inl (RemErr ''remote: failed to create request''), w)
          else let req = \<lparr>or_Method = method, or_URL = url, or_Body = body,
                          or_Headers = set_headers extraHeaders (set_headers (cl_headers c) (\<lambda>_. None))\<rparr>
            in case (case cl_authenticator c of None \<Rightarrow> (Inr req, w) | Some a \<Rightarrow> auth_Apply env a req w) of
                 (Inl e, w1) \<Rightarrow> (Inl (RWrap ''remote: auth failed'' e), w1)
               | (Inr req', w1) \<Rightarrow>
                   (let w2 = log_sent (Sent_Service req') (tick w1)
                    in case re_do env (rw_tick w1) req' of
                         Inl err \<Rightarrow> (Inl (mapNetworkError err), w2)
                       | Inr resp \<Rightarrow> (Inr resp, w2)))"

text \<open>\<open>backoff *= 2\<close>, then the cap.\<close>

definition next_backoff :: "int \<Rightarrow> int \<Rightarrow> int" where
  "next_backoff maxBackoff backoff =
     (let b = sint (word_of_int (2 * backoff) :: 64 word) in if b > maxBackoff then maxBackoff else b)"

definition should_retry :: "RetryConfig \<Rightarrow> rerr + http_reply \<Rightarrow> bool" where
  "should_retry retry r = (case r of Inl _ \<Rightarrow> True | Inr resp \<Rightarrow> hr_StatusCode resp \<in> set (rt_RetryableStatus retry))"

definition got :: "rerr + http_reply \<Rightarrow> rerr + http_reply option" where
  "got r = (case r of Inl e \<Rightarrow> Inl e | Inr resp \<Rightarrow> Inr (Some resp))"

text \<open>The loop of \<open>executeWithRetry\<close> over an attempt \<open>once\<close>. The context is asked before an attempt and while waiting;
  \<open>re_ctx\<close> answers at each tick.\<close>

function retry_loop ::
  "remote_env \<Rightarrow> RetryConfig \<Rightarrow> (rworld \<Rightarrow> (rerr + http_reply) \<times> rworld) \<Rightarrow> int \<Rightarrow> int \<Rightarrow> rworld \<Rightarrow> (rerr + http_reply option) \<times> rworld" where
  "retry_loop env retry once attempt backoff w =
     (if attempt > rt_MaxRetries retry then (Inr None, w)
      else case re_ctx env (rw_tick w) of
        Some e \<Rightarrow> (Inl e, w)
      | None \<Rightarrow>
          (case once (tick w) of (r, w1) \<Rightarrow>
             if \<not> should_retry retry r \<or> attempt = rt_MaxRetries retry then (got r, w1)
             else let w2 = w1\<lparr>rw_waits := rw_waits w1 @ [backoff]\<rparr>
               in case re_ctx env (rw_tick w2) of
                    Some e \<Rightarrow> (Inl e, tick w2)
                  | None \<Rightarrow> retry_loop env retry once (attempt + 1) (next_backoff (rt_MaxBackoff retry) backoff) (tick w2)))"
  by pat_completeness auto
termination
  by (relation "measure (\<lambda>(env, retry, once, attempt, backoff, w). nat (rt_MaxRetries retry + 1 - attempt))") auto

definition executeWithRetry ::
  "remote_env \<Rightarrow> Client \<Rightarrow> string \<Rightarrow> string \<Rightarrow> string option \<Rightarrow> (string \<times> string) list \<Rightarrow> RetryConfig option \<Rightarrow> rworld \<Rightarrow>
   (rerr + http_reply option) \<times> rworld" where
  "executeWithRetry env c method path body headers retry w =
     (case retry of
        None \<Rightarrow> (case executeOnce env c method path body headers w of (r, w') \<Rightarrow> (got r, w'))
      | Some rc \<Rightarrow> retry_loop env rc (executeOnce env c method path body headers) 0 (rt_InitialBackoff rc) w)"

definition execute_headers :: "(string \<times> string) list \<Rightarrow> string \<Rightarrow> (string \<times> string) list" where
  "execute_headers headers contentType =
     (if contentType \<noteq> [] then filter (\<lambda>(k, v). \<not> EqualFold k ''Content-Type'') headers @ [(''Content-Type'', contentType)]
      else headers)"

definition full_path :: "remote_Request \<Rightarrow> string" where
  "full_path req =
     (if rq_Query req \<noteq> []
      then rq_Path req @ (if CHR ''?'' \<in> set (rq_Path req) then ''&'' else ''?'') @ values_Encode (rq_Query req)
      else rq_Path req)"

definition client_execute :: "remote_env \<Rightarrow> Client \<Rightarrow> remote_Request \<Rightarrow> rworld \<Rightarrow> (rerr + http_reply option) \<times> rworld" where
  "client_execute env c req w =
     (case (case rq_Body req of None \<Rightarrow> Inr (None, []) | Some b \<Rightarrow> body_Encode b) of
        Inl e \<Rightarrow> (Inl e, w)
      | Inr (data, contentType) \<Rightarrow>
          executeWithRetry env c (rq_Method req) (full_path req) data (execute_headers (rq_Headers req) contentType) (rq_Retry req) w)"

definition handleErrorResponse :: "http_reply \<Rightarrow> string \<Rightarrow> rerr" where
  "handleErrorResponse resp unread =
     (let errMsg = (if unread = [] then hr_Status resp else unread); code = hr_StatusCode resp;
          base = (if code = 401 \<or> code = 403 then ErrUnauthorized else if code = 404 then ErrNotFound
                  else if code = 400 then ErrBadRequest else if code = 503 \<or> code = 504 then ErrServiceUnavailable
                  else ErrRequestFailed)
      in RemoteError code errMsg base)"

text \<open>\<open>Request\<close>: \<open>decode\<close> reads the value asked for from the body and gives what is left unread; it is \<open>None\<close> when the
  caller discards the response.\<close>

definition client_Request ::
  "remote_env \<Rightarrow> Client \<Rightarrow> remote_Request \<Rightarrow> (string \<Rightarrow> (jval \<times> string) option) option \<Rightarrow> rworld \<Rightarrow> (rerr + jval option) \<times> rworld" where
  "client_Request env c req decode w =
     (case client_execute env c req w of
        (Inl e, w') \<Rightarrow> (Inl e, w')
      | (Inr None, w') \<Rightarrow> (Inl (Panic ''nil response''), w')
      | (Inr (Some resp), w') \<Rightarrow>
          (case (if decode \<noteq> None \<and> hr_StatusCode resp \<noteq> 204
                 then (case the decode (hr_Body resp) of None \<Rightarrow> None | Some (v, rest) \<Rightarrow> Some (Some v, rest))
                 else Some (None, hr_Body resp)) of
             None \<Rightarrow> (Inl (RemErr ''remote: failed to decode response''), w')
           | Some (v, unread) \<Rightarrow>
               if hr_StatusCode resp \<ge> 400 then (Inl (handleErrorResponse resp unread), w') else (Inr v, w')))"

definition maxRawResponseBytes :: nat where "maxRawResponseBytes = 10 * 1024 * 1024"

definition client_RawRequest :: "remote_env \<Rightarrow> Client \<Rightarrow> remote_Request \<Rightarrow> rworld \<Rightarrow> (rerr + int \<times> string) \<times> rworld" where
  "client_RawRequest env c req w =
     (case client_execute env c req w of
        (Inl e, w') \<Rightarrow> (Inl e, w')
      | (Inr None, w') \<Rightarrow> (Inl (Panic ''nil response''), w')
      | (Inr (Some resp), w') \<Rightarrow> (Inr (hr_StatusCode resp, take maxRawResponseBytes (hr_Body resp)), w'))"

section \<open>Registry of services\<close>

record ServiceConfig =
  sc_ID :: string
  sc_URL :: string
  sc_Timeout :: string
  sc_Auth :: "auth_Config option"
  sc_TLS :: "(string \<times> string) option"

record remote_Manager =
  rm_configs :: "(string \<times> ServiceConfig) list"
  rm_clients :: "(string \<times> Client) list"
  rm_authenticators :: "(string \<times> Authenticator) list"

definition remote_NewManager :: remote_Manager where
  "remote_NewManager = \<lparr>rm_configs = [], rm_clients = [], rm_authenticators = []\<rparr>"

fun prepare_services ::
  "ServiceConfig list \<Rightarrow> (string \<times> ServiceConfig) list \<Rightarrow> (string \<times> Authenticator) list \<Rightarrow> rworld \<Rightarrow>
   (rerr + (string \<times> ServiceConfig) list \<times> (string \<times> Authenticator) list) \<times> rworld" where
  "prepare_services [] configs auths w = (Inr (configs, auths), w)"
| "prepare_services (s # ss) configs auths w =
     (let cfg = s\<lparr>sc_URL := trim_suffix (CHR ''/'') (sc_URL s)\<rparr>;
          configs' = (sc_ID cfg, cfg) # configs;
          built = (case sc_Auth cfg of
                     None \<Rightarrow> (Inr auths, w)
                   | Some a \<Rightarrow>
                       (case auth_Build a w of
                          (Inl e, w1) \<Rightarrow> (Inl (RWrap (sc_ID cfg) e), w1)
                        | (Inr auth, w1) \<Rightarrow> (Inr ((sc_ID cfg, auth) # auths), w1)))
      in case built of
           (Inl e, w1) \<Rightarrow> (Inl e, w1)
         | (Inr auths', w1) \<Rightarrow>
             if (case sc_TLS cfg of None \<Rightarrow> False | Some (cert, key) \<Rightarrow> cert = [] \<or> key = [])
             then (Inl (RemErrOf (sc_ID cfg) ''tls config requires both clientCertFile and clientKeyFile''), w1)
             else prepare_services ss configs' auths' w1)"

definition SetServices :: "ServiceConfig list \<Rightarrow> remote_Manager \<Rightarrow> rworld \<Rightarrow> rerr option \<times> remote_Manager \<times> rworld" where
  "SetServices services m w =
     (case prepare_services services [] [] w of
        (Inl e, w') \<Rightarrow> (Some e, m, w')
      | (Inr (configs, auths), w') \<Rightarrow> (None, \<lparr>rm_configs = configs, rm_clients = [], rm_authenticators = auths\<rparr>, w'))"

definition client_options :: "(string \<Rightarrow> int option) \<Rightarrow> ServiceConfig \<Rightarrow> Authenticator option \<Rightarrow> rerr + client_option list" where
  "client_options parseDuration cfg authenticator =
     (case (if sc_Timeout cfg \<noteq> [] then map_option (\<lambda>d. [WithTimeout d]) (parseDuration (sc_Timeout cfg)) else Some []) of
        None \<Rightarrow> Inl (RemErrOf (sc_Timeout cfg) ''remote: invalid timeout'')
      | Some timeout \<Rightarrow>
          Inr (timeout @
            (case authenticator of None \<Rightarrow> [] | Some a \<Rightarrow> [WithAuthenticator a]) @
            (case sc_TLS cfg of None \<Rightarrow> [] | Some (cert, key) \<Rightarrow> [WithClientCertificateFiles cert key])))"

definition GetClient :: "(string \<Rightarrow> int option) \<Rightarrow> string \<Rightarrow> remote_Manager \<Rightarrow> (rerr + Client) \<times> remote_Manager" where
  "GetClient parseDuration svc m =
     (case map_of (rm_clients m) svc of
        Some c \<Rightarrow> (Inr c, m)
      | None \<Rightarrow>
          (case map_of (rm_configs m) svc of
             None \<Rightarrow> (Inl (RemErrOf svc ''not found in registry''), m)
           | Some cfg \<Rightarrow>
               (case client_options parseDuration cfg (map_of (rm_authenticators m) svc) of
                  Inl e \<Rightarrow> (Inl e, m)
                | Inr opts \<Rightarrow>
                    (case NewClient (sc_URL cfg) opts of
                       Inl e \<Rightarrow> (Inl e, m)
                     | Inr c \<Rightarrow> (Inr c, m\<lparr>rm_clients := (svc, c) # rm_clients m\<rparr>)))))"

definition manager_Call ::
  "(string \<Rightarrow> int option) \<Rightarrow> remote_env \<Rightarrow> string \<Rightarrow> remote_Request \<Rightarrow> (string \<Rightarrow> (jval \<times> string) option) option \<Rightarrow> remote_Manager \<Rightarrow> rworld \<Rightarrow>
   (rerr + jval option) \<times> remote_Manager \<times> rworld" where
  "manager_Call parseDuration env svc req decode m w =
     (case GetClient parseDuration svc m of
        (Inl e, m') \<Rightarrow> (Inl e, m', w)
      | (Inr c, m') \<Rightarrow> (case client_Request env c req decode w of (r, w') \<Rightarrow> (r, m', w')))"

definition manager_CallRaw ::
  "(string \<Rightarrow> int option) \<Rightarrow> remote_env \<Rightarrow> string \<Rightarrow> remote_Request \<Rightarrow> remote_Manager \<Rightarrow> rworld \<Rightarrow>
   (rerr + int \<times> string) \<times> remote_Manager \<times> rworld" where
  "manager_CallRaw parseDuration env svc req m w =
     (case GetClient parseDuration svc m of
        (Inl e, m') \<Rightarrow> (Inl e, m', w)
      | (Inr c, m') \<Rightarrow> (case client_RawRequest env c req w of (r, w') \<Rightarrow> (r, m', w')))"

definition ListServices :: "remote_Manager \<Rightarrow> string set" where
  "ListServices m = fst ` set (rm_configs m)"

end
