(* ===== verification/Remote_Props.thy ===== *)
theory Remote_Props
  imports Remote_Client
begin

text \<open>
  Properties of outbound calls: where requests and credentials go, how often a call is tried, which token is used, what
  the registry of services holds, and that parts of a multipart body cannot be forged.
\<close>

section \<open>What a call sends\<close>

definition is_service :: "sent \<Rightarrow> bool" where
  "is_service s = (case s of Sent_Service _ \<Rightarrow> True | Sent_Token _ \<Rightarrow> False)"

text \<open>From \<open>w\<close> to \<open>w'\<close> only messages satisfying \<open>P\<close> are sent, at most \<open>n\<close> of them to services.\<close>

definition sends :: "(sent \<Rightarrow> bool) \<Rightarrow> nat \<Rightarrow> rworld \<Rightarrow> rworld \<Rightarrow> bool" where
  "sends P n w w' \<longleftrightarrow>
     (\<exists>ts. rw_sent w' = rw_sent w @ ts \<and> (\<forall>s \<in> set ts. P s) \<and> length (filter is_service ts) \<le> n)"

lemma sends_none: "rw_sent w' = rw_sent w \<Longrightarrow> sends P n w w'"
  by (simp add: sends_def)

lemma sends_trans:
  assumes "sends P m w w1" and "sends P n w1 w2"
  shows "sends P (m + n) w w2"
proof -
  obtain xs where "rw_sent w1 = rw_sent w @ xs" "\<forall>s \<in> set xs. P s" "length (filter is_service xs) \<le> m" using assms(1) by (auto simp: sends_def)
  moreover obtain ys where "rw_sent w2 = rw_sent w1 @ ys" "\<forall>s \<in> set ys. P s" "length (filter is_service ys) \<le> n" using assms(2) by (auto simp: sends_def)
  ultimately show ?thesis unfolding sends_def by (intro exI[of _ "xs @ ys"]) auto
qed

lemma sends_mono: "sends P m w w' \<Longrightarrow> m \<le> n \<Longrightarrow> sends P n w w'"
  by (auto simp: sends_def)

lemma sends_weaken: "sends P n w w' \<Longrightarrow> (\<And>s. P s \<Longrightarrow> Q s) \<Longrightarrow> sends Q n w w'"
  by (auto simp: sends_def)

lemma world_simps [simp]:
  "rw_sent (tick w) = rw_sent w" "rw_oauth (tick w) = rw_oauth w" "rw_waits (tick w) = rw_waits w" "rw_tick (tick w) = Suc (rw_tick w)"
  "rw_sent (log_sent s w) = rw_sent w @ [s]" "rw_oauth (log_sent s w) = rw_oauth w" "rw_waits (log_sent s w) = rw_waits w"
  "rw_tick (log_sent s w) = rw_tick w"
  by (simp_all add: tick_def log_sent_def)

section \<open>Tokens\<close>

lemma reserved_not_overridden:
  assumes "endpointParams_validate (oa_endpointParams a) = None"
  shows "map_of (token_form a) ''grant_type'' = Some [''client_credentials''] \<and>
         map_of (token_form a) ''scope'' = (if oa_scopes a = [] then None else Some [join_with '' '' (oa_scopes a)]) \<and>
         map_of (token_form a) ''client_secret'' = None \<and> map_of (token_form a) ''client_id'' = None"
proof -
  have "\<forall>key \<in> set reservedEndpointParams. map_of (oa_endpointParams a) key = None"
    using assms by (auto simp: endpointParams_validate_def find_None_iff)
  then have "map_of (oa_endpointParams a) ''grant_type'' = None" "map_of (oa_endpointParams a) ''scope'' = None"
    "map_of (oa_endpointParams a) ''client_secret'' = None" "map_of (oa_endpointParams a) ''client_id'' = None"
    by (simp_all add: reservedEndpointParams_def)
  then show ?thesis by (auto simp: token_form_def map_add_def)
qed

text \<open>The outcomes of \<open>refreshToken\<close>.\<close>

lemma refreshToken_cases:
  assumes "refreshToken env a w = (res, w')"
  obtains
    (unsent) e where "res = Inl e" "w' = w"
  | (refused) e where "res = Inl e" "w' = log_sent (Sent_Token (token_request a)) (tick w)" "endpointParams_validate (oa_endpointParams a) = None"
  | (fetched) r err where "res = Inr (tr_AccessToken r, re_now env (Suc (rw_tick w)) + duration_seconds (tr_ExpiresIn r))"
      "re_token env (rw_tick w) (token_request a) = Token_Reply 200 (Some r) err" "tr_AccessToken r \<noteq> []"
      "w' = tick (log_sent (Sent_Token (token_request a)) (tick w))" "endpointParams_validate (oa_endpointParams a) = None"
proof (cases "endpointParams_validate (oa_endpointParams a) = None \<and> re_request env ''POST'' (oa_tokenURL a)")
  case False
  then show ?thesis using assms unsent by (auto simp: refreshToken_def Let_def split: option.splits)
next
  case True
  then show ?thesis using assms refused fetched
    by (auto simp: refreshToken_def Let_def split: token_reply.splits if_splits option.splits)
qed

lemma getToken_cases:
  assumes "getToken env a addr w = (res, w')"
  obtains
    (cached) "os_accessToken (rw_oauth w addr) \<noteq> []" "re_now env (rw_tick w) + minute < os_expiry (rw_oauth w addr)"
      "res = Inr (os_accessToken (rw_oauth w addr))" "w' = tick w"
  | (failed) e where "res = Inl e" "rw_oauth w' = rw_oauth w" "rw_waits w' = rw_waits w"
      "rw_sent w' = rw_sent w \<or> rw_sent w' = rw_sent w @ [Sent_Token (token_request a)] \<and> endpointParams_validate (oa_endpointParams a) = None"
  | (fetched) r err where "res = Inr (tr_AccessToken r)" "tr_AccessToken r \<noteq> []"
      "re_token env (Suc (rw_tick w)) (token_request a) = Token_Reply 200 (Some r) err" "endpointParams_validate (oa_endpointParams a) = None"
      "rw_sent w' = rw_sent w @ [Sent_Token (token_request a)]" "rw_waits w' = rw_waits w"
      "rw_oauth w' = (rw_oauth w)(addr := \<lparr>os_accessToken = tr_AccessToken r, os_expiry = re_now env (rw_tick w + 2) + duration_seconds (tr_ExpiresIn r)\<rparr>)"
proof (cases "os_accessToken (rw_oauth w addr) \<noteq> [] \<and> re_now env (rw_tick w) + minute < os_expiry (rw_oauth w addr)")
  case True
  then show ?thesis using assms by (intro cached) (auto simp: getToken_def Let_def)
next
  case False
  obtain r1 w1 where run: "refreshToken env a (tick w) = (r1, w1)" by (cases "refreshToken env a (tick w)")
  from run show ?thesis
  proof (cases rule: refreshToken_cases)
    case (unsent e)
    with run False assms show ?thesis by (intro failed[of e]) (auto simp: getToken_def Let_def)
  next
    case (refused e)
    with run False assms show ?thesis by (intro failed[of e]) (auto simp: getToken_def Let_def)
  next
    case (fetched r err)
    with run False assms show ?thesis by (intro that(3)[of r err]) (auto simp: getToken_def Let_def)
  qed
qed


section \<open>Attempts\<close>

text \<open>A URL on the service with this base: below the base, or with its scheme and host.\<close>

definition on_service :: "(string \<Rightarrow> (string \<times> string) option) \<Rightarrow> string \<Rightarrow> string \<Rightarrow> bool" where
  "on_service parse base url \<longleftrightarrow>
     (\<exists>p. url = trim_suffix (CHR ''/'') base @ ''/'' @ p) \<or> (\<exists>site. parse base = Some site \<and> parse url = Some site)"

lemma final_url_on_service:
  "final_url parse c path = Inr url \<Longrightarrow> cl_baseURL c \<noteq> [] \<Longrightarrow> on_service parse (cl_baseURL c) url"
  by (auto simp: final_url_def on_service_def split: if_splits option.splits)

text \<open>What an attempt of a client may send: a request on its service, or the token request of its own authenticator.\<close>

definition client_sends :: "remote_env \<Rightarrow> Client \<Rightarrow> sent \<Rightarrow> bool" where
  "client_sends env c s =
     (case s of
        Sent_Service q \<Rightarrow> on_service (re_parse env) (cl_baseURL c) (or_URL q)
      | Sent_Token q \<Rightarrow> \<exists>a addr. cl_authenticator c = Some (OAuth2_at a addr) \<and> q = token_request a)"

lemma auth_Apply_sends:
  assumes "auth_Apply env a req w = (r, w')" and "cl_authenticator c = Some a"
  shows "sends (client_sends env c) 0 w w' \<and> rw_waits w' = rw_waits w \<and>
         (\<forall>req'. r = Inr req' \<longrightarrow> or_URL req' = or_URL req \<and> or_Method req' = or_Method req)"
proof (cases a)
  case (OAuth2_at o2 addr)
  obtain t w1 where run: "getToken env o2 addr w = (t, w1)" by (cases "getToken env o2 addr w")
  have own: "client_sends env c (Sent_Token (token_request o2))" using assms(2) OAuth2_at by (auto simp: client_sends_def)
  have "sends (client_sends env c) 0 w w1 \<and> rw_waits w1 = rw_waits w"
    using run by (cases rule: getToken_cases) (use own in \<open>auto simp: sends_def is_service_def\<close>)
  with run OAuth2_at assms(1) show ?thesis by (auto simp: auth_Apply_defs split: sum.splits)
qed (use assms in \<open>auto simp: auth_Apply_defs sends_none\<close>)

lemma executeOnce_sends:
  assumes "executeOnce env c method path body hs w = (r, w')" and "cl_baseURL c \<noteq> []"
  shows "sends (client_sends env c) 1 w w' \<and> rw_waits w' = rw_waits w"
proof (cases "final_url (re_parse env) c path")
  case (Inr url)
  let ?req = "\<lparr>or_Method = method, or_URL = url, or_Body = body, or_Headers = set_headers hs (set_headers (cl_headers c) (\<lambda>_. None))\<rparr>"
  obtain x w1 where ap: "(case cl_authenticator c of None \<Rightarrow> (Inr ?req, w) | Some a \<Rightarrow> auth_Apply env a ?req w) = (x, w1)"
    by (metis surj_pair)
  have a: "sends (client_sends env c) 0 w w1 \<and> rw_waits w1 = rw_waits w \<and> (\<forall>q. x = Inr q \<longrightarrow> or_URL q = url)"
  proof (cases "cl_authenticator c")
    case (Some a)
    with ap auth_Apply_sends[of env a ?req w x w1 c] show ?thesis by auto
  qed (use ap in \<open>auto simp: sends_none\<close>)
  have "sends (client_sends env c) 1 w1 w' \<and> rw_waits w' = rw_waits w1 \<or> w' = w \<or> w' = w1"
  proof (cases "re_request env method url \<and> (\<exists>q. x = Inr q)")
    case True
    then obtain q where q: "x = Inr q" by blast
    with assms(1) Inr ap True have "w' = log_sent (Sent_Service q) (tick w1)"
      by (auto simp: executeOnce_def Let_def split: sum.splits)
    moreover have "client_sends env c (Sent_Service q)"
      using a q final_url_on_service[OF Inr assms(2)] by (simp add: client_sends_def)
    ultimately show ?thesis by (auto simp: sends_def is_service_def)
  next
    case False
    with assms(1) Inr ap show ?thesis by (cases x) (auto simp: executeOnce_def Let_def split: if_splits)
  qed
  with a show ?thesis using sends_trans[of "client_sends env c" 0 w w1 1 w'] by (auto intro: sends_none sends_mono)
qed (use assms in \<open>auto simp: executeOnce_def sends_none\<close>)

section \<open>Retries\<close>

declare retry_loop.simps [simp del]

text \<open>Waits between attempts do not exceed the larger of the first backoff and the maximum.\<close>

lemma next_backoff_bounds:
  assumes "0 \<le> b" and "b < 2 ^ 62" and "0 \<le> m" and "b \<le> k" and "m \<le> k"
  shows "0 \<le> next_backoff m b \<and> next_backoff m b \<le> k \<and> next_backoff m b \<le> m"
proof -
  have "sint (word_of_int (2 * b) :: 64 word) = 2 * b"
    unfolding sint_sbintrunc' using assms by (intro signed_take_bit_int_eq_self) simp_all
  with assms show ?thesis by (auto simp: next_backoff_def Let_def)
qed

lemma retry_loop_step:
  assumes "once (tick w) = (r, w1)" and "re_ctx env (rw_tick w) = None" and "attempt \<le> rt_MaxRetries retry"
  shows "retry_loop env retry once attempt backoff w =
     (if \<not> should_retry retry r \<or> attempt = rt_MaxRetries retry then (got r, w1)
      else case re_ctx env (rw_tick w1) of
        Some e \<Rightarrow> (Inl e, tick (w1\<lparr>rw_waits := rw_waits w1 @ [backoff]\<rparr>))
      | None \<Rightarrow> retry_loop env retry once (attempt + 1) (next_backoff (rt_MaxBackoff retry) backoff) (tick (w1\<lparr>rw_waits := rw_waits w1 @ [backoff]\<rparr>)))"
  using assms by (subst retry_loop.simps) (simp add: Let_def)

text \<open>Induction over a run of the loop: no attempt left, cancelled before an attempt, an attempt whose outcome is
  final, interrupted while waiting, or one more attempt.\<close>

lemma retry_loop_rule [consumes 1, case_names exhausted cancelled final interrupted again]:
  assumes "retry_loop env retry once a b w = (res, w')"
    and "\<And>a b w. a > rt_MaxRetries retry \<Longrightarrow> Q a b w (Inr None) w"
    and "\<And>a b w e. a \<le> rt_MaxRetries retry \<Longrightarrow> Q a b w (Inl e) w"
    and "\<And>a b w r w1. a \<le> rt_MaxRetries retry \<Longrightarrow> once (tick w) = (r, w1) \<Longrightarrow>
           \<not> should_retry retry r \<or> a = rt_MaxRetries retry \<Longrightarrow> Q a b w (got r) w1"
    and "\<And>a b w r w1 e. a < rt_MaxRetries retry \<Longrightarrow> once (tick w) = (r, w1) \<Longrightarrow>
           Q a b w (Inl e) (tick (w1\<lparr>rw_waits := rw_waits w1 @ [b]\<rparr>))"
    and "\<And>a b w r w1 res w'. a < rt_MaxRetries retry \<Longrightarrow> once (tick w) = (r, w1) \<Longrightarrow>
           Q (a + 1) (next_backoff (rt_MaxBackoff retry) b) (tick (w1\<lparr>rw_waits := rw_waits w1 @ [b]\<rparr>)) res w' \<Longrightarrow> Q a b w res w'"
  shows "Q a b w res w'"
  using assms(1)
proof (induction "nat (rt_MaxRetries retry + 1 - a)" arbitrary: a b w res w')
  case 0
  then have "rt_MaxRetries retry < a" by simp
  then show ?case using 0(2) assms(2) by (simp add: retry_loop.simps[of env retry once a])
next
  case (Suc n)
  then have le: "a \<le> rt_MaxRetries retry" by simp
  show ?case
  proof (cases "re_ctx env (rw_tick w)")
    case None
    obtain r w1 where once: "once (tick w) = (r, w1)" by (cases "once (tick w)")
    note step = retry_loop_step[where once = once and w = w and backoff = b, OF once None le]
    show ?thesis
    proof (cases "\<not> should_retry retry r \<or> a = rt_MaxRetries retry")
      case True
      with step Suc(3) have "res = got r" "w' = w1" by auto
      then show ?thesis using assms(4)[OF le once True] by simp
    next
      case False
      then have lt: "a < rt_MaxRetries retry" using le by simp
      show ?thesis
      proof (cases "re_ctx env (rw_tick w1)")
        case (Some e)
        with step False Suc(3) have "res = Inl e" "w' = tick (w1\<lparr>rw_waits := rw_waits w1 @ [b]\<rparr>)" by auto
        then show ?thesis using assms(5)[OF lt once] by simp
      next
        case None
        with step False Suc(3) have more: "retry_loop env retry once (a + 1) (next_backoff (rt_MaxBackoff retry) b)
            (tick (w1\<lparr>rw_waits := rw_waits w1 @ [b]\<rparr>)) = (res, w')" by auto
        have "n = nat (rt_MaxRetries retry + 1 - (a + 1))" using Suc(2) by simp
        from assms(6)[OF lt once Suc(1)[OF this more]] show ?thesis .
      qed
    qed
  next
    case (Some e)
    with Suc(3) le assms(3) show ?thesis by (auto simp: retry_loop.simps[of env retry once a])
  qed
qed

lemma retry_loop_sends:
  assumes "retry_loop env retry once a b w = (res, w')" and "\<And>w r w'. once w = (r, w') \<Longrightarrow> sends P 1 w w'"
  shows "sends P (nat (rt_MaxRetries retry + 1 - a)) w w'"
  using assms(1)
proof (induction rule: retry_loop_rule)
  case (final a b w r w1)
  then show ?case using assms(2)[OF final(2)] by (auto simp: sends_def intro: sends_mono)
next
  case (interrupted a b w r w1 e)
  then show ?case using assms(2)[OF interrupted(2)] by (auto simp: sends_def)
next
  case (again a b w r w1 res w')
  have "sends P 1 w (tick (w1\<lparr>rw_waits := rw_waits w1 @ [b]\<rparr>))" using assms(2)[OF again(2)] by (simp add: sends_def)
  from sends_trans[OF this again(3)] again(1) show ?case by (auto intro: sends_mono)
qed (simp_all add: sends_none)

text \<open>The waits of a run: at most one per retry, none beyond the bounds, and all of them before a retryable response is
  returned.\<close>

lemma retry_loop_waits:
  assumes "retry_loop env retry once a b w = (res, w')" and "\<And>w r w'. once w = (r, w') \<Longrightarrow> rw_waits w' = rw_waits w"
    and "0 \<le> b" and "b < 2 ^ 62" and "0 \<le> rt_MaxBackoff retry" and "rt_MaxBackoff retry < 2 ^ 62" and "a \<le> rt_MaxRetries retry"
  shows "res \<noteq> Inr None \<and>
     (\<exists>ws. rw_waits w' = rw_waits w @ ws \<and> int (length ws) \<le> rt_MaxRetries retry - a \<and>
        (\<forall>x \<in> set ws. 0 \<le> x \<and> x \<le> max b (rt_MaxBackoff retry)) \<and>
        (\<forall>resp. res = Inr (Some resp) \<and> hr_StatusCode resp \<in> set (rt_RetryableStatus retry) \<longrightarrow> int (length ws) = rt_MaxRetries retry - a))"
  using assms(1,3,4,7)
proof (induction rule: retry_loop_rule)
  case (final a b w r w1)
  then show ?case using assms(2)[OF final(2)] by (auto simp: got_def should_retry_def split: sum.splits)
next
  case (interrupted a b w r w1 e)
  then show ?case using assms(2)[OF interrupted(2)] by simp
next
  case (again a b w r w1 res w')
  have nb: "0 \<le> next_backoff (rt_MaxBackoff retry) b" "next_backoff (rt_MaxBackoff retry) b \<le> rt_MaxBackoff retry"
    using next_backoff_bounds[of b "rt_MaxBackoff retry" "max b (rt_MaxBackoff retry)"] again assms(5) by auto
  then obtain ws where ws: "res \<noteq> Inr None" "rw_waits w' = rw_waits w1 @ [b] @ ws" "int (length ws) \<le> rt_MaxRetries retry - (a + 1)"
    "\<forall>x \<in> set ws. 0 \<le> x \<and> x \<le> max (next_backoff (rt_MaxBackoff retry) b) (rt_MaxBackoff retry)"
    "\<forall>resp. res = Inr (Some resp) \<and> hr_StatusCode resp \<in> set (rt_RetryableStatus retry) \<longrightarrow> int (length ws) = rt_MaxRetries retry - (a + 1)"
    using again assms(6) by auto
  have "x \<le> max b (rt_MaxBackoff retry)" if "x \<in> set ws" for x using ws(4) that nb(2) by fastforce
  with ws again(4) assms(2)[OF again(2)] show ?case by (intro conjI exI[of _ "b # ws"]) auto
qed simp_all

text \<open>C35. A call with a retry policy is tried at most once more than its maximum number of retries, every attempt staying
  on the client's service; it waits between attempts only, at most its maximum number of times, each time at most the
  larger of the first backoff and the maximum; it always comes back with a response or an error; and it gives the
  caller a response with a retryable status only after all its retries.\<close>

theorem retries_bounded:
  assumes "executeWithRetry env c method path body headers (Some rc) w = (res, w')" and "cl_baseURL c \<noteq> []"
    and "0 \<le> rt_MaxRetries rc" and "0 \<le> rt_InitialBackoff rc" and "rt_InitialBackoff rc < 2 ^ 62"
    and "0 \<le> rt_MaxBackoff rc" and "rt_MaxBackoff rc < 2 ^ 62"
  shows "sends (client_sends env c) (nat (rt_MaxRetries rc) + 1) w w' \<and> res \<noteq> Inr None \<and>
     (\<exists>ws. rw_waits w' = rw_waits w @ ws \<and> int (length ws) \<le> rt_MaxRetries rc \<and>
        (\<forall>x \<in> set ws. 0 \<le> x \<and> x \<le> max (rt_InitialBackoff rc) (rt_MaxBackoff rc)) \<and>
        (\<forall>resp. res = Inr (Some resp) \<and> hr_StatusCode resp \<in> set (rt_RetryableStatus rc) \<longrightarrow> int (length ws) = rt_MaxRetries rc))"
proof -
  have run: "retry_loop env rc (executeOnce env c method path body headers) 0 (rt_InitialBackoff rc) w = (res, w')"
    using assms(1) by (simp add: executeWithRetry_def)
  have once: "executeOnce env c method path body headers w = (r, w') \<Longrightarrow> sends (client_sends env c) 1 w w' \<and> rw_waits w' = rw_waits w" for w r w'
    using executeOnce_sends assms(2) by blast
  have "sends (client_sends env c) (nat (rt_MaxRetries rc + 1 - 0)) w w'" using retry_loop_sends[OF run] once by blast
  then have "sends (client_sends env c) (nat (rt_MaxRetries rc) + 1) w w'" using assms(3) by (simp add: nat_add_distrib)
  with retry_loop_waits[OF run _ assms(4-7,3)] once show ?thesis by simp
qed

section \<open>Services\<close>

text \<open>The authenticator of a service is the one its own configuration describes.\<close>

definition own_auth :: "ServiceConfig \<Rightarrow> Authenticator option \<Rightarrow> bool" where
  "own_auth s a =
     (case sc_Auth s of
        None \<Rightarrow> a = None
      | Some cfg \<Rightarrow>
          (case config_strategy cfg of
             Inl e \<Rightarrow> False
           | Inr (S_APIKey k v) \<Rightarrow> a = Some (APIKey k v)
           | Inr (S_Bearer t) \<Rightarrow> a = Some (Bearer t)
           | Inr (S_OAuth2 c) \<Rightarrow>
               (\<exists>addr. a = Some (OAuth2_at (SetInsecureSkipTLSVerify (oc_InsecureSkipTLSVerify c)
                  (NewOAuth2 (oc_TokenURL c) (oc_ClientID c) (oc_ClientSecret c) (oc_Scopes c) (oc_EndpointParams c))) addr))))"

definition normalized :: "ServiceConfig \<Rightarrow> ServiceConfig" where
  "normalized s = s\<lparr>sc_URL := trim_suffix (CHR ''/'') (sc_URL s)\<rparr>"

lemma normalized_simps [simp]: "sc_ID (normalized s) = sc_ID s" "sc_Auth (normalized s) = sc_Auth s"
  by (simp_all add: normalized_def)

lemma auth_Build_own: "auth_Build a w = (Inr auth, w') \<Longrightarrow> sc_Auth s = Some a \<Longrightarrow> own_auth s (Some auth)"
  by (auto simp: auth_Build_def own_auth_def strategy_build_defs split: sum.splits strategy.splits option.splits)

lemma own_auth_None: "sc_Auth s = None \<Longrightarrow> own_auth s None"
  by (simp add: own_auth_def)

lemma prepare_services_step:
  assumes "prepare_services (s # ss) configs auths w = (Inr out, w')"
  obtains auths1 w1 where "prepare_services ss ((sc_ID s, normalized s) # configs) auths1 w1 = (Inr out, w')"
    "sc_Auth s = None \<and> auths1 = auths \<or> (\<exists>a. auths1 = (sc_ID s, a) # auths \<and> own_auth s (Some a))"
proof (cases "sc_Auth s")
  case None
  with assms that[of auths w] show ?thesis by (auto simp: Let_def normalized_def split: if_splits)
next
  case (Some a)
  obtain r w1 where b: "auth_Build a w = (r, w1)" by (cases "auth_Build a w")
  with assms Some obtain auth where r: "r = Inr auth" by (cases r) (auto simp: Let_def)
  with assms Some b have "prepare_services ss ((sc_ID s, normalized s) # configs) ((sc_ID s, auth) # auths) w1 = (Inr out, w')"
    by (auto simp: Let_def normalized_def split: if_splits)
  with that auth_Build_own[OF b[unfolded r] Some] show ?thesis by blast
qed

lemma prepare_services_own:
  assumes "prepare_services ss configs auths w = (Inr (configs', auths'), w')" and "distinct (map sc_ID ss)"
    and "\<forall>s \<in> set ss. map_of auths (sc_ID s) = None"
  shows "(\<forall>s \<in> set ss. map_of configs' (sc_ID s) = Some (normalized s) \<and> own_auth s (map_of auths' (sc_ID s))) \<and>
         (\<forall>i. i \<notin> sc_ID ` set ss \<longrightarrow> map_of configs' i = map_of configs i \<and> map_of auths' i = map_of auths i)"
  using assms
proof (induction ss arbitrary: configs auths w)
  case (Cons s ss)
  from Cons.prems(1) obtain auths1 w1 where
    run: "prepare_services ss ((sc_ID s, normalized s) # configs) auths1 w1 = (Inr (configs', auths'), w')"
    and a: "sc_Auth s = None \<and> auths1 = auths \<or> (\<exists>a. auths1 = (sc_ID s, a) # auths \<and> own_auth s (Some a))"
    by (rule prepare_services_step)
  have "sc_ID s \<notin> sc_ID ` set ss" "distinct (map sc_ID ss)" using Cons.prems(2) by auto
  moreover have "\<forall>t \<in> set ss. sc_ID t \<noteq> sc_ID s" using Cons.prems(2) by (metis distinct.simps(2) image_eqI list.set_map list.simps(9))
  moreover from this have "\<forall>t \<in> set ss. map_of auths1 (sc_ID t) = None" using a Cons.prems(3) by auto
  moreover have "own_auth s (map_of auths1 (sc_ID s))" using a Cons.prems(3) own_auth_None[of s] by auto
  moreover have "i \<noteq> sc_ID s \<Longrightarrow> map_of auths1 i = map_of auths i" for i using a by auto
  ultimately show ?case using Cons.IH[OF run] by auto
qed simp

lemma apply_client_options:
  "cl_baseURL (fold apply_client_option opts c) = cl_baseURL c"
  "(\<forall>op \<in> set opts. \<forall>a. op \<noteq> WithAuthenticator a) \<Longrightarrow> cl_authenticator (fold apply_client_option opts c) = cl_authenticator c"
proof -
  have "cl_baseURL (apply_client_option op c) = cl_baseURL c" for op c by (cases op) auto
  then show "cl_baseURL (fold apply_client_option opts c) = cl_baseURL c" by (induction opts arbitrary: c) simp_all
  show "(\<forall>op \<in> set opts. \<forall>a. op \<noteq> WithAuthenticator a) \<Longrightarrow> cl_authenticator (fold apply_client_option opts c) = cl_authenticator c"
  proof (induction opts arbitrary: c)
    case (Cons op opts)
    then show ?case by (cases op) auto
  qed simp
qed

text \<open>A client built from a configuration and an authenticator has that base and that authenticator.\<close>

lemma built_client:
  assumes "client_options pd cfg a = Inr opts" and "NewClient (sc_URL cfg) opts = Inr c"
  shows "cl_baseURL c = trim_suffix (CHR ''/'') (sc_URL cfg) \<and> cl_authenticator c = a"
proof -
  obtain timeout where o: "opts = timeout @ (case a of None \<Rightarrow> [] | Some a \<Rightarrow> [WithAuthenticator a]) @
      (case sc_TLS cfg of None \<Rightarrow> [] | Some (cert, key) \<Rightarrow> [WithClientCertificateFiles cert key])"
    and t: "\<forall>op \<in> set timeout. \<forall>a. op \<noteq> WithAuthenticator a"
    using assms(1) by (auto simp: client_options_def split: if_splits option.splits)
  show ?thesis using assms(2) apply_client_options(2)[OF t]
    by (auto simp: NewClient_def apply_client_options(1) o split: if_splits option.splits)
qed

text \<open>Cached clients were built from the configuration and authenticator registered now.\<close>

definition built_from :: "(string \<Rightarrow> int option) \<Rightarrow> remote_Manager \<Rightarrow> string \<Rightarrow> Client \<Rightarrow> bool" where
  "built_from pd m svc c \<longleftrightarrow>
     (\<exists>cfg opts. map_of (rm_configs m) svc = Some cfg \<and> client_options pd cfg (map_of (rm_authenticators m) svc) = Inr opts \<and>
        NewClient (sc_URL cfg) opts = Inr c)"

definition clients_ok :: "(string \<Rightarrow> int option) \<Rightarrow> remote_Manager \<Rightarrow> bool" where
  "clients_ok pd m \<longleftrightarrow> (\<forall>svc c. map_of (rm_clients m) svc = Some c \<longrightarrow> built_from pd m svc c)"

lemma GetClient_ok:
  assumes "GetClient pd svc m = (r, m')" and "clients_ok pd m"
  shows "clients_ok pd m' \<and> rm_configs m' = rm_configs m \<and> rm_authenticators m' = rm_authenticators m \<and> (\<forall>c. r = Inr c \<longrightarrow> built_from pd m svc c)"
proof (cases "map_of (rm_clients m) svc")
  case (Some c)
  with assms show ?thesis by (auto simp: GetClient_def clients_ok_def)
next
  case None
  show ?thesis
  proof (cases r)
    case (Inl e)
    with None assms show ?thesis by (auto simp: GetClient_def split: option.splits sum.splits)
  next
    case (Inr c)
    with None assms(1) have b: "built_from pd m svc c" and m': "m' = m\<lparr>rm_clients := (svc, c) # rm_clients m\<rparr>"
      by (auto simp: GetClient_def built_from_def split: option.splits sum.splits)
    have "built_from pd m' s d = built_from pd m s d" for s d by (simp add: m' built_from_def)
    with b m' Inr assms(2) show ?thesis by (auto simp: clients_ok_def)
  qed
qed

text \<open>The manager as it is used: services are set, then called.\<close>

inductive served :: "(string \<Rightarrow> int option) \<Rightarrow> remote_env \<Rightarrow> ServiceConfig list \<Rightarrow> remote_Manager \<Rightarrow> rworld \<Rightarrow> bool"
  for pd env services where
  set_services: "SetServices services m0 w0 = (None, m, w) \<Longrightarrow> served pd env services m w"
| called: "served pd env services m w \<Longrightarrow> manager_Call pd env svc req decode m w = (r, m', w') \<Longrightarrow> served pd env services m' w'"
| called_raw: "served pd env services m w \<Longrightarrow> manager_CallRaw pd env svc req m w = (r', m', w') \<Longrightarrow> served pd env services m' w'"

lemma GetClient_of_Call: "manager_Call pd env svc req decode m w = (r, m', w') \<Longrightarrow> m' = snd (GetClient pd svc m)"
  by (auto simp: manager_Call_def split: prod.splits sum.splits)

lemma GetClient_of_CallRaw: "manager_CallRaw pd env svc req m w = (r, m', w') \<Longrightarrow> m' = snd (GetClient pd svc m)"
  by (auto simp: manager_CallRaw_def split: prod.splits sum.splits)

lemma served_ok:
  assumes "served pd env services m w" and "distinct (map sc_ID services)"
  shows "clients_ok pd m \<and>
     (\<forall>s \<in> set services. map_of (rm_configs m) (sc_ID s) = Some (normalized s) \<and> own_auth s (map_of (rm_authenticators m) (sc_ID s)))"
  using assms(1)
proof (induction rule: served.induct)
  case (set_services m0 w0 m w)
  then obtain configs auths where p: "prepare_services services [] [] w0 = (Inr (configs, auths), w)"
    and m: "m = \<lparr>rm_configs = configs, rm_clients = [], rm_authenticators = auths\<rparr>"
    by (auto simp: SetServices_def split: prod.splits sum.splits)
  from prepare_services_own[OF p assms(2)] m show ?case by (simp add: clients_ok_def)
next
  case (called m w svc req decode r m' w')
  from GetClient_of_Call[OF called(2)] called(3) GetClient_ok[of pd svc m] show ?case by (metis prod.collapse)
next
  case (called_raw m w svc req r' m' w')
  from GetClient_of_CallRaw[OF called_raw(2)] called_raw(3) GetClient_ok[of pd svc m] show ?case by (metis prod.collapse)
qed

section \<open>Calls\<close>

definition attempts :: "remote_Request \<Rightarrow> nat" where
  "attempts req = (case rq_Retry req of None \<Rightarrow> 1 | Some rc \<Rightarrow> nat (rt_MaxRetries rc + 1))"

lemma client_execute_sends:
  assumes "client_execute env c req w = (r, w')" and "cl_baseURL c \<noteq> []"
  shows "sends (client_sends env c) (attempts req) w w'"
proof (cases "case rq_Body req of None \<Rightarrow> Inr (None, []) | Some b \<Rightarrow> body_Encode b")
  case (Inr dc)
  obtain data ct where "dc = (data, ct)" by (cases dc)
  with assms(1) Inr have run: "executeWithRetry env c (rq_Method req) (full_path req) data (execute_headers (rq_Headers req) ct) (rq_Retry req) w = (r, w')"
    by (simp add: client_execute_def)
  show ?thesis
  proof (cases "rq_Retry req")
    case None
    with run obtain r' where "executeOnce env c (rq_Method req) (full_path req) data (execute_headers (rq_Headers req) ct) w = (r', w')"
      by (auto simp: executeWithRetry_def split: prod.splits)
    from executeOnce_sends[OF this assms(2)] show ?thesis by (simp add: attempts_def None)
  next
    case (Some rc)
    with run have "retry_loop env rc (executeOnce env c (rq_Method req) (full_path req) data (execute_headers (rq_Headers req) ct)) 0 (rt_InitialBackoff rc) w = (r, w')"
      by (simp add: executeWithRetry_def)
    from retry_loop_sends[OF this, of "client_sends env c"] executeOnce_sends assms(2) show ?thesis
      by (auto simp: attempts_def Some)
  qed
qed (use assms(1) in \<open>simp add: client_execute_def sends_none\<close>)

text \<open>What a call to a service may send: requests on the service's URL, and token requests of its own OAuth2 settings.\<close>

definition service_sends :: "remote_env \<Rightarrow> ServiceConfig \<Rightarrow> sent \<Rightarrow> bool" where
  "service_sends env s m =
     (case m of
        Sent_Service q \<Rightarrow> on_service (re_parse env) (trim_suffix (CHR ''/'') (sc_URL (normalized s))) (or_URL q)
      | Sent_Token q \<Rightarrow>
          (\<exists>cfg c. sc_Auth s = Some cfg \<and> config_strategy cfg = Inr (S_OAuth2 c) \<and> or_URL q = oc_TokenURL c))"

lemma client_sends_service:
  assumes "own_auth s (cl_authenticator c)" and "cl_baseURL c = trim_suffix (CHR ''/'') (sc_URL (normalized s))" and "client_sends env c m"
  shows "service_sends env s m"
  using assms
  by (auto simp: client_sends_def service_sends_def own_auth_def token_request_def NewOAuth2_def SetInsecureSkipTLSVerify_def
      split: sent.splits option.splits sum.splits strategy.splits)

lemma served_client:
  assumes "served pd env services m w" and "distinct (map sc_ID services)" and "s \<in> set services"
    and "GetClient pd (sc_ID s) m = (Inr c, m')" and "trim_suffix (CHR ''/'') (sc_URL (normalized s)) \<noteq> []"
    and "client_execute env c req w = (r, w')"
  shows "sends (service_sends env s) (attempts req) w w'"
proof -
  note ok = served_ok[OF assms(1,2)]
  from ok assms(3) have cfg: "map_of (rm_configs m) (sc_ID s) = Some (normalized s)" "own_auth s (map_of (rm_authenticators m) (sc_ID s))"
    by auto
  have "built_from pd m (sc_ID s) c" using GetClient_ok[OF assms(4)] ok by blast
  then obtain opts where "client_options pd (normalized s) (map_of (rm_authenticators m) (sc_ID s)) = Inr opts"
    "NewClient (sc_URL (normalized s)) opts = Inr c" using cfg(1) by (auto simp: built_from_def)
  from built_client[OF this] have c: "cl_baseURL c = trim_suffix (CHR ''/'') (sc_URL (normalized s))" "cl_authenticator c = map_of (rm_authenticators m) (sc_ID s)"
    by auto
  with assms(5) have "sends (client_sends env c) (attempts req) w w'" using client_execute_sends[OF assms(6)] by simp
  moreover have "client_sends env c q \<Longrightarrow> service_sends env s q" for q
    using client_sends_service[of s c env q] c cfg(2) by simp
  ultimately show ?thesis by (rule sends_weaken)
qed


text \<open>Two services under one identifier are accepted, and mixed: the client calls the URL of the second with the
  credentials of the first when the second declares none.\<close>

theorem duplicate_service_mixes_credentials:
  assumes "sc_ID s1 = sc_ID s2" and "sc_Auth s1 = Some \<lparr>ag_Type = ''bearer'', ag_APIKey = None, ag_Bearer = Some t, ag_OAuth2 = None\<rparr>"
    and "sc_Auth s2 = None" and "sc_TLS s1 = None" and "sc_TLS s2 = None" and "sc_Timeout s2 = []"
    and "sc_URL (normalized s2) \<noteq> []" and "SetServices [s1, s2] m w = (e, m', w')"
  shows "e = None \<and> (\<exists>c m''. GetClient pd (sc_ID s2) m' = (Inr c, m'') \<and>
           cl_baseURL c = trim_suffix (CHR ''/'') (sc_URL (normalized s2)) \<and> cl_authenticator c = Some (Bearer t))"
proof -
  have b: "auth_Build \<lparr>ag_Type = ''bearer'', ag_APIKey = None, ag_Bearer = Some t, ag_OAuth2 = None\<rparr> w = (Inr (Bearer t), w)"
    by (simp add: auth_Build_def config_strategy_def strategy_build_defs count_set_def Let_def)
  have "e = None" "m' = \<lparr>rm_configs = [(sc_ID s2, normalized s2), (sc_ID s1, normalized s1)], rm_clients = [], rm_authenticators = [(sc_ID s1, Bearer t)]\<rparr>"
    using assms b by (auto simp: SetServices_def normalized_def)
  with assms show ?thesis
    by (simp add: GetClient_def client_options_def NewClient_def normalized_def)
qed

section \<open>Multipart headers\<close>

text \<open>The quotes of a header value that open or close a parameter: those without a backslash before them.\<close>

fun bare_quotes :: "string \<Rightarrow> nat" where
  "bare_quotes [] = 0"
| "bare_quotes (c # s) =
     (if c = CHR 0x5C then (case s of [] \<Rightarrow> 0 | _ # r \<Rightarrow> bare_quotes r)
      else if c = CHR 0x22 then Suc (bare_quotes s) else bare_quotes s)"

lemma bare_quotes_escaped: "bare_quotes (quoteEscaper s @ r) = bare_quotes r"
  by (induction s) (auto simp: quoteEscaper_def quote_char_def)

lemma bare_quotes_plain: "list_all (\<lambda>c. c \<noteq> CHR 0x5C \<and> c \<noteq> CHR 0x22) p \<Longrightarrow> bare_quotes (p @ r) = bare_quotes r"
  by (induction p) auto

lemma quoteEscaper_one_line: "CHR 0x0D \<notin> set (quoteEscaper s) \<and> CHR 0x0A \<notin> set (quoteEscaper s)"
  by (auto simp: quoteEscaper_def quote_char_def)

lemma write_parts_checked:
  "write_parts boundary first ps = Inr body \<Longrightarrow> p \<in> set ps \<Longrightarrow> pt_Name p \<noteq> [] \<and> \<not> hasControlChars (pt_ContentType p)"
  by (induction ps arbitrary: first body) (auto split: if_splits sum.splits)

lemma bare_quotes_disposition: "bare_quotes (part_disposition p) = (if pt_FileName p = [] then 2 else 4)"
proof -
  have "bare_quotes (''form-data; name='' @ r) = bare_quotes r" "bare_quotes (''; filename='' @ r) = bare_quotes r" for r
    by (rule bare_quotes_plain; simp)+
  moreover have "bare_quotes (dquote @ r) = Suc (bare_quotes r)" for r by (simp add: dquote_def)
  moreover have "bare_quotes dquote = 1" by (simp add: dquote_def)
  ultimately show ?thesis by (simp only: part_disposition_def bare_quotes_escaped split: if_split) simp
qed

lemma cr_lf_code: "(of_char (CHR 0x0D) :: nat) < 32" "(of_char (CHR 0x0A) :: nat) < 32"
  by simp_all

text \<open>C37. Whatever names, file names and content types the parts of a multipart body have, a body that is built has
  single header lines: no carriage return or line feed in any of them, so none can start a header or part of its own;
  and the quotes that delimit parameters are exactly those the encoder wrote, so no name breaks out of its quotes.\<close>

theorem multipart_headers_sealed:
  assumes "buildMultipartBody boundary parts = Inr (body, ct)" and "p \<in> set parts"
  shows "pt_Name p \<noteq> [] \<and> (\<forall>l \<in> set (part_headers p). CHR 0x0D \<notin> set l \<and> CHR 0x0A \<notin> set l) \<and>
         bare_quotes (part_disposition p) = (if pt_FileName p = [] then 2 else 4)"
proof -
  from assms have ok: "pt_Name p \<noteq> [] \<and> \<not> hasControlChars (pt_ContentType p)"
    using write_parts_checked by (auto simp: buildMultipartBody_def split: sum.splits)
  then have "CHR 0x0D \<notin> set (pt_ContentType p) \<and> CHR 0x0A \<notin> set (pt_ContentType p)"
    unfolding hasControlChars_def list_ex_iff byte_of_def by (metis cr_lf_code)
  moreover have "CHR 0x0D \<notin> set (part_disposition p) \<and> CHR 0x0A \<notin> set (part_disposition p)"
    using quoteEscaper_one_line[of "pt_Name p"] quoteEscaper_one_line[of "pt_FileName p"] by (simp add: part_disposition_def dquote_def)
  ultimately show ?thesis using ok bare_quotes_disposition[of p] by (auto simp: part_headers_def)
qed

end
