(* ===== verification/Remote_Samples.thy ===== *)
theory Remote_Samples
  imports Remote_Props
begin

text \<open>
  A registered service with client credentials that answers the second attempt, and the properties of outbound calls
  applied to it.
\<close>

definition urls :: "string \<Rightarrow> (string \<times> string) option" where
  "urls s =
     (if has_prefix s ''https://svc'' then Some (''https'', ''svc'')
      else if has_prefix s ''https://evil'' then Some (''https'', ''evil'') else None)"

definition net :: remote_env where
  "net = \<lparr>re_now = (\<lambda>n. int n), re_token = (\<lambda>_ _. Token_Reply 200 (Some \<lparr>tr_AccessToken = ''tok'', tr_ExpiresIn = 3600\<rparr>) None),
     re_do = (\<lambda>n _. Inr \<lparr>hr_StatusCode = (if n < 7 then 503 else 200), hr_Status = ''status'', hr_Body = ''{}''\<rparr>),
     re_ctx = (\<lambda>_. None), re_parse = urls, re_request = (\<lambda>_ _. True)\<rparr>"

definition quiet :: rworld where
  "quiet = \<lparr>rw_oauth = (\<lambda>_. \<lparr>os_accessToken = [], os_expiry = 0\<rparr>), rw_fresh = 0, rw_tick = 0, rw_sent = [], rw_waits = []\<rparr>"

definition svc_oauth :: OAuth2Config where
  "svc_oauth = \<lparr>oc_TokenURL = ''https://idp/token'', oc_ClientID = ''me'', oc_ClientSecret = ''pw'', oc_Scopes = [''a'', ''b''],
     oc_InsecureSkipTLSVerify = False, oc_EndpointParams = [(''resource'', [''https://svc''])]\<rparr>"

definition svc :: ServiceConfig where
  "svc = \<lparr>sc_ID = ''svc'', sc_URL = ''https://svc/'', sc_Timeout = [],
     sc_Auth = Some \<lparr>ag_Type = ''oauth2'', ag_APIKey = None, ag_Bearer = None, ag_OAuth2 = Some svc_oauth\<rparr>, sc_TLS = None\<rparr>"

definition no_duration :: "string \<Rightarrow> int option" where "no_duration _ = None"

definition svc_state :: "rerr option \<times> remote_Manager \<times> rworld" where
  "svc_state = SetServices [svc] remote_NewManager quiet"

definition svc_manager :: remote_Manager where "svc_manager = fst (snd svc_state)"
definition svc_world :: rworld where "svc_world = snd (snd svc_state)"

lemma svc_set: "SetServices [svc] remote_NewManager quiet = (None, svc_manager, svc_world)"
proof -
  have "fst svc_state = None" by code_simp
  then show ?thesis by (simp add: svc_manager_def svc_world_def svc_state_def prod_eq_iff)
qed

definition svc_request :: "string \<Rightarrow> remote_Request" where
  "svc_request path = \<lparr>rq_Method = ''GET'', rq_Path = path, rq_Query = [(''q'', [''a b''])], rq_Body = None, rq_Headers = [],
     rq_Retry = Some DefaultRetryConfig\<rparr>"

section \<open>Witnesses\<close>


definition svc_client :: Client where
  "svc_client = \<lparr>cl_baseURL = ''https://svc'', cl_timeout = 1, cl_authenticator = Some (Bearer ''t''), cl_certificate = None, cl_headers = []\<rparr>"

theorem retries_bounded_witness:
  "\<exists>resp w'. executeWithRetry net svc_client ''GET'' ''/x'' None [] (Some DefaultRetryConfig) quiet = (Inr (Some resp), w') \<and>
     hr_StatusCode resp = 200 \<and> rw_waits w' = [500000000, 1000000000] \<and> sends (client_sends net svc_client) 4 quiet w'"
proof -
  let ?run = "executeWithRetry net svc_client ''GET'' ''/x'' None [] (Some DefaultRetryConfig) quiet"
  have f: "case fst ?run of Inr (Some resp) \<Rightarrow> hr_StatusCode resp = 200 | _ \<Rightarrow> False" "rw_waits (snd ?run) = [500000000, 1000000000]" by code_simp+
  obtain res w' where run: "?run = (res, w')" by (cases ?run)
  have "sends (client_sends net svc_client) (nat (rt_MaxRetries DefaultRetryConfig) + 1) quiet w'"
    using retries_bounded[OF run] by (simp add: svc_client_def DefaultRetryConfig_def)
  with f run show ?thesis by (auto simp: DefaultRetryConfig_def split: sum.splits option.splits)
qed


definition first_svc :: ServiceConfig where
  "first_svc = svc\<lparr>sc_Auth := Some \<lparr>ag_Type = ''bearer'', ag_APIKey = None, ag_Bearer = Some ''secret'', ag_OAuth2 = None\<rparr>\<rparr>"

definition second_svc :: ServiceConfig where
  "second_svc = svc\<lparr>sc_URL := ''https://evil'', sc_Auth := None\<rparr>"

theorem duplicate_service_mixes_credentials_witness:
  "\<exists>m w c m'. SetServices [first_svc, second_svc] remote_NewManager quiet = (None, m, w) \<and> GetClient no_duration ''svc'' m = (Inr c, m') \<and>
     cl_baseURL c = ''https://evil'' \<and> cl_authenticator c = Some (Bearer ''secret'')"
proof -
  obtain e m w where run: "SetServices [first_svc, second_svc] remote_NewManager quiet = (e, m, w)" by (metis prod_cases3)
  have f: "sc_ID first_svc = ''svc''" "sc_ID second_svc = ''svc''" "sc_Auth second_svc = None" "sc_TLS first_svc = None" "sc_TLS second_svc = None"
    "sc_Timeout second_svc = []" "sc_Auth first_svc = Some \<lparr>ag_Type = ''bearer'', ag_APIKey = None, ag_Bearer = Some ''secret'', ag_OAuth2 = None\<rparr>"
    by (simp_all add: first_svc_def second_svc_def svc_def)
  have u: "sc_URL (normalized second_svc) = ''https://evil''" "trim_suffix (CHR ''/'') ''https://evil'' = ''https://evil''" by code_simp+
  show ?thesis
    using duplicate_service_mixes_credentials[of first_svc second_svc "''secret''" remote_NewManager quiet e m w no_duration] run f u by auto
qed

definition forged_part :: Part where
  "forged_part = \<lparr>pt_Name = ''f'', pt_FileName = [CHR 0x22, CHR 0x0D, CHR 0x0A] @ ''X: y'', pt_ContentType = [], pt_Content = ''data''\<rparr>"

theorem multipart_headers_sealed_witness:
  "\<exists>body ct. buildMultipartBody ''b'' [forged_part] = Inr (body, ct) \<and> bare_quotes (part_disposition forged_part) = 4 \<and>
     (\<forall>l \<in> set (part_headers forged_part). CHR 0x0A \<notin> set l)"
proof -
  have "\<not> isl (buildMultipartBody ''b'' [forged_part])" by code_simp
  then obtain body ct where "buildMultipartBody ''b'' [forged_part] = Inr (body, ct)" by (cases "buildMultipartBody ''b'' [forged_part]") auto
  with multipart_headers_sealed[of "''b''" "[forged_part]" body ct forged_part] show ?thesis by (auto simp: forged_part_def)
qed

end
