(* ===== verification/Ui_Projector.thy ===== *)
theory Ui_Projector
  imports Go_Text Json_Value "HOL-Library.AList" "HOL-Library.List_Lexorder" "HOL-Library.Char_ord"
begin

text \<open>
  Package \<open>uiprojector\<close>: the assembler turns a blueprint and facts about an entity into rendered sections. Maps that the code ranges
  over are lists of entries in the order Go gives them; other maps are functions, a nil map being an empty one. The context carries the manifest version of
  \<open>artifact.WithManifestVersion\<close>. The template provider, JSON decoding, \<open>text/template\<close> and projectors other than the three of the package are parameters.
\<close>

section \<open>Data\<close>

datatype uierr = UiError string | UiErrorOf string string | UiMissing "string list" | UiWrapped string uierr

record VisibleWhen =
  vw_States :: "string list"
  vw_RequireDataKey :: string
  vw_RequireClaim :: string

record SectionBlueprint =
  sb_TemplateID :: string
  sb_Title :: string
  sb_Projector :: string
  sb_DataKey :: string
  sb_VisibleWhen :: "VisibleWhen option"

record Blueprint =
  bp_ID :: string
  bp_Sections :: "(string \<times> SectionBlueprint) list"

text \<open>\<open>Data\<close> is \<open>None\<close> when it is nil, which a projector can tell from an empty map.\<close>

record Facts =
  fa_State :: string
  fa_Data :: "vars option"
  fa_Claims :: "string \<Rightarrow> bool option"

text \<open>Values of type \<open>any\<close>: a projector is given one entry of the data or the data as a whole, and returns such a value or the
  content of a form.\<close>

datatype ui_data = OfValue jval | OfData "vars option"

record FormContent =
  fc_Schema :: jval
  fc_UISchema :: jval
  fc_Data :: ui_data

datatype ui_content = PlainContent ui_data | OfForm FormContent

record Projection =
  pn_Type :: string
  pn_Content :: ui_content

record Section =
  se_Type :: string
  se_Title :: string
  se_Content :: ui_content

type_synonym ui_ctx = "int option"

record Projector =
  pj_Type :: string
  pj_Project :: "ui_ctx \<Rightarrow> string \<Rightarrow> ui_data \<Rightarrow> uierr + Projection"

definition ProjectorForm :: string where "ProjectorForm = ''FORM''"
definition ProjectorMarkdown :: string where "ProjectorMarkdown = ''MARKDOWN''"
definition ProjectorRaw :: string where "ProjectorRaw = ''RAW''"
definition SectionTypeForm :: string where "SectionTypeForm = ''FORM''"
definition SectionTypeMarkdown :: string where "SectionTypeMarkdown = ''MARKDOWN''"
definition SectionTypeRaw :: string where "SectionTypeRaw = ''RAW''"

lemmas ui_names = ProjectorForm_def ProjectorMarkdown_def ProjectorRaw_def SectionTypeForm_def SectionTypeMarkdown_def SectionTypeRaw_def

section \<open>Projectors\<close>

text \<open>The libraries the projectors call: JSON decoding into a map (null gives a nil one) and into the wrapper of a markdown
  template, and \<open>text/template\<close>.\<close>

record 'tpl ui_libs =
  ul_object :: "string \<Rightarrow> uierr + vars option"
  ul_wrapper :: "string \<Rightarrow> uierr + string"
  ul_parse :: "string \<Rightarrow> uierr + 'tpl"
  ul_execute :: "'tpl \<Rightarrow> ui_data \<Rightarrow> uierr + string"

definition map_field :: "vars option \<Rightarrow> string \<Rightarrow> jval" where
  "map_field m k = (case Option.bind m (\<lambda>f. f k) of Some v \<Rightarrow> v | None \<Rightarrow> VNull)"

definition form_Project :: "'tpl ui_libs \<Rightarrow> string \<Rightarrow> ui_data \<Rightarrow> uierr + Projection" where
  "form_Project libs templateContent data =
     (case ul_object libs templateContent of
        Inl e \<Rightarrow> Inl (UiWrapped ''form_projector: failed to parse schema'' e)
      | Inr schema \<Rightarrow>
          Inr \<lparr>pn_Type = SectionTypeForm,
               pn_Content = OfForm \<lparr>fc_Schema = map_field schema ''schema'', fc_UISchema = map_field schema ''uiSchema'', fc_Data = data\<rparr>\<rparr>)"

definition markdown_text :: "'tpl ui_libs \<Rightarrow> string \<Rightarrow> string" where
  "markdown_text libs templateContent =
     (case ul_wrapper libs templateContent of
        Inl _ \<Rightarrow> templateContent
      | Inr t \<Rightarrow> if t \<noteq> [] then t else templateContent)"

definition markdown_Project :: "'tpl ui_libs \<Rightarrow> string \<Rightarrow> ui_data \<Rightarrow> uierr + Projection" where
  "markdown_Project libs templateContent data =
     (case ul_parse libs (markdown_text libs templateContent) of
        Inl e \<Rightarrow> Inl (UiWrapped ''markdown_projector: failed to parse template'' e)
      | Inr tmpl \<Rightarrow>
          (case ul_execute libs tmpl data of
             Inl e \<Rightarrow> Inl (UiWrapped ''markdown_projector: failed to execute template'' e)
           | Inr out \<Rightarrow> Inr \<lparr>pn_Type = SectionTypeMarkdown, pn_Content = PlainContent (OfValue (VStr out))\<rparr>))"

definition raw_Project :: "string \<Rightarrow> ui_data \<Rightarrow> uierr + Projection" where
  "raw_Project templateContent data = Inr \<lparr>pn_Type = SectionTypeRaw, pn_Content = PlainContent data\<rparr>"

definition NewFormProjector :: "'tpl ui_libs \<Rightarrow> Projector" where
  "NewFormProjector libs = \<lparr>pj_Type = ProjectorForm, pj_Project = \<lambda>ctx. form_Project libs\<rparr>"

definition NewMarkdownProjector :: "'tpl ui_libs \<Rightarrow> Projector" where
  "NewMarkdownProjector libs = \<lparr>pj_Type = ProjectorMarkdown, pj_Project = \<lambda>ctx. markdown_Project libs\<rparr>"

definition NewRawProjector :: Projector where
  "NewRawProjector = \<lparr>pj_Type = ProjectorRaw, pj_Project = \<lambda>ctx. raw_Project\<rparr>"

definition DefaultProjectors :: "'tpl ui_libs \<Rightarrow> Projector option list" where
  "DefaultProjectors libs = [Some (NewFormProjector libs), Some (NewMarkdownProjector libs), Some NewRawProjector]"

section \<open>Visibility\<close>

definition ShouldRender :: "SectionBlueprint \<Rightarrow> Facts \<Rightarrow> bool" where
  "ShouldRender sb facts =
     (case sb_VisibleWhen sb of
        None \<Rightarrow> True
      | Some rules \<Rightarrow>
          if vw_States rules \<noteq> [] \<and> \<not> list_ex (\<lambda>s. EqualFold s (fa_State facts)) (vw_States rules) then False
          else if vw_RequireDataKey rules \<noteq> [] \<and> is_nil (map_field (fa_Data facts) (vw_RequireDataKey rules)) then False
          else if vw_RequireClaim rules \<noteq> [] \<and> fa_Claims facts (vw_RequireClaim rules) \<noteq> Some True then False
          else True)"

section \<open>The assembler\<close>

type_synonym TemplateProvider = "ui_ctx \<Rightarrow> string \<Rightarrow> uierr + string"

record Assembler =
  am_templateProvider :: TemplateProvider
  am_projectors :: "string \<Rightarrow> Projector option"

fun register_projectors :: "Projector option list \<Rightarrow> (string \<Rightarrow> Projector option) \<Rightarrow> uierr + (string \<Rightarrow> Projector option)" where
  "register_projectors [] registry = Inr registry"
| "register_projectors (None # ps) registry = Inl (UiError ''uiprojector: nil projector in registration list'')"
| "register_projectors (Some p # ps) registry =
     (let t = pj_Type p
      in if t = [] then Inl (UiError ''uiprojector: projector returned empty Type()'')
         else if registry t \<noteq> None then Inl (UiErrorOf t ''uiprojector: duplicate projector type'')
         else register_projectors ps (registry(t \<mapsto> p)))"

definition NewAssembler :: "TemplateProvider option \<Rightarrow> Projector option list \<Rightarrow> uierr + Assembler" where
  "NewAssembler tp projectors =
     (case tp of
        None \<Rightarrow> Inl (UiError ''uiprojector: template provider is required'')
      | Some provider \<Rightarrow>
          (case register_projectors projectors (\<lambda>_. None) of
             Inl e \<Rightarrow> Inl e
           | Inr registry \<Rightarrow> Inr \<lparr>am_templateProvider = provider, am_projectors = registry\<rparr>))"

text \<open>The claims a blueprint refers to that the facts do not have, in the order they are found.\<close>

fun missing_claims :: "(string \<times> SectionBlueprint) list \<Rightarrow> (string \<Rightarrow> bool option) \<Rightarrow> string list \<Rightarrow> string list" where
  "missing_claims [] claims missing = missing"
| "missing_claims ((zone, sb) # rest) claims missing =
     missing_claims rest claims
       (case sb_VisibleWhen sb of
          None \<Rightarrow> missing
        | Some rules \<Rightarrow>
            let claim = vw_RequireClaim rules
            in if claim = [] \<or> claims claim \<noteq> None \<or> claim \<in> set missing then missing else missing @ [claim])"

definition validateClaims :: "Blueprint \<Rightarrow> Facts \<Rightarrow> uierr option" where
  "validateClaims bp facts =
     (let missing = missing_claims (bp_Sections bp) (fa_Claims facts) []
      in if missing = [] then None else Some (UiMissing (sort missing)))"

definition section_data :: "SectionBlueprint \<Rightarrow> Facts \<Rightarrow> ui_data" where
  "section_data sb facts = (if sb_DataKey sb \<noteq> [] then OfValue (map_field (fa_Data facts) (sb_DataKey sb)) else OfData (fa_Data facts))"

text \<open>The body of the loop for a visible section.\<close>

definition project_section :: "Assembler \<Rightarrow> ui_ctx \<Rightarrow> Facts \<Rightarrow> string \<Rightarrow> SectionBlueprint \<Rightarrow> uierr + Section" where
  "project_section a ctx facts zone sb =
     (case am_projectors a (sb_Projector sb) of
        None \<Rightarrow> Inl (UiErrorOf (sb_Projector sb) ''assembler: unknown projector'')
      | Some proj \<Rightarrow>
          (case am_templateProvider a ctx (sb_TemplateID sb) of
             Inl e \<Rightarrow> Inl (UiWrapped ''assembler: failed to fetch template'' e)
           | Inr templateContent \<Rightarrow>
               (case pj_Project proj ctx templateContent (section_data sb facts) of
                  Inl e \<Rightarrow> Inl (UiWrapped ''assembler: projection failed'' e)
                | Inr projection \<Rightarrow>
                    if pn_Type projection = [] then Inl (UiErrorOf zone ''assembler: empty Projection.Type'')
                    else Inr \<lparr>se_Type = pn_Type projection, se_Title = sb_Title sb, se_Content = pn_Content projection\<rparr>)))"

fun assemble_sections ::
  "Assembler \<Rightarrow> ui_ctx \<Rightarrow> Facts \<Rightarrow> (string \<times> SectionBlueprint) list \<Rightarrow> (string \<times> Section) list \<Rightarrow> uierr + (string \<times> Section) list" where
  "assemble_sections a ctx facts [] sections = Inr sections"
| "assemble_sections a ctx facts ((zone, sb) # rest) sections =
     (if \<not> ShouldRender sb facts then assemble_sections a ctx facts rest sections
      else case project_section a ctx facts zone sb of
             Inl e \<Rightarrow> Inl e
           | Inr sec \<Rightarrow> assemble_sections a ctx facts rest (AList.update zone sec sections))"

definition assembler_Assemble :: "Assembler \<Rightarrow> ui_ctx \<Rightarrow> Blueprint option \<Rightarrow> Facts \<Rightarrow> uierr + (string \<times> Section) list" where
  "assembler_Assemble a ctx blueprint facts =
     (case blueprint of
        None \<Rightarrow> Inl (UiError ''assembler: blueprint is nil'')
      | Some bp \<Rightarrow>
          (case validateClaims bp facts of
             Some e \<Rightarrow> Inl e
           | None \<Rightarrow> assemble_sections a ctx facts (bp_Sections bp) []))"

section \<open>What is assembled\<close>

definition visible_sections :: "Facts \<Rightarrow> (string \<times> SectionBlueprint) list \<Rightarrow> (string \<times> SectionBlueprint) list" where
  "visible_sections facts bs = filter (\<lambda>(zone, sb). ShouldRender sb facts) bs"

text \<open>A blueprint decoded from JSON has every section key once.\<close>

definition blueprint_ok :: "Blueprint \<Rightarrow> bool" where
  "blueprint_ok bp \<longleftrightarrow> distinct (map fst (bp_Sections bp))"

lemma assemble_sections_Inr:
  assumes "distinct (map fst bs)" "set (map fst bs) \<inter> set (map fst acc) = {}"
  shows "assemble_sections a ctx facts bs acc = Inr secs \<longleftrightarrow>
     (\<forall>(zone, sb) \<in> set (visible_sections facts bs). isl (project_section a ctx facts zone sb) = False) \<and>
     secs = acc @ map (\<lambda>(zone, sb). (zone, projr (project_section a ctx facts zone sb))) (visible_sections facts bs)"
  using assms
proof (induction bs arbitrary: acc)
  case (Cons b bs)
  obtain zone sb where b: "b = (zone, sb)" by (cases b)
  have fresh: "AList.update zone sec acc = acc @ [(zone, sec)]" for sec
    using Cons.prems(2) by (induction acc) (auto simp: b)
  show ?case
  proof (cases "ShouldRender sb facts")
    case True
    then show ?thesis using Cons.IH[of "acc @ [(zone, projr (project_section a ctx facts zone sb))]"] Cons.prems
      by (cases "project_section a ctx facts zone sb") (auto simp: b fresh visible_sections_def)
  next
    case False
    then show ?thesis using Cons.IH[of acc] Cons.prems by (simp add: b visible_sections_def)
  qed
qed (auto simp: visible_sections_def)

text \<open>The claims that are missing do not depend on the order of the sections, and neither does the error that reports them.\<close>

definition required_claim :: "SectionBlueprint \<Rightarrow> string" where
  "required_claim sb = (case sb_VisibleWhen sb of None \<Rightarrow> [] | Some rules \<Rightarrow> vw_RequireClaim rules)"

lemma missing_claims_set:
  "set (missing_claims bs claims acc) = set acc \<union> {c \<in> required_claim ` snd ` set bs. c \<noteq> [] \<and> claims c = None}"
proof (induction bs claims acc rule: missing_claims.induct)
  case (2 zone sb rest claims missing)
  show ?case
  proof (cases "sb_VisibleWhen sb")
    case None
    then show ?thesis using 2 by (auto simp: required_claim_def)
  next
    case (Some rules)
    then show ?thesis using 2 by (auto simp: required_claim_def Let_def)
  qed
qed simp

lemma missing_claims_distinct: "distinct acc \<Longrightarrow> distinct (missing_claims bs claims acc)"
  by (induction bs claims acc rule: missing_claims.induct) (auto simp: Let_def split: option.splits)

lemma validateClaims_None:
  "validateClaims bp facts = None \<longleftrightarrow> (\<forall>b \<in> set (bp_Sections bp). required_claim (snd b) = [] \<or> fa_Claims facts (required_claim (snd b)) \<noteq> None)"
proof -
  have "validateClaims bp facts = None \<longleftrightarrow> set (missing_claims (bp_Sections bp) (fa_Claims facts) []) = {}"
    by (simp add: validateClaims_def Let_def)
  also have "\<dots> \<longleftrightarrow> (\<forall>c \<in> required_claim ` snd ` set (bp_Sections bp). c = [] \<or> fa_Claims facts c \<noteq> None)"
    by (auto simp: missing_claims_set)
  finally show ?thesis by (simp add: ball_simps(9))
qed

lemma validateClaims_order:
  assumes "set (bp_Sections bp) = set (bp_Sections bp')"
  shows "validateClaims bp facts = validateClaims bp' facts"
proof -
  let ?m = "\<lambda>b. missing_claims (bp_Sections b) (fa_Claims facts) []"
  have "set (?m bp) = set (?m bp')" by (simp add: missing_claims_set assms)
  moreover have "sort (?m bp) = sort (?m bp')"
    using calculation by (intro sorted_distinct_set_unique) (simp_all add: missing_claims_distinct)
  ultimately show ?thesis by (simp add: validateClaims_def Let_def set_empty[symmetric] del: set_empty)
qed

text \<open>A registry of projectors has every projector under its own type.\<close>

lemma register_projectors_types:
  assumes "register_projectors ps reg = Inr reg'" "\<And>t p. reg t = Some p \<Longrightarrow> pj_Type p = t \<and> t \<noteq> []"
  shows "reg' t = Some p \<longleftrightarrow> reg t = Some p \<or> Some p \<in> set ps \<and> pj_Type p = t"
  using assms
proof (induction ps reg rule: register_projectors.induct)
  case (3 q ps reg)
  have q: "pj_Type q \<noteq> []" "reg (pj_Type q) = None" "register_projectors ps (reg(pj_Type q \<mapsto> q)) = Inr reg'"
    using 3(2) by (auto simp: Let_def split: if_splits)
  have keep: "pj_Type p' = u \<and> u \<noteq> []" if "(reg(pj_Type q \<mapsto> q)) u = Some p'" for u p' using that 3(3) q(1) by (auto split: if_splits)
  have "reg' t = Some p \<longleftrightarrow> (reg(pj_Type q \<mapsto> q)) t = Some p \<or> Some p \<in> set ps \<and> pj_Type p = t"
    using 3(1)[OF refl _ _ q(3) keep] q(1,2) by simp
  then show ?case using q(2) by auto
qed auto

end
