(* ===== verification/Artifact_Adapters.thy ===== *)
theory Artifact_Adapters
  imports Artifact_Props Task_Manager
begin

text \<open>
  The adapters of package \<open>artifact/adapter\<close>, which give artifact types their kinds and parsers, and \<open>renderconfig.Load\<close> over a manifest set: the task
  template of a record and then its render config, both through the record's manifest version. Other requests may use the set
  before each of the three lookups; \<open>am_source n\<close> is what the source answers during the n-th. JSON decoding is a parameter.

  \<open>manager_over\<close> fills in the artifact parameters of the task manager of \<open>Task_Env\<close> with what the files of a set hold, and
  \<open>loaded_config_refines\<close> shows that the lookups implement them.
\<close>

section \<open>Adapters\<close>

record artifact_json =
  aj_taskTemplate :: "string \<Rightarrow> tferr + TaskTemplate"
  aj_stepTemplate :: "string \<Rightarrow> tferr + StepTemplate"
  aj_workflow :: "string \<Rightarrow> tferr + WorkflowDefinition"
  aj_valid :: "string \<Rightarrow> bool"

definition tasktemplate_Parse :: "artifact_json \<Rightarrow> string \<Rightarrow> tferr + TaskTemplate" where
  "tasktemplate_Parse js raw =
     (case aj_taskTemplate js raw of
        Inl e \<Rightarrow> Inl (Wrapped e)
      | Inr t \<Rightarrow>
          if tt_ID t = [] then Inl (PlainError ''task template: missing id'')
          else if list_ex (\<lambda>role. role = []) (tt_ReadRoles t) then Inl (PlainError ''read.roles has an empty or null role'')
          else Inr t)"

definition steptemplate_Parse :: "artifact_json \<Rightarrow> string \<Rightarrow> tferr + StepTemplate" where
  "steptemplate_Parse js raw =
     (case aj_stepTemplate js raw of
        Inl e \<Rightarrow> Inl (Wrapped e)
      | Inr t \<Rightarrow>
          if sp_ID t = [] then Inl (PlainError ''step template: missing id'')
          else case sp_Draft t of
                 None \<Rightarrow> Inr t
               | Some command \<Rightarrow>
                   if command = [] then Inl (PlainError ''draft has no command'')
                   else if sp_OutputNamespace t = [] then Inl (PlainError ''draft needs an output_namespace'')
                   else Inr t)"

definition workflowdef_Parse :: "artifact_json \<Rightarrow> string \<Rightarrow> tferr + WorkflowDefinition" where
  "workflowdef_Parse js raw =
     (case aj_workflow js raw of
        Inl e \<Rightarrow> Inl (Wrapped e)
      | Inr w \<Rightarrow> if wd_ID w = [] then Inl (PlainError ''workflow definition: missing id'') else Inr w)"

definition generictemplate_Parse :: "artifact_json \<Rightarrow> string \<Rightarrow> tferr + string" where
  "generictemplate_Parse js raw = (if \<not> aj_valid js raw then Inl (PlainError ''invalid json'') else Inr raw)"

definition tasktemplate_type :: "artifact_json \<Rightarrow> TaskTemplate artifact_type" where
  "tasktemplate_type js = (''task_template'', tasktemplate_Parse js)"

definition steptemplate_type :: "artifact_json \<Rightarrow> StepTemplate artifact_type" where
  "steptemplate_type js = (''subtask_template'', steptemplate_Parse js)"

definition workflowdef_type :: "artifact_json \<Rightarrow> WorkflowDefinition artifact_type" where
  "workflowdef_type js = (''workflow'', workflowdef_Parse js)"

definition generictemplate_type :: "artifact_json \<Rightarrow> string artifact_type" where
  "generictemplate_type js = (''generic_template'', generictemplate_Parse js)"

lemmas artifact_types = tasktemplate_type_def steptemplate_type_def workflowdef_type_def generictemplate_type_def

definition tasktemplate_Load :: "artifact_json \<Rightarrow> loader \<Rightarrow> aregistry \<Rightarrow> string \<Rightarrow> aset \<Rightarrow> (tferr + TaskTemplate) \<times> aset" where
  "tasktemplate_Load js load reg i s = latest_from load (tasktemplate_type js) i reg s"

definition generictemplate_Load :: "artifact_json \<Rightarrow> loader \<Rightarrow> aregistry \<Rightarrow> string \<Rightarrow> aset \<Rightarrow> (tferr + string) \<times> aset" where
  "generictemplate_Load js load reg i s = latest_from load (generictemplate_type js) i reg s"

definition steptemplate_Load :: "artifact_json \<Rightarrow> loader \<Rightarrow> aregistry \<Rightarrow> string \<Rightarrow> aset \<Rightarrow> (tferr + StepTemplate) \<times> aset" where
  "steptemplate_Load js load reg i s = latest_from load (steptemplate_type js) i reg s"

definition workflowdef_Load :: "artifact_json \<Rightarrow> loader \<Rightarrow> aregistry \<Rightarrow> string \<Rightarrow> aset \<Rightarrow> (tferr + WorkflowDefinition) \<times> aset" where
  "workflowdef_Load js load reg i s = latest_from load (workflowdef_type js) i reg s"

section \<open>The render config of a task\<close>

record artifact_env =
  ae_source :: "nat \<Rightarrow> loader"
  ae_others :: "nat \<Rightarrow> aset \<Rightarrow> aset"
  ae_probe :: probe_ctx
  ae_manifest :: manifest_parser
  ae_json :: artifact_json

definition load_render_config :: "artifact_env \<Rightarrow> TaskRecord \<Rightarrow> aset \<Rightarrow> ((tferr + string) \<times> aset) option" where
  "load_render_config env record s =
     (if tk_TaskTemplateID record = [] then Some (Inl (Wrapped ErrNoTaskTemplate), s)
      else case set_Registry (ae_source env 0) (ae_manifest env) (ae_probe env) (tk_ManifestVersion record) (ae_others env 0 s) of
             None \<Rightarrow> None
           | Some (Inl e, s1) \<Rightarrow> Some (Inl (Wrapped e), s1)
           | Some (Inr reg, s1) \<Rightarrow>
               (case tasktemplate_Load (ae_json env) (ae_source env 1) reg (tk_TaskTemplateID record) (ae_others env 1 s1) of
                  (Inl e, s2) \<Rightarrow> Some (Inl (Wrapped e), s2)
                | (Inr template, s2) \<Rightarrow>
                    (case generictemplate_Load (ae_json env) (ae_source env 2) reg (tt_RenderConfigID template) (ae_others env 2 s2) of
                       (Inl e, s3) \<Rightarrow> Some (Inl (Wrapped e), s3)
                     | (Inr raw, s3) \<Rightarrow> Some (Inr raw, s3))))"

section \<open>Sets in use\<close>

text \<open>Files are never changed once they are published, and other requests only use the set.\<close>

definition artifact_env_ok :: "string smap \<Rightarrow> artifact_env \<Rightarrow> bool" where
  "artifact_env_ok contents env \<longleftrightarrow>
     (\<forall>n. serves (ae_source env n) contents) \<and> (\<forall>n s. set_run contents (ae_manifest env) s (ae_others env n s))"

definition set_ok :: "string smap \<Rightarrow> aset \<Rightarrow> bool" where
  "set_ok contents s \<longleftrightarrow> set_inv s \<and> files_ok contents (as_files s)"

lemma others_keep:
  assumes "artifact_env_ok contents env" "set_ok contents s"
  shows "set_ok contents (ae_others env n s) \<and> extends s (ae_others env n s)"
  using assms set_run_keeps[of s contents "ae_manifest env" "ae_others env n s"] by (auto simp: artifact_env_ok_def set_ok_def)

text \<open>What a registry holds under an id, by the contents of its files.\<close>

definition held :: "string smap \<Rightarrow> 'a artifact_type \<Rightarrow> aregistry \<Rightarrow> string \<Rightarrow> tferr + 'a" where
  "held contents ty reg i =
     (case Option.bind (versions_of reg (i, fst ty)) latest_path of
        None \<Rightarrow> Inl (Wrapped ErrNotFound)
      | Some path \<Rightarrow> (case contents path of None \<Rightarrow> Inl (Wrapped ErrNotFound) | Some raw \<Rightarrow> parseAs ty raw))"

text \<open>A lookup answers what the registry holds, or the source refused a file.\<close>

lemma latest_from_held:
  assumes "set_ok contents s" "serves load contents" "latest_from load ty i reg s = (r, s')"
  shows "set_ok contents s' \<and> extends s s' \<and> (r = held contents ty reg i \<or> (\<exists>path e. load path = Inl e \<and> r = Inl (Wrapped e)))"
proof -
  have "files_ok contents (as_files s')" "\<exists>files. s' = s\<lparr>as_files := files\<rparr>"
    "case Option.bind (versions_of reg (i, fst ty)) latest_path of None \<Rightarrow> r = Inl (Wrapped ErrNotFound)
     | Some path \<Rightarrow> (\<exists>raw. contents path = Some raw \<and> r = parseAs ty raw) \<or> (\<exists>e. load path = Inl e \<and> r = Inl (Wrapped e))"
    using latest_from_keeps[OF _ assms(2,3)] assms(1) by (auto simp: set_ok_def)
  then show ?thesis using assms(1) by (auto simp: set_ok_def held_def set_inv_cong split: option.splits)
qed

lemma lookup_step:
  assumes "artifact_env_ok contents env" "set_ok contents s" "latest_from (ae_source env n) ty i reg (ae_others env n s) = (r, s')"
  shows "set_ok contents s' \<and> extends s s' \<and> (r = held contents ty reg i \<or> (\<exists>path e. ae_source env n path = Inl e \<and> r = Inl (Wrapped e)))"
proof -
  have "serves (ae_source env n) contents" using assms(1) by (simp add: artifact_env_ok_def)
  moreover have "set_ok contents (ae_others env n s)" "extends s (ae_others env n s)" using others_keep[OF assms(1,2)] by auto
  ultimately show ?thesis using latest_from_held[OF _ _ assms(3)] extends_trans by metis
qed

lemma Registry_found:
  assumes "set_ok contents s" "set_Registry load um px v s = Some (Inr reg, s')"
  shows "set_ok contents s' \<and> extends s s' \<and> view s' v = Some reg"
proof -
  have "view s' v = Some reg" using assms(2) by (auto simp: set_Registry_def split: if_splits option.splits sum.splits)
  then show ?thesis using set_Registry_keeps[of s load um px v "Inr reg" s'] assms by (auto simp: set_ok_def)
qed

lemma Registry_loaded:
  assumes "set_ok contents s" "view s v = Some reg"
  shows "set_Registry load um px v s = Some (Inr reg, s)"
  using assms view_versions[of s v] by (auto simp: set_Registry_def set_ok_def)

section \<open>The artifacts of a task manager\<close>

text \<open>The artifact parameters of the task manager, as the files of a set hold them.\<close>

definition manager_over :: "string smap \<Rightarrow> artifact_json \<Rightarrow> (int \<Rightarrow> aregistry option) \<Rightarrow> TaskManager \<Rightarrow> TaskManager" where
  "manager_over contents js registry mg =
     mg\<lparr>mg_artifacts := (\<lambda>v. if registry v = None then Some (Wrapped ErrUnknownManifestVersion) else None),
        mg_taskTemplate := (\<lambda>v i. held contents (tasktemplate_type js) (the (registry v)) i),
        mg_workflowDef := (\<lambda>v i. held contents (workflowdef_type js) (the (registry v)) i),
        mg_genericTemplate := (\<lambda>v i. held contents (generictemplate_type js) (the (registry v)) i),
        mg_stepTemplate := (\<lambda>v i. held contents (steptemplate_type js) (the (registry v)) i)\<rparr>"

lemma renderconfig_over:
  assumes "registry (tk_ManifestVersion record) = Some reg" "tk_TaskTemplateID record \<noteq> []"
  shows "renderconfig_Load (manager_over contents js registry mg) record =
     (case held contents (tasktemplate_type js) reg (tk_TaskTemplateID record) of
        Inl e \<Rightarrow> Inl (Wrapped e)
      | Inr t \<Rightarrow> (case held contents (generictemplate_type js) reg (tt_RenderConfigID t) of Inl e \<Rightarrow> Inl (Wrapped e) | Inr raw \<Rightarrow> Inr raw))"
  using assms by (simp add: renderconfig_Load_def manager_over_def cong: sum.case_cong)

text \<open>The three lookups, whatever happens between them, implement the load of a task manager over the registry of the record's version.\<close>

lemma loaded_config_refines:
  assumes "artifact_env_ok contents env" "set_ok contents s" "view s (tk_ManifestVersion record) = Some reg"
  shows "\<exists>r s'. load_render_config env record s = Some (r, s') \<and> set_ok contents s' \<and> extends s s' \<and>
     (r = renderconfig_Load (manager_over contents (ae_json env) (view s) mg) record \<or> (\<exists>n path e. n < 3 \<and> ae_source env n path = Inl e \<and> isl r))"
proof (cases "tk_TaskTemplateID record = []")
  case True
  then show ?thesis using assms(2) by (simp add: load_render_config_def renderconfig_Load_def)
next
  case False
  let ?v = "tk_ManifestVersion record" and ?js = "ae_json env" and ?ref = "renderconfig_Load (manager_over contents (ae_json env) (view s) mg) record"
  define s0 where "s0 = ae_others env 0 s"
  have s0: "set_ok contents s0" "extends s s0" using others_keep[OF assms(1,2)] by (auto simp: s0_def)
  then have "view s0 ?v = Some reg" using assms(3) by (auto simp: extends_def)
  then have reg: "set_Registry (ae_source env 0) (ae_manifest env) (ae_probe env) ?v s0 = Some (Inr reg, s0)" by (rule Registry_loaded[OF s0(1)])
  obtain r1 s1 where l1: "latest_from (ae_source env (Suc 0)) (tasktemplate_type ?js) (tk_TaskTemplateID record) reg (ae_others env (Suc 0) s0) = (r1, s1)"
    by (cases "latest_from (ae_source env (Suc 0)) (tasktemplate_type ?js) (tk_TaskTemplateID record) reg (ae_others env (Suc 0) s0)")
  have s1: "set_ok contents s1" "extends s s1"
    and r1: "r1 = held contents (tasktemplate_type ?js) reg (tk_TaskTemplateID record) \<or> (\<exists>path e. ae_source env (Suc 0) path = Inl e \<and> r1 = Inl (Wrapped e))"
    using lookup_step[OF assms(1) s0(1) l1] s0(2) extends_trans by blast+
  let ?held = "\<lambda>i. held contents (generictemplate_type ?js) reg i"
  note ref = renderconfig_over[of "view s" "record", OF assms(3) False, of contents ?js mg]
  note run = load_render_config_def tasktemplate_Load_def generictemplate_Load_def
  show ?thesis
  proof (cases r1)
    case (Inl e)
    then have "load_render_config env record s = Some (Inl (Wrapped e), s1)" using False reg l1 by (simp add: run s0_def[symmetric])
    moreover have "?ref = Inl (Wrapped e) \<or> (\<exists>path e. ae_source env (Suc 0) path = Inl e)"
      using r1 Inl by (metis (no_types, lifting) ref sum.case(1))
    ultimately show ?thesis using s1 by (intro exI[of _ "Inl (Wrapped e)"] exI[of _ s1] conjI) (auto intro: exI[of _ "Suc 0"])
  next
    case (Inr template)
    obtain r2 s2 where l2: "latest_from (ae_source env 2) (generictemplate_type ?js) (tt_RenderConfigID template) reg (ae_others env 2 s1) = (r2, s2)"
      by (cases "latest_from (ae_source env 2) (generictemplate_type ?js) (tt_RenderConfigID template) reg (ae_others env 2 s1)")
    have s2: "set_ok contents s2" "extends s s2"
      and r2: "r2 = held contents (generictemplate_type ?js) reg (tt_RenderConfigID template) \<or> (\<exists>path e. ae_source env 2 path = Inl e \<and> r2 = Inl (Wrapped e))"
      using lookup_step[OF assms(1) s1(1) l2] s1(2) extends_trans by blast+
    have "load_render_config env record s = Some (case r2 of Inl e \<Rightarrow> Inl (Wrapped e) | Inr raw \<Rightarrow> Inr raw, s2)"
      using False reg l1 l2 Inr by (simp add: run s0_def[symmetric] split: sum.split)
    moreover have "?ref = (case r2 of Inl e \<Rightarrow> Inl (Wrapped e) | Inr raw \<Rightarrow> Inr raw) \<or> (\<exists>path e. ae_source env 2 path = Inl e \<and> isl r2)"
      using r2
    proof
      have "held contents (tasktemplate_type ?js) reg (tk_TaskTemplateID record) = Inr template" using r1 Inr by auto
      moreover assume "r2 = ?held (tt_RenderConfigID template)"
      ultimately show ?thesis by (simp add: ref)
    qed auto
    moreover have "isl (case r2 of Inl e \<Rightarrow> Inl (Wrapped e) | Inr raw \<Rightarrow> Inr raw) = isl r2" by (cases r2) auto
    ultimately show ?thesis using s2
      by (intro exI[of _ "case r2 of Inl e \<Rightarrow> Inl (Wrapped e) | Inr raw \<Rightarrow> Inr raw"] exI[of _ s2] conjI) (auto intro: exI[of _ 2])
  qed
qed

text \<open>A config that was loaded is the one the registry of the record's version holds, and the registry is in the set from then on.\<close>

lemma loaded_config_found:
  assumes "artifact_env_ok contents env" "set_ok contents s" "load_render_config env record s = Some (Inr raw, s')"
  shows "set_ok contents s' \<and> extends s s' \<and>
     (\<exists>reg. view s' (tk_ManifestVersion record) = Some reg) \<and> renderconfig_Load (manager_over contents (ae_json env) (view s') mg) record = Inr raw"
proof -
  let ?js = "ae_json env" and ?v = "tk_ManifestVersion record"
  have ne: "tk_TaskTemplateID record \<noteq> []" using assms(3) by (auto simp: load_render_config_def)
  obtain reg s1 t s2 where steps:
      "set_Registry (ae_source env 0) (ae_manifest env) (ae_probe env) ?v (ae_others env 0 s) = Some (Inr reg, s1)"
      "latest_from (ae_source env 1) (tasktemplate_type ?js) (tk_TaskTemplateID record) reg (ae_others env 1 s1) = (Inr t, s2)"
      "latest_from (ae_source env 2) (generictemplate_type ?js) (tt_RenderConfigID t) reg (ae_others env 2 s2) = (Inr raw, s')"
    using assms(3) ne by (auto simp: load_render_config_def tasktemplate_Load_def generictemplate_Load_def split: option.splits sum.splits prod.splits)
  have s0: "set_ok contents (ae_others env 0 s)" "extends s (ae_others env 0 s)" using others_keep[OF assms(1,2)] by auto
  have s1: "set_ok contents s1" "extends s s1" "view s1 ?v = Some reg" using Registry_found[OF s0(1) steps(1)] s0(2) extends_trans by blast+
  have s2: "set_ok contents s2" "extends s1 s2" "held contents (tasktemplate_type ?js) reg (tk_TaskTemplateID record) = Inr t"
    using lookup_step[OF assms(1) s1(1) steps(2)] by auto
  have s3: "set_ok contents s'" "extends s2 s'" "held contents (generictemplate_type ?js) reg (tt_RenderConfigID t) = Inr raw"
    using lookup_step[OF assms(1) s2(1) steps(3)] by auto
  have "extends s1 s'" using extends_trans[OF s2(2) s3(2)] .
  then have "view s' ?v = Some reg" using s1(3) by (simp add: extends_def)
  then show ?thesis using extends_trans[OF s1(2) \<open>extends s1 s'\<close>] s3(1) renderconfig_over[of "view s'" "record", OF _ ne] s2(3) s3(3) by auto
qed

end
