(* ===== verification/Zone_View.thy ===== *)
theory Zone_View
  imports Ui_Projector Artifact_Adapters
begin

text \<open>
  Package \<open>taskflow/renderer/zoneview\<close>: \<open>TaskRenderer\<close> projects the sections of a render config with \<open>uiprojector\<close>, orders them by the layout of the
  task's state and joins to each the handles legal in that state; \<open>ZoneViewAssembler\<close> resolves the config of a task and wraps the
  view. JSON encoding and decoding are parameters, \<open>zc_blueprint\<close> and \<open>zc_config\<close> being the two decodings of one config.
\<close>

section \<open>Data\<close>

record HandleClaim =
  hc_Command :: string
  hc_Label :: string
  hc_Element :: string

text \<open>Actions are their commands; a layout reference is its \<open>$ref\<close>. \<open>handles\<close> is \<open>None\<close> when nil.\<close>

record StateView =
  sv_Actions :: "string list"
  sv_Order :: "string option"

record TaskTemplateConfig =
  tc_Sections :: "string \<Rightarrow> HandleClaim list"
  tc_Layouts :: "string \<Rightarrow> string list option"
  tc_States :: "string \<Rightarrow> StateView"

record EnrichedComponent =
  ec_ID :: string
  ec_Title :: string
  ec_Type :: string
  ec_Handles :: "HandleClaim list option"
  ec_Payload :: string

record ZoneView =
  zv_TaskID :: string
  zv_TaskType :: string
  zv_State :: string
  zv_StepID :: string
  zv_Version :: int
  zv_ClaimedBy :: string
  zv_ClaimedAt :: "int option"
  zv_View :: string

record zone_codec =
  zc_blueprint :: "string \<Rightarrow> uierr + Blueprint"
  zc_config :: "string \<Rightarrow> uierr + TaskTemplateConfig"
  zc_marshal :: "ui_content \<Rightarrow> uierr + string"
  zc_view :: "EnrichedComponent list \<Rightarrow> uierr + string"

section \<open>Layout and handles\<close>

definition layoutRefPrefix :: string where "layoutRefPrefix = ''#/layouts/''"

definition resolveLayout :: "TaskTemplateConfig \<Rightarrow> string \<Rightarrow> uierr + string list" where
  "resolveLayout cfg state =
     (case sv_Order (tc_States cfg state) of
        None \<Rightarrow> Inr []
      | Some ref \<Rightarrow>
          if \<not> (take (length layoutRefPrefix) ref = layoutRefPrefix) \<or> drop (length layoutRefPrefix) ref = []
          then Inl (UiErrorOf ref ''order $ref is not of the form #/layouts/<name>'')
          else case tc_Layouts cfg (drop (length layoutRefPrefix) ref) of
                 None \<Rightarrow> Inl (UiErrorOf (drop (length layoutRefPrefix) ref) ''order references undefined layout'')
               | Some layout \<Rightarrow> Inr layout)"

fun place_slots :: "(string \<times> Section) list \<Rightarrow> string list \<Rightarrow> string list \<Rightarrow> string list" where
  "place_slots sections [] ordered = ordered"
| "place_slots sections (slot # layout) ordered =
     place_slots sections layout
       (if map_of sections slot = None \<or> slot \<in> set ordered then ordered else ordered @ [slot])"

definition orderSlots :: "(string \<times> Section) list \<Rightarrow> string list \<Rightarrow> string list" where
  "orderSlots sections layout =
     (let ordered = place_slots sections layout []
      in ordered @ sort (filter (\<lambda>slot. slot \<notin> set ordered) (map fst sections)))"

definition legalCommands :: "string list \<Rightarrow> string list" where
  "legalCommands actions = filter (\<lambda>c. c \<noteq> []) actions"

definition filterLegalHandles :: "HandleClaim list \<Rightarrow> string list \<Rightarrow> HandleClaim list option" where
  "filterLegalHandles claims legal =
     (let out = filter (\<lambda>h. hc_Command h \<in> set legal) claims in if out = [] then None else Some out)"

section \<open>Rendering\<close>

text \<open>Markdown content that is a string is wrapped in an object.\<close>

definition wire_content :: "Section \<Rightarrow> ui_content" where
  "wire_content sec =
     (if se_Type sec = ''MARKDOWN''
      then (case se_Content sec of PlainContent (OfValue (VStr str)) \<Rightarrow> PlainContent (OfValue (VMap [''content'' \<mapsto> VStr str])) | c \<Rightarrow> c)
      else se_Content sec)"

fun render_slots :: "zone_codec \<Rightarrow> TaskTemplateConfig \<Rightarrow> string list \<Rightarrow> (string \<times> Section) list \<Rightarrow> string list \<Rightarrow> uierr + EnrichedComponent list" where
  "render_slots zc cfg legal sections [] = Inr []"
| "render_slots zc cfg legal sections (slot # slots) =
     (let sec = the (map_of sections slot)
      in case zc_marshal zc (wire_content sec) of
           Inl e \<Rightarrow> Inl (UiWrapped ''renderer: marshal section'' e)
         | Inr payload \<Rightarrow>
             (case render_slots zc cfg legal sections slots of
                Inl e \<Rightarrow> Inl e
              | Inr rest \<Rightarrow>
                  Inr (\<lparr>ec_ID = slot, ec_Title = se_Title sec, ec_Type = se_Type sec,
                        ec_Handles = filterLegalHandles (tc_Sections cfg slot) legal, ec_Payload = payload\<rparr> # rest)))"

definition Render :: "zone_codec \<Rightarrow> Assembler \<Rightarrow> ui_ctx \<Rightarrow> string \<Rightarrow> Facts \<Rightarrow> uierr + string" where
  "Render zc a ctx configRaw facts =
     (if configRaw = [] then Inr ''[]''
      else case zc_blueprint zc configRaw of
             Inl e \<Rightarrow> Inl (UiWrapped ''renderer: unmarshal blueprint'' e)
           | Inr bp \<Rightarrow>
      (case zc_config zc configRaw of
             Inl e \<Rightarrow> Inl (UiWrapped ''renderer: unmarshal trader-app layering'' e)
           | Inr cfg \<Rightarrow>
      (case resolveLayout cfg (fa_State facts) of
             Inl e \<Rightarrow> Inl (UiWrapped ''renderer'' e)
           | Inr layout \<Rightarrow>
      (case assembler_Assemble a ctx (Some bp) facts of
             Inl e \<Rightarrow> Inl (UiWrapped ''renderer: assemble'' e)
           | Inr sections \<Rightarrow>
      (case render_slots zc cfg (legalCommands (sv_Actions (tc_States cfg (fa_State facts)))) sections (orderSlots sections layout) of
             Inl e \<Rightarrow> Inl e
           | Inr result \<Rightarrow>
      (case zc_view zc result of
             Inl e \<Rightarrow> Inl (UiWrapped ''renderer: marshal result'' e)
           | Inr out \<Rightarrow> Inr out))))))"

text \<open>\<open>ZoneViewAssembler.Assemble\<close>; the renderer runs with the manifest version of the record in its context.\<close>

definition zone_view :: "TaskRecord \<Rightarrow> string \<Rightarrow> ZoneView" where
  "zone_view record rendered =
     \<lparr>zv_TaskID = tk_TaskID record, zv_TaskType = tk_TaskType record, zv_State = tk_State record, zv_StepID = tk_ActiveStepID record,
      zv_Version = tk_Seq record, zv_ClaimedBy = tk_ClaimedBy record, zv_ClaimedAt = tk_ClaimedAt record, zv_View = rendered\<rparr>"

definition record_facts :: "TaskRecord \<Rightarrow> (string \<Rightarrow> bool option) \<Rightarrow> Facts" where
  "record_facts record claims = \<lparr>fa_State = tk_State record, fa_Data = tk_Data record, fa_Claims = claims\<rparr>"

datatype zone_error = LoadFailed tferr | RenderFailed uierr

definition zone_Assemble ::
  "artifact_env \<Rightarrow> zone_codec \<Rightarrow> Assembler \<Rightarrow> TaskRecord \<Rightarrow> (string \<Rightarrow> bool option) \<Rightarrow> aset \<Rightarrow> ((zone_error + ZoneView) \<times> aset) option" where
  "zone_Assemble env zc a record claims s =
     (case load_render_config env record s of
        None \<Rightarrow> None
      | Some (Inl e, s') \<Rightarrow> Some (Inl (LoadFailed e), s')
      | Some (Inr config, s') \<Rightarrow>
          (case Render zc a (Some (tk_ManifestVersion record)) config (record_facts record claims) of
             Inl e \<Rightarrow> Some (Inl (RenderFailed e), s')
           | Inr rendered \<Rightarrow> Some (Inr (zone_view record rendered), s')))"

section \<open>The order of a view\<close>

lemma place_slots_Cons: "slot \<in> set ordered \<Longrightarrow> slot \<in> set (place_slots sections layout ordered)"
  by (induction sections layout ordered rule: place_slots.induct) auto

lemma place_slots_set:
  "set (place_slots sections layout ordered) = set ordered \<union> {slot \<in> set layout. slot \<in> fst ` set sections}"
  by (induction sections layout ordered rule: place_slots.induct) (auto simp: map_of_eq_None_iff)

lemma place_slots_distinct: "distinct ordered \<Longrightarrow> distinct (place_slots sections layout ordered)"
  by (induction sections layout ordered rule: place_slots.induct) auto

text \<open>The slots of the layout come in the layout's order, each at its first place.\<close>

lemma place_slots_order:
  "place_slots sections layout ordered = ordered @ filter (\<lambda>s. s \<in> fst ` set sections \<and> s \<notin> set ordered) (rev (remdups (rev layout)))"
proof (induction sections layout ordered rule: place_slots.induct)
  case (2 sections slot layout ordered)
  have first: "rev (remdups (rev (slot # layout))) = slot # filter (\<lambda>s. s \<noteq> slot) (rev (remdups (rev layout)))"
  proof -
    have "remdups (xs @ [x]) = filter (\<lambda>s. s \<noteq> x) (remdups xs) @ [x]" for xs and x :: string
      by (induction xs) auto
    then show ?thesis by (simp add: rev_filter)
  qed
  show ?case
  proof (cases "map_of sections slot = None \<or> slot \<in> set ordered")
    case True
    then have "\<not> (slot \<in> fst ` set sections \<and> slot \<notin> set ordered)" by (auto simp: map_of_eq_None_iff)
    then show ?thesis using 2 True unfolding first by (auto simp: intro!: filter_cong)
  next
    case False
    then have "slot \<in> fst ` set sections" by (auto simp: map_of_eq_None_iff)
    then show ?thesis using 2 False unfolding first by (auto intro!: filter_cong)
  qed
qed simp

lemma orderSlots_set: "set (orderSlots sections layout) = fst ` set sections"
  by (auto simp: orderSlots_def Let_def place_slots_set)

lemma orderSlots_distinct: "distinct (map fst sections) \<Longrightarrow> distinct (orderSlots sections layout)"
  by (auto simp: orderSlots_def Let_def place_slots_distinct)

text \<open>The order does not depend on the order in which Go ranges over the sections.\<close>

lemma orderSlots_cong:
  assumes "fst ` set secs = fst ` set secs'" "distinct (map fst secs)" "distinct (map fst secs')"
  shows "orderSlots secs layout = orderSlots secs' layout"
proof -
  have "place_slots secs layout [] = place_slots secs' layout []" by (simp add: place_slots_order assms(1))
  moreover have "sort (filter P (map fst secs)) = sort (filter P (map fst secs'))" for P
    using assms by (intro sorted_distinct_set_unique) auto
  ultimately show ?thesis by (simp add: orderSlots_def Let_def)
qed

section \<open>The components of a view\<close>

definition component :: "zone_codec \<Rightarrow> TaskTemplateConfig \<Rightarrow> string list \<Rightarrow> string \<Rightarrow> Section \<Rightarrow> EnrichedComponent" where
  "component zc cfg legal slot sec =
     \<lparr>ec_ID = slot, ec_Title = se_Title sec, ec_Type = se_Type sec, ec_Handles = filterLegalHandles (tc_Sections cfg slot) legal,
      ec_Payload = projr (zc_marshal zc (wire_content sec))\<rparr>"

lemma render_slots_Inr:
  "render_slots zc cfg legal sections slots = Inr cs \<longleftrightarrow>
     (\<forall>slot \<in> set slots. \<not> isl (zc_marshal zc (wire_content (the (map_of sections slot))))) \<and>
     cs = map (\<lambda>slot. component zc cfg legal slot (the (map_of sections slot))) slots"
proof (induction slots arbitrary: cs)
  case (Cons slot slots)
  let ?sec = "the (map_of sections slot)"
  show ?case
  proof (cases "zc_marshal zc (wire_content ?sec)")
    case (Inr payload)
    then have "render_slots zc cfg legal sections (slot # slots) = Inr cs \<longleftrightarrow>
        (\<exists>rest. render_slots zc cfg legal sections slots = Inr rest \<and> cs = component zc cfg legal slot ?sec # rest)"
      by (auto simp: Let_def component_def split: sum.splits)
    then show ?thesis unfolding Cons.IH using Inr by auto
  qed (simp add: Let_def)
qed auto

end
