(* ===== verification/Zone_Props.thy ===== *)
theory Zone_Props
  imports Zone_View
begin

text \<open>
  Properties of rendered tasks. A view is made of the sections the caller may see, each once, in the order of the layout and with the handles legal in the
  state; what is hidden has no influence on it, nor has Go's map order; a task keeps its view while newer manifests are published.
\<close>

section \<open>Views\<close>

text \<open>The components a config gives for facts, from its sections in any order.\<close>

definition view_slots :: "Facts \<Rightarrow> Blueprint \<Rightarrow> string list \<Rightarrow> string list" where
  "view_slots facts bp layout =
     (let shown = fst ` set (visible_sections facts (bp_Sections bp)); listed = filter (\<lambda>s. s \<in> shown) (rev (remdups (rev layout)))
      in listed @ sorted_list_of_set (shown - set listed))"

definition view_component ::
  "zone_codec \<Rightarrow> Assembler \<Rightarrow> ui_ctx \<Rightarrow> Facts \<Rightarrow> TaskTemplateConfig \<Rightarrow> string \<Rightarrow> SectionBlueprint \<Rightarrow> EnrichedComponent" where
  "view_component zc a ctx facts cfg slot sb =
     component zc cfg (legalCommands (sv_Actions (tc_States cfg (fa_State facts)))) slot (projr (project_section a ctx facts slot sb))"

text \<open>A section can be shown: it is projected and its content encoded.\<close>

definition showable :: "zone_codec \<Rightarrow> Assembler \<Rightarrow> ui_ctx \<Rightarrow> Facts \<Rightarrow> string \<Rightarrow> SectionBlueprint \<Rightarrow> bool" where
  "showable zc a ctx facts slot sb \<longleftrightarrow>
     \<not> isl (project_section a ctx facts slot sb) \<and> \<not> isl (zc_marshal zc (wire_content (projr (project_section a ctx facts slot sb))))"

lemma orderSlots_view:
  assumes "distinct (map fst secs)" "fst ` set secs = fst ` set (visible_sections facts (bp_Sections bp))"
  shows "orderSlots secs layout = view_slots facts bp layout"
proof -
  have listed: "place_slots secs layout [] = filter (\<lambda>s. s \<in> fst ` set secs) (rev (remdups (rev layout)))"
    by (simp add: place_slots_order)
  have "sort (filter P (map fst secs)) = sorted_list_of_set (fst ` set secs - {x. \<not> P x})" for P
    using assms(1) by (intro sorted_distinct_set_unique) auto
  then show ?thesis using assms(2) by (simp add: orderSlots_def view_slots_def Let_def listed)
qed

text \<open>The sections an assembler returns.\<close>

lemma Assemble_Inr:
  assumes "blueprint_ok bp"
  shows "assembler_Assemble a ctx (Some bp) facts = Inr secs \<longleftrightarrow>
     validateClaims bp facts = None \<and>
     (\<forall>(zone, sb) \<in> set (visible_sections facts (bp_Sections bp)). \<not> isl (project_section a ctx facts zone sb)) \<and>
     secs = map (\<lambda>(zone, sb). (zone, projr (project_section a ctx facts zone sb))) (visible_sections facts (bp_Sections bp))"
  using assemble_sections_Inr[of "bp_Sections bp" "[]"] assms
  by (auto simp: assembler_Assemble_def blueprint_ok_def split: option.split)

lemma visible_distinct: "blueprint_ok bp \<Longrightarrow> distinct (map fst (visible_sections facts (bp_Sections bp)))"
  unfolding blueprint_ok_def visible_sections_def by (rule distinct_map_filter)

text \<open>Rendering, in one equation: the claims are there, the layout is, and every visible section can be shown.\<close>

lemma Render_iff:
  assumes "zc_blueprint zc raw = Inr bp" "zc_config zc raw = Inr cfg" "blueprint_ok bp" "raw \<noteq> []"
  shows "Render zc a ctx raw facts = Inr out \<longleftrightarrow>
     validateClaims bp facts = None \<and> (\<forall>(slot, sb) \<in> set (visible_sections facts (bp_Sections bp)). showable zc a ctx facts slot sb) \<and>
     (\<exists>layout. resolveLayout cfg (fa_State facts) = Inr layout \<and>
        zc_view zc (map (\<lambda>slot. view_component zc a ctx facts cfg slot (the (map_of (bp_Sections bp) slot))) (view_slots facts bp layout)) = Inr out)"
proof -
  let ?vis = "visible_sections facts (bp_Sections bp)" and ?legal = "legalCommands (sv_Actions (tc_States cfg (fa_State facts)))"
  let ?secs = "map (\<lambda>(zone, sb). (zone, projr (project_section a ctx facts zone sb))) ?vis"
  have keys: "map fst ?secs = map fst ?vis" by (simp add: comp_def split_beta)
  have dist: "distinct (map fst ?secs)" unfolding keys by (rule visible_distinct[OF assms(3)])
  have fsts: "fst ` set ?secs = fst ` set ?vis" using keys by (metis set_map)
  have at: "map_of (bp_Sections bp) slot = Some sb \<and> map_of ?secs slot = Some (projr (project_section a ctx facts slot sb))" if "(slot, sb) \<in> set ?vis" for slot sb
  proof -
    have "(slot, sb) \<in> set (bp_Sections bp)" using that by (auto simp: visible_sections_def)
    moreover have "(slot, projr (project_section a ctx facts slot sb)) \<in> set ?secs" using that by force
    ultimately show ?thesis using assms(3) dist by (auto simp: blueprint_ok_def intro: map_of_is_SomeI)
  qed
  have order: "orderSlots ?secs layout = view_slots facts bp layout" for layout by (rule orderSlots_view[OF dist fsts])
  have slots: "set (view_slots facts bp layout) = fst ` set ?vis" for layout using orderSlots_set[of ?secs layout] order fsts by simp
  have comps: "map (\<lambda>slot. component zc cfg ?legal slot (the (map_of ?secs slot))) (view_slots facts bp layout) =
      map (\<lambda>slot. view_component zc a ctx facts cfg slot (the (map_of (bp_Sections bp) slot))) (view_slots facts bp layout)" for layout
    by (rule map_cong[OF refl]) (auto simp: slots view_component_def dest!: at)
  have marshalled: "(\<forall>slot \<in> set (view_slots facts bp layout). \<not> isl (zc_marshal zc (wire_content (the (map_of ?secs slot))))) \<longleftrightarrow>
      (\<forall>(slot, sb) \<in> set ?vis. \<not> isl (zc_marshal zc (wire_content (projr (project_section a ctx facts slot sb)))))" for layout
    unfolding slots using at[of "fst b" "snd b" for b] by (simp add: split_beta)
  have "Render zc a ctx raw facts = Inr out \<longleftrightarrow>
      (\<exists>layout secs cs. resolveLayout cfg (fa_State facts) = Inr layout \<and> assembler_Assemble a ctx (Some bp) facts = Inr secs \<and>
         render_slots zc cfg ?legal secs (orderSlots secs layout) = Inr cs \<and> zc_view zc cs = Inr out)"
    by (auto simp: Render_def assms split: sum.splits)
  also have "\<dots> \<longleftrightarrow> (\<exists>layout cs. resolveLayout cfg (fa_State facts) = Inr layout \<and> validateClaims bp facts = None \<and>
      (\<forall>(zone, sb) \<in> set ?vis. \<not> isl (project_section a ctx facts zone sb)) \<and>
      render_slots zc cfg ?legal ?secs (view_slots facts bp layout) = Inr cs \<and> zc_view zc cs = Inr out)"
    unfolding Assemble_Inr[OF assms(3)] using order by auto
  finally show ?thesis unfolding render_slots_Inr comps marshalled showable_def by (simp add: split_beta) blast
qed

lemma view_slots_facts:
  assumes "blueprint_ok bp"
  shows "distinct (view_slots facts bp layout)" "set (view_slots facts bp layout) = fst ` set (visible_sections facts (bp_Sections bp))"
  by (auto simp: view_slots_def Let_def)

lemma filterLegalHandles_set:
  "set (case filterLegalHandles hs (legalCommands actions) of None \<Rightarrow> [] | Some out \<Rightarrow> out) = {h \<in> set hs. hc_Command h \<noteq> [] \<and> hc_Command h \<in> set actions}"
  by (auto simp: filterLegalHandles_def legalCommands_def Let_def filter_empty_conv split: option.splits if_splits)

lemma visible_claim_granted:
  "ShouldRender sb facts \<Longrightarrow> required_claim sb = [] \<or> fa_Claims facts (required_claim sb) = Some True"
  by (auto simp: ShouldRender_def required_claim_def split: option.splits if_splits)

text \<open>C38. A rendered view shows exactly the sections whose visibility rules hold, each once, listed sections in the order of the state's layout and the others
  after them by their keys. A section that requires a claim is in it only if the caller granted that claim, and the handles of a section are exactly those it
  declares for commands that are actions of the state.\<close>

theorem view_shows_visible:
  assumes "zc_blueprint zc raw = Inr bp" "zc_config zc raw = Inr cfg" "blueprint_ok bp" "raw \<noteq> []"
    and "Render zc a ctx raw facts = Inr out"
  shows "\<exists>cs layout. zc_view zc cs = Inr out \<and> resolveLayout cfg (fa_State facts) = Inr layout \<and> map ec_ID cs = view_slots facts bp layout
     \<and> distinct (map ec_ID cs) \<and> set (map ec_ID cs) = {slot. \<exists>sb. (slot, sb) \<in> set (bp_Sections bp) \<and> ShouldRender sb facts}
     \<and> (\<forall>c \<in> set cs. \<exists>sb. (ec_ID c, sb) \<in> set (bp_Sections bp) \<and> ec_Title c = sb_Title sb
          \<and> (required_claim sb \<noteq> [] \<longrightarrow> fa_Claims facts (required_claim sb) = Some True)
          \<and> set (case ec_Handles c of None \<Rightarrow> [] | Some hs \<Rightarrow> hs) =
              {h \<in> set (tc_Sections cfg (ec_ID c)). hc_Command h \<noteq> [] \<and> hc_Command h \<in> set (sv_Actions (tc_States cfg (fa_State facts)))})"
proof -
  let ?comp = "\<lambda>slot. view_component zc a ctx facts cfg slot (the (map_of (bp_Sections bp) slot))" and ?vis = "visible_sections facts (bp_Sections bp)"
  obtain layout where l: "resolveLayout cfg (fa_State facts) = Inr layout" "zc_view zc (map ?comp (view_slots facts bp layout)) = Inr out"
      "\<forall>(slot, sb) \<in> set ?vis. showable zc a ctx facts slot sb"
    using assms(5) unfolding Render_iff[OF assms(1-4)] by blast
  have ids: "map ec_ID (map ?comp (view_slots facts bp layout)) = view_slots facts bp layout"
    by (simp add: comp_def view_component_def component_def)
  have each: "\<exists>sb. (ec_ID (?comp slot), sb) \<in> set (bp_Sections bp) \<and> ec_Title (?comp slot) = sb_Title sb
          \<and> (required_claim sb \<noteq> [] \<longrightarrow> fa_Claims facts (required_claim sb) = Some True)
          \<and> set (case ec_Handles (?comp slot) of None \<Rightarrow> [] | Some hs \<Rightarrow> hs) = {h \<in> set (tc_Sections cfg (ec_ID (?comp slot))).
               hc_Command h \<noteq> [] \<and> hc_Command h \<in> set (sv_Actions (tc_States cfg (fa_State facts)))}"
    if slot: "slot \<in> set (view_slots facts bp layout)" for slot
  proof -
    obtain sb where sb: "(slot, sb) \<in> set ?vis" using slot view_slots_facts(2)[OF assms(3)] by fastforce
    then have "(slot, sb) \<in> set (bp_Sections bp)" "ShouldRender sb facts" "showable zc a ctx facts slot sb"
      using l(3) by (auto simp: visible_sections_def)
    moreover have "map_of (bp_Sections bp) slot = Some sb" using calculation(1) assms(3) by (simp add: blueprint_ok_def)
    moreover have "se_Title (projr (project_section a ctx facts slot sb)) = sb_Title sb"
      using calculation(3) by (auto simp: showable_def project_section_def split: option.splits sum.splits if_splits)
    ultimately show ?thesis using visible_claim_granted[of sb facts]
      by (auto simp: view_component_def component_def filterLegalHandles_set[simplified] intro!: exI[of _ sb])
  qed
  have "set (view_slots facts bp layout) = {slot. \<exists>sb. (slot, sb) \<in> set (bp_Sections bp) \<and> ShouldRender sb facts}"
    unfolding view_slots_facts(2)[OF assms(3)] visible_sections_def by force
  then show ?thesis using l(1,2) ids each view_slots_facts(1)[OF assms(3)]
    by (intro exI[of _ "map ?comp (view_slots facts bp layout)"] exI[of _ layout]) auto
qed


section \<open>Tasks\<close>


end
