(* ===== verification/Zone_Samples.thy ===== *)
theory Zone_Samples
  imports Zone_Props Artifact_Samples
begin

text \<open>
  A render config with three sections, one of them behind a claim the caller lacks, a task rendered from it before and after a second manifest is
  published, and the witnesses of the properties of \<open>Zone_Props\<close>.
\<close>

section \<open>A render config\<close>

definition plain_section :: "string \<Rightarrow> SectionBlueprint" where
  "plain_section title = \<lparr>sb_TemplateID = ''t'', sb_Title = title, sb_Projector = ''RAW'', sb_DataKey = ''applicant'', sb_VisibleWhen = None\<rparr>"

definition claimed_section :: "string \<Rightarrow> string \<Rightarrow> SectionBlueprint" where
  "claimed_section title claim =
     (plain_section title)\<lparr>sb_VisibleWhen := Some \<lparr>vw_States = [''pending''], vw_RequireDataKey = [], vw_RequireClaim = claim\<rparr>\<rparr>"

definition form_blueprint :: "string \<Rightarrow> Blueprint" where
  "form_blueprint note = \<lparr>bp_ID = ''apply'', bp_Sections =
     [(''notes'', claimed_section note ''canReview''), (''form'', claimed_section ''Form'' ''canEdit''), (''about'', plain_section ''About'')]\<rparr>"

definition form_config :: "HandleClaim list \<Rightarrow> TaskTemplateConfig" where
  "form_config handles =
     \<lparr>tc_Sections = (\<lambda>slot. if slot = ''form'' then [\<lparr>hc_Command = ''submit'', hc_Label = ''Submit'', hc_Element = []\<rparr>, \<lparr>hc_Command = ''withdraw'', hc_Label = ''Withdraw'', hc_Element = []\<rparr>]
                         else if slot = ''notes'' then handles else []),
      tc_Layouts = [''main'' \<mapsto> [''form'', ''notes'', ''form'']],
      tc_States = (\<lambda>state. if state = ''PENDING'' then \<lparr>sv_Actions = [''submit''], sv_Order = Some ''#/layouts/main''\<rparr> else \<lparr>sv_Actions = [], sv_Order = None\<rparr>)\<rparr>"

definition form_codec :: zone_codec where
  "form_codec = \<lparr>zc_blueprint = (\<lambda>raw. Inr (form_blueprint raw)), zc_config = (\<lambda>raw. Inr (form_config [\<lparr>hc_Command = raw, hc_Label = [], hc_Element = []\<rparr>])),
     zc_marshal = (\<lambda>c. Inr ''x''), zc_view = (\<lambda>cs. Inr (concat (map (\<lambda>c. ec_ID c @ '' '') cs)))\<rparr>"

definition form_libs :: "string ui_libs" where
  "form_libs = \<lparr>ul_object = (\<lambda>raw. Inr None), ul_wrapper = (\<lambda>raw. Inr []), ul_parse = (\<lambda>t. Inr t), ul_execute = (\<lambda>t d. Inr t)\<rparr>"

definition form_assembler :: Assembler where
  "form_assembler = projr (NewAssembler (Some (\<lambda>ctx i. Inr i)) (DefaultProjectors form_libs))"

definition form_claims :: "string \<Rightarrow> bool option" where
  "form_claims = [''canEdit'' \<mapsto> True, ''canReview'' \<mapsto> False]"

definition form_facts :: Facts where
  "form_facts = \<lparr>fa_State = ''PENDING'', fa_Data = Some [''applicant'' \<mapsto> VStr ''Ann''], fa_Claims = form_claims\<rparr>"

lemma form_decoded:
  "zc_blueprint form_codec raw = Inr (form_blueprint raw)"
  "zc_config form_codec raw = Inr (form_config [\<lparr>hc_Command = raw, hc_Label = [], hc_Element = []\<rparr>])"
  "blueprint_ok (form_blueprint raw)"
  by (simp_all add: form_codec_def blueprint_ok_def form_blueprint_def)

lemma form_rendered: "Render form_codec form_assembler (Some 1) ''r1'' form_facts = Inr ''form about ''"
  by code_simp

theorem view_shows_visible_witness:
  "\<exists>cs. zc_view form_codec cs = Inr ''form about '' \<and> distinct (map ec_ID cs)
     \<and> set (map ec_ID cs) = {slot. \<exists>sb. (slot, sb) \<in> set (bp_Sections (form_blueprint ''r1'')) \<and> ShouldRender sb form_facts}"
  using view_shows_visible[OF form_decoded(1,2,3) _ form_rendered] by auto

lemma form_visible:
  "visible_sections form_facts (bp_Sections (form_blueprint note)) = [(''form'', claimed_section ''Form'' ''canEdit''), (''about'', plain_section ''About'')]"
proof -
  have "EqualFold ''pending'' ''PENDING''" by code_simp
  then show ?thesis
    by (simp add: visible_sections_def form_blueprint_def ShouldRender_def claimed_section_def plain_section_def form_facts_def form_claims_def)
qed


section \<open>A task\<close>

definition form_rows :: "string \<Rightarrow> ManifestConfig" where
  "form_rows path =
     [\<lparr>ro_ID = ''apply'', ro_Kind = ''task_template'', ro_Version = [], ro_Path = ''t1''\<rparr>, \<lparr>ro_ID = ''view'', ro_Kind = ''generic_template'', ro_Version = [], ro_Path = path\<rparr>]"

definition form_um :: manifest_parser where
  "form_um data = (if data = ''m1'' then Inr (form_rows ''p1'') else if data = ''m2'' then Inr (form_rows ''p2'') else Inl (PlainError ''syntax''))"

definition form_files :: "string smap" where
  "form_files = [''manifest_v1.json'' \<mapsto> ''m1'', ''manifest_v2.json'' \<mapsto> ''m2'', ''t1'' \<mapsto> ''view'', ''p1'' \<mapsto> ''r1'', ''p2'' \<mapsto> ''r2'']"

definition form_source :: "string list \<Rightarrow> loader" where
  "form_source hidden path = (if path \<in> set hidden then Inl ErrNotFound else case form_files path of None \<Rightarrow> Inl ErrNotFound | Some raw \<Rightarrow> Inr raw)"

definition form_json :: artifact_json where
  "form_json = \<lparr>aj_taskTemplate = (\<lambda>raw. Inr \<lparr>tt_ID = ''apply'', tt_Type = [], tt_WorkflowID = [], tt_RenderConfigID = raw, tt_Claimable = False, tt_ReadRoles = []\<rparr>),
     aj_stepTemplate = (\<lambda>raw. Inl ErrInvalid), aj_workflow = (\<lambda>raw. Inl ErrInvalid), aj_valid = (\<lambda>raw. True)\<rparr>"

definition form_env :: "string list \<Rightarrow> artifact_env" where
  "form_env hidden = \<lparr>ae_source = (\<lambda>n. form_source hidden), ae_others = (\<lambda>n s. s), ae_probe = waiting 0, ae_manifest = form_um, ae_json = form_json\<rparr>"

definition form_task :: TaskRecord where
  "form_task = \<lparr>tk_TaskID = ''T1'', tk_TaskType = [], tk_State = ''PENDING'', tk_TaskTemplateID = ''apply'', tk_ParentWorkflowID = [], tk_ParentStepID = [],
     tk_CaseID = [], tk_ReadRoles = [], tk_ManifestVersion = 1, tk_TaskWorkflowID = [], tk_ActiveTaskTemplateID = [], tk_ActiveStepID = ''s1'', tk_Seq = 3,
     tk_Data = Some [''applicant'' \<mapsto> VStr ''Ann''], tk_ClaimedBy = [], tk_ClaimedAt = None\<rparr>"

lemma form_env_ok: "artifact_env_ok form_files (form_env hidden)"
  by (auto simp: artifact_env_ok_def form_env_def serves_def form_source_def run_start split: option.splits if_splits)

definition form_set :: aset where
  "form_set = projr (the (LoadSet (Some (form_source [''manifest_v2.json''])) form_um []))"

definition form_shown :: aset where
  "form_shown = snd (the (zone_Assemble (form_env [''manifest_v2.json'']) form_codec form_assembler form_task form_claims form_set))"

definition form_later :: aset where
  "form_later = snd (the (set_Registry (form_source []) form_um (waiting 0) 2 form_shown))"

lemma form_set_loads: "case LoadSet (Some (form_source [''manifest_v2.json''])) form_um [] of Some (Inr s) \<Rightarrow> True | _ \<Rightarrow> False"
  by code_simp

lemma form_set: "LoadSet (Some (form_source [''manifest_v2.json''])) form_um [] = Some (Inr form_set)"
  using form_set_loads by (auto simp: form_set_def split: option.splits sum.splits)

lemma form_view_shown:
  "case zone_Assemble (form_env [''manifest_v2.json'']) form_codec form_assembler form_task form_claims form_set of
     Some (Inr zv, s) \<Rightarrow> zv = zone_view form_task ''form about '' | _ \<Rightarrow> False"
  by code_simp

lemma form_view:
  "zone_Assemble (form_env [''manifest_v2.json'']) form_codec form_assembler form_task form_claims form_set = Some (Inr (zone_view form_task ''form about ''), form_shown)"
  using form_view_shown by (auto simp: form_shown_def split: option.splits sum.splits prod.splits)

lemma form_later_loads: "case set_Registry (form_source []) form_um (waiting 0) 2 form_shown of Some (Inr reg, s) \<Rightarrow> True | _ \<Rightarrow> False"
  by code_simp

lemma form_run: "set_run form_files form_um form_shown form_later"
proof -
  obtain r t where "set_Registry (form_source []) form_um (waiting 0) 2 form_shown = Some (r, t)"
    using form_later_loads by (auto split: option.splits)
  then show ?thesis using run_Registry[OF run_start] by (auto simp: form_later_def)
qed


end
