(* ===== verification/Spec2Isabelle.thy ===== *)
theory Spec2Isabelle
  imports Engine_Samples Refid_Samples Task_Samples Payment_Samples Artifact_Samples Storage_Samples Json_Pointer
    Authn_Samples Remote_Samples Zone_Samples
begin

text \<open>
  OpenNSW core: a verification library for the Go module under \<open>src/\<close>.

  \<^bold>\<open>The program.\<close> A host application runs business processes (``cases'') as workflows. Package \<open>workflow\<close>
  interprets a JSON graph as a Temporal workflow: it runs nodes, starts a task Activity for every TASK node, waits
  for its completion, splits work over child workflows and parks failed nodes for an admin. Package \<open>taskflow\<close>
  implements a TASK node of a parent workflow as a task with a database row and a workflow of its own, whose steps
  are completed by people and external systems. Package \<open>refid\<close> issues reference numbers from configured formats and
  counters. Package \<open>payment\<close> opens checkouts with payment gateways and settles them by webhook, and package \<open>artifact\<close> resolves the
  versioned templates a task is built from. Package \<open>storage\<close> keeps uploaded and generated files. Packages \<open>authn\<close> and \<open>authz\<close> admit the requests of the
  HTTP API, and package \<open>remote\<close> makes the calls to other services. \<open>shared/maputil\<close> and \<open>shared/deepcopy\<close> are the map helpers all of them use. The interpreter calls
  \<open>StartTask\<close> and \<open>StartTaskStep\<close> as its task Activity, \<open>CompleteTaskStep\<close> calls the interpreter's CompleteActivation update,
  the interpreter reports parks to \<open>HoldTask\<close> and the end of a workflow to \<open>HandleTaskCompletion\<close>. A settled payment completes the task step its
  callback token names.

  \<^bold>\<open>Shared theories.\<close> \<open>Prelude\<close>: strings, decimal numbers, association lists and the fact collections
  \<open>event_defs\<close> and \<open>prim_defs\<close>. \<open>Json_Value\<close>: Go's dynamic values, \<open>deepcopy\<close>. \<open>Maputil\<close>: \<open>GetNestedKey\<close>, \<open>SetNestedKey\<close>,
  \<open>mergeMaps\<close>; the locale \<open>path_store\<close> states the laws of a store addressed by paths and is interpreted on them.

  \<^bold>\<open>Package workflow.\<close>
  \<^item> \<open>Workflow_Dsl\<close>: \<open>dsl.go\<close>, \<open>park_category.go\<close>, the records of \<open>manager.go\<close>, the mapping keys of \<open>utils.go\<close>.
    \<open>Child_Id\<close>: \<open>FormatChildWorkflowID\<close> with SHA-256 on 32-bit words. \<open>Go_Time\<close>: \<open>time.ParseDuration\<close> with its 64-bit overflow checks.
  \<^item> \<open>Reachability\<close>, \<open>Gateway_Validate\<close>, \<open>Sub_Graph\<close>: the searches of \<open>batch_validate.go\<close> and \<open>batch_gateway.go\<close> (locale
    \<open>graph_search\<close>, interpreted for the breadth-first and the depth-first walk), both validators and \<open>extractSubGraph\<close>. An
    accepted batch or parallel region is closed between split and join; a branch's definition is exactly the part of the graph before the join.
  \<^item> \<open>Batch_Items\<close>, \<open>Parallel_Merge\<close>: the data of \<open>batch_gateway.go\<close> and \<open>parallel_gateway.go\<close>. Items are partitioned and merged
    without loss, the merges equal their specifications and do not depend on Go's map order.
  \<^item> \<open>Engine_State\<close>, \<open>Engine_Nodes\<close>, \<open>Engine_Split\<close>, \<open>Engine_Run\<close>: the interpreter (\<open>workflow.go\<close>, \<open>completion.go\<close>,
    \<open>signaling.go\<close>, \<open>dynamic_split.go\<close>, \<open>admin_recovery.go\<close>, \<open>evaluator.go\<close> and the handlers of both gateways). The record
    \<open>istate\<close> is \<open>graphInterpreter\<close>; its inbox is the list of outside events (results, updates, signals, cancellation) and its
    log the list of commands. Every handler is a function on states; a blocking call consumes events and ends
    in \<open>Waiting\<close> when none is left.
  \<^item> \<open>Engine_Frame\<close>: the locale \<open>state_frame\<close>, whose assumptions are about single updates and whose theorem is about whole runs;
    \<open>Engine_Invariants\<close> interprets it four times. \<open>Engine_Props\<close>, \<open>Engine_Node_Props\<close>, \<open>Engine_Total\<close>: unique activations, completions
    accepted at most once, failures that park, termination, and properties of single nodes.

  \<^bold>\<open>Package refid.\<close> \<open>Refid_Date\<close> (\<open>datefmt.go\<close>), \<open>Refid_Store\<close> (\<open>sequence.go\<close>, \<open>random.go\<close>, both SQL stores; the locale
  \<open>id_stores\<close> is the contract of the store interfaces, interpreted on the SQL stores), \<open>Refid_Registry\<close> (\<open>config.go\<close>,
  \<open>segments.go\<close>, \<open>registry.go\<close>), \<open>Refid_Props\<close>: IDs are issued once, a failing \<open>Generate\<close> leaves no trace, widths, scope keys, errors.

  \<^bold>\<open>Package taskflow.\<close> \<open>Task_Store\<close> (\<open>store/db.go\<close>, \<open>store/gorm\<close>): the task tables, every statement an atomic guarded update
  that may fail. \<open>Task_Rows\<close>: the relation \<open>task_step\<close> of all statements that may interleave on a row, its invariant, and the refinement of
  \<open>TaskFilter.Matches\<close> by the SQL of \<open>GetTasks\<close>. \<open>Task_Env\<close>, \<open>Task_Manager\<close> (\<open>orchestrator\<close>, \<open>plugins/errors.go\<close>): every method of
  the task manager as a function on the world, in which other calls may change the database before each of its statements
  (\<open>tw_others\<close>) and every call to the outside is logged. \<open>Task_Props\<close>, \<open>Callback_Token\<close>: effects of submissions, required
  extensions, late starts, claims, callback tokens.

  \<^bold>\<open>Package payment.\<close> \<open>Payment_Store\<close> (\<open>models.go\<close>, \<open>payee.go\<close>, \<open>registry.go\<close>, \<open>repository.go\<close>): payees, the registry of gateways and the
  transaction table. \<open>Payment_Service\<close> (\<open>service.go\<close>, \<open>handler.go\<close>): checkout, validation and webhooks on a world like that of the task
  manager. \<open>Payment_Props\<close>: settlements are final and made once, only on a verified notification with the recorded amount; details are shown to the owning
  gateway only; what a checkout leaves behind, and that its second write stores the whole row again.

  \<^bold>\<open>Package artifact.\<close> \<open>Artifact_Registry\<close> (\<open>manifest.go\<close>, \<open>registry.go\<close>, \<open>version.go\<close>), \<open>Artifact_Cache\<close> (\<open>cache.go\<close>): the LRU file cache, its
  list and map kept apart, shared by interleaved callers. \<open>Artifact_Set\<close> (\<open>set.go\<close>): the manifest set; \<open>fetchManifests\<close> is a partial function, shown to return
  when it is bounded or some manifest cannot be read. \<open>Artifact_Props\<close>: the locale \<open>file_source\<close> is what a registry relies on in its loader,
  interpreted on the cached loader of a set; a set never changes what it has loaded, explicit versions keep their file, pins and back-off.

  \<^bold>\<open>Package storage.\<close> \<open>Storage_Keys\<close>: storage keys and the tokens of the local driver. \<open>Storage_Local\<close> (\<open>drivers/local.go\<close>): the driver over a file system whose
  operations may fail half way, with its sidecar files. \<open>Storage_Service\<close> (\<open>service.go\<close>, \<open>inline.go\<close>, \<open>extensions.go\<close>, both HTTP handlers): policies and operations over any
  driver. \<open>Storage_Props\<close>: the locale \<open>storage_driver\<close> is the contract of a driver, interpreted on the local one; saved files come back unchanged, tokens bind
  their constraints, uploads open in a browser only as inert types.

  \<^bold>\<open>Views.\<close> \<open>Ui_Projector\<close> (package \<open>uiprojector\<close>): blueprints, visibility rules, projectors, the assembler. \<open>Artifact_Adapters\<close> (\<open>artifact/adapter\<close>,
  \<open>taskflow/renderconfig\<close>): the parsers of artifact types and the render config of a task over a manifest set that other requests use too; \<open>manager_over\<close> fills in the artifact
  parameters of the task manager and \<open>loaded_config_refines\<close> shows that the lookups implement them. \<open>Zone_View\<close> (\<open>taskflow/renderer/zoneview\<close>): layouts, handles, the view of a
  task. \<open>Zone_Props\<close>: a view has exactly the visible sections in their order, hidden sections have no influence on it, and it does not change under an open task.

  \<^bold>\<open>Packages authn and authz.\<close> \<open>Authn_Claims\<close> (\<open>fixed_schema.go\<close>, \<open>extra_claims.go\<close>, the claim specs of \<open>options.go\<close>): which claims may be declared and
  how they are read from a payload. \<open>Authn_Token\<close> (\<open>token_parser.go\<close>, \<open>utils.go\<close>, \<open>config.go\<close>): configuration, the key set cache with its two locks, the key function,
  principals. \<open>Authn_Middleware\<close> (\<open>context.go\<close>, \<open>middleware.go\<close>, \<open>manager.go\<close>), \<open>Authz\<close>: handlers are functions from a request and the state of the service to a
  response; the locale \<open>principal_source\<close> is what an authorizer relies on in its extractor, interpreted on the request context. Other requests may change the
  cache wherever its lock is not held; \<open>others_ok\<close> is what is relied on of them, and \<open>getJWKS\<close> itself is shown to keep it. The JWT library is a parameter with the
  hypothesis \<open>jwt_library\<close>: what it returns verifies under the key its key function gave. \<open>Authn_Props\<close>, \<open>Authn_Config_Props\<close>: what reaches a handler behind a
  scope gate, where keys come from, what a principal carries, configurations.

  \<^bold>\<open>Package remote.\<close> \<open>Remote_Auth\<close> (\<open>auth/\<close>): the authenticators, the OAuth2 token with its refresh and the encodings of its request. \<open>Remote_Client\<close>
  (\<open>client.go\<close>, \<open>multipart.go\<close>, \<open>body.go\<close>, \<open>options.go\<close>, \<open>manager.go\<close>): requests, retries on a log of attempts and pauses, and the registry of
  services. The network is a function of the request and the number of exchanges so far. \<open>Remote_Props\<close>: tokens are cached or fetched, attempts and pauses are bounded, calls
  stay on their service, headers of parts cannot be forged.

  \<^bold>\<open>Text.\<close> \<open>Go_Text\<close> (\<open>TrimSpace\<close>, \<open>Fields\<close>, \<open>ToLower\<close>, \<open>EqualFold\<close> on ASCII) and \<open>Base64url\<close> are shared by \<open>payment\<close>,
  \<open>taskflow\<close>, \<open>authn\<close> and \<open>remote\<close>.

  \<^bold>\<open>Package json/jsonpointer.\<close> \<open>Json_Pointer\<close>: pointers are in one-to-one correspondence with lists of segments, and documents addressed by them are another
  interpretation of \<open>path_store\<close>.

  \<^bold>\<open>Witnesses.\<close> \<open>Samples\<close>, \<open>Item_Samples\<close>, \<open>Engine_Samples\<close>, \<open>Refid_Samples\<close>, \<open>Task_Samples\<close>, \<open>Payment_Samples\<close>, \<open>Artifact_Samples\<close>, \<open>Storage_Samples\<close>, \<open>Authn_Samples\<close>, \<open>Remote_Samples\<close>, \<open>Zone_Samples\<close> hold concrete inputs on which
  the properties are applied.

  \<^bold>\<open>Bounds.\<close> \<open>executeNode\<close> recurses along edges and a graph may loop, so it takes a fuel; invariants hold for every fuel, and
  \<open>workflow_terminates\<close> shows that the rank of the START node is enough on definitions without loops. The inner loops over
  children and parks take the number of remaining events as fuel, which is never exhausted since every round
  consumes one. The claim loops of the task manager have the three attempts of the code.

  \<^bold>\<open>Parameters.\<close> The condition language, UUIDs, JSON encodings, regular expressions, the time zone database, the random source,
  plugins, extensions, payment gateways, the source of artifact files, templates and \<open>text/template\<close>, media type parsing, the MAC of tokens, the JWT library, URL parsing, the network and the Temporal service are arguments of the definitions, with what is relied on as named
  hypotheses.

  \<^bold>\<open>Not modelled.\<close> Log lines, telemetry, contexts and deadlines (no effect on the results), time stamps of rows, the texts of most error
  messages, DDL. The packages that are clients of services (\<open>notification\<close>, the S3 driver of \<open>storage\<close>, \<open>temporal\<close>,
  \<open>database\<close>, \<open>telemetry\<close>), text generation and HTTP glue are listed in the manifest with the reason.
\<close>

end
